(* ===== verification/Prelude.thy ===== *)
theory Prelude
  imports Main "HOL-Library.Word" "HOL-Library.List_Lexorder" "HOL-Library.Char_ord"
    "HOL-Library.AList" "HOL-Library.Sublist"
begin

text \<open>
  Shared vocabulary of the development: machine integers, the operations of Rust's standard
  library on \<open>str\<close> that the program uses, hash maps as association lists, saturating
  arithmetic, and the lemmas about them that the component theories share.

  A Rust \<open>str\<close> is its UTF-8 byte sequence, one HOL \<open>char\<close> per byte: \<open>len\<close> is
  \<open>length\<close>, \<open><\<close> is the byte-wise lexicographic order, and \<open>chars\<close> groups a leading
  byte with its continuation bytes.  A hash map is an association list whose order stands for
  the table's unspecified iteration order.
\<close>

unbundle bit_operations_syntax

named_theorems model_defs \<open>definitions that component proofs unfold together\<close>
named_theorems frame_simps \<open>what an operation leaves unchanged\<close>

type_synonym str = string
type_synonym u8 = "8 word"
type_synonym u32 = "32 word"
type_synonym u64 = "64 word"
type_synonym bytes = string   \<comment> \<open>one \<open>char\<close> per byte\<close>

section \<open>Characters of a UTF-8 string\<close>

abbreviation byte :: "char \<Rightarrow> nat" where
  "byte c \<equiv> of_char c"

definition is_cont :: "char \<Rightarrow> bool" where
  "is_cont c \<longleftrightarrow> 128 \<le> byte c \<and> byte c < 192"

function chars :: "str \<Rightarrow> str list" where
  "chars [] = []"
| "chars (c # cs) = (c # takeWhile is_cont cs) # chars (dropWhile is_cont cs)"
  by pat_completeness auto
termination
  by (relation "measure length") (auto simp: le_imp_less_Suc length_dropWhile_le)

lemma concat_chars [simp]: "concat (chars s) = s"
  by (induction s rule: chars.induct) auto

definition chars_count :: "str \<Rightarrow> nat" where
  "chars_count s = length (chars s)"

definition chars_take :: "nat \<Rightarrow> str \<Rightarrow> str" where
  "chars_take n s = concat (take n (chars s))"

lemma takeWhile_append_stop:
  assumes "rest = [] \<or> \<not> P (hd rest)"
  shows "takeWhile P (takeWhile P xs @ rest) = takeWhile P xs" "dropWhile P (takeWhile P xs @ rest) = rest"
proof -
  have all: "\<And>x. x \<in> set (takeWhile P xs) \<Longrightarrow> P x" by (rule set_takeWhileD [THEN conjunct2])
  have "takeWhile P rest = []" "dropWhile P rest = rest" using assms by (cases rest; simp)+
  with all show "takeWhile P (takeWhile P xs @ rest) = takeWhile P xs" "dropWhile P (takeWhile P xs @ rest) = rest"
    by (simp_all add: takeWhile_append2 dropWhile_append2)
qed

lemma hd_chars_take: "concat (take n (chars s)) = [] \<or> hd (concat (take n (chars s))) = hd s"
proof (cases s)
  case (Cons c cs)
  then show ?thesis by (cases n) (simp_all only: chars.simps take_0 take_Suc_Cons concat.simps append_Cons list.sel simp_thms)
qed simp

lemma chars_take_chars: "chars (chars_take n s) = take n (chars s)"
proof (induction s arbitrary: n rule: chars.induct)
  case (2 c cs)
  show ?case
  proof (cases n)
    case (Suc k)
    let ?rest = "concat (take k (chars (dropWhile is_cont cs)))"
    have "?rest = [] \<or> \<not> is_cont (hd ?rest)"
    proof (cases "dropWhile is_cont cs")
      case Nil
      show ?thesis unfolding Nil by simp
    next
      case (Cons d ds)
      then have "\<not> is_cont (hd (dropWhile is_cont cs))" using hd_dropWhile [of is_cont cs] by simp
      with hd_chars_take [of k "dropWhile is_cont cs"] show ?thesis by metis
    qed
    with 2 [of k] show ?thesis
      by (simp add: Suc chars_take_def takeWhile_append_stop)
  qed (simp add: chars_take_def)
qed (simp add: chars_take_def)

lemma chars_take_count [simp]: "chars_count (chars_take n s) \<le> n"
  by (simp add: chars_count_def chars_take_chars)

text \<open>The Unicode \<open>White_Space\<close> and \<open>Cc\<close> characters, as UTF-8.\<close>

definition is_ws :: "str \<Rightarrow> bool" where
  "is_ws ch \<longleftrightarrow>
     (case map byte ch of
        [b] \<Rightarrow> (9 \<le> b \<and> b \<le> 13) \<or> b = 32
      | [a, b] \<Rightarrow> a = 0xC2 \<and> (b = 0x85 \<or> b = 0xA0)
      | [a, b, c] \<Rightarrow>
          (a = 0xE1 \<and> b = 0x9A \<and> c = 0x80)
          \<or> (a = 0xE2 \<and> b = 0x80 \<and> ((0x80 \<le> c \<and> c \<le> 0x8A) \<or> c = 0xA8 \<or> c = 0xA9 \<or> c = 0xAF))
          \<or> (a = 0xE2 \<and> b = 0x81 \<and> c = 0x9F)
          \<or> (a = 0xE3 \<and> b = 0x80 \<and> c = 0x80)
      | _ \<Rightarrow> False)"

definition is_control :: "str \<Rightarrow> bool" where
  "is_control ch \<longleftrightarrow>
     (case map byte ch of
        [b] \<Rightarrow> b < 32 \<or> b = 127
      | [a, b] \<Rightarrow> a = 0xC2 \<and> 0x80 \<le> b \<and> b \<le> 0x9F
      | _ \<Rightarrow> False)"

definition trim_start :: "str \<Rightarrow> str" where
  "trim_start s = concat (dropWhile is_ws (chars s))"

definition trim_end :: "str \<Rightarrow> str" where
  "trim_end s = concat (rev (dropWhile is_ws (rev (chars s))))"

definition trim :: "str \<Rightarrow> str" where
  "trim s = trim_end (trim_start s)"

section \<open>ASCII classes\<close>

definition is_digit_c :: "char \<Rightarrow> bool" where
  "is_digit_c c \<longleftrightarrow> 48 \<le> byte c \<and> byte c \<le> 57"

definition is_upper_c :: "char \<Rightarrow> bool" where
  "is_upper_c c \<longleftrightarrow> 65 \<le> byte c \<and> byte c \<le> 90"

definition is_lower_c :: "char \<Rightarrow> bool" where
  "is_lower_c c \<longleftrightarrow> 97 \<le> byte c \<and> byte c \<le> 122"

definition is_alnum_c :: "char \<Rightarrow> bool" where
  "is_alnum_c c \<longleftrightarrow> is_digit_c c \<or> is_upper_c c \<or> is_lower_c c"

definition is_hex_c :: "char \<Rightarrow> bool" where
  "is_hex_c c \<longleftrightarrow> is_digit_c c \<or> (97 \<le> byte c \<and> byte c \<le> 102) \<or> (65 \<le> byte c \<and> byte c \<le> 70)"

definition lower_c :: "char \<Rightarrow> char" where
  "lower_c c = (if is_upper_c c then char_of (byte c + 32) else c)"

definition upper_c :: "char \<Rightarrow> char" where
  "upper_c c = (if is_lower_c c then char_of (byte c - 32) else c)"

definition ascii_lower :: "str \<Rightarrow> str" where
  "ascii_lower = map lower_c"

definition eq_nocase :: "str \<Rightarrow> str \<Rightarrow> bool" where
  "eq_nocase a b \<longleftrightarrow> ascii_lower a = ascii_lower b"

lemma length_ascii_lower [simp]: "length (ascii_lower s) = length s"
  by (simp add: ascii_lower_def)

section \<open>Splitting, searching, joining\<close>

fun split_on :: "char \<Rightarrow> str \<Rightarrow> str list" where
  "split_on d [] = [[]]"
| "split_on d (c # cs) =
     (if c = d then [] # split_on d cs
      else (case split_on d cs of [] \<Rightarrow> [[c]] | w # ws \<Rightarrow> (c # w) # ws))"

lemma split_on_ne [simp]: "split_on d s \<noteq> []"
  by (induction s) (auto split: list.splits)

fun split_once :: "str \<Rightarrow> str \<Rightarrow> (str \<times> str) option" where
  "split_once pat [] = (if pat = [] then Some ([], []) else None)"
| "split_once pat (c # cs) =
     (if prefix pat (c # cs) then Some ([], drop (length pat) (c # cs))
      else map_option (apfst (Cons c)) (split_once pat cs))"

lemma split_once_append: "split_once pat s = Some (a, b) \<Longrightarrow> s = a @ pat @ b"
proof (induction pat s arbitrary: a b rule: split_once.induct)
  case (1 pat)
  then show ?case by (auto split: if_splits)
next
  case (2 pat c cs)
  show ?case
  proof (cases "prefix pat (c # cs)")
    case True
    with "2.prems" show ?thesis by (auto simp: prefix_def)
  next
    case False
    with "2.prems" obtain a' where "split_once pat cs = Some (a', b)" "a = c # a'"
      by auto
    with "2.IH" False show ?thesis by auto
  qed
qed

definition contains :: "str \<Rightarrow> str \<Rightarrow> bool" where
  "contains pat s \<longleftrightarrow> split_once pat s \<noteq> None"

definition strip_prefix :: "str \<Rightarrow> str \<Rightarrow> str option" where
  "strip_prefix p s = (if prefix p s then Some (drop (length p) s) else None)"

lemma strip_prefix_Some: "strip_prefix p s = Some r \<longleftrightarrow> s = p @ r"
  by (auto simp: strip_prefix_def prefix_def)

fun join :: "str \<Rightarrow> str list \<Rightarrow> str" where
  "join sep [] = []"
| "join sep [w] = w"
| "join sep (w # ws) = w @ sep @ join sep ws"

definition replace_c :: "char \<Rightarrow> str \<Rightarrow> str \<Rightarrow> str" where
  "replace_c c r s = concat (map (\<lambda>x. if x = c then r else [x]) s)"

text \<open>Decimal rendering of an unsigned integer (\<open>Display\<close>).\<close>

definition digit_c :: "nat \<Rightarrow> char" where
  "digit_c d = char_of (48 + d mod 10)"

fun show_nat :: "nat \<Rightarrow> str" where
  "show_nat n = (if n < 10 then [digit_c n] else show_nat (n div 10) @ [digit_c n])"

declare show_nat.simps [simp del]

section \<open>Saturating and wrapping unsigned arithmetic\<close>

definition U64_MAX :: nat where "U64_MAX = 2 ^ 64 - 1"
definition U32_MAX :: nat where "U32_MAX = 2 ^ 32 - 1"

text \<open>\<open>saturating_sub\<close> is HOL's subtraction on \<open>nat\<close>; \<open>saturating_add\<close> stops at the maximum.\<close>

definition sat_add64 :: "nat \<Rightarrow> nat \<Rightarrow> nat" where
  "sat_add64 a b = min U64_MAX (a + b)"

definition sat_inc32 :: "u32 \<Rightarrow> u32" where
  "sat_inc32 a = (if a = - 1 then a else a + 1)"

definition sat_add32 :: "u32 \<Rightarrow> u32 \<Rightarrow> u32" where
  "sat_add32 a b = (if unat a + unat b < 2 ^ 32 then a + b else - 1)"

lemma unat_max32: "unat (- 1 :: u32) = 2 ^ 32 - 1"
  by (simp add: unsigned_minus_1_eq_mask mask_eq_exp_minus_1)

lemma unat_lt32: "unat (a :: u32) < 2 ^ 32"
  using unsigned_less [of a] by simp

lemma unat_sat_add32: "unat (sat_add32 a b) = min (2 ^ 32 - 1) (unat a + unat b)"
proof (cases "unat a + unat b < 2 ^ 32")
  case True
  then have "unat (a + b) = unat a + unat b"
    by (subst unat_add_lem [THEN iffD1]) auto
  with True show ?thesis by (simp add: sat_add32_def)
next
  case False
  then show ?thesis by (simp add: sat_add32_def unat_max32)
qed

lemma sat_inc32_add: "sat_inc32 a = sat_add32 a 1"
proof -
  have "unat a + 1 < 2 ^ 32 \<longleftrightarrow> a \<noteq> - 1"
    using unat_lt32 [of a] unat_max32 word_unat_eq_iff [of a "- 1"] by auto
  then show ?thesis by (auto simp: sat_inc32_def sat_add32_def)
qed

lemma unat_sat_inc32: "unat (sat_inc32 a) = min (2 ^ 32 - 1) (unat a + 1)"
  by (simp add: sat_inc32_add unat_sat_add32)

lemma sat_inc32_ge: "a \<le> sat_inc32 a"
  using unat_lt32 [of a] by (simp add: word_le_nat_alt unat_sat_inc32)

section \<open>Constant-time comparison\<close>

fun ct_diff :: "char list \<Rightarrow> char list \<Rightarrow> u8 \<Rightarrow> u8" where
  "ct_diff (x # xs) (y # ys) d =
     ct_diff xs ys (d OR (of_nat (byte x) XOR of_nat (byte y)))"
| "ct_diff _ _ d = d"

lemma or_eq_0: "(a :: 'a :: len word) OR b = 0 \<longleftrightarrow> a = 0 \<and> b = 0"
  by (metis or.right_neutral word_bw_lcs(2) word_bw_same(2) or.commute)

lemma xor_eq_0: "(a :: 'a :: len word) XOR b = 0 \<longleftrightarrow> a = b"
  by (metis bit.xor_cancel_right xor.assoc xor_self_eq xor.left_neutral)

lemma byte_word_inj: "(of_nat (byte x) :: u8) = of_nat (byte y) \<longleftrightarrow> x = y"
proof
  assume "(of_nat (byte x) :: u8) = of_nat (byte y)"
  then have "unat (of_nat (byte x) :: u8) = unat (of_nat (byte y) :: u8)" by simp
  then have "byte x mod 256 = byte y mod 256" by (simp add: unat_of_nat)
  then show "x = y" by simp
qed simp

lemma ct_diff_0:
  "length a = length b \<Longrightarrow> ct_diff a b d = 0 \<longleftrightarrow> d = 0 \<and> a = b"
proof (induction a b d rule: ct_diff.induct)
  case (1 x xs y ys d)
  then show ?case by (auto simp: or_eq_0 xor_eq_0 byte_word_inj)
qed auto

section \<open>Hash maps as association lists\<close>

lemmas hmap_simps [simp] = update_conv' delete_conv'

lemma dom_hmap: "dom (map_of m) = fst ` set m"
  by (rule dom_map_of_conv_image_fst)

lemma map_of_None_iff: "map_of m k = None \<longleftrightarrow> k \<notin> fst ` set m"
  by (rule map_of_eq_None_iff)

lemma distinct_keys_update [simp]:
  "distinct (map fst m) \<Longrightarrow> distinct (map fst (AList.update k v m))"
  by (rule distinct_update)

lemma distinct_keys_delete [simp]:
  "distinct (map fst m) \<Longrightarrow> distinct (map fst (AList.delete k m))"
  by (rule distinct_delete)

lemma length_update_mem:
  "k \<in> fst ` set m \<Longrightarrow> length (AList.update k v m) = length m"
  by (induction m) auto

lemma length_update_new:
  "k \<notin> fst ` set m \<Longrightarrow> length (AList.update k v m) = Suc (length m)"
  by (induction m) auto

lemma length_delete_le: "length (AList.delete k m) \<le> length m"
  by (induction m) auto

lemma delete_mem_length:
  "k \<in> fst ` set m \<Longrightarrow> length (AList.delete k m) < length m"
  by (induction m) (auto simp: le_imp_less_Suc length_delete_le)

lemma keys_delete [simp]: "fst ` set (AList.delete k m) = fst ` set m - {k}"
  by (rule delete_keys [of k m, THEN arg_cong [of _ _ set], simplified, folded image_set]) 

end
