(* ===== verification/Protocol.thy ===== *)
theory Protocol
  imports Prelude
begin

text \<open>
  The wire format of \<open>crates/protocol/src/lib.rs\<close>: the three message families and their
  JSON encoding as the \<open>serde\<close> attributes declare it (internally tagged by \<open>t\<close>,
  kebab-case variant names, newtype payloads inlined next to the tag, unknown keys ignored,
  missing or repeated known keys refused, \<open>Option\<close> fields optional).

  A frame is the member list of one JSON object; parsing text into members is
  \<open>serde_json\<close>'s part and is not modelled.  (\<open>serde\<close> also reads a frame written as a JSON
  array, which no peer of this program writes; that form is left out.)
\<close>

section \<open>JSON values\<close>

datatype json =
    JNull
  | JBool bool
  | JInt int          \<comment> \<open>an integer literal\<close>
  | JFloat str        \<comment> \<open>any other number, by its text\<close>
  | JStr str
  | JArr "json list"
  | JObj "(str \<times> json) list"

type_synonym members = "(str \<times> json) list"

definition jget :: "str \<Rightarrow> json \<Rightarrow> json option" where
  "jget k v = (case v of JObj ms \<Rightarrow> map_of (rev ms) k | _ \<Rightarrow> None)"

definition as_str :: "json \<Rightarrow> str option" where
  "as_str v = (case v of JStr s \<Rightarrow> Some s | _ \<Rightarrow> None)"

definition as_bool :: "json \<Rightarrow> bool option" where
  "as_bool v = (case v of JBool b \<Rightarrow> Some b | _ \<Rightarrow> None)"

definition as_i64 :: "json \<Rightarrow> int option" where
  "as_i64 v = (case v of JInt i \<Rightarrow> if - (2 ^ 63) \<le> i \<and> i < 2 ^ 63 then Some i else None | _ \<Rightarrow> None)"

definition as_u64 :: "json \<Rightarrow> nat option" where
  "as_u64 v = (case v of JInt i \<Rightarrow> if 0 \<le> i \<and> i < 2 ^ 64 then Some (nat i) else None | _ \<Rightarrow> None)"

section \<open>Message types\<close>

definition PROTOCOL_VERSION :: u32 where "PROTOCOL_VERSION = 2"
definition ERR_PROTOCOL_MISMATCH :: str where "ERR_PROTOCOL_MISMATCH = ''protocol-mismatch''"
definition ERR_ID_IN_USE :: str where "ERR_ID_IN_USE = ''id-in-use''"

record peer_info =
  pi_user_id :: str
  pi_name :: str

record chat_msg =
  cm_text :: str
  cm_ts :: u64

datatype ctrl_msg =
    CChat chat_msg
  | CChannel str
  | CChannels "str list"
  | CChannelRemoved str
  | CKemHello str str
  | CKemReply str str
  | CEnc str
  | CRoomKey u32 str
  | CRoomGen u32

record turn_creds =
  tc_urls :: "str list"
  tc_username :: str
  tc_credential :: str
  tc_ttl :: u32

datatype client_msg =
    Join u32 str str str "str option" str   \<comment> \<open>proto, room, user id, name, token, secret\<close>
  | Offer str str
  | Answer str str
  | Ice str str
  | Ptt bool
  | Rekey
  | Leave

datatype server_msg =
    SRoster "peer_info list"
  | STurn turn_creds
  | SPeerJoined str str
  | SPeerLeft str
  | SOffer str str
  | SAnswer str str
  | SIce str str
  | SPtt str bool
  | SRekey str
  | SRoomFull nat
  | SWarn nat nat
  | SError str str

section \<open>Field decoders\<close>

text \<open>A known key must occur exactly once; an optional one at most once, \<open>null\<close> meaning none.\<close>

definition fld :: "str \<Rightarrow> members \<Rightarrow> json option" where
  "fld k ms = (case filter (\<lambda>(k', _). k' = k) ms of [(_, v)] \<Rightarrow> Some v | _ \<Rightarrow> None)"

definition fld_str :: "str \<Rightarrow> members \<Rightarrow> str option" where
  "fld_str k ms = Option.bind (fld k ms) as_str"

definition fld_bool :: "str \<Rightarrow> members \<Rightarrow> bool option" where
  "fld_bool k ms = Option.bind (fld k ms) as_bool"

definition fld_nat :: "nat \<Rightarrow> str \<Rightarrow> members \<Rightarrow> nat option" where
  "fld_nat w k ms = (case fld k ms of
     Some (JInt i) \<Rightarrow> if 0 \<le> i \<and> i < 2 ^ w then Some (nat i) else None | _ \<Rightarrow> None)"

definition fld_u32 :: "str \<Rightarrow> members \<Rightarrow> u32 option" where
  "fld_u32 k ms = map_option of_nat (fld_nat 32 k ms)"

definition fld_u64 :: "str \<Rightarrow> members \<Rightarrow> u64 option" where
  "fld_u64 k ms = map_option of_nat (fld_nat 64 k ms)"

definition fld_opt_str :: "str \<Rightarrow> members \<Rightarrow> str option option" where
  "fld_opt_str k ms = (case filter (\<lambda>(k', _). k' = k) ms of
     [] \<Rightarrow> Some None
   | [(_, JNull)] \<Rightarrow> Some None
   | [(_, JStr s)] \<Rightarrow> Some (Some s)
   | _ \<Rightarrow> None)"

fun all_some :: "'a option list \<Rightarrow> 'a list option" where
  "all_some [] = Some []"
| "all_some (None # xs) = None"
| "all_some (Some x # xs) = map_option (Cons x) (all_some xs)"

definition strs_of :: "json \<Rightarrow> str list option" where
  "strs_of v = (case v of JArr vs \<Rightarrow> all_some (map as_str vs) | _ \<Rightarrow> None)"

definition fld_strs :: "str \<Rightarrow> members \<Rightarrow> str list option" where
  "fld_strs k ms = Option.bind (fld k ms) strs_of"

definition jword :: "'a::len word \<Rightarrow> json" where
  "jword w = JInt (uint w)"

section \<open>Encoding and decoding\<close>

definition peer_info_to_json :: "peer_info \<Rightarrow> json" where
  "peer_info_to_json p = JObj [(''user_id'', JStr (pi_user_id p)), (''name'', JStr (pi_name p))]"

definition peer_info_of_json :: "json \<Rightarrow> peer_info option" where
  "peer_info_of_json v = (case v of
     JObj ms \<Rightarrow> Option.bind (fld_str ''user_id'' ms) (\<lambda>u.
       map_option (\<lambda>n. \<lparr>pi_user_id = u, pi_name = n\<rparr>) (fld_str ''name'' ms))
   | _ \<Rightarrow> None)"

fun ctrl_to_members :: "ctrl_msg \<Rightarrow> members" where
  "ctrl_to_members (CChat c) = [(''t'', JStr ''chat''), (''text'', JStr (cm_text c)), (''ts'', jword (cm_ts c))]"
| "ctrl_to_members (CChannel n) = [(''t'', JStr ''channel''), (''name'', JStr n)]"
| "ctrl_to_members (CChannels ns) = [(''t'', JStr ''channels''), (''names'', JArr (map JStr ns))]"
| "ctrl_to_members (CChannelRemoved n) = [(''t'', JStr ''channel-removed''), (''name'', JStr n)]"
| "ctrl_to_members (CKemHello k x) = [(''t'', JStr ''kem-hello''), (''kem_pk'', JStr k), (''x_pk'', JStr x)]"
| "ctrl_to_members (CKemReply x c) = [(''t'', JStr ''kem-reply''), (''x_pk'', JStr x), (''kem_ct'', JStr c)]"
| "ctrl_to_members (CEnc d) = [(''t'', JStr ''enc''), (''data'', JStr d)]"
| "ctrl_to_members (CRoomKey g k) = [(''t'', JStr ''room-key''), (''gen'', jword g), (''key'', JStr k)]"
| "ctrl_to_members (CRoomGen g) = [(''t'', JStr ''room-gen''), (''gen'', jword g)]"

definition ctrl_of_members :: "members \<Rightarrow> ctrl_msg option" where
  "ctrl_of_members ms = Option.bind (fld_str ''t'' ms) (\<lambda>t.
     if t = ''chat'' then Option.bind (fld_str ''text'' ms) (\<lambda>x.
       map_option (\<lambda>n. CChat \<lparr>cm_text = x, cm_ts = n\<rparr>) (fld_u64 ''ts'' ms))
     else if t = ''channel'' then map_option CChannel (fld_str ''name'' ms)
     else if t = ''channels'' then map_option CChannels (fld_strs ''names'' ms)
     else if t = ''channel-removed'' then map_option CChannelRemoved (fld_str ''name'' ms)
     else if t = ''kem-hello'' then Option.bind (fld_str ''kem_pk'' ms) (\<lambda>k.
       map_option (CKemHello k) (fld_str ''x_pk'' ms))
     else if t = ''kem-reply'' then Option.bind (fld_str ''x_pk'' ms) (\<lambda>x.
       map_option (CKemReply x) (fld_str ''kem_ct'' ms))
     else if t = ''enc'' then map_option CEnc (fld_str ''data'' ms)
     else if t = ''room-key'' then Option.bind (fld_u32 ''gen'' ms) (\<lambda>g.
       map_option (CRoomKey g) (fld_str ''key'' ms))
     else if t = ''room-gen'' then map_option CRoomGen (fld_u32 ''gen'' ms)
     else None)"

fun client_to_members :: "client_msg \<Rightarrow> members" where
  "client_to_members (Join p r u n tok s) =
     [(''t'', JStr ''join''), (''proto'', jword p), (''room'', JStr r), (''user_id'', JStr u),
      (''name'', JStr n), (''token'', (case tok of None \<Rightarrow> JNull | Some x \<Rightarrow> JStr x)), (''secret'', JStr s)]"
| "client_to_members (Offer to sdp) = [(''t'', JStr ''offer''), (''to'', JStr to), (''sdp'', JStr sdp)]"
| "client_to_members (Answer to sdp) = [(''t'', JStr ''answer''), (''to'', JStr to), (''sdp'', JStr sdp)]"
| "client_to_members (Ice to c) = [(''t'', JStr ''ice''), (''to'', JStr to), (''candidate'', JStr c)]"
| "client_to_members (Ptt a) = [(''t'', JStr ''ptt''), (''active'', JBool a)]"
| "client_to_members Rekey = [(''t'', JStr ''rekey'')]"
| "client_to_members Leave = [(''t'', JStr ''leave'')]"

definition client_of_members :: "members \<Rightarrow> client_msg option" where
  "client_of_members ms = Option.bind (fld_str ''t'' ms) (\<lambda>t.
     if t = ''join'' then
       Option.bind (fld_u32 ''proto'' ms) (\<lambda>p. Option.bind (fld_str ''room'' ms) (\<lambda>r.
       Option.bind (fld_str ''user_id'' ms) (\<lambda>u. Option.bind (fld_str ''name'' ms) (\<lambda>n.
       Option.bind (fld_opt_str ''token'' ms) (\<lambda>tok.
       map_option (\<lambda>s. Join p r u n tok s) (fld_str ''secret'' ms))))))
     else if t = ''offer'' then Option.bind (fld_str ''to'' ms) (\<lambda>x.
       map_option (Offer x) (fld_str ''sdp'' ms))
     else if t = ''answer'' then Option.bind (fld_str ''to'' ms) (\<lambda>x.
       map_option (Answer x) (fld_str ''sdp'' ms))
     else if t = ''ice'' then Option.bind (fld_str ''to'' ms) (\<lambda>x.
       map_option (Ice x) (fld_str ''candidate'' ms))
     else if t = ''ptt'' then map_option Ptt (fld_bool ''active'' ms)
     else if t = ''rekey'' then Some Rekey
     else if t = ''leave'' then Some Leave
     else None)"

fun server_to_members :: "server_msg \<Rightarrow> members" where
  "server_to_members (SRoster ps) = [(''t'', JStr ''roster''), (''peers'', JArr (map peer_info_to_json ps))]"
| "server_to_members (STurn c) = [(''t'', JStr ''turn''), (''urls'', JArr (map JStr (tc_urls c))),
     (''username'', JStr (tc_username c)), (''credential'', JStr (tc_credential c)), (''ttl'', jword (tc_ttl c))]"
| "server_to_members (SPeerJoined u n) = [(''t'', JStr ''peer-joined''), (''user_id'', JStr u), (''name'', JStr n)]"
| "server_to_members (SPeerLeft u) = [(''t'', JStr ''peer-left''), (''user_id'', JStr u)]"
| "server_to_members (SOffer f s) = [(''t'', JStr ''offer''), (''from'', JStr f), (''sdp'', JStr s)]"
| "server_to_members (SAnswer f s) = [(''t'', JStr ''answer''), (''from'', JStr f), (''sdp'', JStr s)]"
| "server_to_members (SIce f c) = [(''t'', JStr ''ice''), (''from'', JStr f), (''candidate'', JStr c)]"
| "server_to_members (SPtt u a) = [(''t'', JStr ''ptt''), (''user_id'', JStr u), (''active'', JBool a)]"
| "server_to_members (SRekey b) = [(''t'', JStr ''rekey''), (''by'', JStr b)]"
| "server_to_members (SRoomFull c) = [(''t'', JStr ''room-full''), (''cap'', JInt (int c))]"
| "server_to_members (SWarn s c) = [(''t'', JStr ''warn''), (''size'', JInt (int s)), (''cap'', JInt (int c))]"
| "server_to_members (SError c m) = [(''t'', JStr ''error''), (''code'', JStr c), (''message'', JStr m)]"

definition peers_of :: "json \<Rightarrow> peer_info list option" where
  "peers_of v = (case v of JArr vs \<Rightarrow> all_some (map peer_info_of_json vs) | _ \<Rightarrow> None)"

definition server_of_members :: "members \<Rightarrow> server_msg option" where
  "server_of_members ms = Option.bind (fld_str ''t'' ms) (\<lambda>t.
     if t = ''roster'' then map_option SRoster (Option.bind (fld ''peers'' ms) peers_of)
     else if t = ''turn'' then
       Option.bind (fld_strs ''urls'' ms) (\<lambda>us. Option.bind (fld_str ''username'' ms) (\<lambda>u.
       Option.bind (fld_str ''credential'' ms) (\<lambda>c. map_option (\<lambda>n.
         STurn \<lparr>tc_urls = us, tc_username = u, tc_credential = c, tc_ttl = n\<rparr>) (fld_u32 ''ttl'' ms))))
     else if t = ''peer-joined'' then Option.bind (fld_str ''user_id'' ms) (\<lambda>u.
       map_option (SPeerJoined u) (fld_str ''name'' ms))
     else if t = ''peer-left'' then map_option SPeerLeft (fld_str ''user_id'' ms)
     else if t = ''offer'' then Option.bind (fld_str ''from'' ms) (\<lambda>u. map_option (SOffer u) (fld_str ''sdp'' ms))
     else if t = ''answer'' then Option.bind (fld_str ''from'' ms) (\<lambda>u. map_option (SAnswer u) (fld_str ''sdp'' ms))
     else if t = ''ice'' then Option.bind (fld_str ''from'' ms) (\<lambda>u. map_option (SIce u) (fld_str ''candidate'' ms))
     else if t = ''ptt'' then Option.bind (fld_str ''user_id'' ms) (\<lambda>u. map_option (SPtt u) (fld_bool ''active'' ms))
     else if t = ''rekey'' then map_option SRekey (fld_str ''by'' ms)
     else if t = ''room-full'' then map_option SRoomFull (fld_nat 64 ''cap'' ms)
     else if t = ''warn'' then Option.bind (fld_nat 64 ''size'' ms) (\<lambda>s. map_option (SWarn s) (fld_nat 64 ''cap'' ms))
     else if t = ''error'' then Option.bind (fld_str ''code'' ms) (\<lambda>c. map_option (SError c) (fld_str ''message'' ms))
     else None)"

section \<open>Round trips\<close>

lemmas fld_defs = fld_def fld_str_def fld_bool_def fld_nat_def fld_u32_def fld_u64_def
  fld_opt_str_def fld_strs_def strs_of_def as_str_def as_bool_def jword_def

lemma all_some_map [simp]: "all_some (map Some xs) = Some xs"
  by (induction xs) auto

lemma uint_bounds [simp]: "uint (w :: u32) < 4294967296" "uint (v :: u64) < 18446744073709551616"
  using uint_lt2p [of w] uint_lt2p [of v] by auto

lemma word_of_nat_uint [simp]: "(of_nat (nat (uint w)) :: 'a::len word) = w"
  by simp

text \<open>Every control message survives the wire: decoding the encoded members of a
  data-channel frame gives back the message, for every variant and field value.\<close>

theorem ctrl_roundtrip: "ctrl_of_members (ctrl_to_members m) = Some m"
  by (cases m) (simp_all add: ctrl_of_members_def fld_defs comp_def)

text \<open>Every client message survives the wire, with or without a room token.\<close>

theorem client_roundtrip: "client_of_members (client_to_members m) = Some m"
  by (cases m) (simp_all add: client_of_members_def fld_defs split: option.splits)

lemma peer_info_roundtrip [simp]: "peer_info_of_json (peer_info_to_json p) = Some p"
  by (simp add: peer_info_of_json_def peer_info_to_json_def fld_defs)

text \<open>Sizes and caps are \<open>usize\<close>: a message is representable when they fit 64 bits.\<close>

definition server_msg_ok :: "server_msg \<Rightarrow> bool" where
  "server_msg_ok m = (case m of SRoomFull c \<Rightarrow> c < 2 ^ 64 | SWarn s c \<Rightarrow> s < 2 ^ 64 \<and> c < 2 ^ 64 | _ \<Rightarrow> True)"

text \<open>Every representable server message survives the wire, nested peer lists and
  TURN credentials included.\<close>

theorem server_roundtrip:
  "server_msg_ok m \<Longrightarrow> server_of_members (server_to_members m) = Some m"
  by (cases m) (simp_all add: server_of_members_def fld_defs server_msg_ok_def
      peers_of_def comp_def)

theorem server_roundtrip_witness:
  "server_of_members (server_to_members
     (SRoster [\<lparr>pi_user_id = ''b'', pi_name = ''Wolf''\<rparr>]))
   = Some (SRoster [\<lparr>pi_user_id = ''b'', pi_name = ''Wolf''\<rparr>])"
  by (rule server_roundtrip) (simp add: server_msg_ok_def)

text \<open>Claim C40. The wire loses nothing: a control, client or representable server message, written as the
  members of its JSON object and read back, is the same message.\<close>

theorem wire_roundtrip:
  assumes "server_msg_ok s"
  shows "ctrl_of_members (ctrl_to_members c) = Some c \<and> client_of_members (client_to_members m) = Some m
    \<and> server_of_members (server_to_members s) = Some s"
  using ctrl_roundtrip [of c] client_roundtrip [of m] server_roundtrip [OF assms] by blast

theorem wire_roundtrip_witness:
  "ctrl_of_members (ctrl_to_members (CRoomGen 7)) = Some (CRoomGen 7)
    \<and> client_of_members (client_to_members Rekey) = Some Rekey
    \<and> server_of_members (server_to_members (SWarn 12 12)) = Some (SWarn 12 12)"
  by (rule wire_roundtrip) (simp add: server_msg_ok_def)

end
