(* ===== verification/Auth.thy ===== *)
theory Auth
  imports Protocol
begin

text \<open>
  Room authentication (\<open>server/init/src/auth.rs\<close>) and TURN credentials (\<open>turn.rs\<close>).
  HMAC, hex and base64 come from third-party crates and are parameters: \<open>mac key msg\<close>,
  \<open>hexenc bytes\<close>, \<open>b64 bytes\<close>.  The process environment is a function from names to values.
\<close>

section \<open>Room tokens\<close>

datatype auth_config = Open | Hmac bytes

definition REFUSE_OPEN :: str where
  "REFUSE_OPEN = ''ROOM_AUTH_SECRET is not set '' @ [CHR 0xE2, CHR 0x80, CHR 0x94]
     @ '' refusing to start in OPEN auth mode. ''
     @ ''Set ROOM_AUTH_SECRET=<secret> for production, or ALLOW_OPEN_AUTH=1 for local dev only.''"

definition auth_from_values :: "str option \<Rightarrow> str option \<Rightarrow> str + auth_config" where
  "auth_from_values secret allow_open =
     (if (case secret of Some s \<Rightarrow> s \<noteq> [] | None \<Rightarrow> False) then Inr (Hmac (the secret))
      else if (case allow_open of Some v \<Rightarrow> v = ''1'' \<or> eq_nocase v ''true'' | None \<Rightarrow> False)
      then Inr Open
      else Inl REFUSE_OPEN)"

definition auth_from_env :: "(str \<Rightarrow> str option) \<Rightarrow> str + auth_config" where
  "auth_from_env env = auth_from_values (env ''ROOM_AUTH_SECRET'') (env ''ALLOW_OPEN_AUTH'')"

definition hmac_hex :: "(bytes \<Rightarrow> bytes \<Rightarrow> bytes) \<Rightarrow> (bytes \<Rightarrow> str) \<Rightarrow> bytes \<Rightarrow> bytes \<Rightarrow> str" where
  "hmac_hex mac hexenc key msg = hexenc (mac key msg)"

definition token_for ::
  "(bytes \<Rightarrow> bytes \<Rightarrow> bytes) \<Rightarrow> (bytes \<Rightarrow> str) \<Rightarrow> auth_config \<Rightarrow> str \<Rightarrow> str option" where
  "token_for mac hexenc cfg room =
     (case cfg of Open \<Rightarrow> None | Hmac key \<Rightarrow> Some (hmac_hex mac hexenc key room))"

definition ct_eq :: "bytes \<Rightarrow> bytes \<Rightarrow> bool" where
  "ct_eq a b = (if length a \<noteq> length b then False else ct_diff a b 0 = 0)"

definition check ::
  "(bytes \<Rightarrow> bytes \<Rightarrow> bytes) \<Rightarrow> (bytes \<Rightarrow> str) \<Rightarrow> auth_config \<Rightarrow> str \<Rightarrow> str option \<Rightarrow> bool" where
  "check mac hexenc cfg room tok =
     (case cfg of
        Open \<Rightarrow> True
      | Hmac key \<Rightarrow>
          let expected = hmac_hex mac hexenc key room
          in (case tok of Some t \<Rightarrow> ct_eq t expected | None \<Rightarrow> False))"

text \<open>The byte loop without early exit decides equality.\<close>

lemma ct_eq_iff [simp]: "ct_eq a b \<longleftrightarrow> a = b"
  by (auto simp: ct_eq_def ct_diff_0)

text \<open>
  What the rest of the server relies on: the token minted for a room opens it, and a token
  that opens a room is the one minted for it.
\<close>

locale room_tokens =
  fixes mint :: "str \<Rightarrow> str option"
    and accepts :: "str \<Rightarrow> str option \<Rightarrow> bool"
  assumes minted_accepted: "accepts r (mint r)"
    and accepted_minted: "mint r \<noteq> None \<Longrightarrow> accepts r t \<Longrightarrow> t = mint r"
begin

lemma accepts_iff: "mint r \<noteq> None \<Longrightarrow> accepts r t \<longleftrightarrow> t = mint r"
  using minted_accepted accepted_minted by blast

lemma missing_refused: "mint r \<noteq> None \<Longrightarrow> \<not> accepts r None"
  using accepts_iff by fastforce

lemma not_transferable:
  assumes "mint r \<noteq> mint r'" and "mint r' \<noteq> None"
  shows "\<not> accepts r' (mint r)"
  using assms accepts_iff by blast

end

interpretation tok: room_tokens "token_for mac hexenc cfg" "check mac hexenc cfg"
  for mac hexenc cfg
  by unfold_locales
    (auto simp: token_for_def check_def Let_def split: auth_config.splits option.splits)

text \<open>Token check: in HMAC mode the server accepts exactly the token it would mint for
  that room, so a missing, truncated, over-long or altered token is refused.\<close>

theorem check_hmac_iff:
  "check mac hexenc (Hmac key) room tok \<longleftrightarrow> tok = Some (hexenc (mac key room))"
proof -
  have mint: "token_for mac hexenc (Hmac key) room = Some (hexenc (mac key room))"
    by (simp add: token_for_def hmac_hex_def)
  then show ?thesis
    using tok.accepts_iff [of mac hexenc "Hmac key" room tok] by simp
qed

text \<open>Fail closed: the server starts in open mode only when no non-empty secret is set
  and \<open>ALLOW_OPEN_AUTH\<close> is \<open>1\<close> or any casing of \<open>true\<close>; a non-empty secret always wins.\<close>

theorem auth_fail_closed:
  "auth_from_values secret allow = Inr Open \<longleftrightarrow>
     (secret = None \<or> secret = Some []) \<and> (\<exists>v. allow = Some v \<and> (v = ''1'' \<or> ascii_lower v = ''true''))"
  by (auto simp: auth_from_values_def eq_nocase_def ascii_lower_def lower_c_def is_upper_c_def
      split: option.splits)

section \<open>TURN credentials\<close>

record turn_config =
  tu_secret :: bytes
  tu_urls :: "str list"
  tu_ttl :: u32

definition turn_new :: "str \<Rightarrow> str \<Rightarrow> turn_config" where
  "turn_new secret urls =
     \<lparr>tu_secret = secret,
      tu_urls = filter (\<lambda>s. s \<noteq> []) (map trim (split_on (CHR '','') urls)),
      tu_ttl = 3600\<rparr>"

definition turn_from_values :: "str option \<Rightarrow> str option \<Rightarrow> turn_config option" where
  "turn_from_values secret urls =
     (case secret of
        Some s \<Rightarrow>
          if s = [] then None
          else (case urls of Some u \<Rightarrow> if u = [] then None else Some (turn_new s u) | None \<Rightarrow> None)
      | None \<Rightarrow> None)"

definition turn_from_env :: "(str \<Rightarrow> str option) \<Rightarrow> turn_config option" where
  "turn_from_env env = turn_from_values (env ''TURN_SECRET'') (env ''TURN_URLS'')"

text \<open>\<open>now\<close> in seconds; the addition is on 64 bits.\<close>

definition mint ::
  "(bytes \<Rightarrow> bytes \<Rightarrow> bytes) \<Rightarrow> (bytes \<Rightarrow> str) \<Rightarrow> nat \<Rightarrow> turn_config \<Rightarrow> str \<Rightarrow> turn_creds" where
  "mint mac1 b64 now cfg user_id =
     (let expiry = (now + unat (tu_ttl cfg)) mod 2 ^ 64;
          username = show_nat expiry @ '':'' @ user_id
      in \<lparr>tc_urls = tu_urls cfg, tc_username = username,
          tc_credential = b64 (mac1 (tu_secret cfg) username), tc_ttl = tu_ttl cfg\<rparr>)"

lemma show_nat_digits: "c \<in> set (show_nat n) \<Longrightarrow> 48 \<le> byte c \<and> byte c \<le> 57"
proof (induction n rule: show_nat.induct)
  case (1 n)
  have d: "48 \<le> byte (digit_c k) \<and> byte (digit_c k) \<le> 57" for k
    by (simp add: digit_c_def)
  show ?case
  proof (cases "n < 10")
    case True
    with "1.prems" d show ?thesis by (auto simp: show_nat.simps [of n])
  next
    case False
    with "1.prems" have "c \<in> set (show_nat (n div 10)) \<or> c = digit_c n"
      by (auto simp: show_nat.simps [of n])
    with "1.IH" False d show ?thesis by auto
  qed
qed

lemma split_once_colon: "CHR '':'' \<notin> set a \<Longrightarrow> split_once '':'' (a @ '':'' @ b) = Some (a, b)"
  by (induction a) auto

text \<open>TURN username: splitting at the first colon recovers the expiry and the whole
  user id, whatever the id contains; the expiry is an hour after minting and the credential is the
  MAC of exactly that username under the configured secret.\<close>

theorem turn_username:
  assumes "now + 3600 < 2 ^ 64" and "tu_ttl cfg = 3600"
  shows "split_once '':'' (tc_username (mint mac1 b64 now cfg uid)) = Some (show_nat (now + 3600), uid)
    \<and> tc_credential (mint mac1 b64 now cfg uid)
       = b64 (mac1 (tu_secret cfg) (tc_username (mint mac1 b64 now cfg uid)))"
proof -
  have "CHR '':'' \<notin> set (show_nat n)" for n
    using show_nat_digits [of "CHR '':''" n] by auto
  moreover have "(now + 3600) mod 2 ^ 64 = now + 3600"
    using assms(1) by simp
  ultimately show ?thesis
    using assms(2) split_once_colon by (simp add: mint_def Let_def)
qed

theorem turn_username_witness:
  "split_once '':'' (tc_username (mint (\<lambda>k m. k @ m) id 1700000000 (turn_new ''s'' ''turn:a'') ''a:b''))
     = Some (show_nat (1700000000 + 3600), ''a:b'')"
  using turn_username [of 1700000000 "turn_new ''s'' ''turn:a''" "\<lambda>k m. k @ m" id "''a:b''"]
  by (simp add: turn_new_def)

text \<open>Both variables are needed, and neither may be empty.\<close>

lemma turn_enabled_iff:
  "turn_from_values s u \<noteq> None \<longleftrightarrow> s \<notin> {None, Some []} \<and> u \<notin> {None, Some []}"
  by (auto simp: turn_from_values_def split: option.splits)

end
