(* ===== verification/RateLimit.thy ===== *)
theory RateLimit
  imports Prelude
begin

text \<open>
  The two fixed-window budgets of \<open>server/init/src/main.rs\<close>: the per-address limiter in front
  of the REST endpoints (seconds, one window per address) and the per-socket frame budget of
  \<open>handle_socket\<close> (milliseconds).  Both share one contract, the locale \<open>fixed_window\<close>, whose
  theorem bounds what gets through in any span of time.  Counters are \<open>u32\<close> and wrap.
\<close>

section \<open>The contract of a fixed window\<close>

fun passed :: "('t \<Rightarrow> 'w \<Rightarrow> bool \<times> 'w) \<Rightarrow> 't list \<Rightarrow> 'w \<Rightarrow> nat" where
  "passed step [] w = 0"
| "passed step (t # ts) w =
     (let (ok, w') = step t w in (if ok then 1 else 0) + passed step ts w')"

locale fixed_window =
  fixes step :: "nat \<Rightarrow> 'w \<Rightarrow> bool \<times> 'w"
    and start :: "'w \<Rightarrow> nat" and used :: "'w \<Rightarrow> nat"
    and span :: nat and budget :: nat
  assumes span_pos: "0 < span"
    and inside: "start w \<le> t \<Longrightarrow> t < start w + span \<Longrightarrow> Suc (used w) < 2 ^ 32 \<Longrightarrow>
          fst (step t w) = (Suc (used w) \<le> budget)
          \<and> start (snd (step t w)) = start w \<and> used (snd (step t w)) = Suc (used w)"
    and reopened: "start w + span \<le> t \<Longrightarrow>
          fst (step t w) = (1 \<le> budget)
          \<and> start (snd (step t w)) = t \<and> used (snd (step t w)) = 1"
begin

lemma div_after_reopen: "s + span \<le> t \<Longrightarrow> t \<le> T \<Longrightarrow> Suc ((T - t) div span) \<le> (T - s) div span"
proof -
  assume "s + span \<le> t" "t \<le> T"
  then have "T - s = span + (T - t) + (t - s - span)" by simp
  then have "(span + (T - t)) div span \<le> (T - s) div span"
    by (intro div_le_mono) simp
  with span_pos div_add_self1 [of span "T - t"] show ?thesis by simp
qed

lemma passed_bound:
  assumes "sorted ts" and "\<forall>t \<in> set ts. start w \<le> t \<and> t \<le> T" and "used w + length ts < 2 ^ 32"
  shows "passed step ts w \<le> (budget - used w) + budget * ((T - start w) div span)"
  using assms
proof (induction ts arbitrary: w)
  case Nil
  then show ?case by simp
next
  case (Cons t ts)
  obtain ok w' where st: "step t w = (ok, w')" by (cases "step t w")
  show ?case
  proof (cases "t < start w + span")
    case True
    with Cons.prems inside [of w t] st
    have "ok = (Suc (used w) \<le> budget)" "start w' = start w" "used w' = Suc (used w)" by auto
    moreover from this Cons have
      "passed step ts w' \<le> (budget - used w') + budget * ((T - start w') div span)"
      by (intro Cons.IH) auto
    ultimately show ?thesis using st by (cases "Suc (used w) \<le> budget") auto
  next
    case False
    with reopened [of w t] st have w': "ok = (1 \<le> budget)" "start w' = t" "used w' = 1" by auto
    with Cons have
      "passed step ts w' \<le> (budget - 1) + budget * ((T - t) div span)"
      by (subst w'(2) [symmetric], subst w'(3) [symmetric], intro Cons.IH) auto
    moreover from False Cons.prems div_after_reopen
    have "Suc ((T - t) div span) \<le> (T - start w) div span" by auto
    then have "budget * Suc ((T - t) div span) \<le> budget * ((T - start w) div span)"
      by (rule mult_le_mono2)
    ultimately show ?thesis using st w'(1) by (cases "1 \<le> budget") auto
  qed
qed

end

section \<open>Per-address limiter\<close>

definition RL_WINDOW :: nat where "RL_WINDOW = 300"
definition RL_JOIN_MAX :: u32 where "RL_JOIN_MAX = 30"
definition RL_CREATE_MAX :: u32 where "RL_CREATE_MAX = 20"

type_synonym rate_limiter = "(str \<times> nat \<times> u32) list"

definition tick :: "u32 \<Rightarrow> nat \<Rightarrow> nat \<Rightarrow> nat \<times> u32 \<Rightarrow> bool \<times> (nat \<times> u32)" where
  "tick mx window now e =
     (let e1 = (if window \<le> now - fst e then (now, 0) else e); c = snd e1 + 1
      in (c \<le> mx, (fst e1, c)))"

definition allow :: "nat \<Rightarrow> str \<Rightarrow> u32 \<Rightarrow> nat \<Rightarrow> rate_limiter \<Rightarrow> bool \<times> rate_limiter" where
  "allow now ip mx window m =
     (let e = (case map_of m ip of Some e \<Rightarrow> e | None \<Rightarrow> (now, 0));
          (ok, e') = tick mx window now e
      in (ok, AList.update ip e' m))"

definition prune :: "nat \<Rightarrow> nat \<Rightarrow> rate_limiter \<Rightarrow> rate_limiter" where
  "prune now window m = filter (\<lambda>(_, start, _). now - start < window) m"

lemma unat_inc32: "Suc (unat c) < 2 ^ 32 \<Longrightarrow> unat (c + 1 :: u32) = Suc (unat c)"
  by (simp add: unat_word_ariths)

text \<open>The windows the server opens: \<open>RL_WINDOW\<close> and any positive length of a test.\<close>

definition window_len :: "nat \<Rightarrow> nat" where "window_len n = Suc n"

interpretation rate: fixed_window "tick mx (window_len n)" fst "\<lambda>e. unat (snd e)" "window_len n" "unat mx"
  for mx n
  by unfold_locales
    (auto simp: tick_def Let_def window_len_def unat_inc32 word_le_nat_alt Suc_le_eq)

text \<open>Decisions of the limiter for one address over time.\<close>

fun allows :: "u32 \<Rightarrow> nat \<Rightarrow> str \<Rightarrow> nat list \<Rightarrow> rate_limiter \<Rightarrow> nat" where
  "allows mx window ip [] m = 0"
| "allows mx window ip (t # ts) m =
     (let (ok, m') = allow t ip mx window m in (if ok then 1 else 0) + allows mx window ip ts m')"

lemma allows_tick:
  "map_of m ip = Some e \<Longrightarrow> allows mx window ip ts m = passed (tick mx window) ts e"
proof (induction ts arbitrary: m e)
  case (Cons t ts)
  obtain ok e' where "tick mx window t e = (ok, e')" by (cases "tick mx window t e")
  with Cons show ?case by (simp add: allow_def)
qed simp

lemma allows_fresh:
  assumes "map_of m ip = None"
  shows "allows mx window ip (t # ts) m = passed (tick mx window) (t # ts) (t, 0)"
proof -
  obtain ok e where "tick mx window t (t, 0) = (ok, e)" by (cases "tick mx window t (t, 0)")
  with assms show ?thesis
    using allows_tick [of "AList.update ip e m" ip e mx window ts] by (simp add: allow_def)
qed

text \<open>Brute-force bound: an address not yet tracked gets at most its budget through per
  started window, over any sorted sequence of requests in any span of time.\<close>

theorem rate_limit_bound:
  assumes "map_of m ip = None" and "sorted (t # ts)" and "\<forall>u \<in> set (t # ts). u \<le> T"
    and "Suc (length ts) < 2 ^ 32"
  shows "allows mx RL_WINDOW ip (t # ts) m \<le> unat mx * Suc ((T - t) div RL_WINDOW)"
proof -
  have "allows mx RL_WINDOW ip (t # ts) m = passed (tick mx (window_len 299)) (t # ts) (t, 0)"
    using allows_fresh [OF assms(1)] by (simp only: RL_WINDOW_def window_len_def) simp
  also have "\<dots> \<le> (unat mx - 0) + unat mx * ((T - t) div window_len 299)"
    using assms(2-4) rate.passed_bound [of "t # ts" "(t, 0)" T mx 299] by simp
  finally show ?thesis by (simp add: RL_WINDOW_def window_len_def)
qed

theorem rate_limit_bound_witness:
  "allows RL_JOIN_MAX RL_WINDOW ''10.0.0.1'' [5, 6, 400] [] \<le> unat RL_JOIN_MAX * Suc ((400 - 5) div RL_WINDOW)"
  by (rule rate_limit_bound) simp_all

lemma map_of_filter_val:
  "distinct (map fst m) \<Longrightarrow>
     map_of (filter (\<lambda>(k, v). P v) m) k = (case map_of m k of Some v \<Rightarrow> if P v then Some v else None | None \<Rightarrow> None)"
proof (induction m)
  case (Cons kv m)
  obtain k' v where kv: "kv = (k', v)" by (cases kv)
  show ?case
  proof (cases "k = k'")
    case True
    with Cons.prems kv have "map_of m k = None" by (simp add: map_of_None_iff)
    with Cons kv True show ?thesis by simp
  next
    case False
    with Cons kv show ?thesis by simp
  qed
qed simp

text \<open>The once-a-minute prune is invisible: dropping expired windows never changes a
  later decision of the limiter for any address.\<close>

theorem prune_invisible:
  assumes "distinct (map fst m)" and "now' \<le> now"
  shows "fst (allow now ip mx window (prune now' window m)) = fst (allow now ip mx window m)
    \<and> map_of (snd (allow now ip mx window (prune now' window m))) ip
      = map_of (snd (allow now ip mx window m)) ip"
proof -
  have lookup: "map_of (prune now' window m) ip =
      (case map_of m ip of Some v \<Rightarrow> if now' - fst v < window then Some v else None | None \<Rightarrow> None)"
    using map_of_filter_val [OF assms(1), of "\<lambda>v. now' - fst v < window"]
    by (simp add: prune_def case_prod_unfold)
  show ?thesis
    using assms(2) by (cases "map_of m ip") (auto simp: allow_def lookup tick_def Let_def)
qed

theorem prune_invisible_witness:
  "fst (allow 400 ''a'' 1 300 (prune 350 300 [(''a'', 10, 5)])) = fst (allow 400 ''a'' 1 300 [(''a'', 10, 5)])"
  using prune_invisible [of "[(''a'', 10, 5)]" 350 400 "''a''" 1 300] by simp

section \<open>Per-socket frame budget\<close>

definition MSG_RATE_WINDOW :: nat where "MSG_RATE_WINDOW = 1000"
definition MSG_RATE_MAX :: u32 where "MSG_RATE_MAX = 50"

definition frame_tick :: "nat \<Rightarrow> nat \<times> u32 \<Rightarrow> bool \<times> (nat \<times> u32)" where
  "frame_tick now w =
     (let w1 = (if MSG_RATE_WINDOW < now - fst w then (now, 0) else w); c = snd w1 + 1
      in (c \<le> MSG_RATE_MAX, (fst w1, c)))"

interpretation frames: fixed_window frame_tick fst "\<lambda>w. unat (snd w)" 1001 50
  by unfold_locales
    (auto simp: frame_tick_def Let_def MSG_RATE_WINDOW_def MSG_RATE_MAX_def unat_inc32 word_le_nat_alt)

text \<open>Relay load per socket: of any burst of frames within \<open>T\<close> milliseconds of the
  socket's start, at most 50 per started window of 1001 ms are handled; the rest is dropped.\<close>

theorem frame_budget:
  assumes "sorted ts" and "\<forall>t \<in> set ts. t0 \<le> t \<and> t \<le> t0 + T" and "length ts < 2 ^ 32"
  shows "passed frame_tick ts (t0, 0) \<le> 50 * Suc (T div 1001)"
  using frames.passed_bound [of ts "(t0, 0)" "t0 + T"] assms by simp

theorem frame_budget_witness: "passed frame_tick [3, 4, 5] (3, 0) \<le> 50 * Suc (10 div 1001)"
  by (rule frame_budget) simp_all

section \<open>The address a request is counted under\<close>

text \<open>\<open>SocketAddr\<close> as the server uses it: the rendered address and whether it is loopback.
  \<open>xff\<close> is the \<open>X-Forwarded-For\<close> value when present and visible ASCII.\<close>

record peer_addr =
  pa_ip :: str
  pa_loopback :: bool

definition client_ip :: "str option \<Rightarrow> peer_addr \<Rightarrow> str" where
  "client_ip xff peer =
     (case (if pa_loopback peer
            then Option.bind xff (\<lambda>s. List.find (\<lambda>h. h \<noteq> []) (rev (map trim (split_on (CHR '','') s))))
            else None) of
        Some hop \<Rightarrow> hop
      | None \<Rightarrow> pa_ip peer)"

lemma split_on_append:
  "CHR '','' \<notin> set b \<Longrightarrow> split_on (CHR '','') (a @ '','' @ b) = split_on (CHR '','') a @ [b]"
proof (induction a)
  case Nil
  have "CHR '','' \<notin> set b \<Longrightarrow> split_on (CHR '','') b = [b]" for b
    by (induction b) auto
  with Nil show ?case by simp
next
  case (Cons c a)
  then show ?case by (auto split: list.splits)
qed

text \<open>No address forging: a client that reaches the server directly is counted under its
  socket address whatever header it sends; behind the loopback proxy the last hop counts, so
  text the client puts in front of what the proxy appended changes nothing.\<close>

theorem client_ip_unforgeable:
  assumes "CHR '','' \<notin> set hop" and "trim hop \<noteq> []"
  shows "client_ip xff \<lparr>pa_ip = ip, pa_loopback = False\<rparr> = ip
    \<and> client_ip (Some (forged @ '','' @ hop)) \<lparr>pa_ip = ip, pa_loopback = True\<rparr> = trim hop"
  using assms split_on_append [of hop forged] by (simp add: client_ip_def)

theorem client_ip_unforgeable_witness:
  "client_ip (Some (''1.2.3.4'' @ '','' @ ''9.9.9.9'')) \<lparr>pa_ip = ''127.0.0.1'', pa_loopback = True\<rparr> = trim ''9.9.9.9''"
  using client_ip_unforgeable [of "''9.9.9.9''" None "''127.0.0.1''" "''1.2.3.4''"]
  by (simp add: trim_def trim_end_def trim_start_def chars.simps is_cont_def is_ws_def)

end
