(* ===== verification/Sessions.thy ===== *)
theory Sessions
  imports Auth
begin

text \<open>
  PIN-protected session brokering (\<open>server/init/src/sessions.rs\<close>): create, resolve a code with a
  PIN under a per-code guess budget, and the periodic sweep.  Times are seconds; random draws
  are arguments.  Proved: the guess bound over any span of time, the lock and its expiry, that a
  created session opens with its PIN, and the life cycle of the sweep.
\<close>

definition MAX_AGE_SECS :: nat where "MAX_AGE_SECS = 24 * 3600"
definition EMPTY_GRACE_SECS :: nat where "EMPTY_GRACE_SECS = 5 * 60"
definition MAX_ATTEMPTS :: nat where "MAX_ATTEMPTS = 6"
definition LOCK_SECS :: nat where "LOCK_SECS = 10 * 60"

lemmas session_consts = MAX_AGE_SECS_def EMPTY_GRACE_SECS_def MAX_ATTEMPTS_def LOCK_SECS_def

record session =
  se_room :: str
  se_token :: "str option"
  se_pin :: str
  se_created :: nat
  se_last_active :: nat
  se_attempts :: nat
  se_locked_at :: nat

datatype join_error = NotFound | Locked | BadPin

type_synonym sessions = "(str \<times> session) list"

section \<open>Random identifiers\<close>

definition rand_hex :: "(bytes \<Rightarrow> str) \<Rightarrow> bytes \<Rightarrow> str" where
  "rand_hex hexenc drawn = hexenc drawn"

definition CODE_ALPHABET :: str where
  "CODE_ALPHABET = ''abcdefghijkmnpqrstuvwxyz23456789''"

text \<open>\<open>idx k\<close> is the \<open>k\<close>-th draw of \<open>gen_range(0..32)\<close> for this code.\<close>

definition rand_code :: "(nat \<Rightarrow> nat) \<Rightarrow> str" where
  "rand_code idx = map (\<lambda>k. CODE_ALPHABET ! idx k) [0..<8]"

definition rand_pin :: "nat \<Rightarrow> str" where
  "rand_pin n = (let d = show_nat n in replicate (6 - length d) (CHR ''0'') @ d)"

text \<open>The collision loop: draw codes until one is free.\<close>

partial_function (option) pick_code :: "(nat \<Rightarrow> str) \<Rightarrow> sessions \<Rightarrow> nat \<Rightarrow> str option" where
  "pick_code draw m i = (if draw i \<in> fst ` set m then pick_code draw m (Suc i) else Some (draw i))"

lemma pick_code_first_free:
  assumes "draw k \<notin> fst ` set m" and "i \<le> k"
  shows "\<exists>j \<ge> i. j \<le> k \<and> pick_code draw m i = Some (draw j) \<and> draw j \<notin> fst ` set m"
  using assms(2)
proof (induction rule: inc_induct)
  case base
  with assms(1) show ?case by (auto simp: pick_code.simps)
next
  case (step i)
  then obtain j where "j \<ge> Suc i" "j \<le> k" "pick_code draw m (Suc i) = Some (draw j)" "draw j \<notin> fst ` set m"
    by auto
  moreover have "pick_code draw m i = (if draw i \<in> fst ` set m then pick_code draw m (Suc i) else Some (draw i))"
    by (rule pick_code.simps)
  ultimately show ?case
  proof (cases "draw i \<in> fst ` set m")
    case True
    with \<open>pick_code draw m (Suc i) = _\<close> \<open>j \<ge> Suc i\<close> \<open>j \<le> k\<close> \<open>draw j \<notin> _\<close> show ?thesis
      by (intro exI [of _ j]) (simp add: pick_code.simps [of draw m i])
  next
    case False
    with step show ?thesis
      by (intro exI [of _ i]) (simp add: pick_code.simps [of draw m i])
  qed
qed

section \<open>Create, join, sweep\<close>

text \<open>
  \<open>create\<close> with its draws: the room's eight random bytes, the PIN number, the code draws and the
  time.  \<open>None\<close> only if every code ever drawn is taken.
\<close>

definition create ::
  "(bytes \<Rightarrow> str) \<Rightarrow> (str \<Rightarrow> str option) \<Rightarrow> bytes \<Rightarrow> nat \<Rightarrow> (nat \<Rightarrow> str) \<Rightarrow> nat \<Rightarrow> sessions
    \<Rightarrow> ((str \<times> str \<times> str \<times> str option) \<times> sessions) option" where
  "create hexenc mint_for drawn pin_no draw t m =
     (let room = ''squad-'' @ rand_hex hexenc drawn;
          token = mint_for room;
          pin = rand_pin pin_no
      in map_option (\<lambda>code.
           ((code, pin, room, token),
            AList.update code
              \<lparr>se_room = room, se_token = token, se_pin = pin, se_created = t, se_last_active = t,
               se_attempts = 0, se_locked_at = 0\<rparr> m)) (pick_code draw m 0))"

definition sess_ct_eq :: "bytes \<Rightarrow> bytes \<Rightarrow> bool" where
  "sess_ct_eq a b = (if length a \<noteq> length b then False else ct_diff a b 0 = 0)"

lemma sess_ct_eq_iff [simp]: "sess_ct_eq a b \<longleftrightarrow> a = b"
  by (auto simp: sess_ct_eq_def ct_diff_0)

text \<open>The per-session part of \<open>join_at\<close>, and \<open>join_at\<close> itself.\<close>

definition try_pin :: "str \<Rightarrow> nat \<Rightarrow> session \<Rightarrow> (join_error + str \<times> str option) \<times> session" where
  "try_pin pin t s =
     (if MAX_ATTEMPTS \<le> se_attempts s \<and> t < sat_add64 (se_locked_at s) LOCK_SECS then (Inl Locked, s)
      else
        let s1 = (if MAX_ATTEMPTS \<le> se_attempts s then s\<lparr>se_attempts := 0\<rparr> else s)
        in if sess_ct_eq (se_pin s1) pin
           then (Inr (se_room s1, se_token s1), s1\<lparr>se_last_active := t\<rparr>)
           else
             let s2 = s1\<lparr>se_attempts := se_attempts s1 + 1\<rparr>;
                 s3 = (if MAX_ATTEMPTS \<le> se_attempts s2 then s2\<lparr>se_locked_at := t\<rparr> else s2)
             in (Inl BadPin, s3))"

definition join_at ::
  "str \<Rightarrow> str \<Rightarrow> nat \<Rightarrow> sessions \<Rightarrow> (join_error + str \<times> str option) \<times> sessions" where
  "join_at code pin t m =
     (case map_of m code of
        None \<Rightarrow> (Inl NotFound, m)
      | Some s \<Rightarrow> let (r, s') = try_pin pin t s in (r, AList.update code s' m))"

definition sweep_one :: "(str \<Rightarrow> bool) \<Rightarrow> nat \<Rightarrow> session \<Rightarrow> session option" where
  "sweep_one room_nonempty n s =
     (if MAX_AGE_SECS \<le> n - se_created s then None
      else if room_nonempty (se_room s) then Some (s\<lparr>se_last_active := n\<rparr>)
      else if n - se_last_active s < EMPTY_GRACE_SECS then Some s else None)"

definition reap :: "(str \<Rightarrow> bool) \<Rightarrow> nat \<Rightarrow> sessions \<Rightarrow> sessions" where
  "reap room_nonempty n m =
     List.map_filter (\<lambda>(c, s). map_option (Pair c) (sweep_one room_nonempty n s)) m"

section \<open>The guess budget\<close>

text \<open>Well-formed session: attempts within the budget and, when exhausted, locked in the past.\<close>

definition session_ok :: "nat \<Rightarrow> session \<Rightarrow> bool" where
  "session_ok now s \<longleftrightarrow> se_attempts s \<le> MAX_ATTEMPTS
     \<and> (se_attempts s = MAX_ATTEMPTS \<longrightarrow> se_locked_at s \<le> now) \<and> now + LOCK_SECS \<le> U64_MAX"

lemma try_pin_cases:
  assumes "session_ok now s" and "now \<le> t" and "t + LOCK_SECS \<le> U64_MAX"
  shows "session_ok t (snd (try_pin pin t s))"
  using assms by (auto simp: session_ok_def try_pin_def Let_def session_consts)

lemma try_pin_locked_iff:
  assumes "session_ok now s"
  shows "fst (try_pin pin t s) = Inl Locked \<longleftrightarrow> se_attempts s = MAX_ATTEMPTS \<and> t < se_locked_at s + LOCK_SECS"
  using assms by (auto simp: session_ok_def try_pin_def Let_def session_consts sat_add64_def U64_MAX_def)

lemma try_pin_frame [frame_simps]:
  "se_pin (snd (try_pin pin t s)) = se_pin s" "se_room (snd (try_pin pin t s)) = se_room s"
  "se_token (snd (try_pin pin t s)) = se_token s" "se_created (snd (try_pin pin t s)) = se_created s"
  by (auto simp: try_pin_def Let_def)

text \<open>Wrong guesses evaluated (not refused as locked) over a run of attempts on one code.\<close>

fun bad_pins :: "(str \<times> nat) list \<Rightarrow> session \<Rightarrow> nat" where
  "bad_pins [] s = 0"
| "bad_pins ((pin, t) # rs) s =
     (case try_pin pin t s of (r, s') \<Rightarrow> (if r = Inl BadPin then 1 else 0) + bad_pins rs s')"

text \<open>What a session still grants up to time \<open>T\<close>: the rest of the current budget and one full
  budget per lock period.\<close>

definition grants :: "nat \<Rightarrow> nat \<Rightarrow> session \<Rightarrow> nat" where
  "grants now T s =
     (if se_attempts s < MAX_ATTEMPTS then (MAX_ATTEMPTS - se_attempts s) + 6 * ((T - now) div LOCK_SECS)
      else 6 * ((T - se_locked_at s) div LOCK_SECS))"

lemma div_step: "a + LOCK_SECS \<le> b \<Longrightarrow> b \<le> T \<Longrightarrow> Suc ((T - b) div LOCK_SECS) \<le> (T - a) div LOCK_SECS"
proof -
  assume "a + LOCK_SECS \<le> b" "b \<le> T"
  then have "(LOCK_SECS + (T - b)) div LOCK_SECS \<le> (T - a) div LOCK_SECS"
    by (intro div_le_mono) simp
  then show ?thesis
    using div_add_self1 [of LOCK_SECS "T - b"] by (simp add: LOCK_SECS_def)
qed

lemma grants_later: "now \<le> t \<Longrightarrow> t \<le> T \<Longrightarrow> grants t T s \<le> grants now T s"
  by (auto simp: grants_def intro!: diff_le_mono div_le_mono)

lemma try_pin_grants:
  assumes ok: "session_ok now s" and t: "now \<le> t" "t \<le> T"
  shows "(if fst (try_pin pin t s) = Inl BadPin then 1 else 0) + grants t T (snd (try_pin pin t s)) \<le> grants now T s"
proof (cases "se_attempts s < MAX_ATTEMPTS")
  case True
  have "(T - t) div LOCK_SECS \<le> (T - now) div LOCK_SECS"
    using t by (intro div_le_mono) simp
  with True show ?thesis
    by (auto simp: try_pin_def grants_def Let_def MAX_ATTEMPTS_def)
next
  case False
  with ok have full: "se_attempts s = MAX_ATTEMPTS" by (simp add: session_ok_def)
  show ?thesis
  proof (cases "t < sat_add64 (se_locked_at s) LOCK_SECS")
    case True
    with full show ?thesis by (simp add: try_pin_def grants_def)
  next
    case opened: False
    with ok full have "se_locked_at s + LOCK_SECS \<le> t"
      by (auto simp: session_ok_def sat_add64_def)
    with t have "Suc ((T - t) div LOCK_SECS) \<le> (T - se_locked_at s) div LOCK_SECS"
      using div_step by blast
    with opened full show ?thesis
      by (auto simp: try_pin_def grants_def Let_def MAX_ATTEMPTS_def)
  qed
qed

lemma bad_pins_grants:
  assumes "session_ok now s" and "sorted (map snd rs)" and "\<forall>r \<in> set rs. now \<le> snd r \<and> snd r \<le> T"
    and "T + LOCK_SECS \<le> U64_MAX"
  shows "bad_pins rs s \<le> grants now T s"
  using assms(1-3)
proof (induction rs arbitrary: now s)
  case (Cons r rs)
  obtain pin t where r: "r = (pin, t)" by (cases r)
  obtain q s' where st: "try_pin pin t s = (q, s')" by (cases "try_pin pin t s")
  have "session_ok t s'"
    using try_pin_cases [of now s t pin] Cons.prems assms(4) r st by auto
  then have "bad_pins rs s' \<le> grants t T s'"
    using Cons.prems r by (intro Cons.IH) auto
  moreover have "(if q = Inl BadPin then 1 else 0) + grants t T s' \<le> grants now T s"
    using try_pin_grants [of now s t T pin] Cons.prems r st by auto
  ultimately show ?case using r st by simp
qed simp

text \<open>Claim C36. A 6-digit PIN cannot be brute-forced: over any sorted run of join attempts on a
  fresh session, at most six wrong guesses are evaluated per started ten-minute lock window, however many
  are sent and whatever correct joins are mixed in.\<close>

theorem pin_guess_bound:
  assumes "se_attempts s = 0" and "sorted (map snd rs)" and "\<forall>r \<in> set rs. t0 \<le> snd r \<and> snd r \<le> T"
    and "t0 \<le> T" and "T + LOCK_SECS \<le> U64_MAX"
  shows "bad_pins rs s \<le> 6 * Suc ((T - t0) div LOCK_SECS)"
proof -
  have "session_ok t0 s"
    using assms by (simp add: session_ok_def MAX_ATTEMPTS_def)
  then have "bad_pins rs s \<le> grants t0 T s"
    using assms by (intro bad_pins_grants) auto
  also have "\<dots> = 6 * Suc ((T - t0) div LOCK_SECS)"
    using assms(1) by (simp add: grants_def MAX_ATTEMPTS_def)
  finally show ?thesis .
qed

definition demo_session :: session where
  "demo_session = \<lparr>se_room = ''squad-1'', se_token = None, se_pin = ''123456'', se_created = 0,
     se_last_active = 0, se_attempts = 0, se_locked_at = 0\<rparr>"

theorem pin_guess_bound_witness:
  "bad_pins [(''000000'', 1), (''000001'', 2), (''123456'', 2)] demo_session \<le> 6 * Suc ((2 - 1) div LOCK_SECS)"
  by (rule pin_guess_bound) (simp_all add: demo_session_def U64_MAX_def LOCK_SECS_def)

text \<open>The lock: once the budget is spent, every attempt before the window ends is refused
  as locked and changes nothing, even with the right PIN; when the window ends the right PIN opens the
  session, and a wrong one counts as the first of a fresh budget.\<close>

theorem lock_window:
  assumes "session_ok now s" and "se_attempts s = MAX_ATTEMPTS"
  shows "(t < se_locked_at s + LOCK_SECS \<longrightarrow> try_pin pin t s = (Inl Locked, s))
    \<and> (se_locked_at s + LOCK_SECS \<le> t \<longrightarrow> fst (try_pin (se_pin s) t s) = Inr (se_room s, se_token s))
    \<and> (se_locked_at s + LOCK_SECS \<le> t \<and> pin \<noteq> se_pin s \<longrightarrow>
        fst (try_pin pin t s) = Inl BadPin \<and> se_attempts (snd (try_pin pin t s)) = 1)"
  using assms by (auto simp: try_pin_def session_ok_def sat_add64_def Let_def session_consts)

theorem lock_window_witness:
  "try_pin ''123456'' 700 (demo_session\<lparr>se_attempts := 6, se_locked_at := 200\<rparr>)
     = (Inl Locked, demo_session\<lparr>se_attempts := 6, se_locked_at := 200\<rparr>)
   \<and> fst (try_pin ''123456'' 800 (demo_session\<lparr>se_attempts := 6, se_locked_at := 200\<rparr>)) = Inr (''squad-1'', None)"
  using lock_window [of 200 "demo_session\<lparr>se_attempts := 6, se_locked_at := 200\<rparr>" 700 "''123456''"]
    lock_window [of 200 "demo_session\<lparr>se_attempts := 6, se_locked_at := 200\<rparr>" 800]
  by (simp add: demo_session_def session_ok_def session_consts U64_MAX_def)

text \<open>Create then join: a free code exists among the draws, so creation returns; the PIN it
  hands out resolves its code to the room and token it reported, and no other session changes.\<close>

theorem create_join:
  assumes "draw k \<notin> fst ` set m"
  shows "\<exists>code pin room token m'.
      create hexenc tf drawn pin_no draw t m = Some ((code, pin, room, token), m')
      \<and> code \<notin> fst ` set m \<and> token = tf room
      \<and> fst (join_at code pin t' m') = Inr (room, token)
      \<and> (\<forall>c. c \<noteq> code \<longrightarrow> map_of m' c = map_of m c)"
proof -
  obtain j where "pick_code draw m 0 = Some (draw j)" "draw j \<notin> fst ` set m"
    using pick_code_first_free [of draw k m 0] assms by auto
  then show ?thesis
    by (auto simp: create_def join_at_def try_pin_def MAX_ATTEMPTS_def Let_def)
qed

theorem create_join_witness:
  "\<exists>code pin room token m'.
      create id (\<lambda>r. None) ''ab'' 42 (\<lambda>i. show_nat i) 10 [(show_nat 0, demo_session)] = Some ((code, pin, room, token), m')
      \<and> fst (join_at code pin 11 m') = Inr (room, token)"
proof -
  have "show_nat 1 \<notin> fst ` set [(show_nat 0, demo_session)]"
    by (simp add: show_nat.simps digit_c_def)
  then show ?thesis
    using create_join [of show_nat 1 "[(show_nat 0, demo_session)]" id "\<lambda>r. None" "''ab''" 42 10 11]
    by blast
qed

section \<open>The sweep\<close>

lemma map_of_map_filter:
  assumes "distinct (map fst m)"
  shows "map_of (List.map_filter (\<lambda>(c, s). map_option (Pair c) (f s)) m) c = Option.bind (map_of m c) f"
  using assms
proof (induction m)
  case (Cons cs m)
  obtain c' s where cs: "cs = (c', s)" by (cases cs)
  show ?case
  proof (cases "c = c'")
    case True
    with Cons.prems cs have "map_of m c = None" by (simp add: map_of_None_iff)
    with Cons cs True show ?thesis by (cases "f s") (auto simp: map_filter_simps)
  next
    case False
    with Cons cs show ?thesis by (cases "f s") (auto simp: map_filter_simps)
  qed
qed (simp add: map_filter_simps)

text \<open>Session life cycle: a sweep keeps a session exactly when it is younger than 24 hours
  and its room has members or went quiet less than five minutes ago; an occupied session is refreshed,
  any other kept session is untouched.\<close>

theorem reap_lifecycle:
  assumes "distinct (map fst m)" and "map_of m code = Some s"
  shows "map_of (reap nonempty n m) code =
     (if n - se_created s < MAX_AGE_SECS \<and> (nonempty (se_room s) \<or> n - se_last_active s < EMPTY_GRACE_SECS)
      then Some (if nonempty (se_room s) then s\<lparr>se_last_active := n\<rparr> else s) else None)"
  using map_of_map_filter [OF assms(1), of "sweep_one nonempty n" code] assms(2)
  by (simp add: reap_def sweep_one_def)

theorem reap_lifecycle_witness:
  "map_of (reap (\<lambda>_. False) 299 [(''c'', demo_session)]) ''c'' = Some demo_session
   \<and> map_of (reap (\<lambda>_. True) 86400 [(''c'', demo_session)]) ''c'' = None"
  using reap_lifecycle [of "[(''c'', demo_session)]" "''c''" demo_session "\<lambda>_. False" 299]
    reap_lifecycle [of "[(''c'', demo_session)]" "''c''" demo_session "\<lambda>_. True" 86400]
  by (simp add: demo_session_def session_consts)

text \<open>PINs keep their leading zeros; codes come from the unambiguous alphabet.\<close>

lemma rand_code_shape:
  assumes "\<forall>k < 8. idx k < 32"
  shows "length (rand_code idx) = 8" and "set (rand_code idx) \<subseteq> set CODE_ALPHABET"
proof -
  show "length (rand_code idx) = 8" by (simp add: rand_code_def)
  have "length CODE_ALPHABET = 32" by (simp add: CODE_ALPHABET_def)
  with assms show "set (rand_code idx) \<subseteq> set CODE_ALPHABET"
    by (auto simp: rand_code_def intro!: nth_mem)
qed

lemma length_show_nat: "n < 10 ^ Suc k \<Longrightarrow> length (show_nat n) \<le> Suc k"
proof (induction k arbitrary: n)
  case 0
  then show ?case by (simp add: show_nat.simps)
next
  case (Suc k)
  then have "n div 10 < 10 ^ Suc k" by simp
  with Suc.IH [of "n div 10"] show ?case by (simp add: show_nat.simps [of n])
qed

lemma length_rand_pin: "n < 1000000 \<Longrightarrow> length (rand_pin n) = 6"
  using length_show_nat [of n 5] by (simp add: rand_pin_def Let_def)

end
