(* ===== verification/Server.thy ===== *)
theory Server
  imports Sessions RateLimit
begin

text \<open>
  The signaling server's socket protocol (\<open>handle_socket\<close> and its helpers in
  \<open>server/init/src/main.rs\<close>): the shared \<open>AppState\<close>, one definition per client message, the
  frame loop, and the cleanup at the end of a socket.

  An outbound queue is the bounded channel between a handler and the socket's writer task;
  \<open>try_send\<close> drops the message when the queue is full or its writer is gone.  A connection
  number identifies the channel (\<open>same_channel\<close>).  Times are milliseconds of \<open>Instant\<close>.
  \<open>serde_json\<close>, the MACs, hex and base64 are the fields of \<open>ext\<close>.
\<close>

section \<open>State\<close>

definition WARN_CAP :: nat where "WARN_CAP = 12"
definition HARD_CAP :: nat where "HARD_CAP = 16"
definition MAX_ID :: nat where "MAX_ID = 64"
definition MAX_NAME :: nat where "MAX_NAME = 64"
definition MAX_TOKEN :: nat where "MAX_TOKEN = 128"
definition MAX_SECRET :: nat where "MAX_SECRET = 64"
definition MAX_SDP :: nat where "MAX_SDP = 16 * 1024"
definition MAX_ICE :: nat where "MAX_ICE = 4 * 1024"
definition MAX_CODE :: nat where "MAX_CODE = 32"
definition MAX_PIN :: nat where "MAX_PIN = 12"
definition PEER_CHAN :: nat where "PEER_CHAN = 256"
definition REKEY_COOLDOWN :: nat where "REKEY_COOLDOWN = 5000"

record ext =
  x_mac :: "bytes \<Rightarrow> bytes \<Rightarrow> bytes"
  x_mac1 :: "bytes \<Rightarrow> bytes \<Rightarrow> bytes"
  x_hex :: "bytes \<Rightarrow> str"
  x_b64 :: "bytes \<Rightarrow> str"
  x_from_str :: "str \<Rightarrow> str + client_msg"
  x_value :: "str \<Rightarrow> json option"

type_synonym conn = nat

record chan =
  ch_queue :: "server_msg list"
  ch_open :: bool

record peer_handle =
  ph_name :: str
  ph_tx :: conn
  ph_secret :: str

type_synonym room = "(str \<times> peer_handle) list"

record app_state =
  rooms :: "(str \<times> room) list"
  auth :: auth_config
  turn :: "turn_config option"
  sessions :: sessions
  rate :: rate_limiter
  ws_idle :: nat
  rekeys :: "(str \<times> nat) list"
  chans :: "conn \<Rightarrow> chan"

text \<open>The locals of one \<open>handle_socket\<close>: its membership and its frame window.\<close>

record sock =
  sk_me :: "(str \<times> str) option"
  sk_win :: "nat \<times> u32"

datatype flow = Cont | Brk

section \<open>Helpers\<close>

definition len_ok :: "str \<Rightarrow> nat \<Rightarrow> bool" where
  "len_ok s mx \<longleftrightarrow> s \<noteq> [] \<and> length s \<le> mx"

definition is_join_frame :: "ext \<Rightarrow> str \<Rightarrow> bool" where
  "is_join_frame x text =
     (case Option.bind (Option.bind (x_value x text) (jget ''t'')) as_str of
        Some t \<Rightarrow> t = ''join'' | None \<Rightarrow> False)"

definition protocol_mismatch_error :: "u32 option \<Rightarrow> server_msg" where
  "protocol_mismatch_error proto =
     (let got = (case proto of Some p \<Rightarrow> show_nat (unat p) | None \<Rightarrow> ''none'')
      in SError ERR_PROTOCOL_MISMATCH
           (''protocol '' @ got @ '' not supported, server speaks ''
            @ show_nat (unat PROTOCOL_VERSION) @ '': update subraum''))"

definition try_send :: "conn \<Rightarrow> server_msg \<Rightarrow> app_state \<Rightarrow> app_state" where
  "try_send c m s =
     (if ch_open (chans s c) \<and> length (ch_queue (chans s c)) < PEER_CHAN
      then s\<lparr>chans := (chans s)(c := (chans s c)\<lparr>ch_queue := ch_queue (chans s c) @ [m]\<rparr>)\<rparr>
      else s)"

text \<open>One message per room entry for which \<open>f\<close> builds one, in the table's order.\<close>

definition send_each :: "(str \<Rightarrow> peer_handle \<Rightarrow> server_msg option) \<Rightarrow> room \<Rightarrow> app_state \<Rightarrow> app_state" where
  "send_each f r s =
     fold (\<lambda>(i, h) s. case f i h of Some m \<Rightarrow> try_send (ph_tx h) m s | None \<Rightarrow> s) r s"

section \<open>Join\<close>

text \<open>The critical section of a join: caps, takeover check, superseding, roster and announcements.
  The flag says whether the socket is now a member.\<close>

definition join_room :: "conn \<Rightarrow> str \<Rightarrow> str \<Rightarrow> str \<Rightarrow> str \<Rightarrow> app_state \<Rightarrow> app_state \<times> bool" where
  "join_room tx room user_id name secret s0 =
     (let r = (case map_of (rooms s0) room of Some r \<Rightarrow> r | None \<Rightarrow> []);
          s = s0\<lparr>rooms := AList.update room r (rooms s0)\<rparr>
      in if HARD_CAP \<le> length r \<and> user_id \<notin> fst ` set r then (try_send tx (SRoomFull HARD_CAP) s, False)
      else if (case map_of r user_id of Some old \<Rightarrow> ph_secret old \<noteq> secret | None \<Rightarrow> False)
      then (try_send tx (SError ERR_ID_IN_USE ''user_id already taken in this room'') s, False)
      else
        let s1 = (case map_of r user_id of
                    Some old \<Rightarrow> try_send (ph_tx old) (SError ''superseded'' ''joined from another connection'') s
                  | None \<Rightarrow> s);
            r1 = AList.delete user_id r;
            roster = map (\<lambda>(i, h). \<lparr>pi_user_id = i, pi_name = ph_name h\<rparr>) r1;
            r2 = AList.update user_id \<lparr>ph_name = name, ph_tx = tx, ph_secret = secret\<rparr> r1;
            s2 = send_each (\<lambda>i h. if i \<noteq> user_id then Some (SPeerJoined user_id name) else None) r2 s1;
            size = length r2;
            s3 = try_send tx (SRoster roster) s2;
            s4 = (if WARN_CAP \<le> size then send_each (\<lambda>i h. Some (SWarn size WARN_CAP)) r2 s3 else s3)
        in (s4\<lparr>rooms := AList.update room r2 (rooms s4)\<rparr>, True))"

definition on_join ::
  "ext \<Rightarrow> nat \<Rightarrow> conn \<Rightarrow> u32 \<Rightarrow> str \<Rightarrow> str \<Rightarrow> str \<Rightarrow> str option \<Rightarrow> str \<Rightarrow> app_state \<Rightarrow> sock
    \<Rightarrow> app_state \<times> sock \<times> flow" where
  "on_join x now_secs tx proto room user_id name tok secret s sk =
     (if sk_me sk \<noteq> None
      then (try_send tx (SError ''already_joined'' ''this socket already joined a room'') s, sk, Cont)
      else if proto \<noteq> PROTOCOL_VERSION
      then (try_send tx (protocol_mismatch_error (Some proto)) s, sk, Brk)
      else if \<not> len_ok room MAX_ID \<or> \<not> len_ok user_id MAX_ID \<or> \<not> len_ok name MAX_NAME
           \<or> (case tok of Some t \<Rightarrow> MAX_TOKEN < length t | None \<Rightarrow> False) \<or> \<not> len_ok secret MAX_SECRET
      then (try_send tx (SError ''bad_input'' ''field empty or too long'') s, sk, Brk)
      else if \<not> check (x_mac x) (x_hex x) (auth s) room tok
      then (try_send tx (SError ''bad_token'' ''invalid room token'') s, sk, Brk)
      else
        let (s1, joined) = join_room tx room user_id name secret s
        in if \<not> joined then (s1, sk, Brk)
        else
          let s2 = (case turn s1 of
                      Some t \<Rightarrow> try_send tx (STurn (mint (x_mac1 x) (x_b64 x) now_secs t user_id)) s1
                    | None \<Rightarrow> s1)
          in (s2, sk\<lparr>sk_me := Some (room, user_id)\<rparr>, Cont))"

section \<open>Relay, push-to-talk, rekey, leave\<close>

definition relay_to ::
  "(str \<times> str) option \<Rightarrow> str \<Rightarrow> (str \<Rightarrow> server_msg) \<Rightarrow> app_state \<Rightarrow> app_state" where
  "relay_to me to build s =
     (case me of None \<Rightarrow> s
      | Some (room, from) \<Rightarrow>
          (case map_of (rooms s) room of None \<Rightarrow> s
           | Some r \<Rightarrow> (case map_of r to of None \<Rightarrow> s
                        | Some h \<Rightarrow> try_send (ph_tx h) (build from) s)))"

definition on_offer :: "str \<Rightarrow> str \<Rightarrow> sock \<Rightarrow> app_state \<Rightarrow> app_state" where
  "on_offer to sdp sk s =
     (if \<not> len_ok to MAX_ID \<or> MAX_SDP < length sdp then s
      else relay_to (sk_me sk) to (\<lambda>from. SOffer from sdp) s)"

definition on_answer :: "str \<Rightarrow> str \<Rightarrow> sock \<Rightarrow> app_state \<Rightarrow> app_state" where
  "on_answer to sdp sk s =
     (if \<not> len_ok to MAX_ID \<or> MAX_SDP < length sdp then s
      else relay_to (sk_me sk) to (\<lambda>from. SAnswer from sdp) s)"

definition on_ice :: "str \<Rightarrow> str \<Rightarrow> sock \<Rightarrow> app_state \<Rightarrow> app_state" where
  "on_ice to candidate sk s =
     (if \<not> len_ok to MAX_ID \<or> MAX_ICE < length candidate then s
      else relay_to (sk_me sk) to (\<lambda>from. SIce from candidate) s)"

definition on_ptt :: "bool \<Rightarrow> sock \<Rightarrow> app_state \<Rightarrow> app_state" where
  "on_ptt active sk s =
     (case sk_me sk of None \<Rightarrow> s
      | Some (room, from) \<Rightarrow>
          (case map_of (rooms s) room of None \<Rightarrow> s
           | Some r \<Rightarrow> send_each (\<lambda>i h. if i \<noteq> from then Some (SPtt from active) else None) r s))"

definition on_rekey :: "nat \<Rightarrow> sock \<Rightarrow> app_state \<Rightarrow> app_state" where
  "on_rekey now sk s =
     (case sk_me sk of None \<Rightarrow> s
      | Some (room, from) \<Rightarrow>
          if (case map_of (rekeys s) room of Some t \<Rightarrow> now - t < REKEY_COOLDOWN | None \<Rightarrow> False) then s
          else
            let s1 = s\<lparr>rekeys := AList.update room now (rekeys s)\<rparr>
            in (case map_of (rooms s1) room of None \<Rightarrow> s1
                | Some r \<Rightarrow>
                    let who = (case map_of r from of Some h \<Rightarrow> ph_name h | None \<Rightarrow> [])
                    in send_each (\<lambda>i h. Some (SRekey who)) r s1))"

section \<open>The frame loop\<close>

fun on_msg :: "ext \<Rightarrow> nat \<Rightarrow> nat \<Rightarrow> conn \<Rightarrow> client_msg \<Rightarrow> app_state \<Rightarrow> sock \<Rightarrow> app_state \<times> sock \<times> flow" where
  "on_msg x now secs tx (Join proto room user_id name tok secret) s sk =
     on_join x secs tx proto room user_id name tok secret s sk"
| "on_msg x now secs tx (Offer to sdp) s sk = (on_offer to sdp sk s, sk, Cont)"
| "on_msg x now secs tx (Answer to sdp) s sk = (on_answer to sdp sk s, sk, Cont)"
| "on_msg x now secs tx (Ice to candidate) s sk = (on_ice to candidate sk s, sk, Cont)"
| "on_msg x now secs tx (Ptt active) s sk = (on_ptt active sk s, sk, Cont)"
| "on_msg x now secs tx Rekey s sk = (on_rekey now sk s, sk, Cont)"
| "on_msg x now secs tx Leave s sk = (s, sk, Brk)"

datatype ws_msg = WText str | WClose | WOther

definition on_text :: "ext \<Rightarrow> nat \<Rightarrow> nat \<Rightarrow> conn \<Rightarrow> str \<Rightarrow> app_state \<Rightarrow> sock \<Rightarrow> app_state \<times> sock \<times> flow" where
  "on_text x now secs tx text s sk =
     (let (ok, w) = frame_tick now (sk_win sk); sk1 = sk\<lparr>sk_win := w\<rparr>
      in if \<not> ok then (s, sk1, Cont)
      else case x_from_str x text of
        Inr m \<Rightarrow> on_msg x now secs tx m s sk1
      | Inl e \<Rightarrow>
          if sk_me sk1 = None \<and> is_join_frame x text
          then (try_send tx (protocol_mismatch_error None) s, sk1, Brk)
          else (try_send tx (SError ''bad_json'' e) s, sk1, Cont))"

fun on_frame :: "ext \<Rightarrow> nat \<Rightarrow> nat \<Rightarrow> conn \<Rightarrow> ws_msg \<Rightarrow> app_state \<Rightarrow> sock \<Rightarrow> app_state \<times> sock \<times> flow" where
  "on_frame x now secs tx (WText t) s sk = on_text x now secs tx t s sk"
| "on_frame x now secs tx WClose s sk = (s, sk, Brk)"
| "on_frame x now secs tx WOther s sk = (s, sk, Cont)"

definition cleanup :: "conn \<Rightarrow> sock \<Rightarrow> app_state \<Rightarrow> app_state" where
  "cleanup tx sk s =
     (case sk_me sk of None \<Rightarrow> s
      | Some (room, user_id) \<Rightarrow>
          (case map_of (rooms s) room of None \<Rightarrow> s
           | Some r \<Rightarrow>
               if (case map_of r user_id of Some h \<Rightarrow> ph_tx h = tx | None \<Rightarrow> False)
               then
                 let r1 = AList.delete user_id r;
                     s1 = send_each (\<lambda>i h. Some (SPeerLeft user_id)) r1 (s\<lparr>rooms := AList.update room r1 (rooms s)\<rparr>)
                 in if r1 = [] then s1\<lparr>rooms := AList.delete room (rooms s1), rekeys := AList.delete room (rekeys s1)\<rparr>
                    else s1
               else s))"

text \<open>What arrives on a socket: a frame within the idle timeout, or the end (timeout, error, closed).\<close>

datatype sock_event = Frame nat nat ws_msg | Ended

text \<open>\<open>handle_socket\<close> of one connection alone, over everything it receives.\<close>

fun socket_loop :: "ext \<Rightarrow> conn \<Rightarrow> sock_event list \<Rightarrow> app_state \<Rightarrow> sock \<Rightarrow> app_state" where
  "socket_loop x tx [] s sk = cleanup tx sk s"
| "socket_loop x tx (Ended # es) s sk = cleanup tx sk s"
| "socket_loop x tx (Frame now secs f # es) s sk =
     (case on_frame x now secs tx f s sk of
        (s', sk', Cont) \<Rightarrow> socket_loop x tx es s' sk'
      | (s', sk', Brk) \<Rightarrow> cleanup tx sk' s')"

end
