(* ===== verification/Server_Safety.thy ===== *)
theory Server_Safety
  imports Server
begin

text \<open>
  Safety of the signaling server: what each operation leaves alone, the invariant of the shared
  state under every interleaving of sockets, writers, sweeps and REST calls, and what follows from
  it (caps, no ghost members, no takeover, no eviction by a superseded socket, relays that stay in
  the room and carry the sender's own id).
\<close>

section \<open>Frames\<close>

lemma try_send_frame [simp, frame_simps]:
  "rooms (try_send c m s) = rooms s" "rekeys (try_send c m s) = rekeys s"
  "auth (try_send c m s) = auth s" "turn (try_send c m s) = turn s"
  "sessions (try_send c m s) = sessions s" "rate (try_send c m s) = rate s"
  by (simp_all add: try_send_def)

lemma send_each_induct:
  assumes "P s" and "\<And>c m s. P s \<Longrightarrow> P (try_send c m s)"
  shows "P (send_each f r s)"
  using assms(1)
proof (induction r arbitrary: s)
  case Nil
  then show ?case by (simp add: send_each_def)
next
  case (Cons ih r)
  obtain i h where ih: "ih = (i, h)" by (cases ih)
  have "P (case f i h of Some m \<Rightarrow> try_send (ph_tx h) m s | None \<Rightarrow> s)"
    using Cons.prems assms(2) by (auto split: option.splits)
  from Cons.IH [OF this] show ?case by (simp add: send_each_def ih)
qed

lemma send_each_frame [simp, frame_simps]:
  "rooms (send_each f r s) = rooms s" "rekeys (send_each f r s) = rekeys s"
  "auth (send_each f r s) = auth s" "turn (send_each f r s) = turn s"
  by (rule send_each_induct [where P = "\<lambda>s'. rooms s' = rooms s"], simp_all)
    (rule send_each_induct [where P = "\<lambda>s'. rekeys s' = rekeys s"], simp_all,
     rule send_each_induct [where P = "\<lambda>s'. auth s' = auth s"], simp_all,
     rule send_each_induct [where P = "\<lambda>s'. turn s' = turn s"], simp_all)

lemma relay_to_frame [simp, frame_simps]:
  "rooms (relay_to me to b s) = rooms s" "rekeys (relay_to me to b s) = rekeys s"
  by (simp_all add: relay_to_def split: option.splits prod.splits)

lemma signal_frame [simp, frame_simps]:
  "rooms (on_offer to p sk s) = rooms s" "rekeys (on_offer to p sk s) = rekeys s"
  "rooms (on_answer to p sk s) = rooms s" "rekeys (on_answer to p sk s) = rekeys s"
  "rooms (on_ice to p sk s) = rooms s" "rekeys (on_ice to p sk s) = rekeys s"
  "rooms (on_ptt a sk s) = rooms s" "rekeys (on_ptt a sk s) = rekeys s"
  "rooms (on_rekey now sk s) = rooms s"
  by (simp_all add: on_offer_def on_answer_def on_ice_def on_ptt_def on_rekey_def Let_def
      split: option.splits prod.splits)

section \<open>A queue only grows\<close>

definition grows :: "app_state \<Rightarrow> app_state \<Rightarrow> bool" where
  "grows s s' \<longleftrightarrow> (\<forall>c. prefix (ch_queue (chans s c)) (ch_queue (chans s' c)) \<and> ch_open (chans s' c) = ch_open (chans s c))"

lemma grows_refl [simp]: "grows s s"
  by (simp add: grows_def)

lemma grows_trans: "grows s s' \<Longrightarrow> grows s' s'' \<Longrightarrow> grows s s''"
  by (auto simp: grows_def intro: prefix_order.trans)

lemma grows_try_send [simp]: "grows s (try_send c m s)"
  by (auto simp: grows_def try_send_def)

lemma grows_send_each [simp]: "grows s (send_each f r s)"
  by (rule send_each_induct [where P = "grows s"]) (auto intro: grows_trans)

section \<open>Rooms and joins\<close>

definition room_ok :: "room \<Rightarrow> bool" where
  "room_ok r \<longleftrightarrow> r \<noteq> [] \<and> distinct (map fst r) \<and> length r \<le> HARD_CAP"

definition rooms_ok :: "(str \<times> room) list \<Rightarrow> bool" where
  "rooms_ok rs \<longleftrightarrow> distinct (map fst rs) \<and> (\<forall>n r. map_of rs n = Some r \<longrightarrow> room_ok r)"

lemma rooms_ok_update: "rooms_ok rs \<Longrightarrow> room_ok r \<Longrightarrow> rooms_ok (AList.update n r rs)"
  by (auto simp: rooms_ok_def simp del: map_of_eq_Some_iff)

lemma rooms_ok_delete: "rooms_ok rs \<Longrightarrow> rooms_ok (AList.delete n rs)"
  by (auto simp: rooms_ok_def simp del: map_of_eq_Some_iff)

text \<open>Who is in: the handle a room holds for a user id.\<close>

definition handle_of :: "(str \<times> room) list \<Rightarrow> str \<Rightarrow> str \<Rightarrow> peer_handle option" where
  "handle_of rs room u = Option.bind (map_of rs room) (\<lambda>r. map_of r u)"

text \<open>A join either refuses and leaves the membership alone, or installs exactly one handle.\<close>

lemma join_room_cases:
  assumes "join_room tx room u name secret s = (s', joined)"
  defines "r \<equiv> (case map_of (rooms s) room of Some r \<Rightarrow> r | None \<Rightarrow> [])"
  shows "\<not> joined \<Longrightarrow> rooms s' = AList.update room r (rooms s)
          \<and> (HARD_CAP \<le> length r \<and> u \<notin> fst ` set r \<or> (\<exists>old. map_of r u = Some old \<and> ph_secret old \<noteq> secret))"
    and "joined \<Longrightarrow> rooms s' = AList.update room
            (AList.update u \<lparr>ph_name = name, ph_tx = tx, ph_secret = secret\<rparr> (AList.delete u r)) (rooms s)
          \<and> (HARD_CAP \<le> length r \<longrightarrow> u \<in> fst ` set r) \<and> (\<forall>old. map_of r u = Some old \<longrightarrow> ph_secret old = secret)"
  using assms
  by (auto simp: join_room_def Let_def r_def split: if_splits option.splits)

lemma join_room_rekeys: "rekeys (fst (join_room tx room u name secret s)) = rekeys s"
  by (simp add: join_room_def Let_def split: option.splits)

lemma join_room_env:
  "auth (fst (join_room tx room u name secret s)) = auth s"
  "turn (fst (join_room tx room u name secret s)) = turn s"
  by (simp_all add: join_room_def Let_def split: option.splits)

lemma room_ok_insert:
  assumes "r = [] \<or> room_ok r" and "HARD_CAP \<le> length r \<longrightarrow> u \<in> fst ` set r"
  shows "room_ok (AList.update u h (AList.delete u r))"
proof -
  have d: "distinct (map fst r)" using assms(1) by (auto simp: room_ok_def)
  have new: "u \<notin> fst ` set (AList.delete u r)" by simp
  have "length (AList.delete u r) < HARD_CAP"
  proof (cases "u \<in> fst ` set r")
    case True
    then have "length (AList.delete u r) < length r" by (rule delete_mem_length)
    with assms(1) True show ?thesis by (auto simp: room_ok_def)
  next
    case False
    with assms(2) show ?thesis
      using length_delete_le [of u r] by simp
  qed
  then have "length (AList.update u h (AList.delete u r)) \<le> HARD_CAP"
    by (simp only: length_update_new [OF new, of h])
  with d show ?thesis by (simp add: room_ok_def)
qed

lemma rooms_ok_join:
  assumes "rooms_ok (rooms s)" and "join_room tx room u name secret s = (s', joined)"
  shows "rooms_ok (rooms s')"
proof -
  define r where "r = (case map_of (rooms s) room of Some r \<Rightarrow> r | None \<Rightarrow> [])"
  have r: "r = [] \<or> room_ok r"
    using assms(1) by (auto simp: r_def rooms_ok_def split: option.splits)
  show ?thesis
  proof (cases joined)
    case True
    with join_room_cases(2) [OF assms(2)] r show ?thesis
      using assms(1) room_ok_insert [OF r] by (auto simp: rooms_ok_def r_def)
  next
    case False
    with join_room_cases(1) [OF assms(2)]
    have s': "rooms s' = AList.update room r (rooms s)" and "r \<noteq> []"
      by (auto simp: r_def HARD_CAP_def)
    with r have "room_ok r" by simp
    with s' assms(1) show ?thesis by (auto simp: rooms_ok_def)
  qed
qed


lemma join_room_refused:
  assumes "rooms_ok (rooms s)" and "join_room tx room u name secret s = (s', False)"
  shows "rooms s' = rooms s"
proof -
  define r where "r = (case map_of (rooms s) room of Some r \<Rightarrow> r | None \<Rightarrow> [])"
  from join_room_cases(1) [OF assms(2)]
  have s': "rooms s' = AList.update room r (rooms s)" and "r \<noteq> []"
    by (auto simp: r_def HARD_CAP_def)
  then have "map_of (rooms s) room = Some r"
    by (auto simp: r_def split: option.splits)
  with s' show ?thesis by (simp add: update_triv)
qed

lemma handle_of_join:
  assumes "join_room tx room u name secret s = (s', True)"
  shows "handle_of (rooms s') rm v =
     (if rm = room \<and> v = u then Some \<lparr>ph_name = name, ph_tx = tx, ph_secret = secret\<rparr>
      else handle_of (rooms s) rm v)"
  using join_room_cases(2) [OF assms] by (auto simp: handle_of_def split: option.splits)

section \<open>What one frame can do\<close>

text \<open>The frame made the socket a member: every check passed and one handle was installed.\<close>

definition enters ::
  "ext \<Rightarrow> conn \<Rightarrow> app_state \<Rightarrow> sock \<Rightarrow> app_state \<Rightarrow> sock \<Rightarrow> str \<Rightarrow> str \<Rightarrow> str \<Rightarrow> str option \<Rightarrow> str \<Rightarrow> bool" where
  "enters x tx s sk s' sk' room u name tok secret \<longleftrightarrow>
     sk_me sk = None \<and> sk_me sk' = Some (room, u) \<and> len_ok room MAX_ID \<and> len_ok u MAX_ID
     \<and> len_ok name MAX_NAME \<and> len_ok secret MAX_SECRET
     \<and> check (x_mac x) (x_hex x) (auth s) room tok
     \<and> (\<exists>s1. join_room tx room u name secret s = (s1, True) \<and> rooms s' = rooms s1)"

lemma on_join_cases:
  assumes "rooms_ok (rooms s)" and "on_join x secs tx proto room u name tok secret s sk = (s', sk', fl)"
  shows "(rooms s' = rooms s \<and> sk_me sk' = sk_me sk) \<or> (proto = PROTOCOL_VERSION \<and> enters x tx s sk s' sk' room u name tok secret)"
proof (cases "join_room tx room u name secret s")
  case (Pair s1 j)
  then show ?thesis
    using assms(2) join_room_refused [OF assms(1), of tx room u name secret s1]
    by (cases j) (auto simp: enters_def on_join_def Let_def split: if_splits option.splits)
qed

lemma on_msg_cases:
  assumes "rooms_ok (rooms s)" and "on_msg x now secs tx m s sk = (s', sk', fl)"
  shows "(rooms s' = rooms s \<and> sk_me sk' = sk_me sk) \<or> (\<exists>room u name tok secret. m = Join PROTOCOL_VERSION room u name tok secret \<and> enters x tx s sk s' sk' room u name tok secret)"
proof (cases m)
  case (Join proto room u name tok secret)
  with assms(2) have "on_join x secs tx proto room u name tok secret s sk = (s', sk', fl)" by simp
  from on_join_cases [OF assms(1) this] Join show ?thesis by blast
qed (use assms(2) in auto)

lemma on_frame_cases:
  assumes "rooms_ok (rooms s)" and "on_frame x now secs tx f s sk = (s', sk', fl)"
  shows "(rooms s' = rooms s \<and> sk_me sk' = sk_me sk) \<or> (\<exists>t room u name tok secret. f = WText t \<and> x_from_str x t = Inr (Join PROTOCOL_VERSION room u name tok secret)
      \<and> enters x tx s sk s' sk' room u name tok secret)"
proof (cases f)
  case (WText t)
  define sk1 where "sk1 = sk\<lparr>sk_win := snd (frame_tick now (sk_win sk))\<rparr>"
  have me: "sk_me sk1 = sk_me sk" by (simp add: sk1_def)
  show ?thesis
  proof (cases "x_from_str x t")
    case (Inr m)
    then show ?thesis
      using assms on_msg_cases [OF assms(1), of x now secs tx m sk1]
      by (auto simp: WText on_text_def Let_def me enters_def sk1_def split: if_splits prod.splits)
  next
    case (Inl e)
    with assms show ?thesis
      by (auto simp: WText on_text_def Let_def split: if_splits prod.splits)
  qed
qed (use assms in auto)

lemma join_auth: "auth (fst (on_join x secs tx proto room u name tok secret s sk)) = auth s"
proof (cases "join_room tx room u name secret s")
  case (Pair s1 j)
  with join_room_env(1) [of tx room u name secret s] have "auth s1 = auth s" by simp
  then show ?thesis by (simp add: on_join_def Let_def Pair split: option.splits)
qed

lemma relay_auth: "auth (relay_to me to b s) = auth s"
  by (simp add: relay_to_def split: option.splits prod.splits)

lemma handlers_auth:
  "auth (on_offer to p sk s) = auth s" "auth (on_answer to p sk s) = auth s" "auth (on_ice to p sk s) = auth s"
  "auth (on_ptt a sk s) = auth s" "auth (on_rekey now sk s) = auth s"
  by (simp_all add: on_offer_def on_answer_def on_ice_def relay_auth on_ptt_def on_rekey_def Let_def
      split: option.splits prod.splits)

lemma msg_auth: "auth (fst (on_msg x now secs tx m s sk)) = auth s"
  by (cases m) (simp_all add: join_auth handlers_auth)

lemma frame_auth: "auth (fst (on_frame x now secs tx f s sk)) = auth s"
  by (cases f) (simp_all add: on_text_def Let_def msg_auth split: sum.splits prod.splits)

section \<open>What the end of a socket does\<close>

definition holds_seat :: "conn \<Rightarrow> str \<Rightarrow> str \<Rightarrow> (str \<times> room) list \<Rightarrow> bool" where
  "holds_seat tx room u rs \<longleftrightarrow> (case handle_of rs room u of Some h \<Rightarrow> ph_tx h = tx | None \<Rightarrow> False)"

lemma cleanup_none: "sk_me sk = None \<Longrightarrow> cleanup tx sk s = s"
  by (simp add: cleanup_def)

lemma cleanup_superseded: "sk_me sk = Some (room, u) \<Longrightarrow> \<not> holds_seat tx room u (rooms s) \<Longrightarrow> cleanup tx sk s = s"
  by (auto simp: cleanup_def holds_seat_def handle_of_def split: option.splits)

lemma cleanup_rooms:
  assumes "sk_me sk = Some (room, u)" and "holds_seat tx room u (rooms s)"
  shows "\<exists>r. map_of (rooms s) room = Some r \<and> rooms (cleanup tx sk s) =
     (if AList.delete u r = [] then AList.delete room (AList.update room (AList.delete u r) (rooms s))
      else AList.update room (AList.delete u r) (rooms s))"
proof -
  from assms(2) obtain h where "handle_of (rooms s) room u = Some h" and h: "ph_tx h = tx"
    by (auto simp: holds_seat_def split: option.splits)
  then obtain r where "map_of (rooms s) room = Some r" "map_of r u = Some h"
    by (auto simp: handle_of_def bind_eq_Some_conv simp del: map_of_eq_Some_iff)
  with assms(1) h show ?thesis by (simp add: cleanup_def Let_def)
qed

lemma handle_of_cleanup:
  assumes "sk_me sk = Some (room, u)"
  shows "handle_of (rooms (cleanup tx sk s)) rm v =
     (if rm = room \<and> v = u \<and> holds_seat tx room u (rooms s) then None else handle_of (rooms s) rm v)"
proof (cases "holds_seat tx room u (rooms s)")
  case True
  from cleanup_rooms [OF assms True] obtain r
    where r: "map_of (rooms s) room = Some r"
      and eq: "rooms (cleanup tx sk s) =
        (if AList.delete u r = [] then AList.delete room (AList.update room (AList.delete u r) (rooms s))
         else AList.update room (AList.delete u r) (rooms s))" by blast
  have empty: "AList.delete u r = [] \<Longrightarrow> v \<noteq> u \<Longrightarrow> map_of r v = None"
    using delete_conv' [of u r] by (metis fun_upd_apply map_of.simps(1))
  have upd: "handle_of (AList.update room (AList.delete u r) (rooms s)) rm v =
    (if rm = room \<and> v = u then None else handle_of (rooms s) rm v)"
    using r by (simp add: handle_of_def)
  have del: "AList.delete u r = [] \<Longrightarrow> handle_of (AList.delete room (rooms s)) rm v =
    (if rm = room \<and> v = u then None else handle_of (rooms s) rm v)"
    using r empty by (simp add: handle_of_def)
  show ?thesis
    using True upd del by (cases "AList.delete u r = []"; cases "rm = room \<and> v = u") (auto simp: eq delete_update_same)
next
  case False
  then show ?thesis by (simp add: cleanup_superseded [OF assms])
qed

lemma rooms_ok_cleanup:
  assumes "rooms_ok (rooms s)"
  shows "rooms_ok (rooms (cleanup tx sk s))"
proof (cases "sk_me sk")
  case None
  with assms show ?thesis by (simp add: cleanup_none)
next
  case (Some p)
  obtain room u where me: "sk_me sk = Some (room, u)" using Some by (cases p) auto
  show ?thesis
  proof (cases "holds_seat tx room u (rooms s)")
    case False
    with assms show ?thesis by (simp add: cleanup_superseded [OF me])
  next
    case True
    from cleanup_rooms [OF me this] obtain r
      where r: "map_of (rooms s) room = Some r"
        and eq: "rooms (cleanup tx sk s) =
          (if AList.delete u r = [] then AList.delete room (AList.update room (AList.delete u r) (rooms s))
           else AList.update room (AList.delete u r) (rooms s))" by blast
    from r assms have "room_ok r" by (simp add: rooms_ok_def)
    then have "AList.delete u r \<noteq> [] \<Longrightarrow> room_ok (AList.delete u r)"
      using length_delete_le [of u r] by (auto simp: room_ok_def)
    with assms show ?thesis by (simp add: eq delete_update_same rooms_ok_update rooms_ok_delete)
  qed
qed

section \<open>The server as a transition system\<close>

text \<open>
  A running socket is in its frame loop or has left it; then only its cleanup is to come.  Between
  two of its steps every other socket, writer, sweep and REST call may run.  A step of a socket is
  one frame: the handler takes each lock once, so what it does between two locks commutes with
  everything else.
\<close>

datatype phase = Looping sock | Leaving sock

fun ph_sock :: "phase \<Rightarrow> sock" where
  "ph_sock (Looping sk) = sk"
| "ph_sock (Leaving sk) = sk"

record net =
  app :: app_state
  socks :: "conn \<Rightarrow> phase option"
  next_conn :: conn

inductive srv_step :: "ext \<Rightarrow> net \<Rightarrow> net \<Rightarrow> bool" for x where
  accept: "srv_step x n
     (n\<lparr>app := (app n)\<lparr>chans := (chans (app n))(next_conn n := \<lparr>ch_queue = [], ch_open = True\<rparr>)\<rparr>,
        socks := (socks n)(next_conn n \<mapsto> Looping \<lparr>sk_me = None, sk_win = (now, 0)\<rparr>),
        next_conn := Suc (next_conn n)\<rparr>)"
| frame: "socks n c = Some (Looping sk) \<Longrightarrow> on_frame x now secs c f (app n) sk = (s', sk', fl) \<Longrightarrow>
     srv_step x n (n\<lparr>app := s', socks := (socks n)(c \<mapsto> (case fl of Cont \<Rightarrow> Looping sk' | Brk \<Rightarrow> Leaving sk'))\<rparr>)"
| ended: "socks n c = Some (Looping sk) \<Longrightarrow> srv_step x n (n\<lparr>socks := (socks n)(c \<mapsto> Leaving sk)\<rparr>)"
| clean: "socks n c = Some (Leaving sk) \<Longrightarrow>
     srv_step x n (n\<lparr>app := cleanup c sk (app n), socks := (socks n)(c := None)\<rparr>)"
| deliver: "ch_queue (chans (app n) c) = m # q \<Longrightarrow>
     srv_step x n (n\<lparr>app := (app n)\<lparr>chans := (chans (app n))(c := (chans (app n) c)\<lparr>ch_queue := q\<rparr>)\<rparr>\<rparr>)"
| writer_dies: "srv_step x n (n\<lparr>app := (app n)\<lparr>chans := (chans (app n))(c := (chans (app n) c)\<lparr>ch_open := False\<rparr>)\<rparr>\<rparr>)"
| rest: "srv_step x n (n\<lparr>app := (app n)\<lparr>sessions := ss, rate := rl\<rparr>\<rparr>)"

inductive_cases srv_stepE: "srv_step x n n'"

definition started :: "net \<Rightarrow> bool" where
  "started n \<longleftrightarrow> rooms (app n) = [] \<and> rekeys (app n) = [] \<and> socks n = Map.empty
     \<and> (\<forall>c. ch_queue (chans (app n) c) = [])"

inductive reachable :: "ext \<Rightarrow> net \<Rightarrow> bool" for x where
  start: "started n \<Longrightarrow> reachable x n"
| step: "reachable x n \<Longrightarrow> srv_step x n n' \<Longrightarrow> reachable x n'"

section \<open>The invariant\<close>

definition seated :: "net \<Rightarrow> bool" where
  "seated n \<longleftrightarrow> (\<forall>room u h. handle_of (rooms (app n)) room u = Some h \<longrightarrow>
     len_ok room MAX_ID \<and> len_ok u MAX_ID \<and> len_ok (ph_name h) MAX_NAME \<and> len_ok (ph_secret h) MAX_SECRET
     \<and> (\<exists>p. socks n (ph_tx h) = Some p \<and> sk_me (ph_sock p) = Some (room, u)))"

lemma seated_lens:
  "seated n \<Longrightarrow> handle_of (rooms (app n)) room u = Some h \<Longrightarrow>
   len_ok room MAX_ID \<and> len_ok u MAX_ID \<and> len_ok (ph_name h) MAX_NAME \<and> len_ok (ph_secret h) MAX_SECRET"
  by (simp add: seated_def)

lemma seated_sock:
  "seated n \<Longrightarrow> handle_of (rooms (app n)) room u = Some h \<Longrightarrow>
   \<exists>p. socks n (ph_tx h) = Some p \<and> sk_me (ph_sock p) = Some (room, u)"
  by (simp add: seated_def)

definition net_ok :: "net \<Rightarrow> bool" where
  "net_ok n \<longleftrightarrow> rooms_ok (rooms (app n)) \<and> seated n \<and> (\<forall>c. next_conn n \<le> c \<longrightarrow> socks n c = None)"

lemma started_ok: "started n \<Longrightarrow> net_ok n"
  by (auto simp: started_def net_ok_def seated_def handle_of_def rooms_ok_def)

lemma net_okI:
  "rooms_ok (rooms (app n)) \<Longrightarrow> seated n \<Longrightarrow> (\<And>c. next_conn n \<le> c \<Longrightarrow> socks n c = None) \<Longrightarrow> net_ok n"
  by (simp add: net_ok_def)

lemma frame_ok:
  assumes ok: "net_ok n" and c: "socks n c = Some (Looping sk)"
    and f: "on_frame x now secs c f (app n) sk = (s', sk', fl)"
  shows "net_ok (n\<lparr>app := s', socks := (socks n)(c \<mapsto> (case fl of Cont \<Rightarrow> Looping sk' | Brk \<Rightarrow> Leaving sk'))\<rparr>)"
proof -
  let ?p = "case fl of Cont \<Rightarrow> Looping sk' | Brk \<Rightarrow> Leaving sk'"
  have p: "ph_sock ?p = sk'" by (cases fl) auto
  have rs: "rooms_ok (rooms (app n))" and seat: "seated n"
    and fresh: "next_conn n \<le> d \<Longrightarrow> socks n d = None" for d
    using ok by (auto simp: net_ok_def)
  from on_frame_cases [OF rs f]
  consider (same) "rooms s' = rooms (app n)" "sk_me sk' = sk_me sk"
    | (enter) room u name tok secret where "enters x c (app n) sk s' sk' room u name tok secret" by blast
  then show ?thesis
  proof cases
    case same
    then show ?thesis
      using rs seat fresh c by (intro net_okI) (fastforce simp: seated_def p)+
  next
    case enter
    then obtain s1 where j: "join_room c room u name secret (app n) = (s1, True)" and r: "rooms s' = rooms s1"
      by (auto simp: enters_def)
    have "handle_of (rooms (app n)) rm v = Some h \<Longrightarrow> ph_tx h \<noteq> c" for rm v h
      using seat c enter unfolding seated_def enters_def
      by (metis option.distinct(1) option.inject ph_sock.simps(1))
    then show ?thesis
      using seat fresh c enter rooms_ok_join [OF rs j]
      by (intro net_okI) (auto simp: seated_def r handle_of_join [OF j] p enters_def)
  qed
qed

lemma clean_ok:
  assumes ok: "net_ok n" and c: "socks n c = Some (Leaving sk)"
  shows "net_ok (n\<lparr>app := cleanup c sk (app n), socks := (socks n)(c := None)\<rparr>)"
proof (cases "sk_me sk")
  case None
  with ok c show ?thesis
    by (intro net_okI) (fastforce simp: net_ok_def seated_def cleanup_none)+
next
  case (Some p)
  obtain room u where me: "sk_me sk = Some (room, u)" using Some by (cases p) auto
  have "handle_of (rooms (app n)) rm v = Some h \<Longrightarrow> ph_tx h = c \<Longrightarrow> rm = room \<and> v = u" for rm v h
    using ok c me by (fastforce simp: net_ok_def seated_def)
  then show ?thesis
    using ok rooms_ok_cleanup [of "app n" c sk]
    by (intro net_okI) (fastforce simp: net_ok_def seated_def handle_of_cleanup [OF me] holds_seat_def
        split: if_splits option.splits)+
qed

lemma step_ok:
  assumes "srv_step x n n'" and "net_ok n"
  shows "net_ok n'"
  using assms
proof cases
  case (accept now)
  with assms(2) show ?thesis
    by (fastforce simp: net_ok_def seated_def)
next
  case (frame c sk now secs f s' sk' fl)
  with assms(2) show ?thesis using frame_ok by blast
next
  case (ended c sk)
  with assms(2) show ?thesis by (fastforce simp: net_ok_def seated_def)
next
  case (clean c sk)
  with assms(2) show ?thesis using clean_ok by blast
qed (auto simp: net_ok_def seated_def)

lemma reachable_ok: "reachable x n \<Longrightarrow> net_ok n"
  by (induction rule: reachable.induct) (auto intro: started_ok step_ok)

section \<open>What a queue receives\<close>

lemma chans_try_send_other: "c \<noteq> d \<Longrightarrow> chans (try_send d m s) c = chans s c"
  by (simp add: try_send_def)

lemma queue_try_send:
  "ch_open (chans s c) \<Longrightarrow> length (ch_queue (chans s c)) < PEER_CHAN \<Longrightarrow>
   chans (try_send c m s) c = \<lparr>ch_queue = ch_queue (chans s c) @ [m], ch_open = True\<rparr>"
  by (simp add: try_send_def)

lemma send_each_Nil [simp]: "send_each f [] s = s"
  by (simp add: send_each_def)

lemma send_each_Cons:
  "send_each f ((i, h) # r) s =
     send_each f r (case f i h of Some m \<Rightarrow> try_send (ph_tx h) m s | None \<Rightarrow> s)"
  by (simp add: send_each_def)

lemma send_each_append: "send_each f (r @ q) s = send_each f q (send_each f r s)"
  by (simp add: send_each_def)

lemma send_each_untouched:
  "\<forall>(i, h) \<in> set r. ph_tx h = c \<longrightarrow> f i h = None \<Longrightarrow> chans (send_each f r s) c = chans s c"
proof (induction r arbitrary: s)
  case (Cons ih r)
  obtain i h where ih: "ih = (i, h)" by (cases ih)
  from Cons show ?case
    by (auto simp: ih send_each_Cons chans_try_send_other split: option.splits)
qed simp

lemma send_each_hits:
  assumes "distinct (map (ph_tx \<circ> snd) r)" "(i, h) \<in> set r" "f i h = Some m"
  shows "chans (send_each f r s) (ph_tx h) = chans (try_send (ph_tx h) m s) (ph_tx h)"
  using assms
proof (induction r arbitrary: s)
  case (Cons jk r)
  obtain j k where jk: "jk = (j, k)" by (cases jk)
  show ?case
  proof (cases "(i, h) = (j, k)")
    case True
    with Cons.prems have "\<forall>(i', h') \<in> set r. ph_tx h' = ph_tx h \<longrightarrow> f i' h' = None"
      by (force simp: jk)
    from send_each_untouched [OF this] True Cons.prems(3) show ?thesis
      by (simp add: jk send_each_Cons)
  next
    case False
    with Cons.prems have mem: "(i, h) \<in> set r" and ne: "ph_tx k \<noteq> ph_tx h"
      by (force simp: jk)+
    let ?s = "case f j k of Some m \<Rightarrow> try_send (ph_tx k) m s | None \<Rightarrow> s"
    have "chans ?s (ph_tx h) = chans s (ph_tx h)"
      using ne by (simp add: chans_try_send_other split: option.splits)
    moreover have "chans (send_each f r ?s) (ph_tx h) = chans (try_send (ph_tx h) m ?s) (ph_tx h)"
      using Cons.IH [OF _ mem Cons.prems(3)] Cons.prems(1) by (simp add: jk)
    ultimately show ?thesis
      by (simp add: jk send_each_Cons try_send_def)
  qed
qed simp

definition posts :: "(server_msg \<Rightarrow> bool) \<Rightarrow> conn \<Rightarrow> app_state \<Rightarrow> app_state \<Rightarrow> bool" where
  "posts P c s s' \<longleftrightarrow> (\<exists>ms. ch_queue (chans s' c) = ch_queue (chans s c) @ ms \<and> (\<forall>y \<in> set ms. P y))"

lemma posts_refl [simp]: "posts P c s s"
  by (simp add: posts_def)

lemma posts_trans: "posts P c s s' \<Longrightarrow> posts P c s' s'' \<Longrightarrow> posts P c s s''"
  by (auto simp: posts_def)

lemma posts_mono: "posts P c s s' \<Longrightarrow> (\<And>y. P y \<Longrightarrow> Q y) \<Longrightarrow> posts Q c s s'"
  by (auto simp: posts_def)

lemma posts_try_send: "(c = d \<Longrightarrow> P m) \<Longrightarrow> posts P c s (try_send d m s)"
  by (auto simp: posts_def try_send_def)

lemma posts_send_each: "posts (\<lambda>y. \<exists>(i, h) \<in> set r. f i h = Some y \<and> ph_tx h = c) c s (send_each f r s)"
proof (induction r arbitrary: s)
  case (Cons ih r)
  obtain i h where ih: "ih = (i, h)" by (cases ih)
  let ?s = "case f i h of Some m \<Rightarrow> try_send (ph_tx h) m s | None \<Rightarrow> s"
  have "posts (\<lambda>y. \<exists>(i, h) \<in> set (ih # r). f i h = Some y \<and> ph_tx h = c) c s ?s"
    by (auto simp: ih intro: posts_try_send split: option.splits)
  moreover have "posts (\<lambda>y. \<exists>(i, h) \<in> set (ih # r). f i h = Some y \<and> ph_tx h = c) c ?s (send_each f r ?s)"
    by (rule posts_mono [OF Cons.IH]) auto
  ultimately show ?case by (auto simp: ih send_each_Cons intro: posts_trans)
qed simp

section \<open>A join that is granted\<close>

definition seat_free :: "app_state \<Rightarrow> str \<Rightarrow> str \<Rightarrow> bool" where
  "seat_free s room user \<longleftrightarrow>
     (case map_of (rooms s) room of None \<Rightarrow> True | Some r \<Rightarrow> length r < HARD_CAP \<and> map_of r user = None)"

lemma join_granted:
  assumes "sk_me sk = None" and "len_ok room MAX_ID" and "len_ok user MAX_ID" and "len_ok name MAX_NAME"
    and "len_ok secret MAX_SECRET" and "case tok of Some t \<Rightarrow> length t \<le> MAX_TOKEN | None \<Rightarrow> True"
    and "check (x_mac x) (x_hex x) (auth s) room tok" and "seat_free s room user"
  shows "\<exists>s'. on_join x secs tx PROTOCOL_VERSION room user name tok secret s sk = (s', sk\<lparr>sk_me := Some (room, user)\<rparr>, Cont)
    \<and> (\<exists>r. map_of (rooms s') room = Some r \<and> map_of r user = Some \<lparr>ph_name = name, ph_tx = tx, ph_secret = secret\<rparr>)"
proof -
  define r where "r = (case map_of (rooms s) room of None \<Rightarrow> [] | Some r \<Rightarrow> r)"
  have r: "length r < HARD_CAP" "map_of r user = None"
    using assms(8) by (auto simp: seat_free_def r_def HARD_CAP_def split: option.splits)
  obtain s1 where s1: "join_room tx room user name secret s = (s1, True)"
    and seat: "\<exists>r. map_of (rooms s1) room = Some r \<and> map_of r user = Some \<lparr>ph_name = name, ph_tx = tx, ph_secret = secret\<rparr>"
    using r by (auto simp: join_room_def Let_def r_def [symmetric])
  from assms(1-7) s1 have "on_join x secs tx PROTOCOL_VERSION room user name tok secret s sk
      = ((case turn s1 of Some t \<Rightarrow> try_send tx (STurn (mint (x_mac1 x) (x_b64 x) secs t user)) s1 | None \<Rightarrow> s1),
         sk\<lparr>sk_me := Some (room, user)\<rparr>, Cont)"
    by (auto simp: on_join_def split: option.splits)
  with seat show ?thesis by (auto simp: try_send_def split: option.splits)
qed

end
