(* ===== verification/Server_Props.thy ===== *)
theory Server_Props
  imports Server_Safety
begin

text \<open>
  The properties of the signaling server, over every state its interleavings can reach
  (\<open>reachable\<close>), and of its single operations.
\<close>

section \<open>Membership\<close>

text \<open>Claim C34. In every reachable state, room names and the user ids inside a room are unique, no
  room is empty, none holds more than 16 members, and every room name, user id, display name and
  secret held by the server is non-empty and within its byte limit.\<close>

theorem rooms_bounded:
  assumes "reachable x n"
  shows "distinct (map fst (rooms (app n)))
    \<and> (\<forall>room r. map_of (rooms (app n)) room = Some r \<longrightarrow>
         r \<noteq> [] \<and> length r \<le> 16 \<and> distinct (map fst r) \<and> room \<noteq> [] \<and> length room \<le> 64
         \<and> (\<forall>(u, h) \<in> set r. u \<noteq> [] \<and> length u \<le> 64 \<and> ph_name h \<noteq> [] \<and> length (ph_name h) \<le> 64
              \<and> ph_secret h \<noteq> [] \<and> length (ph_secret h) \<le> 64))"
proof -
  have ok: "rooms_ok (rooms (app n))" and seat: "seated n"
    using reachable_ok [OF assms] by (auto simp: net_ok_def)
  have "r \<noteq> [] \<and> length r \<le> 16 \<and> distinct (map fst r) \<and> room \<noteq> [] \<and> length room \<le> 64
      \<and> (\<forall>(u, h) \<in> set r. u \<noteq> [] \<and> length u \<le> 64 \<and> ph_name h \<noteq> [] \<and> length (ph_name h) \<le> 64
           \<and> ph_secret h \<noteq> [] \<and> length (ph_secret h) \<le> 64)"
    if r: "map_of (rooms (app n)) room = Some r" for room r
  proof -
    have rok: "r \<noteq> []" "distinct (map fst r)" "length r \<le> 16"
      using ok r by (auto simp: rooms_ok_def room_ok_def HARD_CAP_def)
    have "handle_of (rooms (app n)) room u = Some h" if "(u, h) \<in> set r" for u h
      using rok that by (simp add: handle_of_def r)
    from seated_lens [OF seat this] have "(u, h) \<in> set r \<Longrightarrow> len_ok room MAX_ID \<and> len_ok u MAX_ID
        \<and> len_ok (ph_name h) MAX_NAME \<and> len_ok (ph_secret h) MAX_SECRET" for u h .
    moreover obtain u h where "(u, h) \<in> set r" using rok(1) by (cases r) auto
    ultimately show ?thesis
      using rok by (fastforce simp: len_ok_def MAX_ID_def MAX_NAME_def MAX_SECRET_def)
  qed
  with ok show ?thesis by (simp add: rooms_ok_def)
qed

text \<open>Claim C2. No ghosts: in every reachable state, whoever a room lists is a running socket that
  knows itself as that member, and no connection is listed twice.\<close>

theorem no_ghost_members:
  assumes "reachable x n" and "handle_of (rooms (app n)) room u = Some h"
  shows "(\<exists>p. socks n (ph_tx h) = Some p \<and> sk_me (ph_sock p) = Some (room, u))
    \<and> (\<forall>room' u' h'. handle_of (rooms (app n)) room' u' = Some h' \<and> ph_tx h' = ph_tx h \<longrightarrow> room' = room \<and> u' = u)"
proof -
  have seat: "seated n" using reachable_ok [OF assms(1)] by (simp add: net_ok_def)
  from seated_sock [OF this assms(2)] obtain p
    where p: "socks n (ph_tx h) = Some p" "sk_me (ph_sock p) = Some (room, u)" by blast
  have "room' = room \<and> u' = u" if "handle_of (rooms (app n)) room' u' = Some h'" "ph_tx h' = ph_tx h" for room' u' h'
    using seated_sock [OF seat that(1)] that(2) p by auto
  with p show ?thesis by blast
qed

text \<open>Claim C1. A seat changes hands only with its secret: in one step of a reachable state, the handle
  of a member stays as it is, or is replaced by one that presents the same secret, or goes away
  in the cleanup of the very connection that holds it.\<close>

theorem takeover_needs_secret:
  assumes "reachable x n" and "srv_step x n n'" and "handle_of (rooms (app n)) room u = Some old"
  shows "handle_of (rooms (app n')) room u = Some old
    \<or> (\<exists>new. handle_of (rooms (app n')) room u = Some new \<and> ph_secret new = ph_secret old)
    \<or> (handle_of (rooms (app n')) room u = None \<and> socks n' (ph_tx old) = None
        \<and> (\<exists>sk. socks n (ph_tx old) = Some (Leaving sk) \<and> sk_me sk = Some (room, u)))"
  using assms(2)
proof cases
  case (frame c sk now secs f s' sk' fl)
  have ok: "rooms_ok (rooms (app n))" using reachable_ok [OF assms(1)] by (simp add: net_ok_def)
  from on_frame_cases [OF ok frame(3)] consider (same) "rooms s' = rooms (app n)"
    | (enter) rm v name tok secret where "enters x c (app n) sk s' sk' rm v name tok secret" by blast
  then show ?thesis
  proof cases
    case same
    with frame assms(3) show ?thesis by simp
  next
    case enter
    then obtain s1 where j: "join_room c rm v name secret (app n) = (s1, True)" and r: "rooms s' = rooms s1"
      by (auto simp: enters_def)
    from join_room_cases(2) [OF j] assms(3)
    have "rm = room \<Longrightarrow> v = u \<Longrightarrow> ph_secret old = secret"
      by (auto simp: handle_of_def bind_eq_Some_conv simp del: map_of_eq_Some_iff)
    with frame assms(3) show ?thesis by (auto simp: r handle_of_join [OF j])
  qed
next
  case (clean c sk)
  show ?thesis
  proof (cases "sk_me sk")
    case None
    with clean assms(3) show ?thesis by (simp add: cleanup_none)
  next
    case (Some p)
    obtain rm v where me: "sk_me sk = Some (rm, v)" using Some by (cases p) auto
    with clean assms(3) show ?thesis
      by (auto simp: handle_of_cleanup [OF me] holds_seat_def)
  qed
qed (use assms(3) in auto)

text \<open>The cleanup of a connection frees its own seat and no other; a superseded connection,
  whose seat another one holds by now, leaves the whole state as it is, so it can neither evict
  its successor nor announce its departure.\<close>

theorem cleanup_own_seat:
  assumes "reachable x n" and "socks n c = Some (Leaving sk)"
  shows "(\<forall>room u. handle_of (rooms (cleanup c sk (app n))) room u =
        (case handle_of (rooms (app n)) room u of
           Some h \<Rightarrow> if ph_tx h = c then None else Some h | None \<Rightarrow> None))
    \<and> ((\<forall>room u h. handle_of (rooms (app n)) room u = Some h \<longrightarrow> ph_tx h \<noteq> c) \<longrightarrow> cleanup c sk (app n) = app n)"
proof (cases "sk_me sk")
  case None
  have "seated n" using reachable_ok [OF assms(1)] by (simp add: net_ok_def)
  then have "ph_tx h \<noteq> c" if "handle_of (rooms (app n)) room u = Some h" for room u h
    using seated_sock [OF _ that] assms(2) None by fastforce
  then show ?thesis by (auto simp: cleanup_none [OF None] split: option.splits)
next
  case (Some p)
  obtain rm v where me: "sk_me sk = Some (rm, v)" using Some by (cases p) auto
  have "seated n" using reachable_ok [OF assms(1)] by (simp add: net_ok_def)
  then have own: "room = rm \<and> u = v" if "handle_of (rooms (app n)) room u = Some h" "ph_tx h = c" for room u h
    using seated_sock [OF _ that(1)] that(2) assms(2) me by fastforce
  have "cleanup c sk (app n) = app n" if "\<forall>room u h. handle_of (rooms (app n)) room u = Some h \<longrightarrow> ph_tx h \<noteq> c"
    using that by (intro cleanup_superseded [OF me]) (auto simp: holds_seat_def split: option.splits)
  moreover have "handle_of (rooms (cleanup c sk (app n))) room u =
        (case handle_of (rooms (app n)) room u of
           Some h \<Rightarrow> if ph_tx h = c then None else Some h | None \<Rightarrow> None)" for room u
    using own by (auto simp: handle_of_cleanup [OF me] holds_seat_def split: option.splits)
  ultimately show ?thesis by blast
qed

text \<open>Claim C13. Entering needs the room's token: if a step seats a connection where it did not sit
  before, then that connection was in no room, the step is a join frame it sent for that very room,
  name and secret, the token in that frame passes the configured check for the room, and the room
  had a free place or this user id was already in it.\<close>

theorem entry_needs_token:
  assumes "reachable x n" and "srv_step x n n'" and "handle_of (rooms (app n')) room u = Some h"
    and "handle_of (rooms (app n)) room u \<noteq> Some h"
  shows "(\<exists>sk text tok now secs. socks n (ph_tx h) = Some (Looping sk) \<and> sk_me sk = None
      \<and> app n' = fst (on_frame x now secs (ph_tx h) (WText text) (app n) sk)
      \<and> x_from_str x text = Inr (Join PROTOCOL_VERSION room u (ph_name h) tok (ph_secret h))
      \<and> check (x_mac x) (x_hex x) (auth (app n)) room tok)
    \<and> (handle_of (rooms (app n)) room u = None \<longrightarrow>
         (case map_of (rooms (app n)) room of Some r \<Rightarrow> length r < HARD_CAP | None \<Rightarrow> True))"
  using assms(2)
proof cases
  case (frame c sk now secs f s' sk' fl)
  have ok: "rooms_ok (rooms (app n))" using reachable_ok [OF assms(1)] by (simp add: net_ok_def)
  from on_frame_cases [OF ok frame(3)] obtain t rm v name tok secret where f: "f = WText t"
      "x_from_str x t = Inr (Join PROTOCOL_VERSION rm v name tok secret)"
    and enter: "enters x c (app n) sk s' sk' rm v name tok secret"
    using frame assms(3,4) by auto
  then obtain s1 where j: "join_room c rm v name secret (app n) = (s1, True)" and r: "rooms s' = rooms s1"
    by (auto simp: enters_def)
  from assms(3,4) frame(1) have here: "rm = room" "v = u" "h = \<lparr>ph_name = name, ph_tx = c, ph_secret = secret\<rparr>"
    by (auto simp: r handle_of_join [OF j] split: if_splits)
  have "HARD_CAP \<le> length (case map_of (rooms (app n)) room of Some r \<Rightarrow> r | None \<Rightarrow> []) \<longrightarrow>
      handle_of (rooms (app n)) room u \<noteq> None"
  proof (cases "map_of (rooms (app n)) room")
    case (Some r)
    then show ?thesis
      using join_room_cases(2) [OF j] here map_of_eq_None_iff [of r u] by (auto simp: handle_of_def)
  qed (simp add: HARD_CAP_def)
  moreover have "app n' = fst (on_frame x now secs c (WText t) (app n) sk)" using frame(1,3) f(1) by simp
  ultimately show ?thesis using enter here frame(2) f(2)
    by (simp add: enters_def split: option.splits) (auto simp: HARD_CAP_def)
next
  case (clean c sk)
  show ?thesis
  proof (cases "sk_me sk")
    case None
    with clean assms(3,4) show ?thesis by (simp add: cleanup_none)
  next
    case (Some p)
    obtain rm v where me: "sk_me sk = Some (rm, v)" using Some by (cases p) auto
    with clean assms(3,4) show ?thesis by (auto simp: handle_of_cleanup [OF me] split: if_splits)
  qed
qed (use assms(3,4) in auto)

section \<open>What the others see\<close>

fun stamped :: "client_msg \<Rightarrow> str \<Rightarrow> str \<Rightarrow> server_msg \<Rightarrow> bool" where
  "stamped (Offer to sdp) from v y \<longleftrightarrow> v = to \<and> y = SOffer from sdp \<and> length sdp \<le> MAX_SDP"
| "stamped (Answer to sdp) from v y \<longleftrightarrow> v = to \<and> y = SAnswer from sdp \<and> length sdp \<le> MAX_SDP"
| "stamped (Ice to cand) from v y \<longleftrightarrow> v = to \<and> y = SIce from cand \<and> length cand \<le> MAX_ICE"
| "stamped (Ptt a) from v y \<longleftrightarrow> v \<noteq> from \<and> y = SPtt from a"
| "stamped Rekey from v y \<longleftrightarrow> (\<exists>who. y = SRekey who)"
| "stamped _ from v y \<longleftrightarrow> False"

definition addressed ::
  "(str \<times> str) option \<Rightarrow> (str \<times> room) list \<Rightarrow> client_msg \<Rightarrow> conn \<Rightarrow> server_msg \<Rightarrow> bool" where
  "addressed me rs m c y \<longleftrightarrow> (\<exists>room src v h. me = Some (room, src) \<and> handle_of rs room v = Some h \<and> ph_tx h = c
      \<and> stamped m src v y)"

lemma posts_relay:
  assumes "\<And>src. stamped m src to (b src)"
  shows "posts (addressed me (rooms s) m c) c s (relay_to me to b s)"
proof (cases me)
  case (Some p)
  obtain room src where me: "p = (room, src)" by (cases p)
  have "posts (addressed me (rooms s) m c) c s (try_send (ph_tx h) (b src) s)"
    if "map_of (rooms s) room = Some r" "map_of r to = Some h" for r h
    using that assms Some me
    by (intro posts_try_send) (fastforce simp: addressed_def handle_of_def simp del: map_of_eq_Some_iff)
  with Some me show ?thesis by (simp add: relay_to_def split: option.split)
qed (simp add: relay_to_def)

lemma posts_room:
  assumes "rooms_ok (rooms s)" and "map_of (rooms s) room = Some r" and "me = Some (room, src)"
    and "\<And>i h y. f i h = Some y \<Longrightarrow> stamped m src i y"
  shows "posts (addressed me (rooms s) m c) c s' (send_each f r s')"
proof (rule posts_mono [OF posts_send_each])
  fix y
  assume "\<exists>(i, h) \<in> set r. f i h = Some y \<and> ph_tx h = c"
  then obtain i h where ih: "(i, h) \<in> set r" "f i h = Some y" "ph_tx h = c" by blast
  have "distinct (map fst r)" using assms(1,2) by (simp add: rooms_ok_def room_ok_def)
  with ih have "handle_of (rooms s) room i = Some h" by (simp add: handle_of_def assms(2))
  with ih assms(3,4) show "addressed me (rooms s) m c y" unfolding addressed_def by blast
qed


lemma update_new: "u \<notin> fst ` set m \<Longrightarrow> AList.update u h m = m @ [(u, h)]"
  by (induction m) auto

lemma chans_rooms [simp]: "chans (s\<lparr>rooms := rs\<rparr>) = chans s"
  by simp

lemma chans_superseded:
  "c \<noteq> ph_tx old \<Longrightarrow> chans (try_send (ph_tx old) m s) c = chans s c"
  by (rule chans_try_send_other)

lemma queue_send_each:
  assumes "distinct (map (ph_tx \<circ> snd) r)" "(i, h) \<in> set r" "f i h = Some m"
    and "ch_open (chans s (ph_tx h))" "length (ch_queue (chans s (ph_tx h))) < PEER_CHAN"
  shows "chans (send_each f r s) (ph_tx h) = \<lparr>ch_queue = ch_queue (chans s (ph_tx h)) @ [m], ch_open = True\<rparr>"
  using send_each_hits [where f = f, OF assms(1-3)] queue_try_send [OF assms(4,5)] by simp

text \<open>The sends of a join: the replaced handle is told, the others hear of the joiner, the joiner gets the
  roster, and all a warning where the room is large.\<close>

definition evicted :: "room \<Rightarrow> str \<Rightarrow> app_state \<Rightarrow> app_state" where
  "evicted r u s =
     (case map_of r u of Some old \<Rightarrow> try_send (ph_tx old) (SError ''superseded'' ''joined from another connection'') s | None \<Rightarrow> s)"

definition welcomed :: "str \<Rightarrow> peer_handle \<Rightarrow> room \<Rightarrow> app_state \<Rightarrow> app_state" where
  "welcomed u me others s =
     try_send (ph_tx me) (SRoster (map (\<lambda>(i, h). \<lparr>pi_user_id = i, pi_name = ph_name h\<rparr>) others))
       (send_each (\<lambda>i h. if i \<noteq> u then Some (SPeerJoined u (ph_name me)) else None) (others @ [(u, me)]) s)"

definition warned :: "room \<Rightarrow> app_state \<Rightarrow> app_state" where
  "warned r s = (if WARN_CAP \<le> length r then send_each (\<lambda>i h. Some (SWarn (length r) WARN_CAP)) r s else s)"

lemma join_sends:
  assumes "join_room tx room u name secret s = (s', True)"
    and "r = (case map_of (rooms s) room of Some r \<Rightarrow> r | None \<Rightarrow> [])" and "others = AList.delete u r"
    and "me = \<lparr>ph_name = name, ph_tx = tx, ph_secret = secret\<rparr>"
  shows "chans s' = chans (warned (others @ [(u, me)]) (welcomed u me others (evicted r u (s\<lparr>rooms := AList.update room r (rooms s)\<rparr>))))"
proof -
  have "u \<notin> fst ` set others" by (simp add: assms(3))
  note up = update_new [OF this, of me]
  have nm: "ph_name me = name" "ph_tx me = tx" by (simp_all add: assms(4))
  show ?thesis
    using assms(1) unfolding join_room_def Let_def assms(2-4) [symmetric] up evicted_def welcomed_def warned_def nm
    by (auto split: if_splits)
qed

lemma evicted_others:
  assumes "distinct (map (ph_tx \<circ> snd) r)" and "\<forall>(i, h) \<in> set r. ph_tx h \<noteq> tx"
    and "c = tx \<or> c \<in> (ph_tx \<circ> snd) ` set (AList.delete u r)"
  shows "chans (evicted r u s) c = chans s c"
proof (cases "map_of r u")
  case (Some old)
  then have mem: "(u, old) \<in> set r" by (rule map_of_SomeD)
  have "c \<noteq> ph_tx old"
  proof
    assume c: "c = ph_tx old"
    with mem assms(2) have "c \<noteq> tx" by auto
    with assms(3) c obtain i h where ih: "(i, h) \<in> set (AList.delete u r)" "ph_tx h = ph_tx old" by auto
    then have "(i, h) \<in> set r" "i \<noteq> u" by (auto simp: AList.delete_eq)
    with assms(1) mem ih(2) show False unfolding distinct_map inj_on_def by fastforce
  qed
  then show ?thesis by (simp add: evicted_def Some chans_try_send_other)
qed (simp add: evicted_def)

definition roomy :: "nat \<Rightarrow> room \<Rightarrow> app_state \<Rightarrow> bool" where
  "roomy n r s \<longleftrightarrow> (\<forall>(i, h) \<in> set r. ch_open (chans s (ph_tx h)) \<and> length (ch_queue (chans s (ph_tx h))) + n \<le> PEER_CHAN)"

lemma welcomed_queues:
  assumes "distinct (map (ph_tx \<circ> snd) (others @ [(u, me)]))" and "u \<notin> fst ` set others" and "roomy 2 (others @ [(u, me)]) s"
  shows "ch_queue (chans (welcomed u me others s) (ph_tx me))
      = ch_queue (chans s (ph_tx me)) @ [SRoster (map (\<lambda>(i, h). \<lparr>pi_user_id = i, pi_name = ph_name h\<rparr>) others)]"
    and "(i, h) \<in> set others \<Longrightarrow> ch_queue (chans (welcomed u me others s) (ph_tx h))
      = ch_queue (chans s (ph_tx h)) @ [SPeerJoined u (ph_name me)]"
    and "roomy 1 (others @ [(u, me)]) (welcomed u me others s)"
proof -
  let ?s = "send_each (\<lambda>i h. if i \<noteq> u then Some (SPeerJoined u (ph_name me)) else None) (others @ [(u, me)]) s"
  have ne: "ph_tx h \<noteq> ph_tx me" if "(i, h) \<in> set others" for i h using that assms(1) by force
  have cap: "ch_open (chans s (ph_tx h)) \<and> length (ch_queue (chans s (ph_tx h))) + 2 \<le> PEER_CHAN"
    if "(i, h) \<in> set (others @ [(u, me)])" for i h
    using that assms(3) unfolding roomy_def by blast
  have "chans ?s (ph_tx me) = chans s (ph_tx me)"
    using ne by (intro send_each_untouched) auto
  then have m: "chans (welcomed u me others s) (ph_tx me) = \<lparr>ch_queue = ch_queue (chans s (ph_tx me))
      @ [SRoster (map (\<lambda>(i, h). \<lparr>pi_user_id = i, pi_name = ph_name h\<rparr>) others)], ch_open = True\<rparr>"
    using cap [of u me] by (simp add: welcomed_def queue_try_send)
  have o: "chans (welcomed u me others s) (ph_tx h) = \<lparr>ch_queue = ch_queue (chans s (ph_tx h)) @ [SPeerJoined u (ph_name me)], ch_open = True\<rparr>"
    if ih: "(i, h) \<in> set others" for i h
  proof -
    have "i \<noteq> u" using ih assms(2) by force
    then have "chans ?s (ph_tx h) = \<lparr>ch_queue = ch_queue (chans s (ph_tx h)) @ [SPeerJoined u (ph_name me)], ch_open = True\<rparr>"
      using ih cap [of i h] by (intro queue_send_each [OF assms(1), of i h]) auto
    with ne [OF ih] show ?thesis by (simp add: welcomed_def chans_try_send_other)
  qed
  show "ch_queue (chans (welcomed u me others s) (ph_tx me))
      = ch_queue (chans s (ph_tx me)) @ [SRoster (map (\<lambda>(i, h). \<lparr>pi_user_id = i, pi_name = ph_name h\<rparr>) others)]"
    using m by simp
  show "(i, h) \<in> set others \<Longrightarrow> ch_queue (chans (welcomed u me others s) (ph_tx h))
      = ch_queue (chans s (ph_tx h)) @ [SPeerJoined u (ph_name me)]"
    using o by simp
  show "roomy 1 (others @ [(u, me)]) (welcomed u me others s)"
    unfolding roomy_def
  proof clarify
    fix i h assume ih: "(i, h) \<in> set (others @ [(u, me)])"
    then consider "(i, h) \<in> set others" | "h = me" by auto
    then show "ch_open (chans (welcomed u me others s) (ph_tx h)) \<and> length (ch_queue (chans (welcomed u me others s) (ph_tx h))) + 1 \<le> PEER_CHAN"
      by cases (use cap [OF ih] in \<open>simp_all add: m o\<close>)
  qed
qed

lemma warned_queue:
  assumes "distinct (map (ph_tx \<circ> snd) r)" and "roomy 1 r s" and "(i, h) \<in> set r"
  shows "ch_queue (chans (warned r s) (ph_tx h)) = ch_queue (chans s (ph_tx h)) @ (if 12 \<le> length r then [SWarn (length r) 12] else [])"
proof -
  have "ch_open (chans s (ph_tx h))" "length (ch_queue (chans s (ph_tx h))) < PEER_CHAN"
    using assms(2,3) unfolding roomy_def by fastforce+
  then show ?thesis
    using queue_send_each [OF assms(1,3), of "\<lambda>i h. Some (SWarn (length r) WARN_CAP)"]
    by (simp add: warned_def WARN_CAP_def)
qed

text \<open>A join tells everyone the truth: the joiner's queue receives the roster of exactly the
  other members (nothing before it), each of them receives one announcement of the joiner, and both
  a warning with the new size when it reaches the warn cap.\<close>

theorem join_announced:
  assumes "join_room tx room u name secret s = (s', True)"
    and "others = AList.delete u (case map_of (rooms s) room of Some r \<Rightarrow> r | None \<Rightarrow> [])"
    and "\<forall>(i, h) \<in> set (case map_of (rooms s) room of Some r \<Rightarrow> r | None \<Rightarrow> []). ph_tx h \<noteq> tx"
    and "distinct (map (ph_tx \<circ> snd) (case map_of (rooms s) room of Some r \<Rightarrow> r | None \<Rightarrow> []))"
    and "\<forall>c \<in> {tx} \<union> (ph_tx \<circ> snd) ` set others. ch_open (chans s c) \<and> length (ch_queue (chans s c)) + 2 \<le> PEER_CHAN"
    and "warn = (if 12 \<le> Suc (length others) then [SWarn (Suc (length others)) 12] else [])"
  shows "ch_queue (chans s' tx) = ch_queue (chans s tx)
        @ SRoster (map (\<lambda>(i, h). \<lparr>pi_user_id = i, pi_name = ph_name h\<rparr>) others) # warn
    \<and> (\<forall>(i, h) \<in> set others. ch_queue (chans s' (ph_tx h)) = ch_queue (chans s (ph_tx h)) @ SPeerJoined u name # warn)"
proof -
  define r me where rm: "r = (case map_of (rooms s) room of Some r \<Rightarrow> r | None \<Rightarrow> [])" "me = \<lparr>ph_name = name, ph_tx = tx, ph_secret = secret\<rparr>"
  let ?s0 = "s\<lparr>rooms := AList.update room r (rooms s)\<rparr>" and ?r2 = "others @ [(u, me)]"
  have oth: "others = AList.delete u r" by (simp add: assms(2) rm)
  have u: "u \<notin> fst ` set others" by (simp add: assms(2))
  have dr: "distinct (map (ph_tx \<circ> snd) r)" and ne: "\<forall>(i, h) \<in> set r. ph_tx h \<noteq> tx" using assms(3,4) by (simp_all add: rm)
  have "distinct (map (ph_tx \<circ> snd) others)" using dr by (simp add: oth AList.delete_eq distinct_map_filter)
  then have d: "distinct (map (ph_tx \<circ> snd) ?r2)" using ne by (auto simp: oth AList.delete_eq rm(2))
  have ev: "chans (evicted r u ?s0) c = chans s c" if "c = tx \<or> c \<in> (ph_tx \<circ> snd) ` set others" for c
    using evicted_others [OF dr ne] that by (simp add: oth)
  have "roomy 2 ?r2 (evicted r u ?s0)"
    unfolding roomy_def
  proof clarify
    fix i h assume "(i, h) \<in> set ?r2"
    then have c: "ph_tx h = tx \<or> ph_tx h \<in> (ph_tx \<circ> snd) ` set others" by (force simp: rm(2))
    then have "ph_tx h \<in> {tx} \<union> (ph_tx \<circ> snd) ` set others" by simp
    with assms(5) show "ch_open (chans (evicted r u ?s0) (ph_tx h)) \<and> length (ch_queue (chans (evicted r u ?s0) (ph_tx h))) + 2 \<le> PEER_CHAN"
      unfolding ev [OF c] by blast
  qed
  note w = welcomed_queues [OF d u this]
  have q: "ch_queue (chans s' (ph_tx h)) = ch_queue (chans (welcomed u me others (evicted r u ?s0)) (ph_tx h)) @ warn"
    if "(i, h) \<in> set ?r2" for i h
    unfolding join_sends [OF assms(1) rm(1) oth rm(2)] warned_queue [OF d w(3) that] assms(6) by simp
  have "ch_queue (chans s' tx) = ch_queue (chans s tx) @ SRoster (map (\<lambda>(i, h). \<lparr>pi_user_id = i, pi_name = ph_name h\<rparr>) others) # warn"
    using q [of u me] w(1) ev [of tx] by (simp add: rm(2))
  moreover have "ch_queue (chans s' (ph_tx h)) = ch_queue (chans s (ph_tx h)) @ SPeerJoined u name # warn"
    if ih: "(i, h) \<in> set others" for i h
  proof -
    have "ph_tx h \<in> (ph_tx \<circ> snd) ` set others" using ih by force
    with q [of i h] w(2) [OF ih] ev [of "ph_tx h"] ih show ?thesis by (simp add: rm(2))
  qed
  ultimately show ?thesis by auto
qed

text \<open>Rekeys are spaced: after a rekey that changed anything, no rekey of any member of that
  room has any effect for the next 5 seconds, as long as the room's entry stands.\<close>

theorem rekey_cooldown:
  assumes "on_rekey t1 sk1 s = s1" and "s1 \<noteq> s"
    and "sk_me sk1 = Some (room, a)" and "sk_me sk2 = Some (room, b)"
    and "rekeys s2 = rekeys s1" and "t1 \<le> t2" and "t2 < t1 + 5000"
  shows "on_rekey t2 sk2 s2 = s2"
proof -
  have "map_of (rekeys s1) room = Some t1"
    using assms(1-3) by (auto simp: on_rekey_def Let_def split: if_splits option.splits)
  with assms(4-7) show ?thesis by (simp add: on_rekey_def REKEY_COOLDOWN_def)
qed

section \<open>A concrete run\<close>

text \<open>Alice joins, reconnects on a second connection with her secret, and the first one ends.\<close>

definition demo_ext :: ext where
  "demo_ext = \<lparr>x_mac = (\<lambda>k m. m), x_mac1 = (\<lambda>k m. m), x_hex = (\<lambda>b. b), x_b64 = (\<lambda>b. b),
     x_from_str = (\<lambda>t. if t = ''a'' then Inr (Join PROTOCOL_VERSION ''room'' ''alice'' ''Alice'' None ''k'')
                      else if t = ''r'' then Inr Rekey else Inl ''bad''),
     x_value = (\<lambda>t. None)\<rparr>"

definition demo_start :: net where
  "demo_start = \<lparr>app = \<lparr>rooms = [], auth = Open, turn = None, sessions = [], rate = [], ws_idle = 60,
     rekeys = [], chans = (\<lambda>c. \<lparr>ch_queue = [], ch_open = False\<rparr>)\<rparr>, socks = Map.empty, next_conn = 0\<rparr>"

definition accept_net :: "nat \<Rightarrow> net \<Rightarrow> net" where
  "accept_net now n = n\<lparr>app := (app n)\<lparr>chans := (chans (app n))(next_conn n := \<lparr>ch_queue = [], ch_open = True\<rparr>)\<rparr>,
     socks := (socks n)(next_conn n \<mapsto> Looping \<lparr>sk_me = None, sk_win = (now, 0)\<rparr>),
     next_conn := Suc (next_conn n)\<rparr>"

definition frame_net :: "ext \<Rightarrow> conn \<Rightarrow> str \<Rightarrow> net \<Rightarrow> net" where
  "frame_net x c t n = (case socks n c of
       Some (Looping sk) \<Rightarrow> (case on_frame x 0 0 c (WText t) (app n) sk of (s', sk', fl) \<Rightarrow>
         n\<lparr>app := s', socks := (socks n)(c \<mapsto> (case fl of Cont \<Rightarrow> Looping sk' | Brk \<Rightarrow> Leaving sk'))\<rparr>)
     | _ \<Rightarrow> n)"

definition end_net :: "conn \<Rightarrow> net \<Rightarrow> net" where
  "end_net c n = (case socks n c of Some (Looping sk) \<Rightarrow> n\<lparr>socks := (socks n)(c \<mapsto> Leaving sk)\<rparr> | _ \<Rightarrow> n)"

lemma reachable_accept: "reachable x n \<Longrightarrow> reachable x (accept_net now n)"
  unfolding accept_net_def by (rule reachable.step) (auto intro: srv_step.accept)

lemma frame_net_step:
  "socks n c = Some (Looping sk) \<Longrightarrow> srv_step x n (frame_net x c t n)"
  by (auto simp: frame_net_def simp del: on_frame.simps split: prod.split intro: srv_step.frame)

lemma reachable_frame:
  assumes "reachable x n" shows "reachable x (frame_net x c t n)"
  using assms reachable.step [OF assms frame_net_step]
  by (cases "socks n c") (auto simp: frame_net_def split: phase.splits)

lemma reachable_end:
  assumes "reachable x n" shows "reachable x (end_net c n)"
  using assms reachable.step [OF assms srv_step.ended]
  by (auto simp: end_net_def split: option.split phase.split)

definition demo1 :: net where "demo1 = accept_net 0 demo_start"
definition demo2 :: net where "demo2 = frame_net demo_ext 0 ''a'' demo1"
definition demo3 :: net where "demo3 = accept_net 0 demo2"
definition demo4 :: net where "demo4 = frame_net demo_ext 1 ''a'' demo3"
definition demo5 :: net where "demo5 = end_net 0 demo4"

lemma demo_reachable: "reachable demo_ext demo1" "reachable demo_ext demo2" "reachable demo_ext demo3"
    "reachable demo_ext demo4" "reachable demo_ext demo5"
proof -
  have "started demo_start" by (simp add: started_def demo_start_def)
  then show r1: "reachable demo_ext demo1" unfolding demo1_def by (intro reachable_accept reachable.start)
  then show r2: "reachable demo_ext demo2" unfolding demo2_def by (rule reachable_frame)
  then show r3: "reachable demo_ext demo3" unfolding demo3_def by (rule reachable_accept)
  then show r4: "reachable demo_ext demo4" unfolding demo4_def by (rule reachable_frame)
  then show "reachable demo_ext demo5" unfolding demo5_def by (rule reachable_end)
qed

definition demo_alice :: "conn \<Rightarrow> peer_handle" where
  "demo_alice c = \<lparr>ph_name = ''Alice'', ph_tx = c, ph_secret = ''k''\<rparr>"

lemma demo_seats:
  "handle_of (rooms (app demo1)) ''room'' ''alice'' = None"
  "handle_of (rooms (app demo2)) ''room'' ''alice'' = Some (demo_alice 0)"
  "handle_of (rooms (app demo3)) ''room'' ''alice'' = Some (demo_alice 0)"
  "handle_of (rooms (app demo4)) ''room'' ''alice'' = Some (demo_alice 1)"
  "handle_of (rooms (app demo5)) ''room'' ''alice'' = Some (demo_alice 1)"
  by code_simp+

theorem rooms_bounded_witness:
  "rooms (app demo4) \<noteq> [] \<and> distinct (map fst (rooms (app demo4)))"
proof -
  have "rooms (app demo4) \<noteq> []" by code_simp
  with rooms_bounded [OF demo_reachable(4)] show ?thesis by blast
qed

theorem no_ghost_members_witness:
  "\<exists>p. socks demo4 1 = Some p \<and> sk_me (ph_sock p) = Some (''room'', ''alice'')"
  using no_ghost_members [OF demo_reachable(4) demo_seats(4)] by (simp add: demo_alice_def)

lemma demo_steps: "srv_step demo_ext demo1 demo2" "srv_step demo_ext demo3 demo4"
proof -
  have "socks demo1 0 = Some (Looping \<lparr>sk_me = None, sk_win = (0, 0)\<rparr>)" by code_simp
  then show "srv_step demo_ext demo1 demo2" unfolding demo2_def by (rule frame_net_step)
  have "socks demo3 1 = Some (Looping \<lparr>sk_me = None, sk_win = (0, 0)\<rparr>)" by code_simp
  then show "srv_step demo_ext demo3 demo4" unfolding demo4_def by (rule frame_net_step)
qed

theorem takeover_needs_secret_witness:
  "\<exists>new. handle_of (rooms (app demo4)) ''room'' ''alice'' = Some new \<and> ph_secret new = ''k''"
  using takeover_needs_secret [OF demo_reachable(3) demo_steps(2) demo_seats(3)] demo_seats(4)
  by (auto simp: demo_alice_def)

theorem cleanup_own_seat_witness:
  "cleanup 0 \<lparr>sk_me = Some (''room'', ''alice''), sk_win = (0, 1)\<rparr> (app demo5) = app demo5"
proof -
  have c: "socks demo5 0 = Some (Leaving \<lparr>sk_me = Some (''room'', ''alice''), sk_win = (0, 1)\<rparr>)" by code_simp
  have one: "rooms (app demo5) = [(''room'', [(''alice'', demo_alice 1)])]" by code_simp
  have "\<forall>room u h. handle_of (rooms (app demo5)) room u = Some h \<longrightarrow> ph_tx h \<noteq> 0"
    by (simp add: one handle_of_def demo_alice_def)
  with cleanup_own_seat [OF demo_reachable(5) c] show ?thesis by blast
qed

theorem entry_needs_token_witness:
  "\<exists>sk text tok. socks demo1 0 = Some (Looping sk)
     \<and> x_from_str demo_ext text = Inr (Join PROTOCOL_VERSION ''room'' ''alice'' ''Alice'' tok ''k'')
     \<and> check (x_mac demo_ext) (x_hex demo_ext) (auth (app demo1)) ''room'' tok"
proof -
  have "handle_of (rooms (app demo1)) ''room'' ''alice'' \<noteq> Some (demo_alice 0)" by (simp add: demo_seats(1))
  from entry_needs_token [OF demo_reachable(1) demo_steps(1) demo_seats(2) this] show ?thesis
    by (simp add: demo_alice_def) blast
qed

lemma demo_rooms_ok: "rooms_ok (rooms (app demo4))"
  using reachable_ok [OF demo_reachable(4)] by (simp add: net_ok_def)


theorem rekey_cooldown_witness:
  "on_rekey 4999 \<lparr>sk_me = Some (''room'', ''bob''), sk_win = (0, 0)\<rparr>
      (on_rekey 0 \<lparr>sk_me = Some (''room'', ''alice''), sk_win = (0, 0)\<rparr> (app demo4)) =
    on_rekey 0 \<lparr>sk_me = Some (''room'', ''alice''), sk_win = (0, 0)\<rparr> (app demo4)"
proof -
  have "rekeys (on_rekey 0 \<lparr>sk_me = Some (''room'', ''alice''), sk_win = (0, 0)\<rparr> (app demo4)) = [(''room'', 0)]"
      "rekeys (app demo4) = []" by code_simp+
  then have "on_rekey 0 \<lparr>sk_me = Some (''room'', ''alice''), sk_win = (0, 0)\<rparr> (app demo4) \<noteq> app demo4" by auto
  from rekey_cooldown [OF refl this] show ?thesis by simp
qed

theorem join_announced_witness:
  "ch_queue (chans (fst (join_room 1 ''room'' ''bob'' ''Bob'' ''q'' (app demo3))) 1) =
     [SRoster [\<lparr>pi_user_id = ''alice'', pi_name = ''Alice''\<rparr>]]"
proof -
  have r: "rooms (app demo3) = [(''room'', [(''alice'', demo_alice 0)])]" by code_simp
  have q: "chans (app demo3) 0 = \<lparr>ch_queue = [SRoster []], ch_open = True\<rparr>"
      "chans (app demo3) 1 = \<lparr>ch_queue = [], ch_open = True\<rparr>" by code_simp+
  have "snd (join_room 1 ''room'' ''bob'' ''Bob'' ''q'' (app demo3))" by code_simp
  then have "join_room 1 ''room'' ''bob'' ''Bob'' ''q'' (app demo3) =
      (fst (join_room 1 ''room'' ''bob'' ''Bob'' ''q'' (app demo3)), True)"
    by (simp add: prod_eq_iff)
  from join_announced [OF this refl _ _ _ refl] show ?thesis
    by (simp add: r q q(2) [unfolded One_nat_def] demo_alice_def PEER_CHAN_def)
qed

text \<open>
  The cooldown table can outlive its room: Alice's first connection, superseded but still open, sends a
  rekey after the second one has left and the room is gone; the entry stays when every socket has ended.
\<close>

definition clean_net :: "conn \<Rightarrow> net \<Rightarrow> net" where
  "clean_net c n = (case socks n c of
     Some (Leaving sk) \<Rightarrow> n\<lparr>app := cleanup c sk (app n), socks := (socks n)(c := None)\<rparr> | _ \<Rightarrow> n)"

lemma reachable_clean:
  assumes "reachable x n" shows "reachable x (clean_net c n)"
  using assms reachable.step [OF assms srv_step.clean]
  by (auto simp: clean_net_def split: option.split phase.split)

definition demo_leak :: net where
  "demo_leak = clean_net 0 (end_net 0 (frame_net demo_ext 0 ''r'' (clean_net 1 (end_net 1 demo4))))"

lemma rekeys_leak:
  "reachable demo_ext demo_leak \<and> rooms (app demo_leak) = [] \<and> rekeys (app demo_leak) = [(''room'', 0)]
   \<and> socks demo_leak 0 = None \<and> socks demo_leak 1 = None"
proof (intro conjI)
  show "reachable demo_ext demo_leak"
    unfolding demo_leak_def by (intro reachable_clean reachable_end reachable_frame demo_reachable)
qed code_simp+

end
