(* ===== verification/Crypto.thy ===== *)
theory Crypto
  imports Prelude
begin

text \<open>
  The hybrid post-quantum layer of \<open>apps/companion-core/src/crypto.rs\<close>: the handshake
  (\<open>Initiator\<close>, \<open>respond\<close>, \<open>derive\<close>), the pairwise \<open>Session\<close> with its counters and
  anti-replay window, and the per-peer store \<open>PeerCrypto\<close>.

  ML-KEM, X25519, HKDF, SHA-256 and ChaCha20-Poly1305 are the fields of \<open>prims\<close>; what the
  code relies on is \<open>aead_ok\<close>, \<open>kem_ok\<close> and \<open>dh_ok\<close>.  Random draws are arguments.
\<close>

section \<open>Primitives\<close>

record prims =
  p_sha256 :: "bytes \<Rightarrow> bytes"
  p_hkdf :: "bytes \<Rightarrow> bytes \<Rightarrow> bytes \<Rightarrow> nat \<Rightarrow> bytes"   \<comment> \<open>salt, ikm, info, length\<close>
  p_encrypt :: "bytes \<Rightarrow> bytes \<Rightarrow> bytes \<Rightarrow> bytes \<Rightarrow> bytes"   \<comment> \<open>key, nonce, aad, message\<close>
  p_decrypt :: "bytes \<Rightarrow> bytes \<Rightarrow> bytes \<Rightarrow> bytes \<Rightarrow> bytes option"
  p_keygen :: "bytes \<Rightarrow> bytes \<times> bytes"   \<comment> \<open>draw to decapsulation and encapsulation key\<close>
  p_ek_ok :: "bytes \<Rightarrow> bool"
  p_ct_ok :: "bytes \<Rightarrow> bool"
  p_encaps :: "bytes \<Rightarrow> bytes \<Rightarrow> (bytes \<times> bytes) option"   \<comment> \<open>key, draw to ciphertext and secret\<close>
  p_decaps :: "bytes \<Rightarrow> bytes \<Rightarrow> bytes option"
  p_xpub :: "bytes \<Rightarrow> bytes"
  p_dh :: "bytes \<Rightarrow> bytes \<Rightarrow> bytes"

text \<open>Decryption inverts encryption; encapsulation succeeds on generated keys and decapsulates to
  the same secret; Diffie-Hellman commutes.\<close>

definition aead_ok :: "prims \<Rightarrow> bool" where
  "aead_ok p \<longleftrightarrow> (\<forall>k n a m. p_decrypt p k n a (p_encrypt p k n a m) = Some m)"

definition kem_ok :: "prims \<Rightarrow> bool" where
  "kem_ok p \<longleftrightarrow> (\<forall>d e. p_ek_ok p (snd (p_keygen p d)) \<and>
     (\<exists>ct ss. p_encaps p (snd (p_keygen p d)) e = Some (ct, ss) \<and> p_ct_ok p ct
        \<and> p_decaps p (fst (p_keygen p d)) ct = Some ss))"

definition dh_ok :: "prims \<Rightarrow> bool" where
  "dh_ok p \<longleftrightarrow> (\<forall>a b. p_dh p a (p_xpub p b) = p_dh p b (p_xpub p a))"

section \<open>Big-endian integers\<close>

fun be_nat :: "nat \<Rightarrow> nat \<Rightarrow> bytes" where
  "be_nat 0 n = []"
| "be_nat (Suc k) n = be_nat k (n div 256) @ [char_of (n mod 256)]"

definition of_be :: "bytes \<Rightarrow> nat" where
  "of_be bs = foldl (\<lambda>a c. a * 256 + byte c) 0 bs"

lemma length_be_nat [simp]: "length (be_nat k n) = k"
  by (induction k arbitrary: n) auto

lemma of_be_snoc: "of_be (bs @ [c]) = of_be bs * 256 + byte c"
  by (simp add: of_be_def)

lemma of_be_be_nat: "of_be (be_nat k n) = n mod 256 ^ k"
proof (induction k arbitrary: n)
  case (Suc k)
  then show ?case
    using mod_mult2_eq [of n 256 "256 ^ k"] by (simp add: of_be_snoc)
qed (simp add: of_be_def)

definition be64 :: "u64 \<Rightarrow> bytes" where
  "be64 w = be_nat 8 (unat w)"

definition be32 :: "u32 \<Rightarrow> bytes" where
  "be32 w = be_nat 4 (unat w)"

lemma length_be [simp]: "length (be64 w) = 8" "length (be32 v) = 4"
  by (simp_all add: be64_def be32_def)

lemma of_be64 [simp]: "word_of_nat (of_be (be64 w)) = w"
proof -
  have "unat w < 256 ^ 8" using unsigned_less [of w] by simp
  then show ?thesis by (simp add: be64_def of_be_be_nat)
qed

lemma of_be32 [simp]: "word_of_nat (of_be (be32 w)) = w"
proof -
  have "unat w < 256 ^ 4" using unsigned_less [of w] by simp
  then show ?thesis by (simp add: be32_def of_be_be_nat)
qed

lemma be64_inj: "be64 a = be64 b \<Longrightarrow> a = b"
  by (metis of_be64)

section \<open>Frame kinds and handshake messages\<close>

datatype kind = Audio | Chat

fun kind_tag :: "kind \<Rightarrow> char" where
  "kind_tag Audio = CHR 0x01"
| "kind_tag Chat = CHR 0x02"

record hello =
  h_kem_pk :: bytes
  h_x_pk :: bytes

record reply =
  r_x_pk :: bytes
  r_kem_ct :: bytes

definition KDF_LABEL :: bytes where "KDF_LABEL = ''rdoc-squadlink-pqc-v1''"

definition kdf_dir :: "prims \<Rightarrow> bytes \<Rightarrow> bytes \<Rightarrow> bytes \<Rightarrow> bytes \<times> bytes" where
  "kdf_dir p salt ikm info =
     (let okm = p_hkdf p salt ikm info 36 in (take 32 okm, take 4 (drop 32 okm)))"

definition transcript :: "prims \<Rightarrow> str \<Rightarrow> str \<Rightarrow> hello \<Rightarrow> reply \<Rightarrow> bytes" where
  "transcript p a_id b_id h r =
     p_sha256 p (KDF_LABEL @ be32 (of_nat (length a_id)) @ a_id @ be32 (of_nat (length b_id)) @ b_id
       @ h_kem_pk h @ h_x_pk h @ r_x_pk r @ r_kem_ct r)"

section \<open>Sessions\<close>

record crypto_session =
  s_send :: bytes
  s_recv :: bytes
  s_send_prefix :: bytes
  s_recv_prefix :: bytes
  s_send_ctr :: u64
  s_recv_max :: u64
  s_recv_window :: u64
  s_fp :: bytes

definition session_new :: "bytes \<Rightarrow> bytes \<Rightarrow> bytes \<Rightarrow> bytes \<Rightarrow> bytes \<Rightarrow> crypto_session" where
  "session_new send_key send_prefix recv_key recv_prefix fp =
     \<lparr>s_send = send_key, s_recv = recv_key, s_send_prefix = send_prefix, s_recv_prefix = recv_prefix,
      s_send_ctr = 0, s_recv_max = 0, s_recv_window = 0, s_fp = fp\<rparr>"

definition derive :: "prims \<Rightarrow> bool \<Rightarrow> bytes \<Rightarrow> bytes \<Rightarrow> str \<Rightarrow> str \<Rightarrow> hello \<Rightarrow> reply \<Rightarrow> crypto_session" where
  "derive p initiator ss_x ss_kem a_id b_id h r =
     (let salt = transcript p a_id b_id h r;
          ikm = ss_x @ ss_kem;
          (k_ab, p_ab) = kdf_dir p salt ikm ''A->B'';
          (k_ba, p_ba) = kdf_dir p salt ikm ''B->A''
      in if initiator then session_new k_ab p_ab k_ba p_ba salt
         else session_new k_ba p_ba k_ab p_ab salt)"

definition hex_digit :: "nat \<Rightarrow> char" where
  "hex_digit n = (if n < 10 then char_of (48 + n) else char_of (55 + n))"

definition hex_upper :: "bytes \<Rightarrow> str" where
  "hex_upper bs = concat (map (\<lambda>b. [hex_digit (byte b div 16), hex_digit (byte b mod 16)]) bs)"

function chunks4 :: "str \<Rightarrow> str list" where
  "chunks4 s = (if s = [] then [] else take 4 s # chunks4 (drop 4 s))"
  by pat_completeness auto
termination by (relation "measure length") (auto simp: neq_Nil_conv)

declare chunks4.simps [simp del]

definition fingerprint :: "crypto_session \<Rightarrow> str" where
  "fingerprint s = join '' '' (chunks4 (hex_upper (take 10 (s_fp s))))"

definition nonce :: "bytes \<Rightarrow> u64 \<Rightarrow> bytes" where
  "nonce pre ctr = pre @ be64 ctr"

definition seal :: "prims \<Rightarrow> kind \<Rightarrow> bytes \<Rightarrow> crypto_session \<Rightarrow> bytes \<times> crypto_session" where
  "seal p k plaintext s =
     (let ctr = s_send_ctr s;
          ct = p_encrypt p (s_send s) (nonce (s_send_prefix s) ctr) [kind_tag k] plaintext
      in (be64 ctr @ ct, s\<lparr>s_send_ctr := ctr + 1\<rparr>))"

definition replay_ok :: "u64 \<Rightarrow> crypto_session \<Rightarrow> bool" where
  "replay_ok ctr s =
     (if s_recv_max s < ctr then True
      else let diff = s_recv_max s - ctr
           in if 64 \<le> diff then False
              else (drop_bit (unat diff) (s_recv_window s)) AND 1 = 0)"

definition replay_mark :: "u64 \<Rightarrow> crypto_session \<Rightarrow> crypto_session" where
  "replay_mark ctr s =
     (if s_recv_max s < ctr then
        let shift = ctr - s_recv_max s;
            w = (if 64 \<le> shift then 0 else push_bit (unat shift) (s_recv_window s))
        in s\<lparr>s_recv_window := w OR 1, s_recv_max := ctr\<rparr>
      else let diff = s_recv_max s - ctr
           in if diff < 64 then s\<lparr>s_recv_window := s_recv_window s OR push_bit (unat diff) 1\<rparr> else s)"

definition open_frame :: "prims \<Rightarrow> kind \<Rightarrow> bytes \<Rightarrow> crypto_session \<Rightarrow> bytes option \<times> crypto_session" where
  "open_frame p k wire s =
     (if length wire < 8 then (None, s)
      else let ctr = word_of_nat (of_be (take 8 wire))
           in if \<not> replay_ok ctr s then (None, s)
              else case p_decrypt p (s_recv s) (nonce (s_recv_prefix s) ctr) [kind_tag k] (drop 8 wire) of
                None \<Rightarrow> (None, s)
              | Some pt \<Rightarrow> (Some pt, replay_mark ctr s))"

section \<open>The anti-replay window refines the set of counters seen\<close>

text \<open>What a receiver needs of any replay guard, and what follows: no counter gets through twice.\<close>

fun let_through :: "('c \<Rightarrow> 's \<Rightarrow> bool) \<Rightarrow> ('c \<Rightarrow> 's \<Rightarrow> 's) \<Rightarrow> 's \<Rightarrow> 'c list \<Rightarrow> 'c list" where
  "let_through ok mark s [] = []"
| "let_through ok mark s (c # cs) =
     (if ok c s then c # let_through ok mark (mark c s) cs else let_through ok mark s cs)"

locale replay_guard =
  fixes ok :: "'c \<Rightarrow> 's \<Rightarrow> bool"
    and mark :: "'c \<Rightarrow> 's \<Rightarrow> 's"
    and refines :: "'s \<Rightarrow> 'c set \<Rightarrow> bool"
  assumes ok_new: "refines s S \<Longrightarrow> ok c s \<Longrightarrow> c \<notin> S"
    and mark_refines: "refines s S \<Longrightarrow> ok c s \<Longrightarrow> refines (mark c s) (insert c S)"
begin

lemma let_through_new: "refines s S \<Longrightarrow> set (let_through ok mark s cs) \<inter> S = {}"
proof (induction cs arbitrary: s S)
  case (Cons c cs)
  then show ?case using ok_new mark_refines by (cases "ok c s") fastforce+
qed simp

lemma let_through_once: "refines s S \<Longrightarrow> distinct (let_through ok mark s cs)"
proof (induction cs arbitrary: s S)
  case (Cons c cs)
  show ?case
  proof (cases "ok c s")
    case True
    with Cons.prems have "refines (mark c s) (insert c S)" by (rule mark_refines)
    with Cons.IH [OF this] let_through_new [OF this, of cs] True show ?thesis by simp
  qed (simp add: Cons.IH [OF Cons.prems])
qed simp

end

text \<open>The window describes the set \<open>S\<close> of counters accepted so far: none is above the maximum, and
  bit \<open>d\<close> says whether the counter \<open>d\<close> below the maximum is in.\<close>

definition window_of :: "crypto_session \<Rightarrow> u64 set \<Rightarrow> bool" where
  "window_of s S \<longleftrightarrow> (\<forall>c \<in> S. c \<le> s_recv_max s)
     \<and> (\<forall>c. c \<le> s_recv_max s \<longrightarrow> unat (s_recv_max s) - unat c < 64 \<longrightarrow>
          bit (s_recv_window s) (unat (s_recv_max s) - unat c) = (c \<in> S))"

lemma low_bit: "(drop_bit n (w :: u64)) AND 1 = 0 \<longleftrightarrow> \<not> bit w n"
  by (simp add: and_one_eq bit_iff_odd_drop_bit even_iff_mod_2_eq_zero [symmetric] mod2_eq_if)

lemma replay_ok_nat:
  "replay_ok c s \<longleftrightarrow> s_recv_max s < c
     \<or> (unat (s_recv_max s) - unat c < 64 \<and> \<not> bit (s_recv_window s) (unat (s_recv_max s) - unat c))"
proof (cases "s_recv_max s < c")
  case False
  then have "unat (s_recv_max s - c) = unat (s_recv_max s) - unat c"
    by (simp add: unat_sub not_less)
  with False show ?thesis
    by (simp add: replay_ok_def Let_def low_bit word_le_nat_alt not_le)
qed (simp add: replay_ok_def)

lemma replay_ok_iff:
  assumes "window_of s S"
  shows "replay_ok c s \<longleftrightarrow> s_recv_max s < c \<or> (unat (s_recv_max s) - unat c < 64 \<and> c \<notin> S)"
  using assms by (auto simp: replay_ok_nat window_of_def)

lemma window_of_start: "s_recv_max s = 0 \<Longrightarrow> s_recv_window s = 0 \<Longrightarrow> window_of s {}"
  by (simp add: window_of_def)

lemma window_of_mark:
  assumes w: "window_of s S" and ok: "replay_ok c s"
  shows "window_of (replay_mark c s) (insert c S)"
proof (cases "s_recv_max s < c")
  case True
  let ?m = "s_recv_max s"
  have sub: "unat (c - ?m) = unat c - unat ?m" using True by (simp add: unat_sub)
  have lt: "unat ?m < unat c" using True by (simp add: word_less_nat_alt)
  have bit: "bit (s_recv_window (replay_mark c s)) k \<longleftrightarrow>
      k = 0 \<or> (unat c - unat ?m \<le> k \<and> bit (s_recv_window s) (k - (unat c - unat ?m)))" if "k < 64" for k
    using that True by (auto simp: replay_mark_def Let_def bit_simps sub word_le_nat_alt not_le)
  have "bit (s_recv_window (replay_mark c s)) (unat c - unat d) \<longleftrightarrow> d \<in> insert c S"
    if d: "d \<le> c" "unat c - unat d < 64" for d
  proof (cases "d \<le> ?m")
    case True
    then have le: "unat d \<le> unat ?m" by (simp add: word_le_nat_alt)
    with lt have "unat c - unat d - (unat c - unat ?m) = unat ?m - unat d" "unat ?m - unat d < 64"
        "unat c - unat d \<noteq> 0" "unat c - unat ?m \<le> unat c - unat d" "d \<noteq> c"
      using d(2) by auto
    with w True show ?thesis by (simp add: bit [OF d(2)] window_of_def)
  next
    case False
    then have "unat ?m < unat d" by (simp add: word_le_nat_alt)
    moreover have "d \<notin> S" using w False by (auto simp: window_of_def)
    moreover have "unat c - unat d = 0 \<longleftrightarrow> d = c" using d(1) by (auto simp: word_le_nat_alt word_unat_eq_iff)
    ultimately show ?thesis using d(1) by (auto simp: bit [OF d(2)] word_le_nat_alt)
  qed
  then show ?thesis
    using w True by (auto simp: window_of_def replay_mark_def Let_def)
next
  case False
  let ?m = "s_recv_max s"
  have sub: "unat (?m - c) = unat ?m - unat c" using False by (simp add: unat_sub not_less)
  have near: "unat ?m - unat c < 64" using ok False by (simp add: replay_ok_nat)
  then have eq: "replay_mark c s = s\<lparr>s_recv_window := s_recv_window s OR push_bit (unat ?m - unat c) 1\<rparr>"
    using False by (simp add: replay_mark_def Let_def sub word_less_nat_alt)
  have same: "unat ?m - unat d = unat ?m - unat c \<longleftrightarrow> d = c" if "d \<le> ?m" for d
    using that False by (auto simp: word_le_nat_alt word_less_nat_alt not_less word_unat_eq_iff)
  show ?thesis
    using w False near same
    by (auto simp: window_of_def eq bit_simps not_less)
qed

interpretation window: replay_guard replay_ok replay_mark window_of
  by unfold_locales (auto simp: replay_ok_iff window_of_mark, auto simp: window_of_def)

section \<open>The handshake\<close>

record initiator =
  i_dk :: bytes
  i_x_secret :: bytes
  i_a_id :: str
  i_b_id :: str
  i_hello :: hello

definition start :: "prims \<Rightarrow> bytes \<Rightarrow> bytes \<Rightarrow> str \<Rightarrow> str \<Rightarrow> initiator \<times> hello" where
  "start p kem_draw x_secret a_id b_id =
     (let (dk, ek) = p_keygen p kem_draw;
          h = \<lparr>h_kem_pk = ek, h_x_pk = p_xpub p x_secret\<rparr>
      in (\<lparr>i_dk = dk, i_x_secret = x_secret, i_a_id = a_id, i_b_id = b_id, i_hello = h\<rparr>, h))"

definition finish :: "prims \<Rightarrow> initiator \<Rightarrow> reply \<Rightarrow> crypto_session option" where
  "finish p i r =
     (if \<not> p_ct_ok p (r_kem_ct r) then None
      else case p_decaps p (i_dk i) (r_kem_ct r) of
        None \<Rightarrow> None
      | Some ss_kem \<Rightarrow>
          Some (derive p True (p_dh p (i_x_secret i) (r_x_pk r)) ss_kem (i_a_id i) (i_b_id i) (i_hello i) r))"

definition respond :: "prims \<Rightarrow> bytes \<Rightarrow> bytes \<Rightarrow> str \<Rightarrow> str \<Rightarrow> hello \<Rightarrow> (reply \<times> crypto_session) option" where
  "respond p enc_draw x_secret a_id b_id h =
     (if \<not> p_ek_ok p (h_kem_pk h) then None
      else case p_encaps p (h_kem_pk h) enc_draw of
        None \<Rightarrow> None
      | Some (kem_ct, ss_kem) \<Rightarrow>
          let ss_x = p_dh p x_secret (h_x_pk h);
              r = \<lparr>r_x_pk = p_xpub p x_secret, r_kem_ct = kem_ct\<rparr>
          in Some (r, derive p False ss_x ss_kem a_id b_id h r))"

section \<open>Per-peer store\<close>

record peer_crypto =
  pc_my_id :: str
  pc_sessions :: "(str \<times> crypto_session) list"
  pc_pending :: "(str \<times> initiator) list"

definition pc_new :: "str \<Rightarrow> peer_crypto" where
  "pc_new my_id = \<lparr>pc_my_id = my_id, pc_sessions = [], pc_pending = []\<rparr>"

definition is_initiator :: "str \<Rightarrow> peer_crypto \<Rightarrow> bool" where
  "is_initiator peer pc \<longleftrightarrow> pc_my_id pc < peer"

definition pc_begin :: "prims \<Rightarrow> bytes \<Rightarrow> bytes \<Rightarrow> str \<Rightarrow> peer_crypto \<Rightarrow> hello option \<times> peer_crypto" where
  "pc_begin p kem_draw x_secret peer pc =
     (if \<not> is_initiator peer pc then (None, pc)
      else let (init, h) = start p kem_draw x_secret (pc_my_id pc) peer
           in (Some h, pc\<lparr>pc_pending := AList.update peer init (pc_pending pc),
                          pc_sessions := AList.delete peer (pc_sessions pc)\<rparr>))"

definition pc_on_hello :: "prims \<Rightarrow> bytes \<Rightarrow> bytes \<Rightarrow> str \<Rightarrow> hello \<Rightarrow> peer_crypto \<Rightarrow> reply option \<times> peer_crypto" where
  "pc_on_hello p enc_draw x_secret peer h pc =
     (if is_initiator peer pc then (None, pc)
      else case respond p enc_draw x_secret peer (pc_my_id pc) h of
        Some (r, sess) \<Rightarrow> (Some r, pc\<lparr>pc_sessions := AList.update peer sess (pc_sessions pc)\<rparr>)
      | None \<Rightarrow> (None, pc))"

definition pc_on_reply :: "prims \<Rightarrow> str \<Rightarrow> reply \<Rightarrow> peer_crypto \<Rightarrow> bool \<times> peer_crypto" where
  "pc_on_reply p peer r pc =
     (let init = map_of (pc_pending pc) peer;
          pc1 = pc\<lparr>pc_pending := AList.delete peer (pc_pending pc)\<rparr>
      in case init of
           None \<Rightarrow> (False, pc1)
         | Some i \<Rightarrow> (case finish p i r of
             Some sess \<Rightarrow> (True, pc1\<lparr>pc_sessions := AList.update peer sess (pc_sessions pc1)\<rparr>)
           | None \<Rightarrow> (False, pc1)))"

definition pc_fingerprint :: "str \<Rightarrow> peer_crypto \<Rightarrow> str option" where
  "pc_fingerprint peer pc = map_option fingerprint (map_of (pc_sessions pc) peer)"

definition is_secure :: "str \<Rightarrow> peer_crypto \<Rightarrow> bool" where
  "is_secure peer pc \<longleftrightarrow> map_of (pc_sessions pc) peer \<noteq> None"

definition pc_seal :: "prims \<Rightarrow> str \<Rightarrow> kind \<Rightarrow> bytes \<Rightarrow> peer_crypto \<Rightarrow> bytes option \<times> peer_crypto" where
  "pc_seal p peer k pt pc =
     (case map_of (pc_sessions pc) peer of
        None \<Rightarrow> (None, pc)
      | Some s \<Rightarrow> (let (w, s1) = seal p k pt s
                  in (Some w, pc\<lparr>pc_sessions := AList.update peer s1 (pc_sessions pc)\<rparr>)))"

definition pc_open :: "prims \<Rightarrow> str \<Rightarrow> kind \<Rightarrow> bytes \<Rightarrow> peer_crypto \<Rightarrow> bytes option \<times> peer_crypto" where
  "pc_open p peer k wire pc =
     (case map_of (pc_sessions pc) peer of
        None \<Rightarrow> (None, pc)
      | Some s \<Rightarrow> (let (m, s1) = open_frame p k wire s
                  in (m, pc\<lparr>pc_sessions := AList.update peer s1 (pc_sessions pc)\<rparr>)))"

definition pc_remove :: "str \<Rightarrow> peer_crypto \<Rightarrow> peer_crypto" where
  "pc_remove peer pc = pc\<lparr>pc_sessions := AList.delete peer (pc_sessions pc),
                          pc_pending := AList.delete peer (pc_pending pc)\<rparr>"

section \<open>Matching sessions\<close>

text \<open>Two ends of one handshake: each direction has one key and prefix, which the sender's counter
  has not used beyond what the receiver saw.\<close>

definition mirrored :: "crypto_session \<Rightarrow> crypto_session \<Rightarrow> bool" where
  "mirrored a b \<longleftrightarrow> s_send a = s_recv b \<and> s_send_prefix a = s_recv_prefix b
     \<and> s_recv a = s_send b \<and> s_recv_prefix a = s_send_prefix b \<and> s_fp a = s_fp b"

lemma derive_mirrored:
  "mirrored (derive p True x k a b h r) (derive p False x k a b h r)"
  by (simp add: mirrored_def derive_def session_new_def Let_def split: prod.split)

lemma derive_fresh:
  "s_send_ctr (derive p i x k a b h r) = 0" "s_recv_max (derive p i x k a b h r) = 0"
  "s_recv_window (derive p i x k a b h r) = 0"
  by (simp_all add: derive_def session_new_def Let_def split: prod.split)

lemma seal_open:
  assumes "aead_ok p" and "mirrored a b" and "seal p k pt a = (w, a')" and "replay_ok (s_send_ctr a) b"
  shows "open_frame p k w b = (Some pt, replay_mark (s_send_ctr a) b)"
  using assms by (auto simp: seal_def open_frame_def Let_def mirrored_def aead_ok_def)

lemma handshake_sessions:
  assumes "kem_ok p" and "dh_ok p" and "start p d x a b = (i, h)"
  shows "\<exists>r sb sa. respond p e y a b h = Some (r, sb) \<and> finish p i r = Some sa \<and> mirrored sa sb
     \<and> s_send_ctr sa = 0 \<and> s_send_ctr sb = 0
     \<and> s_recv_max sa = 0 \<and> s_recv_window sa = 0 \<and> s_recv_max sb = 0 \<and> s_recv_window sb = 0"
proof -
  obtain ct ss where kem: "p_ek_ok p (snd (p_keygen p d))" "p_encaps p (snd (p_keygen p d)) e = Some (ct, ss)"
      "p_ct_ok p ct" "p_decaps p (fst (p_keygen p d)) ct = Some ss"
    using assms(1) unfolding kem_ok_def by blast
  have dh: "p_dh p x (p_xpub p y) = p_dh p y (p_xpub p x)" using assms(2) by (simp add: dh_ok_def)
  define r where "r = \<lparr>r_x_pk = p_xpub p y, r_kem_ct = ct\<rparr>"
  from assms(3) have h: "h = \<lparr>h_kem_pk = snd (p_keygen p d), h_x_pk = p_xpub p x\<rparr>"
    and i: "i = \<lparr>i_dk = fst (p_keygen p d), i_x_secret = x, i_a_id = a, i_b_id = b, i_hello = h\<rparr>"
    by (auto simp: start_def Let_def split: prod.splits)
  have "respond p e y a b h = Some (r, derive p False (p_dh p y (p_xpub p x)) ss a b h r)"
    by (simp add: respond_def h kem r_def Let_def)
  moreover have "finish p i r = Some (derive p True (p_dh p y (p_xpub p x)) ss a b h r)"
    by (simp add: finish_def i kem r_def dh)
  ultimately show ?thesis by (simp add: derive_mirrored derive_fresh)
qed

end
