(* ===== verification/Crypto_Props.thy ===== *)
theory Crypto_Props
  imports Crypto
begin

text \<open>Properties of the pairwise sessions: what a completed handshake gives, that a counter and a
  nonce are used once, and exactly which counters the window still takes.\<close>

section \<open>The handshake gives a channel\<close>

lemma is_initiator_less: "pc_my_id a < pc_my_id b \<Longrightarrow> \<not> is_initiator (pc_my_id a) b"
  by (simp add: is_initiator_def)

text \<open>Claim C7. Hybrid handshake: when the peer with the smaller id begins and both process each other's
  message, both are secure towards each other, show the same fingerprint, and whatever either seals,
  as audio or chat, the other opens to the same plaintext.\<close>

theorem handshake_secures:
  assumes "aead_ok p" and "kem_ok p" and "dh_ok p" and "pc_my_id A < pc_my_id B"
    and "pc_begin p d x (pc_my_id B) A = (ho, A1)"
    and "pc_on_hello p e y (pc_my_id A) (the ho) B = (ro, B1)"
    and "pc_on_reply p (pc_my_id B) (the ro) A1 = (ok, A2)"
  shows "ho \<noteq> None \<and> ro \<noteq> None \<and> ok \<and> is_secure (pc_my_id B) A2 \<and> is_secure (pc_my_id A) B1
    \<and> pc_fingerprint (pc_my_id B) A2 = pc_fingerprint (pc_my_id A) B1
    \<and> (\<forall>k m. \<exists>w A3 B2. pc_seal p (pc_my_id B) k m A2 = (Some w, A3) \<and> pc_open p (pc_my_id A) k w B1 = (Some m, B2))
    \<and> (\<forall>k m. \<exists>w A3 B2. pc_seal p (pc_my_id A) k m B1 = (Some w, B2) \<and> pc_open p (pc_my_id B) k w A2 = (Some m, A3))"
proof -
  obtain i h where st: "start p d x (pc_my_id A) (pc_my_id B) = (i, h)" by fastforce
  from handshake_sessions [OF assms(2,3) st, of e y] obtain r sb sa
    where r: "respond p e y (pc_my_id A) (pc_my_id B) h = Some (r, sb)" and f: "finish p i r = Some sa"
      and m: "mirrored sa sb" and fresh: "s_send_ctr sa = 0" "s_send_ctr sb = 0"
        "s_recv_max sa = 0 \<and> s_recv_window sa = 0" "s_recv_max sb = 0 \<and> s_recv_window sb = 0"
    by blast
  have ho: "ho = Some h" and A1: "map_of (pc_pending A1) (pc_my_id B) = Some i"
    using assms(4,5) st by (auto simp: pc_begin_def is_initiator_def)
  have ro: "ro = Some r" and B1: "map_of (pc_sessions B1) (pc_my_id A) = Some sb"
    using assms(6) is_initiator_less [OF assms(4)] ho r by (auto simp: pc_on_hello_def)
  have ok: "ok" and A2: "map_of (pc_sessions A2) (pc_my_id B) = Some sa"
    using assms(7) ro A1 f by (auto simp: pc_on_reply_def Let_def)
  have m': "mirrored sb sa" using m by (simp add: mirrored_def)
  have ok0: "replay_ok (s_send_ctr sa) sb" "replay_ok (s_send_ctr sb) sa"
    using fresh by (auto simp: replay_ok_nat)
  have "\<exists>w A3 B2. pc_seal p (pc_my_id B) k msg A2 = (Some w, A3) \<and> pc_open p (pc_my_id A) k w B1 = (Some msg, B2)" for k msg
    using seal_open [OF assms(1) m, of k msg] ok0(1)
    by (cases "seal p k msg sa") (simp add: pc_seal_def pc_open_def A2 B1)
  moreover have "\<exists>w A3 B2. pc_seal p (pc_my_id A) k msg B1 = (Some w, B2) \<and> pc_open p (pc_my_id B) k w A2 = (Some msg, A3)" for k msg
    using seal_open [OF assms(1) m', of k msg] ok0(2)
    by (cases "seal p k msg sb") (simp add: pc_seal_def pc_open_def A2 B1)
  moreover have "pc_fingerprint (pc_my_id B) A2 = pc_fingerprint (pc_my_id A) B1"
    using m by (simp add: pc_fingerprint_def A2 B1 fingerprint_def mirrored_def)
  ultimately show ?thesis
    using ok ho ro by (simp add: is_secure_def A2 B1)
qed

section \<open>Counters\<close>

definition wire_ctr_of :: "bytes \<Rightarrow> u64" where
  "wire_ctr_of wire = word_of_nat (of_be (take 8 wire))"

text \<open>The counters of the frames a receiver opens, from any run of bytes an attacker puts before it.\<close>

fun opened :: "prims \<Rightarrow> crypto_session \<Rightarrow> (kind \<times> bytes) list \<Rightarrow> u64 list" where
  "opened p s [] = []"
| "opened p s ((k, w) # ws) =
     (case open_frame p k w s of
        (Some pt, s') \<Rightarrow> wire_ctr_of w # opened p s' ws
      | (None, s') \<Rightarrow> opened p s' ws)"

definition authentic :: "prims \<Rightarrow> bytes \<Rightarrow> bytes \<Rightarrow> kind \<times> bytes \<Rightarrow> bool" where
  "authentic p key pre kw \<longleftrightarrow> 8 \<le> length (snd kw)
     \<and> p_decrypt p key (nonce pre (wire_ctr_of (snd kw))) [kind_tag (fst kw)] (drop 8 (snd kw)) \<noteq> None"

lemma mark_keys [simp]: "s_recv (replay_mark c s) = s_recv s" "s_recv_prefix (replay_mark c s) = s_recv_prefix s"
  by (simp_all add: replay_mark_def Let_def)

lemma opened_let_through:
  "opened p s ws = let_through replay_ok replay_mark s
     (map (wire_ctr_of \<circ> snd) (filter (authentic p (s_recv s) (s_recv_prefix s)) ws))"
proof (induction ws arbitrary: s)
  case (Cons kw ws)
  obtain k w where kw: "kw = (k, w)" by (cases kw)
  show ?case
  proof (cases "authentic p (s_recv s) (s_recv_prefix s) (k, w)")
    case True
    then show ?thesis
      using Cons.IH [of s] Cons.IH [of "replay_mark (wire_ctr_of w) s"]
      by (auto simp: kw open_frame_def authentic_def wire_ctr_of_def Let_def)
  next
    case False
    then have "open_frame p k w s = (None, s)"
      by (auto simp: authentic_def open_frame_def wire_ctr_of_def Let_def)
    with False Cons.IH [of s] show ?thesis by (simp add: kw)
  qed
qed simp

text \<open>Claim C8. No replay: whatever bytes arrive, in whatever order and however often, a session opens
  at most one frame per counter.\<close>

theorem replay_once:
  assumes "window_of s S"
  shows "distinct (opened p s ws) \<and> set (opened p s ws) \<inter> S = {}"
  using window.let_through_once [OF assms] window.let_through_new [OF assms]
  by (simp add: opened_let_through)

lemma refines_run:
  assumes "window_of s S"
  shows "window_of (fold replay_mark (let_through replay_ok replay_mark s cs) s) (set (let_through replay_ok replay_mark s cs) \<union> S)"
  using assms
proof (induction cs arbitrary: s S)
  case (Cons c cs)
  show ?case
  proof (cases "replay_ok c s")
    case True
    with Cons.IH [OF window_of_mark [OF Cons.prems True]] show ?thesis by simp
  qed (simp add: Cons.IH [OF Cons.prems])
qed simp

lemma recv_max_mark: "s_recv_max (replay_mark c s) = max (s_recv_max s) c"
  by (auto simp: replay_mark_def Let_def max_def)

lemma recv_max_in: "s_recv_max s \<in> insert m S \<Longrightarrow> s_recv_max (fold replay_mark cs s) \<in> insert m (set cs \<union> S)"
proof (induction cs arbitrary: s S)
  case (Cons c cs)
  have "s_recv_max (replay_mark c s) \<in> insert m (insert c S)"
    using Cons.prems by (auto simp: recv_max_mark max_def)
  from Cons.IH [OF this] show ?case by auto
qed auto

text \<open>The window is exact: after any traffic on a new session, a counter is still acceptable
  precisely when it was not accepted before and is less than 64 below every counter that was.  So
  reordering by up to 63 frames loses nothing.\<close>

theorem window_exact:
  assumes "s_recv_max s = 0" and "s_recv_window s = 0"
    and "cs = let_through replay_ok replay_mark s arrivals"
  shows "replay_ok c (fold replay_mark cs s) \<longleftrightarrow> c \<notin> set cs \<and> (\<forall>m \<in> set cs. unat m - unat c < 64)"
proof -
  let ?s = "fold replay_mark cs s"
  have w: "window_of ?s (set cs)"
    using refines_run [OF window_of_start [OF assms(1,2)], of arrivals] by (simp add: assms(3))
  have mx: "s_recv_max ?s \<in> insert 0 (set cs)"
    using recv_max_in [of s 0 "{}" cs] assms(1) by simp
  have le: "m \<in> set cs \<Longrightarrow> unat m \<le> unat (s_recv_max ?s)" for m
    using w by (auto simp: window_of_def word_le_nat_alt)
  have far: "(\<forall>m \<in> set cs. unat m - unat c < 64) \<longleftrightarrow> unat (s_recv_max ?s) - unat c < 64"
  proof
    assume "\<forall>m \<in> set cs. unat m - unat c < 64"
    with mx show "unat (s_recv_max ?s) - unat c < 64" by auto
  next
    assume "unat (s_recv_max ?s) - unat c < 64"
    then show "\<forall>m \<in> set cs. unat m - unat c < 64"
      using le by (metis diff_le_mono order_le_less_trans)
  qed
  have "s_recv_max ?s < c \<Longrightarrow> c \<notin> set cs \<and> unat (s_recv_max ?s) - unat c < 64"
    using le [of c] by (auto simp: word_less_nat_alt)
  then show ?thesis
    by (auto simp: replay_ok_iff [OF w] far)
qed

fun seal_all :: "prims \<Rightarrow> (kind \<times> bytes) list \<Rightarrow> crypto_session \<Rightarrow> bytes list \<times> crypto_session" where
  "seal_all p [] s = ([], s)"
| "seal_all p ((k, m) # ms) s =
     (let (w, s1) = seal p k m s; (ws, s2) = seal_all p ms s1 in (w # ws, s2))"

lemma seal_all_frames:
  "fst (seal_all p ms s) = map (\<lambda>i. be64 (s_send_ctr s + of_nat i) @ p_encrypt p (s_send s)
       (nonce (s_send_prefix s) (s_send_ctr s + of_nat i)) [kind_tag (fst (ms ! i))] (snd (ms ! i))) [0..<length ms]"
proof (induction ms arbitrary: s)
  case (Cons km ms)
  obtain k m where km: "km = (k, m)" by (cases km)
  show ?case
    using Cons.IH [of "s\<lparr>s_send_ctr := s_send_ctr s + 1\<rparr>"]
    by (simp add: km seal_def Let_def case_prod_beta upt_conv_Cons map_Suc_upt [symmetric] add.assoc o_def del: upt_Suc)
qed simp

text \<open>Claim C14. Nonces are never reused: up to \<open>2 ^ 64\<close> frames sealed by a session carry pairwise
  different counters, each encrypted under the nonce made of the session's prefix and that counter.\<close>

theorem nonces_fresh:
  assumes "length ms \<le> 2 ^ 64"
  shows "distinct (map (take 8) (fst (seal_all p ms s)))
    \<and> (\<forall>i < length ms. \<exists>ct. fst (seal_all p ms s) ! i = take 8 (fst (seal_all p ms s) ! i) @ ct
         \<and> ct = p_encrypt p (s_send s) (s_send_prefix s @ take 8 (fst (seal_all p ms s) ! i))
                  [kind_tag (fst (ms ! i))] (snd (ms ! i)))"
proof -
  have inj: "i = j" if "i < length ms" "j < length ms" "be64 (s_send_ctr s + of_nat i) = be64 (s_send_ctr s + of_nat j)" for i j
  proof -
    from be64_inj [OF that(3)] have "(of_nat i :: u64) = of_nat j" by simp
    then have "unat (of_nat i :: u64) = unat (of_nat j :: u64)" by simp
    with that(1,2) assms show ?thesis by (simp add: unat_of_nat)
  qed
  then show ?thesis
    by (auto simp: seal_all_frames distinct_map inj_on_def nonce_def)
qed

fun open_all :: "prims \<Rightarrow> (kind \<times> bytes) list \<Rightarrow> crypto_session \<Rightarrow> bytes option list" where
  "open_all p [] s = []"
| "open_all p ((k, w) # ws) s = (case open_frame p k w s of (m, s1) \<Rightarrow> m # open_all p ws s1)"

lemma stream_step:
  assumes "aead_ok p" and "mirrored a b" and "window_of b S" and "\<forall>c \<in> S. c < s_send_ctr a"
    and "s_recv_max b \<le> s_send_ctr a" and "unat (s_send_ctr a) + length ms < 2 ^ 64"
  shows "open_all p (zip (map fst ms) (fst (seal_all p ms a))) b = map (Some \<circ> snd) ms"
  using assms
proof (induction ms arbitrary: a b S)
  case (Cons km ms)
  obtain k m where km: "km = (k, m)" by (cases km)
  let ?c = "s_send_ctr a"
  obtain w a1 where se: "seal p k m a = (w, a1)" by fastforce
  have a1: "a1 = a\<lparr>s_send_ctr := ?c + 1\<rparr>" using se by (simp add: seal_def Let_def)
  have ok: "replay_ok ?c b"
    using Cons.prems(3-5) by (auto simp: replay_ok_iff [OF Cons.prems(3)] word_le_nat_alt)
  have op: "open_frame p k w b = (Some m, replay_mark ?c b)"
    by (rule seal_open [OF Cons.prems(1,2) se ok])
  have up: "unat (?c + 1) = unat ?c + 1"
    using Cons.prems(6) by (simp add: unat_word_ariths)
  have "open_all p (zip (map fst ms) (fst (seal_all p ms a1))) (replay_mark ?c b) = map (Some \<circ> snd) ms"
  proof (rule Cons.IH [of a1 "replay_mark ?c b" "insert ?c S"])
    show "mirrored a1 (replay_mark ?c b)"
      using Cons.prems(2) by (simp add: mirrored_def a1 replay_mark_def Let_def)
    show "window_of (replay_mark ?c b) (insert ?c S)" by (rule window_of_mark [OF Cons.prems(3) ok])
    show "\<forall>c \<in> insert ?c S. c < s_send_ctr a1"
      using Cons.prems(4) up by (auto simp: a1 word_less_nat_alt)
    show "s_recv_max (replay_mark ?c b) \<le> s_send_ctr a1"
      using Cons.prems(5) up by (simp add: a1 recv_max_mark word_le_nat_alt max_def)
    show "unat (s_send_ctr a1) + length ms < 2 ^ 64" using Cons.prems(6) up by (simp add: a1)
  qed (rule assms(1))
  then show ?case by (simp add: km se op Let_def case_prod_beta)
qed simp

text \<open>In order, nothing is lost: over a link that keeps the order, the receiver of a new
  session opens every frame of the sender's run, each to the message that was sealed.\<close>

theorem stream_delivered:
  assumes "aead_ok p" and "mirrored a b" and "s_send_ctr a = 0" and "s_recv_max b = 0" and "s_recv_window b = 0"
    and "length ms < 2 ^ 64"
  shows "open_all p (zip (map fst ms) (fst (seal_all p ms a))) b = map (Some \<circ> snd) ms"
  by (rule stream_step [OF assms(1,2) window_of_start [OF assms(4,5)]]) (use assms in auto)

section \<open>Concrete instances\<close>

text \<open>A stand-in for the primitives that satisfies the laws: the ciphertext is the message with a tag.\<close>

definition demo_prims :: prims where
  "demo_prims = \<lparr>p_sha256 = (\<lambda>m. take 32 m), p_hkdf = (\<lambda>salt ikm info n. take n (info @ ikm @ salt @ replicate n CHR ''0'')),
     p_encrypt = (\<lambda>k n a m. k @ n @ a @ m),
     p_decrypt = (\<lambda>k n a c. if prefix (k @ n @ a) c then Some (drop (length (k @ n @ a)) c) else None),
     p_keygen = (\<lambda>d. (d, d)), p_ek_ok = (\<lambda>k. True), p_ct_ok = (\<lambda>c. True),
     p_encaps = (\<lambda>ek e. Some (e, e @ ek)), p_decaps = (\<lambda>dk c. Some (c @ dk)),
     p_xpub = (\<lambda>x. replicate (length x) CHR ''x''), p_dh = (\<lambda>x y. replicate (length x + length y) CHR ''d'')\<rparr>"

lemma demo_prims_ok: "aead_ok demo_prims" "kem_ok demo_prims" "dh_ok demo_prims"
  by (auto simp: aead_ok_def kem_ok_def dh_ok_def demo_prims_def)

definition demo_pair :: "crypto_session \<times> crypto_session" where
  "demo_pair = (session_new ''k1'' ''aaaa'' ''k2'' ''bbbb'' ''fp'', session_new ''k2'' ''bbbb'' ''k1'' ''aaaa'' ''fp'')"

lemma demo_pair_ok: "mirrored (fst demo_pair) (snd demo_pair)" "s_send_ctr (fst demo_pair) = 0"
    "s_recv_max (snd demo_pair) = 0" "s_recv_window (snd demo_pair) = 0"
  by (simp_all add: demo_pair_def session_new_def mirrored_def)

theorem handshake_secures_witness:
  "is_secure ''bob'' (snd (pc_on_reply demo_prims ''bob''
      (the (fst (pc_on_hello demo_prims ''e'' ''y'' ''al'' (the (fst (pc_begin demo_prims ''d'' ''x'' ''bob'' (pc_new ''al'')))) (pc_new ''bob''))))
      (snd (pc_begin demo_prims ''d'' ''x'' ''bob'' (pc_new ''al'')))))"
  using handshake_secures [OF demo_prims_ok, of "pc_new ''al''" "pc_new ''bob''", OF _
      prod.collapse [symmetric] prod.collapse [symmetric] prod.collapse [symmetric]]
  by (simp add: pc_new_def)

theorem replay_once_witness:
  "distinct (opened demo_prims (snd demo_pair) [(Chat, ''abc''), (Chat, be64 0 @ ''k1'' @ nonce ''aaaa'' 0 @ [kind_tag Chat] @ ''hi'')])"
  using replay_once [OF window_of_start [OF demo_pair_ok(3,4)]] by blast

theorem window_exact_witness:
  "replay_ok 37 (fold replay_mark [100, 99] (snd demo_pair)) \<and> \<not> replay_ok 36 (fold replay_mark [100, 99] (snd demo_pair))"
proof -
  have "[100, 99] = let_through replay_ok replay_mark (snd demo_pair) [100, 99, 100]" by code_simp
  from window_exact [OF demo_pair_ok(3,4) this] show ?thesis by simp
qed

theorem nonces_fresh_witness:
  "distinct (map (take 8) (fst (seal_all demo_prims [(Chat, ''hi''), (Chat, ''hi'')] (fst demo_pair))))"
  using nonces_fresh [of "[(Chat, ''hi''), (Chat, ''hi'')]"] by simp

theorem stream_delivered_witness:
  "open_all demo_prims (zip [Chat, Audio] (fst (seal_all demo_prims [(Chat, ''hi''), (Audio, ''x'')] (fst demo_pair)))) (snd demo_pair)
     = [Some ''hi'', Some ''x'']"
  using stream_delivered [OF demo_prims_ok(1) demo_pair_ok, of "[(Chat, ''hi''), (Audio, ''x'')]"] by simp

end
