(* ===== verification/Room_Audio.thy ===== *)
theory Room_Audio
  imports Crypto_Props
begin

text \<open>
  Group audio keying of \<open>apps/companion-core/src/crypto.rs\<close>: \<open>RoomKey\<close>, the framing of an audio
  payload, and \<open>RoomAudio\<close> with its staged, previous and sending keys.  The nonce of a sealed frame
  is a random draw and so an argument.
\<close>

section \<open>Room keys\<close>

record room_key =
  rk_gen :: u32
  rk_auth :: str
  rk_key :: bytes

definition rk_generate :: "bytes \<Rightarrow> u32 \<Rightarrow> str \<Rightarrow> room_key" where
  "rk_generate draw gen a = \<lparr>rk_gen = gen, rk_auth = a, rk_key = draw\<rparr>"

definition rk_from_bytes :: "u32 \<Rightarrow> str \<Rightarrow> bytes \<Rightarrow> room_key" where
  "rk_from_bytes gen a key = \<lparr>rk_gen = gen, rk_auth = a, rk_key = key\<rparr>"

definition room_aad :: "str \<Rightarrow> bytes" where
  "room_aad sender = kind_tag Audio # sender"

definition seal_audio :: "prims \<Rightarrow> bytes \<Rightarrow> str \<Rightarrow> bytes \<Rightarrow> room_key \<Rightarrow> bytes" where
  "seal_audio p draw sender pt k = draw @ p_encrypt p (rk_key k) draw (room_aad sender) pt"

definition open_audio :: "prims \<Rightarrow> str \<Rightarrow> bytes \<Rightarrow> room_key \<Rightarrow> bytes option" where
  "open_audio p sender wire k =
     (if length wire < 12 then None
      else p_decrypt p (rk_key k) (take 12 wire) (room_aad sender) (drop 12 wire))"

section \<open>The key ring\<close>

definition AUDIO_RAW :: char where "AUDIO_RAW = CHR 0x00"
definition AUDIO_SEALED :: char where "AUDIO_SEALED = CHR 0x01"
definition ROOM_KEY_PREV_SLOTS :: nat where "ROOM_KEY_PREV_SLOTS = 2"

record room_audio =
  ra_send :: "room_key option"
  ra_cur :: "room_key option"
  ra_prev :: "room_key list"

definition ra_new :: room_audio where
  "ra_new = \<lparr>ra_send = None, ra_cur = None, ra_prev = []\<rparr>"

definition ra_generation :: "room_audio \<Rightarrow> u32 option" where
  "ra_generation r = map_option rk_gen (ra_cur r)"

definition ra_sending_generation :: "room_audio \<Rightarrow> u32 option" where
  "ra_sending_generation r = map_option rk_gen (ra_send r)"

definition ra_has_send :: "room_audio \<Rightarrow> bool" where
  "ra_has_send r \<longleftrightarrow> ra_send r \<noteq> None"

definition ra_current :: "room_audio \<Rightarrow> room_key option" where
  "ra_current r = ra_cur r"

definition stage :: "room_key \<Rightarrow> room_audio \<Rightarrow> bool \<times> room_audio" where
  "stage k r =
     (case ra_cur r of
        None \<Rightarrow> (True, r\<lparr>ra_cur := Some k\<rparr>)
      | Some existing \<Rightarrow>
          if \<not> (rk_gen existing < rk_gen k \<or> (rk_gen k = rk_gen existing \<and> rk_auth k < rk_auth existing))
          then (False, r)
          else (True, r\<lparr>ra_cur := Some k, ra_prev := take ROOM_KEY_PREV_SLOTS (existing # ra_prev r)\<rparr>))"

definition held :: "room_audio \<Rightarrow> room_key list" where
  "held r = (case ra_cur r of Some k \<Rightarrow> [k] | None \<Rightarrow> []) @ ra_prev r"

definition promote :: "u32 \<Rightarrow> room_audio \<Rightarrow> room_audio" where
  "promote gen r =
     (case find (\<lambda>k. rk_gen k = gen) (held r) of
        Some k \<Rightarrow> r\<lparr>ra_send := Some k\<rparr>
      | None \<Rightarrow> r)"

definition install :: "room_key \<Rightarrow> room_audio \<Rightarrow> room_audio" where
  "install k r =
     (case stage k r of
        (False, r1) \<Rightarrow> r1
      | (True, r1) \<Rightarrow> (case ra_generation r1 of Some g \<Rightarrow> promote g r1 | None \<Rightarrow> promote (rk_gen k) r1))"

definition seal_outbound :: "prims \<Rightarrow> bytes \<Rightarrow> str \<Rightarrow> bytes \<Rightarrow> room_audio \<Rightarrow> bytes option" where
  "seal_outbound p draw sender opus r =
     (case ra_send r of
        Some k \<Rightarrow> Some (AUDIO_SEALED # be32 (rk_gen k) @ seal_audio p draw sender opus k)
      | None \<Rightarrow> (case ra_cur r of Some _ \<Rightarrow> None | None \<Rightarrow> Some (AUDIO_RAW # opus)))"

fun find_map :: "('a \<Rightarrow> 'b option) \<Rightarrow> 'a list \<Rightarrow> 'b option" where
  "find_map f [] = None"
| "find_map f (x # xs) = (case f x of Some y \<Rightarrow> Some y | None \<Rightarrow> find_map f xs)"

definition open_inbound :: "prims \<Rightarrow> str \<Rightarrow> bytes \<Rightarrow> room_audio \<Rightarrow> bytes option" where
  "open_inbound p sender wire r =
     (case wire of
        [] \<Rightarrow> None
      | tag # rest \<Rightarrow>
          if tag = AUDIO_RAW then (case ra_cur r of Some _ \<Rightarrow> None | None \<Rightarrow> Some rest)
          else if tag = AUDIO_SEALED \<and> 4 \<le> length rest then
            let gen = word_of_nat (of_be (take 4 rest)); body = drop 4 rest
            in find_map (open_audio p sender body) (filter (\<lambda>k. rk_gen k = gen) (held r))
          else None)"

section \<open>Ranks\<close>

text \<open>Which of two keys wins: the newer generation, and within one the smaller authority.\<close>

datatype rank = Rank u32 str

instantiation rank :: linorder
begin

fun less_eq_rank :: "rank \<Rightarrow> rank \<Rightarrow> bool" where
  "Rank g a \<le> Rank h b \<longleftrightarrow> g < h \<or> (g = h \<and> b \<le> a)"

definition less_rank :: "rank \<Rightarrow> rank \<Rightarrow> bool" where
  "less_rank x y \<longleftrightarrow> x \<le> y \<and> \<not> y \<le> (x :: rank)"

instance
proof
  fix x y z :: rank
  show "x < y \<longleftrightarrow> x \<le> y \<and> \<not> y \<le> x" by (simp add: less_rank_def)
  show "x \<le> x" by (cases x) simp
  show "x \<le> y \<Longrightarrow> y \<le> z \<Longrightarrow> x \<le> z" by (cases x; cases y; cases z) auto
  show "x \<le> y \<Longrightarrow> y \<le> x \<Longrightarrow> x = y" by (cases x; cases y) auto
  show "x \<le> y \<or> y \<le> x" by (cases x; cases y) auto
qed

end

definition rank :: "room_key \<Rightarrow> rank" where
  "rank k = Rank (rk_gen k) (rk_auth k)"

lemma rank_less: "rank k < rank k' \<longleftrightarrow> rk_gen k < rk_gen k' \<or> (rk_gen k' = rk_gen k \<and> rk_auth k' < rk_auth k)"
  by (auto simp: rank_def less_rank_def)

lemma stage_rank:
  "stage k r = (case ra_cur r of
      None \<Rightarrow> (True, r\<lparr>ra_cur := Some k\<rparr>)
    | Some e \<Rightarrow> if rank e < rank k
              then (True, r\<lparr>ra_cur := Some k, ra_prev := take ROOM_KEY_PREV_SLOTS (e # ra_prev r)\<rparr>)
              else (False, r))"
  by (auto simp: stage_def rank_less split: option.split)

section \<open>Well-formed rings\<close>

definition ra_ok :: "room_audio \<Rightarrow> bool" where
  "ra_ok r \<longleftrightarrow> sorted_wrt (\<lambda>a b. rank b < rank a) (held r) \<and> length (ra_prev r) \<le> ROOM_KEY_PREV_SLOTS
     \<and> (ra_cur r = None \<longrightarrow> ra_prev r = [] \<and> ra_send r = None)"

lemma ra_ok_new: "ra_ok ra_new"
  by (simp add: ra_ok_def ra_new_def held_def)

lemma sorted_wrt_take: "sorted_wrt P xs \<Longrightarrow> sorted_wrt P (take n xs)"
  by (metis append_take_drop_id sorted_wrt_append)

lemma ra_ok_stage:
  assumes "ra_ok r" shows "ra_ok (snd (stage k r))"
proof (cases "ra_cur r")
  case None
  with assms show ?thesis by (simp add: stage_rank ra_ok_def held_def)
next
  case (Some e)
  have "sorted_wrt (\<lambda>a b. rank b < rank a) (k # take ROOM_KEY_PREV_SLOTS (e # ra_prev r))" if "rank e < rank k"
  proof -
    have s: "sorted_wrt (\<lambda>a b. rank b < rank a) (e # ra_prev r)"
      using assms Some by (simp add: ra_ok_def held_def)
    with that have "sorted_wrt (\<lambda>a b. rank b < rank a) (k # e # ra_prev r)"
      by (auto intro: less_trans)
    from sorted_wrt_take [OF this, of "Suc ROOM_KEY_PREV_SLOTS"] show ?thesis by simp
  qed
  with assms Some show ?thesis by (simp add: stage_rank ra_ok_def held_def)
qed

lemma ra_ok_promote: "ra_ok r \<Longrightarrow> ra_ok (promote g r)"
  by (auto simp: promote_def ra_ok_def held_def split: option.splits)

lemma ra_ok_install: "ra_ok r \<Longrightarrow> ra_ok (install k r)"
  using ra_ok_stage [of r k]
  by (auto simp: install_def ra_ok_promote split: prod.splits bool.splits option.splits)

datatype ra_op = Stage room_key | Promote u32 | Install room_key

fun ra_step :: "ra_op \<Rightarrow> room_audio \<Rightarrow> room_audio" where
  "ra_step (Stage k) r = snd (stage k r)"
| "ra_step (Promote g) r = promote g r"
| "ra_step (Install k) r = install k r"

lemma ra_ok_run: "ra_ok r \<Longrightarrow> ra_ok (fold ra_step ops r)"
proof (induction ops arbitrary: r)
  case (Cons q ops)
  then show ?case by (cases q) (auto intro: ra_ok_stage ra_ok_promote ra_ok_install)
qed simp

lemma cur_promote [simp]: "ra_cur (promote g r) = ra_cur r" "ra_prev (promote g r) = ra_prev r"
    "held (promote g r) = held r"
  by (auto simp: promote_def held_def split: option.splits)

lemma install_stage: "ra_cur (install k r) = ra_cur (snd (stage k r))" "ra_prev (install k r) = ra_prev (snd (stage k r))"
    "held (install k r) = held (snd (stage k r))"
  by (auto simp: install_def held_def split: prod.splits bool.splits option.splits)

text \<open>Once staged, always keyed.\<close>

lemma keyed_step: "ra_cur r \<noteq> None \<Longrightarrow> ra_cur (ra_step q r) \<noteq> None"
  by (cases q) (auto simp: install_stage stage_rank split: option.splits)

lemma keyed_run: "ra_cur r \<noteq> None \<Longrightarrow> ra_cur (fold ra_step ops r) \<noteq> None"
proof (induction ops arbitrary: r)
  case (Cons q ops)
  from Cons.IH [OF keyed_step [OF Cons.prems]] show ?case by simp
qed simp

section \<open>Properties\<close>

lemma open_inbound_sealed:
  assumes "open_inbound p sender w r = Some m" and "ra_cur r \<noteq> None"
  shows "\<exists>k \<in> set (held r). \<exists>g body. w = AUDIO_SEALED # g @ body \<and> length g = 4
    \<and> word_of_nat (of_be g) = rk_gen k \<and> open_audio p sender body k = Some m"
proof -
  have fm: "find_map f xs = Some y \<Longrightarrow> \<exists>x \<in> set xs. f x = Some y" for f :: "room_key \<Rightarrow> bytes option" and xs y
    by (induction xs) (auto split: option.splits)
  from assms obtain rest where w: "w = AUDIO_SEALED # rest" and len: "4 \<le> length rest"
    and f: "find_map (open_audio p sender (drop 4 rest)) (filter (\<lambda>k. rk_gen k = word_of_nat (of_be (take 4 rest))) (held r)) = Some m"
    by (auto simp: open_inbound_def Let_def split: list.splits if_splits option.splits)
  from fm [OF f] obtain k where k: "k \<in> set (held r)" "word_of_nat (of_be (take 4 rest)) = rk_gen k"
      "open_audio p sender (drop 4 rest) k = Some m" by auto
  with w len show ?thesis
    by (intro bexI [of _ k] exI [of _ "take 4 rest"] exI [of _ "drop 4 rest"]) auto
qed

text \<open>Claim C10. No downgrade: from the first staged key on, whatever is staged, promoted or installed
  later, a node never sends a plaintext frame and never plays one; what it plays was authenticated for
  its sender under a key it holds, of the generation the frame names.\<close>

theorem keyed_never_raw:
  assumes "ra_cur r \<noteq> None"
  shows "(\<forall>draw sender opus w. seal_outbound p draw sender opus (fold ra_step ops r) = Some w \<longrightarrow> hd w = AUDIO_SEALED)
    \<and> (\<forall>sender w m. open_inbound p sender w (fold ra_step ops r) = Some m \<longrightarrow>
         (\<exists>k \<in> set (held (fold ra_step ops r)). \<exists>g body. w = AUDIO_SEALED # g @ body \<and> length g = 4
            \<and> word_of_nat (of_be g) = rk_gen k \<and> open_audio p sender body k = Some m))"
proof (intro conjI allI impI)
  fix draw sender opus w
  assume "seal_outbound p draw sender opus (fold ra_step ops r) = Some w"
  then show "hd w = AUDIO_SEALED"
    using keyed_run [OF assms, of ops] by (auto simp: seal_outbound_def split: option.splits)
qed (rule open_inbound_sealed [OF _ keyed_run [OF assms]])

definition stage_all :: "room_key list \<Rightarrow> room_audio \<Rightarrow> room_audio" where
  "stage_all ks r = fold (\<lambda>k r. snd (stage k r)) ks r"

lemma stage_all_best:
  "ra_cur r = Some e \<Longrightarrow> \<exists>k \<in> insert e (set ks). ra_cur (stage_all ks r) = Some k \<and> rank k = Max (rank ` insert e (set ks))"
proof (induction ks arbitrary: r e)
  case (Cons k ks)
  show ?case
  proof (cases "rank e < rank k")
    case True
    with Cons.prems have "ra_cur (snd (stage k r)) = Some k" by (simp add: stage_rank)
    from Cons.IH [OF this] obtain b where b: "b \<in> insert k (set ks)" "ra_cur (stage_all (k # ks) r) = Some b"
        "rank b = Max (rank ` insert k (set ks))" by (auto simp: stage_all_def)
    have "Max (rank ` insert e (set (k # ks))) = Max (insert (rank e) (rank ` insert k (set ks)))" by simp
    also have "\<dots> = max (rank e) (rank b)" by (subst Max_insert) (simp_all add: b(3))
    also have "\<dots> = rank b"
    proof -
      have "rank k \<le> Max (rank ` insert k (set ks))" by (rule Max_ge) auto
      with True have "rank e \<le> rank b" unfolding b(3) by (rule order.trans [OF less_imp_le])
      then show ?thesis by simp
    qed
    finally show ?thesis using b by auto
  next
    case False
    with Cons.prems have "snd (stage k r) = r" by (simp add: stage_rank)
    with Cons.IH [OF Cons.prems] obtain b where b: "b \<in> insert e (set ks)" "ra_cur (stage_all (k # ks) r) = Some b"
        "rank b = Max (rank ` insert e (set ks))" by (auto simp: stage_all_def)
    have "rank ` insert e (set (k # ks)) = insert (rank k) (rank ` insert e (set ks))" by auto
    then have "Max (rank ` insert e (set (k # ks))) = max (rank k) (rank b)"
      by (simp only: b(3)) (subst Max_insert; simp)
    also have "\<dots> = rank b"
    proof -
      have "rank e \<le> Max (rank ` insert e (set ks))" by (rule Max_ge) auto
      with False have "rank k \<le> rank b" unfolding b(3) not_less by (rule order.trans)
      then show ?thesis by simp
    qed
    finally show ?thesis using b by auto
  qed
qed (auto simp: stage_all_def)

lemma stage_all_Max:
  assumes "ks \<noteq> []"
  shows "\<exists>k \<in> set ks. ra_cur (stage_all ks ra_new) = Some k \<and> rank k = Max (rank ` set ks)"
proof -
  obtain k ks' where ks: "ks = k # ks'" using assms by (cases ks) auto
  have "ra_cur (snd (stage k ra_new)) = Some k" by (simp add: stage_rank ra_new_def)
  from stage_all_best [OF this, of ks'] show ?thesis by (simp add: ks stage_all_def)
qed

text \<open>Claim C15. Convergence: two nodes that received the same room keys, in whatever order and however
  often, end with the same current key, the one of the highest generation and within it of the smallest
  authority, provided no two different keys share both.\<close>

theorem stage_converges:
  assumes "ks \<noteq> []" and "set ks = set ks'" and "inj_on rank (set ks)"
  shows "ra_cur (stage_all ks ra_new) = ra_cur (stage_all ks' ra_new)
    \<and> (\<exists>k \<in> set ks. ra_cur (stage_all ks ra_new) = Some k
        \<and> (\<forall>k' \<in> set ks. rk_gen k' < rk_gen k \<or> (rk_gen k' = rk_gen k \<and> rk_auth k \<le> rk_auth k')))"
proof -
  from stage_all_Max [OF assms(1)] obtain k where k: "k \<in> set ks" "ra_cur (stage_all ks ra_new) = Some k"
      "rank k = Max (rank ` set ks)" by blast
  have "ks' \<noteq> []" using assms(1,2) by auto
  from stage_all_Max [OF this] obtain k' where k': "k' \<in> set ks'" "ra_cur (stage_all ks' ra_new) = Some k'"
      "rank k' = Max (rank ` set ks')" by blast
  have "k = k'"
    by (rule inj_onD [OF assms(3)]) (use k k' assms(2) in simp_all)
  moreover have "rank x \<le> rank k" if "x \<in> set ks" for x
    using that by (simp add: k(3))
  ultimately show ?thesis
    using k k' by (fastforce simp: rank_def)
qed

definition is_staging :: "ra_op \<Rightarrow> bool" where
  "is_staging q \<longleftrightarrow> (case q of Promote g \<Rightarrow> False | _ \<Rightarrow> True)"

lemma held_stage_near:
  assumes "k \<in> set (take (Suc i) (held r))" and "ra_cur r \<noteq> None" and "i < 2"
  shows "k \<in> set (take (Suc (Suc i)) (held (snd (stage k' r))))"
proof -
  obtain e where e: "ra_cur r = Some e" using assms(2) by auto
  have h: "held r = e # ra_prev r" by (simp add: held_def e)
  show ?thesis
  proof (cases "rank e < rank k'")
    case True
    then have "held (snd (stage k' r)) = k' # take 2 (held r)"
      by (simp add: stage_rank e held_def ROOM_KEY_PREV_SLOTS_def numeral_2_eq_2)
    with assms(1,3) show ?thesis
      by (simp add: min_def)
  next
    case False
    then show ?thesis
      using assms(1) set_take_subset_set_take [of "Suc i" "Suc (Suc i)" "held r"] by (auto simp: stage_rank e)
  qed
qed

lemma held_run_near:
  assumes "k \<in> set (take (Suc i) (held r))" and "ra_cur r \<noteq> None" and "i + length (filter is_staging ops) \<le> 2"
  shows "k \<in> set (held (fold ra_step ops r))"
  using assms
proof (induction ops arbitrary: r i)
  case Nil
  then show ?case by (auto dest: in_set_takeD)
next
  case (Cons q ops)
  have cur: "ra_cur (ra_step q r) \<noteq> None" by (rule keyed_step [OF Cons.prems(2)])
  show ?case
  proof (cases "is_staging q")
    case True
    with Cons.prems have i: "i < 2" by simp
    have "k \<in> set (take (Suc (Suc i)) (held (ra_step q r)))"
      using held_stage_near [OF Cons.prems(1,2) i] True
      by (cases q) (auto simp: install_stage is_staging_def)
    from Cons.IH [OF this cur] Cons.prems(3) True show ?thesis by simp
  next
    case False
    then have "held (ra_step q r) = held r" by (cases q) (auto simp: is_staging_def)
    with Cons.IH [OF _ cur, of i] Cons.prems False show ?thesis by simp
  qed
qed

lemma find_map_unique:
  assumes "k \<in> set xs" and "f k = Some y" and "set xs \<subseteq> {k}"
  shows "find_map f xs = Some y"
proof -
  obtain x xs' where "xs = x # xs'" using assms(1) by (cases xs) auto
  with assms(2,3) show ?thesis by simp
qed

lemma open_inbound_frame:
  "open_inbound p sender (AUDIO_SEALED # be32 g @ body) r
      = find_map (open_audio p sender body) (filter (\<lambda>k'. rk_gen k' = g) (held r))"
  by (simp add: open_inbound_def AUDIO_RAW_def AUDIO_SEALED_def Let_def)

text \<open>No gap on rekey: once a receiver has staged a key, a frame any sender seals with it
  opens to the same audio, also after up to two more rekeys have been staged or installed.\<close>

theorem rekey_no_gap:
  assumes "aead_ok p" and "stage k r0 = (True, r)" and "length (filter is_staging ops) \<le> 2"
    and "ra_send a = Some k" and "length draw = 12"
    and "\<forall>k' \<in> set (held (fold ra_step ops r)). rk_gen k' = rk_gen k \<longrightarrow> k' = k"
  shows "\<exists>w. seal_outbound p draw sender opus a = Some w \<and> open_inbound p sender w (fold ra_step ops r) = Some opus"
proof -
  have cur: "ra_cur r = Some k" using assms(2) by (auto simp: stage_rank split: option.splits if_splits)
  have "k \<in> set (held (fold ra_step ops r))"
    by (rule held_run_near [of k 0]) (use cur assms(3) in \<open>auto simp: held_def\<close>)
  moreover have "open_audio p sender (seal_audio p draw sender opus k) k = Some opus"
    using assms(1,5) by (simp add: open_audio_def seal_audio_def aead_ok_def)
  ultimately have "find_map (open_audio p sender (seal_audio p draw sender opus k))
      (filter (\<lambda>k'. rk_gen k' = rk_gen k) (held (fold ra_step ops r))) = Some opus"
    using assms(6) by (intro find_map_unique [of k]) auto
  then show ?thesis
    using assms(4) by (simp add: seal_outbound_def open_inbound_frame)
qed

section \<open>Concrete instances\<close>

definition demo_key :: "u32 \<Rightarrow> str \<Rightarrow> room_key" where
  "demo_key g a = \<lparr>rk_gen = g, rk_auth = a, rk_key = ''k''\<rparr>"

theorem keyed_never_raw_witness:
  "open_inbound demo_prims ''bob'' (AUDIO_RAW # ''opus'') (fold ra_step [Stage (demo_key 2 ''al'')] (install (demo_key 1 ''al'') ra_new)) = None"
proof -
  have "ra_cur (install (demo_key 1 ''al'') ra_new) \<noteq> None" by code_simp
  from conjunct2 [OF keyed_never_raw [OF this, of demo_prims "[Stage (demo_key 2 ''al'')]"], rule_format,
      of "''bob''" "AUDIO_RAW # ''opus''"]
  show ?thesis
    by (cases "open_inbound demo_prims ''bob'' (AUDIO_RAW # ''opus'') (fold ra_step [Stage (demo_key 2 ''al'')]
         (install (demo_key 1 ''al'') ra_new))") (auto simp: AUDIO_RAW_def AUDIO_SEALED_def simp del: fold_simps)
qed

theorem stage_converges_witness:
  "ra_cur (stage_all [demo_key 2 ''bob'', demo_key 2 ''al'', demo_key 1 ''al''] ra_new)
     = ra_cur (stage_all [demo_key 1 ''al'', demo_key 2 ''al'', demo_key 2 ''bob'', demo_key 2 ''al''] ra_new)"
proof -
  have "inj_on rank (set [demo_key 2 ''bob'', demo_key 2 ''al'', demo_key 1 ''al''])"
    by (auto simp: inj_on_def rank_def demo_key_def)
  from stage_converges [OF _ _ this, of "[demo_key 1 ''al'', demo_key 2 ''al'', demo_key 2 ''bob'', demo_key 2 ''al'']"]
  show ?thesis by auto
qed

theorem rekey_no_gap_witness:
  "\<exists>w. seal_outbound demo_prims ''123456789012'' ''al'' ''opus'' (install (demo_key 1 ''al'') ra_new) = Some w
     \<and> open_inbound demo_prims ''al'' w (fold ra_step [Stage (demo_key 2 ''al''), Promote 2, Stage (demo_key 3 ''al'')]
          (snd (stage (demo_key 1 ''al'') ra_new))) = Some ''opus''"
proof -
  have st: "stage (demo_key 1 ''al'') ra_new = (True, snd (stage (demo_key 1 ''al'') ra_new))" by code_simp
  have n: "length (filter is_staging [Stage (demo_key 2 ''al''), Promote 2, Stage (demo_key 3 ''al'')]) \<le> 2"
    by (simp add: is_staging_def)
  have a: "ra_send (install (demo_key 1 ''al'') ra_new) = Some (demo_key 1 ''al'')" by code_simp
  have h: "held (fold ra_step [Stage (demo_key 2 ''al''), Promote 2, Stage (demo_key 3 ''al'')] (snd (stage (demo_key 1 ''al'') ra_new)))
      = [demo_key 3 ''al'', demo_key 2 ''al'', demo_key 1 ''al'']" by code_simp
  show ?thesis
    by (rule rekey_no_gap [OF demo_prims_ok(1) st n a]) (unfold h, auto simp: demo_key_def)
qed

end
