(* ===== verification/Keying.thy ===== *)
theory Keying
  imports Room_Audio
begin

text \<open>
  Group-audio key coordination in \<open>apps/companion-core/src/lib.rs\<close>: the room's members as the engine
  sees them, the election of the key authority, \<open>RoomKeyCoordinator\<close> with the actions it hands back,
  and the watchdog rules.  \<open>kc_room\<close> is the shared \<open>RoomAudio\<close>; \<open>kc_timers\<close> collects the
  generations whose grace timers were started.  The key of a mint is a random draw.
\<close>

section \<open>Members\<close>

record member =
  m_name :: str
  m_badge :: "str option"
  m_speaking :: bool
  m_channel :: str
  m_secure :: bool
  m_fingerprint :: "str option"
  m_linked :: bool
  m_down_since :: "nat option"
  m_last_relink :: "nat option"
  m_link_warned :: bool

type_synonym members_map = "(str \<times> member) list"

definition member_new :: "nat \<Rightarrow> str \<Rightarrow> str \<Rightarrow> bool \<Rightarrow> member" where
  "member_new now name channel secure =
     \<lparr>m_name = name, m_badge = None, m_speaking = False, m_channel = channel, m_secure = secure,
      m_fingerprint = None, m_linked = False, m_down_since = Some now, m_last_relink = None,
      m_link_warned = False\<rparr>"

section \<open>The authority\<close>

definition am_authority :: "str \<Rightarrow> members_map \<Rightarrow> bool" where
  "am_authority me ms \<longleftrightarrow> (\<forall>k \<in> fst ` set ms. me < k)"

definition is_authority_peer :: "str \<Rightarrow> str \<Rightarrow> members_map \<Rightarrow> bool" where
  "is_authority_peer src me ms \<longleftrightarrow> src < me \<and> (\<forall>k \<in> fst ` set ms. k = src \<or> src < k)"

section \<open>Watchdog rules\<close>

text \<open>Milliseconds.\<close>

definition ROOM_GEN_BOUND :: u32 where "ROOM_GEN_BOUND = 1024"
definition ROOM_KEY_GRACE :: nat where "ROOM_KEY_GRACE = 400"
definition KEYLESS_WARN_AFTER :: nat where "KEYLESS_WARN_AFTER = 8000"
definition LINK_RETRY_OFFERER :: nat where "LINK_RETRY_OFFERER = 8000"
definition LINK_RETRY_ANSWERER :: nat where "LINK_RETRY_ANSWERER = 24000"
definition LINK_WARN_AFTER :: nat where "LINK_WARN_AFTER = 20000"

definition relink_due :: "str \<Rightarrow> str \<Rightarrow> nat \<Rightarrow> nat \<Rightarrow> bool" where
  "relink_due me_id peer_id down_for since_try \<longleftrightarrow>
     (let due = (if me_id < peer_id then LINK_RETRY_OFFERER else LINK_RETRY_ANSWERER)
      in due \<le> down_for \<and> due \<le> since_try)"

text \<open>The two \<open>&mut\<close> arguments are threaded: since when, and whether it was warned.\<close>

definition keyless_warn_due :: "bool \<Rightarrow> nat option \<Rightarrow> bool \<Rightarrow> nat \<Rightarrow> bool \<times> nat option \<times> bool" where
  "keyless_warn_due keyless since warned now =
     (if \<not> keyless then (False, None, False)
      else let start = (case since of Some t \<Rightarrow> t | None \<Rightarrow> now)
           in if \<not> warned \<and> KEYLESS_WARN_AFTER \<le> now - start then (True, Some start, True)
              else (False, Some start, warned))"

section \<open>The coordinator\<close>

datatype key_action = SendKey str u32 bytes | SendGen str u32

record coordinator =
  kc_me :: str
  kc_room :: room_audio
  kc_room_gen :: u32
  kc_timers :: "u32 list"

definition kc_new :: "str \<Rightarrow> room_audio \<Rightarrow> coordinator" where
  "kc_new me_id room = \<lparr>kc_me = me_id, kc_room = room, kc_room_gen = 0, kc_timers = []\<rparr>"

definition kc_generation :: "coordinator \<Rightarrow> u32 option" where
  "kc_generation c = ra_generation (kc_room c)"

definition adopt :: "room_key \<Rightarrow> coordinator \<Rightarrow> bool \<times> coordinator" where
  "adopt k c =
     (let first = \<not> ra_has_send (kc_room c)
      in case stage k (kc_room c) of
           (False, r) \<Rightarrow> (False, c\<lparr>kc_room := r\<rparr>)
         | (True, r) \<Rightarrow>
             let g = (case ra_generation r of Some g \<Rightarrow> g | None \<Rightarrow> 0);
                 c1 = c\<lparr>kc_room := r, kc_room_gen := max (kc_room_gen c) g\<rparr>
             in (True, if first then c1\<lparr>kc_room := promote g r\<rparr>
                       else c1\<lparr>kc_timers := kc_timers c @ [g]\<rparr>))"

definition rotate_key :: "bytes \<Rightarrow> str list \<Rightarrow> coordinator \<Rightarrow> key_action list \<times> coordinator" where
  "rotate_key draw secure_peers c =
     (let g = sat_inc32 (kc_room_gen c);
          c1 = snd (adopt (rk_generate draw g (kc_me c)) c)
      in case ra_current (kc_room c1) of
           None \<Rightarrow> ([], c1)
         | Some k \<Rightarrow> (map (\<lambda>i. SendKey i (rk_gen k) (rk_key k)) secure_peers, c1))"

definition on_secure :: "bytes \<Rightarrow> str \<Rightarrow> members_map \<Rightarrow> coordinator \<Rightarrow> key_action list \<times> coordinator" where
  "on_secure draw peer ms c =
     (if am_authority (kc_me c) ms then
        let c1 = (if ra_generation (kc_room c) = None
                  then (let c0 = c\<lparr>kc_room_gen := max (kc_room_gen c) 1\<rparr>
                        in snd (adopt (rk_generate draw (kc_room_gen c0) (kc_me c)) c0))
                  else c)
        in (case ra_current (kc_room c1) of
              Some k \<Rightarrow> [SendKey peer (rk_gen k) (rk_key k)] | None \<Rightarrow> [], c1)
      else if is_authority_peer peer (kc_me c) ms then
        (case ra_generation (kc_room c) of Some g \<Rightarrow> [SendGen peer g] | None \<Rightarrow> [], c)
      else ([], c))"

definition on_room_key :: "str \<Rightarrow> u32 \<Rightarrow> bytes \<Rightarrow> members_map \<Rightarrow> coordinator \<Rightarrow> bool \<times> coordinator" where
  "on_room_key src gen key ms c =
     (if is_authority_peer src (kc_me c) ms \<and> gen \<le> sat_add32 (kc_room_gen c) ROOM_GEN_BOUND
      then adopt (rk_from_bytes gen src key) c else (False, c))"

definition on_room_gen :: "bytes \<Rightarrow> str \<Rightarrow> u32 \<Rightarrow> members_map \<Rightarrow> str list \<Rightarrow> coordinator \<Rightarrow> key_action list \<times> coordinator" where
  "on_room_gen draw src gen ms secure_peers c =
     (if am_authority (kc_me c) ms \<and> src \<in> fst ` set ms \<and> kc_room_gen c < gen
         \<and> gen \<le> sat_add32 (kc_room_gen c) ROOM_GEN_BOUND
      then rotate_key draw secure_peers (c\<lparr>kc_room_gen := gen\<rparr>) else ([], c))"

text \<open>The grace timer of a generation fires: the engine promotes it.\<close>

definition on_promote :: "u32 \<Rightarrow> coordinator \<Rightarrow> coordinator" where
  "on_promote g c = c\<lparr>kc_room := promote g (kc_room c)\<rparr>"

definition secure_peer_ids :: "members_map \<Rightarrow> peer_crypto \<Rightarrow> str list" where
  "secure_peer_ids ms pc = filter (\<lambda>i. is_secure i pc) (map fst ms)"

section \<open>What the coordinator relies on\<close>

text \<open>A key store as the coordinator uses it: a staged key is the current one, a rejected one changes
  nothing, a newer generation is always taken, and promoting does not touch what is staged.\<close>

locale key_store =
  fixes stg :: "'k \<Rightarrow> 's \<Rightarrow> bool \<times> 's"
    and cur :: "'s \<Rightarrow> 'k option"
    and gen :: "'k \<Rightarrow> 'g::linorder"
    and prom :: "'g::linorder \<Rightarrow> 's \<Rightarrow> 's"
  assumes staged_current: "stg k s = (True, s') \<Longrightarrow> cur s' = Some k"
    and rejected_same: "stg k s = (False, s') \<Longrightarrow> s' = s"
    and newer_taken: "(\<forall>e. cur s = Some e \<longrightarrow> gen e < gen k) \<Longrightarrow> fst (stg k s)"
    and older_rejected: "cur s = Some e \<Longrightarrow> gen k < gen e \<Longrightarrow> \<not> fst (stg k s)"
    and promote_current: "cur (prom g s) = cur s"
begin

lemma newer_current: "(\<forall>e. cur s = Some e \<longrightarrow> gen e < gen k) \<Longrightarrow> cur (snd (stg k s)) = Some k"
  using newer_taken staged_current by (metis prod.collapse)

lemma gen_grows: "cur s = Some e \<Longrightarrow> \<exists>e'. cur (snd (stg k s)) = Some e' \<and> gen e \<le> gen e'"
  using staged_current rejected_same older_rejected
  by (metis (full_types) linorder_le_less_linear order_refl prod.collapse)

lemma gen_grows_run: "cur s = Some e \<Longrightarrow> \<exists>e'. cur (fold (\<lambda>k s. snd (stg k s)) ks s) = Some e' \<and> gen e \<le> gen e'"
proof (induction ks arbitrary: s e)
  case (Cons k ks)
  from gen_grows [OF Cons.prems, of k] obtain e' where "cur (snd (stg k s)) = Some e'" "gen e \<le> gen e'" by blast
  with Cons.IH [of "snd (stg k s)" e'] show ?case by fastforce
qed simp

end

interpretation ring: key_store stage ra_cur rk_gen promote
  by unfold_locales (auto simp: stage_def split: option.splits if_splits)


section \<open>The coordinator's invariant\<close>

definition kc_ok :: "coordinator \<Rightarrow> bool" where
  "kc_ok c \<longleftrightarrow> ra_ok (kc_room c) \<and> (ra_cur (kc_room c) = None \<longleftrightarrow> ra_send (kc_room c) = None)
     \<and> (\<forall>k. ra_cur (kc_room c) = Some k \<longrightarrow> rk_gen k \<le> kc_room_gen c)"

lemma kc_ok_new: "kc_ok (kc_new me ra_new)"
  by (simp add: kc_ok_def kc_new_def ra_ok_new) (simp add: ra_new_def)

lemma stage_send: "stage k r = (b, r') \<Longrightarrow> ra_send r' = ra_send r"
  by (auto simp: stage_def split: option.splits if_splits)

lemma promote_cur: "ra_cur r = Some k \<Longrightarrow> ra_send (promote (rk_gen k) r) = Some k"
  by (simp add: promote_def held_def)

lemma adopt_rejected: "adopt k c = (False, c') \<Longrightarrow> c' = c"
  using ring.rejected_same by (fastforce simp: adopt_def Let_def split: prod.splits bool.splits)

lemma adopt_taken:
  assumes "adopt k c = (True, c')"
  shows "ra_cur (kc_room c') = Some k" "kc_room_gen c' = max (kc_room_gen c) (rk_gen k)" "kc_me c' = kc_me c"
    "fst (stage k (kc_room c))"
    "ra_send (kc_room c') = (if ra_send (kc_room c) = None then Some k else ra_send (kc_room c))"
proof -
  obtain r where st: "stage k (kc_room c) = (True, r)"
    using assms by (auto simp: adopt_def Let_def split: prod.splits bool.splits)
  have cur: "ra_cur r = Some k" by (rule ring.staged_current [OF st])
  have send: "ra_send r = ra_send (kc_room c)" by (rule stage_send [OF st])
  have c': "c' = (if ra_send (kc_room c) = None
      then c\<lparr>kc_room := promote (rk_gen k) r, kc_room_gen := max (kc_room_gen c) (rk_gen k)\<rparr>
      else c\<lparr>kc_room := r, kc_room_gen := max (kc_room_gen c) (rk_gen k), kc_timers := kc_timers c @ [rk_gen k]\<rparr>)"
    using assms by (auto simp: adopt_def st Let_def ra_generation_def cur ra_has_send_def split: if_splits)
  show "ra_cur (kc_room c') = Some k" "kc_room_gen c' = max (kc_room_gen c) (rk_gen k)" "kc_me c' = kc_me c"
    "ra_send (kc_room c') = (if ra_send (kc_room c) = None then Some k else ra_send (kc_room c))"
    by (simp_all add: c' cur send promote_cur)
  show "fst (stage k (kc_room c))" by (simp add: st)
qed

lemma kc_ok_adopt:
  assumes "kc_ok c" and "adopt k c = (b, c')"
  shows "kc_ok c' \<and> kc_room_gen c \<le> kc_room_gen c' \<and> kc_me c' = kc_me c"
proof (cases b)
  case True
  with assms(2) have "adopt k c = (True, c')" by simp
  note t = adopt_taken [OF this]
  obtain r where st: "stage k (kc_room c) = (True, r)" using t(4) by (cases "stage k (kc_room c)") auto
  have "ra_ok r" using ra_ok_stage [of "kc_room c" k] assms(1) st by (simp add: kc_ok_def)
  then have "ra_ok (kc_room c')"
    using assms(2) True ra_ok_promote by (auto simp: adopt_def st Let_def split: if_splits)
  then show ?thesis using t by (simp add: kc_ok_def)
next
  case False
  with assms(2) have "c' = c" by (auto intro: adopt_rejected)
  with assms(1) show ?thesis by simp
qed

lemma adopt_newer:
  assumes "\<forall>e. ra_cur (kc_room c) = Some e \<longrightarrow> rk_gen e < rk_gen k"
  shows "fst (adopt k c)"
  using ring.newer_taken [OF assms] by (auto simp: adopt_def Let_def split: prod.splits bool.splits)

lemma le_sat_add32: "gen \<le> sat_add32 a b \<longleftrightarrow> unat gen \<le> unat a + unat b"
  using unat_lt32 [of gen] by (auto simp: word_le_nat_alt unat_sat_add32)

lemma unat_bound [simp]: "unat ROOM_GEN_BOUND = 1024"
  by (simp add: ROOM_GEN_BOUND_def)

lemma rotate_cases:
  "rotate_key draw ps c = (acts, c') \<Longrightarrow>
   c' = snd (adopt (rk_generate draw (sat_inc32 (kc_room_gen c)) (kc_me c)) c)"
  by (auto simp: rotate_key_def Let_def split: option.splits)

datatype kc_op =
    OpSecure bytes str members_map
  | OpRotate bytes "str list"
  | OpRoomKey str u32 bytes members_map
  | OpRoomGen bytes str u32 members_map "str list"
  | OpPromote u32

fun kc_step :: "kc_op \<Rightarrow> coordinator \<Rightarrow> coordinator" where
  "kc_step (OpSecure draw peer ms) c = snd (on_secure draw peer ms c)"
| "kc_step (OpRotate draw ps) c = snd (rotate_key draw ps c)"
| "kc_step (OpRoomKey src gen key ms) c = snd (on_room_key src gen key ms c)"
| "kc_step (OpRoomGen draw src gen ms ps) c = snd (on_room_gen draw src gen ms ps c)"
| "kc_step (OpPromote g) c = on_promote g c"

definition kc_better :: "coordinator \<Rightarrow> coordinator \<Rightarrow> bool" where
  "kc_better c c' \<longleftrightarrow> kc_ok c' \<and> kc_room_gen c \<le> kc_room_gen c' \<and> kc_me c' = kc_me c"

lemma kc_better_adopt: "kc_ok c \<Longrightarrow> kc_better c (snd (adopt k c))"
  using kc_ok_adopt [of c k] by (cases "adopt k c") (auto simp: kc_better_def)

lemma kc_better_rotate: "kc_ok c \<Longrightarrow> kc_better c (snd (rotate_key draw ps c))"
  using rotate_cases [of draw ps c] kc_better_adopt by (metis prod.collapse)

lemma kc_ok_raise: "kc_ok c \<Longrightarrow> kc_room_gen c \<le> g \<Longrightarrow> kc_ok (c\<lparr>kc_room_gen := g\<rparr>)"
  by (auto simp: kc_ok_def intro: order.trans)

lemma kc_better_step:
  assumes "kc_ok c" shows "kc_better c (kc_step q c)"
proof (cases q)
  case (OpSecure draw peer ms)
  have raised: "kc_ok (c\<lparr>kc_room_gen := max (kc_room_gen c) 1\<rparr>)"
    by (rule kc_ok_raise [OF assms]) simp
  show ?thesis
    using kc_better_adopt [OF raised] assms
    by (auto simp: OpSecure on_secure_def Let_def kc_better_def)
next
  case (OpRotate draw ps)
  then show ?thesis using kc_better_rotate [OF assms] by simp
next
  case (OpRoomKey src gen key ms)
  then show ?thesis using kc_better_adopt [OF assms] assms by (simp add: on_room_key_def kc_better_def)
next
  case (OpRoomGen draw src gen ms ps)
  have "kc_better (c\<lparr>kc_room_gen := gen\<rparr>) (snd (rotate_key draw ps (c\<lparr>kc_room_gen := gen\<rparr>)))" if "kc_room_gen c < gen"
    by (rule kc_better_rotate [OF kc_ok_raise [OF assms]]) (use that in simp)
  with assms show ?thesis
    by (auto simp: OpRoomGen on_room_gen_def kc_better_def)
next
  case (OpPromote g)
  have "ra_send (promote g r) = None \<longleftrightarrow> ra_send r = None" if "ra_cur r = None \<longleftrightarrow> ra_send r = None" "ra_ok r" for r
    using that by (auto simp: promote_def held_def ra_ok_def split: option.splits)
  with assms show ?thesis
    by (simp add: OpPromote on_promote_def kc_better_def kc_ok_def ra_ok_promote)
qed

lemma kc_better_run: "kc_ok c \<Longrightarrow> kc_better c (fold kc_step ops c)"
proof (induction ops arbitrary: c)
  case (Cons q ops)
  from kc_better_step [OF Cons.prems, of q] Cons.IH [of "kc_step q c"] show ?case
    by (auto simp: kc_better_def simp del: kc_step.simps)
qed (simp add: kc_better_def)

end
