(* ===== verification/Keying_Props.thy ===== *)
theory Keying_Props
  imports Keying
begin

text \<open>Properties of the election and of the group key's life: one authority, no hijack, convergence
  after a rotation and after a late authority, and a node that is never silenced once keyed.\<close>

section \<open>Election\<close>

text \<open>Exactly one authority: when every node of a room lists exactly the others, a node takes
  itself for the authority precisely when its id is the smallest, and every other node takes precisely
  that node for it; so all agree without a message.\<close>

theorem authority_unique:
  assumes "finite ids" and "me \<in> ids" and "\<forall>v \<in> ids. fst ` set (view v) = ids - {v}"
  shows "(am_authority me (view me) \<longleftrightarrow> me = Min ids)
    \<and> (\<forall>src \<in> ids - {me}. is_authority_peer src me (view me) \<longleftrightarrow> src = Min ids)"
proof (intro conjI ballI)
  have view: "fst ` set (view me) = ids - {me}" using assms(2,3) by blast
  have "am_authority me (view me) \<longleftrightarrow> (\<forall>k \<in> ids. me \<le> k)"
    by (auto simp: am_authority_def view order.order_iff_strict)
  also have "\<dots> \<longleftrightarrow> me = Min ids"
    using assms(1,2) by (metis Min_eqI Min_le)
  finally show "am_authority me (view me) \<longleftrightarrow> me = Min ids" .
  fix src assume src: "src \<in> ids - {me}"
  have "is_authority_peer src me (view me) \<longleftrightarrow> (\<forall>k \<in> ids. src \<le> k)"
    using src assms(2) by (auto simp: is_authority_peer_def view order.order_iff_strict)
  also have "\<dots> \<longleftrightarrow> src = Min ids"
    using assms(1) src by (metis DiffD1 Min_eqI Min_le)
  finally show "is_authority_peer src me (view me) \<longleftrightarrow> src = Min ids" .
qed

section \<open>Receiving a key\<close>

text \<open>Claim C11. No hijack: a room key is taken exactly when it comes from the peer this node holds for the
  authority, its generation is at most 1024 above everything seen, and it beats the current key; then it is
  the current key, and otherwise nothing at all changes.\<close>

theorem room_key_adoption:
  shows "(fst (on_room_key src gen key ms c) \<longleftrightarrow>
       is_authority_peer src (kc_me c) ms \<and> unat gen \<le> unat (kc_room_gen c) + 1024
       \<and> (case ra_cur (kc_room c) of None \<Rightarrow> True
          | Some e \<Rightarrow> rk_gen e < gen \<or> (rk_gen e = gen \<and> src < rk_auth e)))
    \<and> (if fst (on_room_key src gen key ms c)
       then ra_cur (kc_room (snd (on_room_key src gen key ms c))) = Some \<lparr>rk_gen = gen, rk_auth = src, rk_key = key\<rparr>
       else snd (on_room_key src gen key ms c) = c)"
proof -
  let ?k = "rk_from_bytes gen src key"
  have taken: "fst (adopt ?k c) \<longleftrightarrow> fst (stage ?k (kc_room c))"
    by (auto simp: adopt_def Let_def split: prod.splits bool.splits)
  have st: "fst (stage ?k (kc_room c)) \<longleftrightarrow> (case ra_cur (kc_room c) of None \<Rightarrow> True
          | Some e \<Rightarrow> rk_gen e < gen \<or> (rk_gen e = gen \<and> src < rk_auth e))"
    by (auto simp: stage_def rk_from_bytes_def split: option.splits)
  have "fst (adopt ?k c) \<Longrightarrow> ra_cur (kc_room (snd (adopt ?k c))) = Some ?k"
    using adopt_taken(1) [of ?k c "snd (adopt ?k c)"] by (cases "adopt ?k c") auto
  moreover have "\<not> fst (adopt ?k c) \<Longrightarrow> snd (adopt ?k c) = c"
    using adopt_rejected [of ?k c "snd (adopt ?k c)"] by (cases "adopt ?k c") auto
  ultimately show ?thesis
    by (simp add: on_room_key_def taken st le_sat_add32) (auto simp: rk_from_bytes_def)
qed

section \<open>Rotation\<close>

lemma sat_inc_less: "g \<noteq> - 1 \<Longrightarrow> g < sat_inc32 g" "unat g + 1 < 2 ^ 32 \<Longrightarrow> unat (sat_inc32 g) = unat g + 1"
proof -
  assume "g \<noteq> - 1"
  then have "unat g \<noteq> 2 ^ 32 - 1" using word_unat_eq_iff [of g "- 1"] unat_max32 by auto
  with unat_lt32 [of g] show "g < sat_inc32 g" by (simp add: word_less_nat_alt unat_sat_inc32)
qed (simp add: unat_sat_inc32)

lemma rotate_fresh:
  assumes "kc_ok c" and "kc_room_gen c \<noteq> - 1" and "rotate_key draw ps c = (acts, c')"
  defines "k \<equiv> \<lparr>rk_gen = sat_inc32 (kc_room_gen c), rk_auth = kc_me c, rk_key = draw\<rparr>"
  shows "ra_cur (kc_room c') = Some k \<and> kc_room_gen c' = rk_gen k \<and> acts = map (\<lambda>i. SendKey i (rk_gen k) draw) ps"
proof -
  have lt: "kc_room_gen c < rk_gen k" using sat_inc_less(1) [OF assms(2)] by (simp add: k_def)
  have gen: "rk_generate draw (sat_inc32 (kc_room_gen c)) (kc_me c) = k" by (simp add: rk_generate_def k_def)
  have "\<forall>e. ra_cur (kc_room c) = Some e \<longrightarrow> rk_gen e < rk_gen k"
    using assms(1) lt by (auto simp: kc_ok_def)
  then obtain c1 where a: "adopt k c = (True, c1)" using adopt_newer [of c k] by (cases "adopt k c") auto
  note t = adopt_taken [OF a]
  have "c' = c1" "acts = map (\<lambda>i. SendKey i (rk_gen k) draw) ps"
    using assms(3) by (auto simp: rotate_key_def gen a Let_def ra_current_def t(1)) (simp_all add: k_def)
  moreover have "max (kc_room_gen c) (rk_gen k) = rk_gen k" using lt by (intro max_absorb2 less_imp_le)
  ultimately show ?thesis using t by simp
qed

text \<open>A rotation gives a fresh epoch: below the last generation, the node that rotates ends on a
  new key of its own one generation up, and hands exactly that key to exactly the peers it has a pairwise
  session with.  A member that has left is not among them.\<close>

theorem rotation_fresh_epoch:
  assumes "kc_ok c" and "kc_room_gen c \<noteq> - 1" and "rotate_key draw (secure_peer_ids ms pc) c = (acts, c')"
  shows "ra_cur (kc_room c') = Some \<lparr>rk_gen = kc_room_gen c + 1, rk_auth = kc_me c, rk_key = draw\<rparr>
    \<and> set acts = {SendKey i (kc_room_gen c + 1) draw | i. i \<in> fst ` set ms \<and> is_secure i pc}
    \<and> (\<forall>e. ra_cur (kc_room c) = Some e \<longrightarrow> rk_gen e < kc_room_gen c + 1)"
proof -
  have g: "sat_inc32 (kc_room_gen c) = kc_room_gen c + 1" using assms(2) by (simp add: sat_inc32_def)
  have "kc_room_gen c < kc_room_gen c + 1" using sat_inc_less(1) [OF assms(2)] by (simp add: g)
  then have "\<forall>e. ra_cur (kc_room c) = Some e \<longrightarrow> rk_gen e < kc_room_gen c + 1"
    using assms(1) by (auto simp: kc_ok_def)
  then show ?thesis
    using rotate_fresh [OF assms] by (auto simp: g secure_peer_ids_def)
qed

lemma adopt_from_authority:
  assumes "kc_ok c" and "is_authority_peer src (kc_me c) ms" and "kc_room_gen c < gen"
    and "unat gen \<le> unat (kc_room_gen c) + 1024"
  shows "fst (on_room_key src gen key ms c)
    \<and> ra_cur (kc_room (snd (on_room_key src gen key ms c))) = Some \<lparr>rk_gen = gen, rk_auth = src, rk_key = key\<rparr>"
proof -
  have "\<forall>e. ra_cur (kc_room c) = Some e \<longrightarrow> rk_gen e < rk_gen (rk_from_bytes gen src key)"
    using assms(1,3) by (auto simp: kc_ok_def rk_from_bytes_def)
  then obtain c1 where a: "adopt (rk_from_bytes gen src key) c = (True, c1)"
    using adopt_newer [of c "rk_from_bytes gen src key"] by (cases "adopt (rk_from_bytes gen src key) c") auto
  then show ?thesis
    using assms(2,4) adopt_taken(1) [OF a] by (simp add: on_room_key_def le_sat_add32) (simp add: rk_from_bytes_def)
qed

text \<open>A late authority converges: a node that joins a keyed room with the smallest id and an older
  counter is told the live generation by a member, mints one above it, and that member and every other
  member that lists it as the authority and is not more than 1024 generations behind end on its key.\<close>

theorem late_authority_converges:
  assumes "kc_ok A" and "am_authority (kc_me A) msA" and "kc_me B \<in> fst ` set msA" and "kc_me B \<in> set peers"
    and "kc_ok B" and "is_authority_peer (kc_me A) (kc_me B) msB" and "\<not> am_authority (kc_me B) msB"
    and "ra_cur (kc_room B) = Some kb" and "kc_room_gen B = rk_gen kb"
    and "kc_room_gen A < rk_gen kb" and "unat (rk_gen kb) \<le> unat (kc_room_gen A) + 1024" and "rk_gen kb \<noteq> - 1"
    and "kc_ok C" and "is_authority_peer (kc_me A) (kc_me C) msC" and "kc_room_gen C \<le> rk_gen kb"
    and "unat (rk_gen kb) + 1 \<le> unat (kc_room_gen C) + 1024"
  shows "\<exists>A'. on_secure d (kc_me A) msB B = ([SendGen (kc_me A) (rk_gen kb)], B)
    \<and> on_room_gen draw (kc_me B) (rk_gen kb) msA peers A = (map (\<lambda>i. SendKey i (rk_gen kb + 1) draw) peers, A')
    \<and> ra_cur (kc_room (snd (on_room_key (kc_me A) (rk_gen kb + 1) draw msB B))) = ra_cur (kc_room A')
    \<and> ra_cur (kc_room (snd (on_room_key (kc_me A) (rk_gen kb + 1) draw msC C))) = ra_cur (kc_room A')
    \<and> ra_cur (kc_room A') = Some \<lparr>rk_gen = rk_gen kb + 1, rk_auth = kc_me A, rk_key = draw\<rparr>"
proof -
  let ?g = "sat_inc32 (rk_gen kb)"
  let ?A = "A\<lparr>kc_room_gen := rk_gen kb\<rparr>"
  have inc: "rk_gen kb + 1 = ?g" using assms(12) by (simp add: sat_inc32_def)
  have lt: "rk_gen kb < ?g" by (rule sat_inc_less(1) [OF assms(12)])
  have ug: "unat ?g = unat (rk_gen kb) + 1"
    using lt unat_lt32 [of "rk_gen kb"] by (simp add: word_less_nat_alt unat_sat_inc32 min_def split: if_splits)
  obtain acts A' where rot: "rotate_key draw peers ?A = (acts, A')" by fastforce
  have "kc_ok ?A" by (rule kc_ok_raise [OF assms(1)]) (use assms(10) in simp)
  from rotate_fresh [OF this _ rot] assms(12)
  have A': "ra_cur (kc_room A') = Some \<lparr>rk_gen = ?g, rk_auth = kc_me A, rk_key = draw\<rparr>"
      "acts = map (\<lambda>i. SendKey i ?g draw) peers" by simp_all
  have "on_room_gen draw (kc_me B) (rk_gen kb) msA peers A = (acts, A')"
    using assms(2,3,10,11) rot by (simp add: on_room_gen_def le_sat_add32)
  moreover have "on_secure d (kc_me A) msB B = ([SendGen (kc_me A) (rk_gen kb)], B)"
    using assms(6,7,8) by (simp add: on_secure_def ra_generation_def)
  moreover have "ra_cur (kc_room (snd (on_room_key (kc_me A) ?g draw msB B))) = ra_cur (kc_room A')"
    using adopt_from_authority [OF assms(5,6), of ?g draw] lt ug assms(9) A' by simp
  moreover have "ra_cur (kc_room (snd (on_room_key (kc_me A) ?g draw msC C))) = ra_cur (kc_room A')"
  proof -
    have "kc_room_gen C < ?g" using assms(15) lt by simp
    from adopt_from_authority [OF assms(13,14) this] ug assms(16) A' show ?thesis by simp
  qed
  ultimately show ?thesis unfolding inc using A' by blast
qed

section \<open>Life of a coordinator\<close>

text \<open>Over any run of events the counter of generations never falls, the staged key stays below
  it, and a node that holds a key always also has a sending key: it goes from plaintext to sealed audio
  without a frame in between being dropped.\<close>

theorem coordinator_never_mute:
  "let c = fold kc_step ops (kc_new me ra_new) in
     (\<forall>draw opus. seal_outbound p draw me opus (kc_room c) \<noteq> None)
     \<and> (case ra_cur (kc_room c) of None \<Rightarrow> True | Some k \<Rightarrow> rk_gen k \<le> kc_room_gen c)
     \<and> kc_room_gen c \<le> kc_room_gen (fold kc_step later c)"
proof -
  define c where "c = fold kc_step ops (kc_new me ra_new)"
  have ok: "kc_ok c" using kc_better_run [OF kc_ok_new] by (simp add: c_def kc_better_def)
  then have "kc_room_gen c \<le> kc_room_gen (fold kc_step later c)"
    using kc_better_run by (simp add: kc_better_def)
  moreover have "seal_outbound p draw me opus (kc_room c) \<noteq> None" for draw opus
    using ok by (auto simp: seal_outbound_def kc_ok_def split: option.split)
  ultimately show ?thesis using ok by (auto simp: kc_ok_def Let_def c_def [symmetric] split: option.split)
qed

section \<open>Concrete instances\<close>

definition demo_member :: member where
  "demo_member = member_new 0 ''n'' ''Funk 1'' True"

definition demo_view :: "str \<Rightarrow> members_map" where
  "demo_view v = map (\<lambda>i. (i, demo_member)) (filter (\<lambda>i. i \<noteq> v) [''al'', ''bob'', ''cy''])"

theorem authority_unique_witness:
  "am_authority ''al'' (demo_view ''al'') \<and> \<not> am_authority ''bob'' (demo_view ''bob'')
   \<and> is_authority_peer ''al'' ''cy'' (demo_view ''cy'')"
proof -
  have v: "\<forall>v \<in> {''al'', ''bob'', ''cy''}. fst ` set (demo_view v) = {''al'', ''bob'', ''cy''} - {v}"
    by (auto simp: demo_view_def)
  have le: "''al'' \<le> ''bob''" "''al'' \<le> ''cy''" by code_simp+
  have m: "Min {''al'', ''bob'', ''cy''} = ''al''" by (rule Min_eqI) (use le in auto)
  show ?thesis
    using authority_unique [OF _ _ v, of "''al''"] authority_unique [OF _ _ v, of "''bob''"]
      authority_unique [OF _ _ v, of "''cy''"] by (simp add: m)
qed

definition demo_kc :: "str \<Rightarrow> u32 \<Rightarrow> str \<Rightarrow> coordinator" where
  "demo_kc me g a = snd (adopt (demo_key g a) (kc_new me ra_new))"

lemma demo_kc_ok: "kc_ok (demo_kc me g a)"
  using kc_better_adopt [OF kc_ok_new] by (simp add: demo_kc_def kc_better_def)

theorem rotation_fresh_epoch_witness:
  "ra_cur (kc_room (snd (rotate_key ''new'' (secure_peer_ids (demo_view ''al'') (pc_new ''al'')) (demo_kc ''al'' 4 ''al''))))
     = Some \<lparr>rk_gen = 5, rk_auth = ''al'', rk_key = ''new''\<rparr>"
proof -
  have c: "kc_room_gen (demo_kc ''al'' 4 ''al'') = 4" "kc_me (demo_kc ''al'' 4 ''al'') = ''al''" by code_simp+
  have "kc_room_gen (demo_kc ''al'' 4 ''al'') \<noteq> - 1" by (simp add: c)
  from rotation_fresh_epoch [OF demo_kc_ok this prod.collapse [symmetric]] show ?thesis by (simp add: c)
qed

theorem late_authority_converges_witness:
  "ra_cur (kc_room (snd (on_room_key ''al'' 8 ''new'' (demo_view ''bob'') (demo_kc ''bob'' 7 ''bob''))))
     = Some \<lparr>rk_gen = 8, rk_auth = ''al'', rk_key = ''new''\<rparr>"
proof -
  have b: "ra_cur (kc_room (demo_kc ''bob'' 7 ''bob'')) = Some (demo_key 7 ''bob'')" "kc_me (demo_kc ''bob'' 7 ''bob'') = ''bob''"
      "kc_room_gen (demo_kc ''bob'' 7 ''bob'') = 7" by code_simp+
  have a: "kc_me (demo_kc ''al'' 1 ''al'') = ''al''" "kc_room_gen (demo_kc ''al'' 1 ''al'') = 1" by code_simp+
  have v: "am_authority ''al'' (demo_view ''al'')" "is_authority_peer ''al'' ''bob'' (demo_view ''bob'')"
      "\<not> am_authority ''bob'' (demo_view ''bob'')" "''bob'' \<in> fst ` set (demo_view ''al'')" by code_simp+
  let ?A = "demo_kc ''al'' 1 ''al''" and ?B = "demo_kc ''bob'' 7 ''bob''"
  have h: "am_authority (kc_me ?A) (demo_view ''al'')" "kc_me ?B \<in> fst ` set (demo_view ''al'')" "kc_me ?B \<in> set [''bob'']"
      "is_authority_peer (kc_me ?A) (kc_me ?B) (demo_view ''bob'')" "\<not> am_authority (kc_me ?B) (demo_view ''bob'')"
    by (simp_all only: a b v) simp_all
  have n: "kc_room_gen ?B = rk_gen (demo_key 7 ''bob'')" "kc_room_gen ?A < rk_gen (demo_key 7 ''bob'')"
      "unat (rk_gen (demo_key 7 ''bob'')) \<le> unat (kc_room_gen ?A) + 1024" "rk_gen (demo_key 7 ''bob'') \<noteq> - 1"
      "kc_room_gen ?B \<le> rk_gen (demo_key 7 ''bob'')" "unat (rk_gen (demo_key 7 ''bob'')) + 1 \<le> unat (kc_room_gen ?B) + 1024"
    by (simp_all add: a b demo_key_def word_less_nat_alt)
  from late_authority_converges [OF demo_kc_ok h(1-3) demo_kc_ok h(4,5) b(1) n(1-4) demo_kc_ok h(4) n(5,6), of "''d''" "''new''"]
  show ?thesis by (auto simp: a b demo_key_def)
qed

end
