(* ===== verification/Channels.thy ===== *)
theory Channels
  imports Keying
begin

text \<open>
  The shared channel directory of \<open>apps/companion-core/src/lib.rs\<close>: canonical names, union with a
  bound, deletion with tombstones, and \<open>ChanState\<close>, which gates received audio.  Unicode lower-casing
  is the argument \<open>lc\<close>.
\<close>

definition MAX_CHANNEL_LEN :: nat where "MAX_CHANNEL_LEN = 32"
definition MAX_CHANNELS :: nat where "MAX_CHANNELS = 64"
definition MAX_TOMBSTONES :: nat where "MAX_TOMBSTONES = MAX_CHANNELS * 4"
definition DEFAULT_CHANNEL :: str where "DEFAULT_CHANNEL = ''Funk 1''"

definition canon_channel :: "(str \<Rightarrow> str) \<Rightarrow> str \<Rightarrow> str" where
  "canon_channel lc s = lc (trim s)"

fun merge_channels :: "(str \<Rightarrow> str) \<Rightarrow> str list \<Rightarrow> str list \<Rightarrow> bool \<times> str list" where
  "merge_channels lc dir [] = (False, dir)"
| "merge_channels lc dir (name # add) =
     (if MAX_CHANNELS \<le> length dir then (False, dir)
      else let k = canon_channel lc name
           in if k = [] \<or> k \<in> canon_channel lc ` set dir then merge_channels lc dir add
              else (True, snd (merge_channels lc (dir @ [name]) add)))"

definition tombstone_allowed :: "(str \<Rightarrow> str) \<Rightarrow> str \<Rightarrow> str list \<Rightarrow> str list \<Rightarrow> bool" where
  "tombstone_allowed lc canon known removed \<longleftrightarrow>
     canon \<in> canon_channel lc ` set known \<and> length removed < MAX_TOMBSTONES"

definition remove_from_dir :: "(str \<Rightarrow> str) \<Rightarrow> str list \<Rightarrow> str \<Rightarrow> bool \<times> str list" where
  "remove_from_dir lc dir canon =
     (let d = filter (\<lambda>n. canon_channel lc n \<noteq> canon) dir in (length d \<noteq> length dir, d))"

definition channel_in_use :: "(str \<Rightarrow> str) \<Rightarrow> str \<Rightarrow> str \<Rightarrow> members_map \<Rightarrow> bool" where
  "channel_in_use lc canon my_channel ms \<longleftrightarrow>
     canon_channel lc my_channel = canon \<or> (\<exists>(i, m) \<in> set ms. canon_channel lc (m_channel m) = canon)"

section \<open>The receive gate\<close>

record chan_state =
  cs_mine :: str
  cs_peers :: "(str \<times> str) list"
  cs_dir :: "str list"

definition cs_new :: chan_state where
  "cs_new = \<lparr>cs_mine = DEFAULT_CHANNEL, cs_peers = [], cs_dir = [DEFAULT_CHANNEL]\<rparr>"

definition cs_set_dir :: "str list \<Rightarrow> chan_state \<Rightarrow> chan_state" where
  "cs_set_dir names cs = cs\<lparr>cs_dir := names\<rparr>"

definition cs_set_mine :: "str \<Rightarrow> chan_state \<Rightarrow> chan_state" where
  "cs_set_mine name cs = cs\<lparr>cs_mine := name\<rparr>"

definition cs_set_peer :: "str \<Rightarrow> str \<Rightarrow> chan_state \<Rightarrow> chan_state" where
  "cs_set_peer peer name cs = cs\<lparr>cs_peers := AList.update peer name (cs_peers cs)\<rparr>"

definition cs_remove_peer :: "str \<Rightarrow> chan_state \<Rightarrow> chan_state" where
  "cs_remove_peer peer cs = cs\<lparr>cs_peers := AList.delete peer (cs_peers cs)\<rparr>"

definition cs_peer :: "str \<Rightarrow> chan_state \<Rightarrow> str option" where
  "cs_peer peer cs = map_of (cs_peers cs) peer"

definition hears :: "(str \<Rightarrow> str) \<Rightarrow> str \<Rightarrow> chan_state \<Rightarrow> bool" where
  "hears lc peer cs \<longleftrightarrow>
     canon_channel lc (cs_mine cs) =
       (case map_of (cs_peers cs) peer of Some s \<Rightarrow> canon_channel lc s
        | None \<Rightarrow> canon_channel lc DEFAULT_CHANNEL)"

section \<open>Well-formed directories\<close>

definition dir_ok :: "(str \<Rightarrow> str) \<Rightarrow> str list \<Rightarrow> bool" where
  "dir_ok lc dir \<longleftrightarrow> distinct (map (canon_channel lc) dir) \<and> [] \<notin> set (map (canon_channel lc) dir)
     \<and> length dir \<le> MAX_CHANNELS"

lemma merge_ok: "dir_ok lc dir \<Longrightarrow> dir_ok lc (snd (merge_channels lc dir add))"
proof (induction lc dir add rule: merge_channels.induct)
  case (2 lc dir name add)
  show ?case
  proof (cases "MAX_CHANNELS \<le> length dir \<or> canon_channel lc name = [] \<or> canon_channel lc name \<in> canon_channel lc ` set dir")
    case True
    with 2 show ?thesis by (auto simp: Let_def)
  next
    case False
    then have "dir_ok lc (dir @ [name])" using "2.prems" by (auto simp: dir_ok_def)
    with 2 False show ?thesis by (auto simp: Let_def)
  qed
qed simp

lemma merge_prefix: "\<exists>new. snd (merge_channels lc dir add) = dir @ new \<and> set new \<subseteq> set add
    \<and> (fst (merge_channels lc dir add) \<longleftrightarrow> new \<noteq> [])"
proof (induction lc dir add rule: merge_channels.induct)
  case (2 lc dir name add)
  consider (full) "MAX_CHANNELS \<le> length dir"
    | (known) "\<not> MAX_CHANNELS \<le> length dir" "canon_channel lc name = [] \<or> canon_channel lc name \<in> canon_channel lc ` set dir"
    | (new) "\<not> MAX_CHANNELS \<le> length dir" "\<not> (canon_channel lc name = [] \<or> canon_channel lc name \<in> canon_channel lc ` set dir)"
    by blast
  then show ?case
  proof cases
    case full
    then show ?thesis by simp
  next
    case known
    from "2.IH"(1) [OF known(1) refl known(2)] obtain new where
      "snd (merge_channels lc dir add) = dir @ new" "set new \<subseteq> set (name # add)"
      "fst (merge_channels lc dir add) \<longleftrightarrow> new \<noteq> []" by auto
    with known show ?thesis by (simp add: Let_def)
  next
    case new
    from "2.IH"(2) [OF new(1) refl new(2)] obtain ns where
      "snd (merge_channels lc (dir @ [name]) add) = (dir @ [name]) @ ns" "set ns \<subseteq> set add" by blast
    with new show ?thesis by (intro exI [of _ "name # ns"]) (auto simp: Let_def)
  qed
qed simp

lemma merge_canon:
  assumes "card (canon_channel lc ` (set dir \<union> set add)) \<le> MAX_CHANNELS" and "dir_ok lc dir"
  shows "canon_channel lc ` set (snd (merge_channels lc dir add)) = canon_channel lc ` set dir \<union> (canon_channel lc ` set add - {[]})"
  using assms
proof (induction lc dir add rule: merge_channels.induct)
  case (2 lc dir name add)
  let ?c = "canon_channel lc"
  have fin: "finite (?c ` (set dir \<union> set (name # add)))" by simp
  show ?case
  proof (cases "?c name = [] \<or> ?c name \<in> ?c ` set dir")
    case True
    have "card (?c ` (set dir \<union> set add)) \<le> MAX_CHANNELS"
      using "2.prems"(1) by (meson card_mono fin image_mono le_trans set_subset_Cons sup.mono subset_refl)
    moreover have "MAX_CHANNELS \<le> length dir \<Longrightarrow> ?c ` set add - {[]} \<subseteq> ?c ` set dir"
    proof -
      assume full: "MAX_CHANNELS \<le> length dir"
      have "card (?c ` set dir) = length dir"
        using "2.prems"(2) by (metis dir_ok_def distinct_card length_map set_map)
      with full calculation have "card (?c ` (set dir \<union> set add)) \<le> card (?c ` set dir)" by simp
      then have "?c ` set dir = ?c ` (set dir \<union> set add)"
        by (intro card_seteq) auto
      then show ?thesis by blast
    qed
    ultimately show ?thesis
      using True "2.IH"(1) "2.prems"(2) by (auto simp: Let_def)
  next
    case False
    have len: "length dir < MAX_CHANNELS"
    proof -
      have "card (?c ` set dir) = length dir"
        using "2.prems"(2) by (metis dir_ok_def distinct_card length_map set_map)
      moreover have "card (insert (?c name) (?c ` set dir)) \<le> card (?c ` (set dir \<union> set (name # add)))"
        by (rule card_mono) auto
      moreover have "card (insert (?c name) (?c ` set dir)) = Suc (card (?c ` set dir))"
        using False by simp
      ultimately show ?thesis using "2.prems"(1) by linarith
    qed
    have "dir_ok lc (dir @ [name])" using "2.prems"(2) False len by (auto simp: dir_ok_def)
    moreover have "set (dir @ [name]) \<union> set add = set dir \<union> set (name # add)" by auto
    ultimately show ?thesis
      using "2.IH"(2) [OF _ refl] False len "2.prems"(1) by (auto simp: Let_def)
  qed
qed auto

text \<open>Directories converge: below the bound of 64 channels, two peers that exchange their
  directories end with the same set of canonical names, each still without duplicates; and a merge keeps
  every entry and reports growth exactly when it added one.\<close>

theorem directories_converge:
  assumes "dir_ok lc A" and "dir_ok lc B" and "card (canon_channel lc ` (set A \<union> set B)) \<le> 64"
  shows "canon_channel lc ` set (snd (merge_channels lc A B)) = canon_channel lc ` set (snd (merge_channels lc B A))
    \<and> dir_ok lc (snd (merge_channels lc A B))
    \<and> (fst (merge_channels lc A B) \<longleftrightarrow> length A < length (snd (merge_channels lc A B)))
    \<and> set A \<subseteq> set (snd (merge_channels lc A B))"
proof -
  have a: "canon_channel lc ` set (snd (merge_channels lc A B)) = canon_channel lc ` set A \<union> (canon_channel lc ` set B - {[]})"
    using merge_canon assms by (simp add: MAX_CHANNELS_def)
  have b: "canon_channel lc ` set (snd (merge_channels lc B A)) = canon_channel lc ` set B \<union> (canon_channel lc ` set A - {[]})"
    using merge_canon [of lc B A] assms by (simp add: MAX_CHANNELS_def Un_commute)
  have ne: "[] \<notin> canon_channel lc ` set A" "[] \<notin> canon_channel lc ` set B"
    using assms(1,2) by (auto simp: dir_ok_def)
  have "canon_channel lc ` set (snd (merge_channels lc A B)) = canon_channel lc ` set (snd (merge_channels lc B A))"
    using ne unfolding a b by blast
  moreover obtain new where "snd (merge_channels lc A B) = A @ new" "fst (merge_channels lc A B) \<longleftrightarrow> new \<noteq> []"
    using merge_prefix by blast
  ultimately show ?thesis using merge_ok [OF assms(1), of B] by simp
qed

theorem directories_converge_witness:
  "canon_channel ascii_lower ` set (snd (merge_channels ascii_lower [''Funk 1'', ''Alpha''] [''ALPHA'', ''Bravo'']))
     = canon_channel ascii_lower ` set (snd (merge_channels ascii_lower [''ALPHA'', ''Bravo''] [''Funk 1'', ''Alpha'']))"
proof -
  have "dir_ok ascii_lower [''Funk 1'', ''Alpha'']" "dir_ok ascii_lower [''ALPHA'', ''Bravo'']" by code_simp+
  moreover have "card (canon_channel ascii_lower ` (set [''Funk 1'', ''Alpha''] \<union> set [''ALPHA'', ''Bravo''])) \<le> 64"
  proof -
    have "card (canon_channel ascii_lower ` (set [''Funk 1'', ''Alpha''] \<union> set [''ALPHA'', ''Bravo'']))
        \<le> card (set [''Funk 1'', ''Alpha''] \<union> set [''ALPHA'', ''Bravo''])" by (rule card_image_le) simp
    also have "\<dots> \<le> 4" by (simp add: card_insert_if)
    finally show ?thesis by simp
  qed
  ultimately show ?thesis using directories_converge by blast
qed

end
