(* ===== verification/Engine.thy ===== *)
theory Engine
  imports Channels Protocol
begin

text \<open>
  The client's engine loop (\<open>start\<close> in \<open>apps/companion-core/src/lib.rs\<close>): one definition per
  arm of its \<open>select!\<close>, each from the loop's state to the new state and the effects in the order the
  code performs them (what it tells the user interface, sends to the server, or asks of the mesh).

  \<open>obs\<close> is what an arm reads from outside at that moment: the time in milliseconds, the pairwise
  sessions, the random bytes of a mint, the reason text of a dead link, and the bandwidth computed from
  byte counters in floating point.  \<open>cur_in\<close> and \<open>cur_out\<close> are always both there or both gone: \<open>en_up\<close>.
\<close>

section \<open>Effects\<close>

record participant =
  p_user_id :: str
  p_name :: str
  p_you :: bool
  p_badge :: "str option"
  p_speaking :: bool
  p_channel :: str
  p_secure :: bool
  p_fingerprint :: "str option"
  p_linked :: bool

datatype ui_event =
    URoster "participant list"
  | UChat str str
  | UStatus bool bool
  | ULog str
  | UNet nat nat nat
  | URekeyed u32 str
  | USignaling bool
  | UChannel str
  | UChannels "str list"
  | UChannelRemoved str
  | URoomAudio "u32 option" bool

datatype effect =
    Ui ui_event
  | ToServer client_msg
  | MOnPeer str | MOnLeft str | MRelink str
  | MOffer str str | MAnswer str str | MIce str str
  | MRekey | MAddTurn "str list" str str | MKey key_action | MCloseAll
  | MChat str | MChannel str | MChannels "str list" | MChannelRemoved str
  | Click

datatype mesh_event =
    MEChat str str
  | MEBadge str str
  | MEPeerChannel str str
  | MEPeerChannels "str list"
  | MEPeerChannelRemoved str
  | MESecure str str
  | MELink str bool
  | MERoomKey str u32 bytes
  | MERoomGen str u32

datatype cmd =
    ToggleTx | SetTx bool | ChatCmd str | RekeyCmd | Reconnect | SetChannel str | RemoveChannel str

record obs =
  ob_now :: nat
  ob_crypto :: peer_crypto
  ob_draw :: bytes
  ob_why :: "str \<Rightarrow> str"
  ob_kbps :: "nat \<Rightarrow> nat \<Rightarrow> nat"   \<comment> \<open>bytes, milliseconds\<close>
  ob_lc :: "str \<Rightarrow> str"

section \<open>State\<close>

record engine =
  en_me_id :: str
  en_me_name :: str
  en_relay :: bool
  en_join :: client_msg
  en_members :: members_map
  en_my_channel :: str
  en_known :: "str list"
  en_removed :: "str list"
  en_chan :: chan_state
  en_keys :: coordinator
  en_key_gen :: u32
  en_up :: bool
  en_next_try :: "nat option"
  en_backoff :: nat
  en_last_bytes :: "nat \<times> nat"
  en_last_inst :: nat
  en_net_primed :: bool
  en_keyless_since :: "nat option"
  en_keyless_warned :: bool
  en_transmit :: bool
  en_running :: bool

definition engine_start :: "str \<Rightarrow> str \<Rightarrow> bool \<Rightarrow> client_msg \<Rightarrow> nat \<Rightarrow> engine \<times> effect list" where
  "engine_start me_id me_name relay jn now =
     (\<lparr>en_me_id = me_id, en_me_name = me_name, en_relay = relay, en_join = jn, en_members = [],
       en_my_channel = DEFAULT_CHANNEL, en_known = [DEFAULT_CHANNEL], en_removed = [], en_chan = cs_new,
       en_keys = kc_new me_id ra_new, en_key_gen = 1, en_up = True, en_next_try = None, en_backoff = 2,
       en_last_bytes = (0, 0), en_last_inst = now, en_net_primed = False, en_keyless_since = None,
       en_keyless_warned = False, en_transmit = False, en_running = True\<rparr>,
      [ToServer jn, Ui (UStatus True False), Ui (UChannel DEFAULT_CHANNEL), Ui (URoomAudio None False)])"

section \<open>Helpers\<close>

definition participant_of :: "str \<times> member \<Rightarrow> participant" where
  "participant_of im = (case im of (i, m) \<Rightarrow>
     \<lparr>p_user_id = i, p_name = m_name m, p_you = False, p_badge = m_badge m, p_speaking = m_speaking m,
      p_channel = m_channel m, p_secure = m_secure m,
      p_fingerprint = (if m_secure m then m_fingerprint m else None), p_linked = m_linked m\<rparr>)"

definition emit_roster :: "members_map \<Rightarrow> str \<Rightarrow> str \<Rightarrow> str \<Rightarrow> bool \<Rightarrow> effect" where
  "emit_roster ms me_id me_name me_channel transmitting =
     Ui (URoster (\<lparr>p_user_id = me_id, p_name = me_name, p_you = True, p_badge = None, p_speaking = transmitting,
                   p_channel = me_channel, p_secure = True, p_fingerprint = None, p_linked = True\<rparr>
                  # sort_key p_name (map participant_of ms)))"

definition roster_of :: "engine \<Rightarrow> effect" where
  "roster_of e = emit_roster (en_members e) (en_me_id e) (en_me_name e) (en_my_channel e) (en_transmit e)"

definition departed :: "members_map \<Rightarrow> peer_info list \<Rightarrow> str list" where
  "departed known roster = filter (\<lambda>i. i \<notin> pi_user_id ` set roster) (map fst known)"

definition terminal_error_text :: "str \<Rightarrow> str option" where
  "terminal_error_text code =
     (if code = ERR_ID_IN_USE
      then Some ''Dieser Name ist in der Sitzung bereits vergeben - bitte mit anderem Namen neu beitreten.''
      else if code = ERR_PROTOCOL_MISMATCH
      then Some ''Diese subraum-Version passt nicht zum Server - bitte subraum aktualisieren.''
      else None)"

text \<open>Mint the next key, hand it out, and show the generation.\<close>

definition rotate_and_tell :: "obs \<Rightarrow> engine \<Rightarrow> engine \<times> effect list" where
  "rotate_and_tell ob e =
     (let (acts, k) = rotate_key (ob_draw ob) (secure_peer_ids (en_members e) (ob_crypto ob)) (en_keys e)
      in (e\<lparr>en_keys := k\<rparr>, map MKey acts @ [Ui (URoomAudio (kc_generation k) True)]))"

definition member_seen :: "obs \<Rightarrow> engine \<Rightarrow> str \<Rightarrow> str \<Rightarrow> member" where
  "member_seen ob e user_id name =
     member_new (ob_now ob) name
       (case cs_peer user_id (en_chan e) of Some c \<Rightarrow> c | None \<Rightarrow> DEFAULT_CHANNEL)
       (is_secure user_id (ob_crypto ob))"

section \<open>The two-second tick\<close>

definition KEYLESS_TEXT :: str where
  "KEYLESS_TEXT = ''Sprach-Schluessel nicht erhalten - keine direkte Verbindung zum Schluessel-Verwalter. Du hoerst die anderen nicht und wirst nicht gehoert. Abhilfe: \"Session neu verschluesseln\" druecken - das baut jede Verbindung neu auf und verteilt den Schluessel erneut. Hilft das nicht, sollte der Teilnehmer mit dem Stern in seiner Verschluesselungs-Zeile die Session neu betreten.''"

definition net_tick :: "obs \<Rightarrow> nat \<Rightarrow> nat \<Rightarrow> engine \<Rightarrow> engine \<times> effect list" where
  "net_tick ob up down e =
     (let e1 = e\<lparr>en_last_bytes := (up, down), en_last_inst := ob_now ob\<rparr>
      in if \<not> en_net_primed e then (e1\<lparr>en_net_primed := True\<rparr>, [])
         else (e1, [Ui (UNet (length (en_members e))
                     (ob_kbps ob (up - fst (en_last_bytes e)) (ob_now ob - en_last_inst e))
                     (ob_kbps ob (down - snd (en_last_bytes e)) (ob_now ob - en_last_inst e)))]))"

definition keyless_tick :: "obs \<Rightarrow> engine \<Rightarrow> engine \<times> effect list" where
  "keyless_tick ob e =
     (let keyless = (ra_generation (kc_room (en_keys e)) = None \<and> (\<exists>(i, m) \<in> set (en_members e). m_secure m));
          (due, since, warned) = keyless_warn_due keyless (en_keyless_since e) (en_keyless_warned e) (ob_now ob)
      in (e\<lparr>en_keyless_since := since, en_keyless_warned := warned\<rparr>, if due then [Ui (ULog KEYLESS_TEXT)] else []))"

text \<open>One member under the link watchdog: its new state, whether to rebuild, whether to warn.\<close>

definition link_tick :: "str \<Rightarrow> nat \<Rightarrow> str \<Rightarrow> member \<Rightarrow> member \<times> bool \<times> bool" where
  "link_tick me_id now i m =
     (if m_linked m then (m, False, False)
      else
        let since = (case m_down_since m of Some t \<Rightarrow> t | None \<Rightarrow> now);
            last_try = (case m_last_relink m of Some t \<Rightarrow> t | None \<Rightarrow> since);
            retry = relink_due me_id i (now - since) (now - last_try);
            warn = (\<not> m_link_warned m \<and> LINK_WARN_AFTER \<le> now - since);
            m1 = m\<lparr>m_down_since := Some since\<rparr>;
            m2 = (if retry then m1\<lparr>m_last_relink := Some now\<rparr> else m1);
            m3 = (if warn then m2\<lparr>m_link_warned := True\<rparr> else m2)
        in (m3, retry, warn))"

definition link_down_text :: "str \<Rightarrow> str \<Rightarrow> str" where
  "link_down_text name why = ''Keine Verbindung zu '' @ name
     @ '' - ihr hoert euch gegenseitig nicht und seht die Kanaele des anderen nicht. Grund: '' @ why
     @ ''. Neuaufbau laeuft automatisch.''"

definition links_tick :: "obs \<Rightarrow> engine \<Rightarrow> engine \<times> effect list" where
  "links_tick ob e =
     (let res = map (\<lambda>(i, m). (i, link_tick (en_me_id e) (ob_now ob) i m)) (en_members e);
          retry = map fst (filter (\<lambda>(i, m, r, w). r) res);
          warn = map (\<lambda>(i, m, r, w). (i, m_name m)) (filter (\<lambda>(i, m, r, w). w) res)
      in (e\<lparr>en_members := map (\<lambda>(i, m, r, w). (i, m)) res\<rparr>,
          map MRelink retry @ map (\<lambda>(i, name). Ui (ULog (link_down_text name (ob_why ob i)))) warn))"

definition on_tick :: "obs \<Rightarrow> nat \<Rightarrow> nat \<Rightarrow> engine \<Rightarrow> engine \<times> effect list" where
  "on_tick ob up down e =
     (let (e1, f1) = net_tick ob up down e;
          (e2, f2) = keyless_tick ob e1;
          (e3, f3) = links_tick ob e2
      in (e3, f1 @ f2 @ f3))"

section \<open>The signaling link\<close>

definition on_uplink :: "client_msg \<Rightarrow> engine \<Rightarrow> engine \<times> effect list" where
  "on_uplink m e = (e, if en_up e then [ToServer m] else [])"

text \<open>An attempt that came due; \<open>Inl\<close> is the text of its failure.\<close>

definition on_reconnect :: "obs \<Rightarrow> str + unit \<Rightarrow> engine \<Rightarrow> engine \<times> effect list" where
  "on_reconnect ob res e =
     (if en_up e \<or> (case en_next_try e of None \<Rightarrow> True | Some t \<Rightarrow> ob_now ob < t) then (e, [])
      else case res of
        Inr _ \<Rightarrow> (e\<lparr>en_up := True, en_next_try := None, en_backoff := 2\<rparr>,
                   [ToServer (en_join e), Ui (USignaling True), Ui (ULog ''Signaling wiederverbunden.'')])
      | Inl err \<Rightarrow>
          (let b = min (en_backoff e * 2) 30
           in (e\<lparr>en_backoff := b, en_next_try := Some (ob_now ob + b * 1000)\<rparr>,
               [Ui (ULog (''Reconnect fehlgeschlagen ('' @ err @ '') - neuer Versuch in '' @ show_nat b @ ''s.''))])))"

definition on_signaling_lost :: "obs \<Rightarrow> engine \<Rightarrow> engine \<times> effect list" where
  "on_signaling_lost ob e =
     (e\<lparr>en_up := False, en_backoff := 2, en_next_try := Some (ob_now ob + 2 * 1000)\<rparr>,
      [Ui (USignaling False), Ui (ULog ''Signaling verloren - automatischer Reconnect laeuft.'')])"

section \<open>Messages of the server\<close>

text \<open>The loop that rebuilds the member table: known members are moved over, others are new.\<close>

fun rebuild :: "obs \<Rightarrow> engine \<Rightarrow> peer_info list \<Rightarrow> members_map \<Rightarrow> members_map \<Rightarrow> members_map" where
  "rebuild ob e [] old fresh = fresh"
| "rebuild ob e (p # ps) old fresh =
     (let u = pi_user_id p; sec = is_secure u (ob_crypto ob);
          m = (case map_of old u of
                 Some o_m \<Rightarrow> o_m\<lparr>m_name := pi_name p, m_secure := sec,
                               m_fingerprint := if sec then m_fingerprint o_m else None\<rparr>
               | None \<Rightarrow> member_seen ob e u (pi_name p))
      in rebuild ob e ps (AList.delete u old) (AList.update u m fresh))"

definition on_roster :: "obs \<Rightarrow> peer_info list \<Rightarrow> engine \<Rightarrow> engine \<times> effect list" where
  "on_roster ob peers e =
     (let gone = departed (en_members e) peers;
          ms = fold AList.delete gone (en_members e);
          e1 = e\<lparr>en_chan := fold cs_remove_peer gone (en_chan e)\<rparr>;
          e2 = e1\<lparr>en_members := rebuild ob e1 peers ms []\<rparr>;
          fx = map MOnLeft gone @ map (\<lambda>p. MOnPeer (pi_user_id p)) peers @ [roster_of e2]
      in if gone \<noteq> [] \<and> am_authority (en_me_id e2) (en_members e2)
         then (let (e3, f3) = rotate_and_tell ob e2 in (e3, fx @ f3)) else (e2, fx))"

definition on_peer_joined :: "obs \<Rightarrow> str \<Rightarrow> str \<Rightarrow> engine \<Rightarrow> engine \<times> effect list" where
  "on_peer_joined ob user_id name e =
     (let e1 = e\<lparr>en_members := AList.update user_id (member_seen ob e user_id name) (en_members e)\<rparr>;
          fx = [MOnPeer user_id, roster_of e1]
      in if am_authority (en_me_id e1) (en_members e1) \<and> kc_generation (en_keys e1) \<noteq> None
         then (let (e2, f2) = rotate_and_tell ob e1 in (e2, fx @ f2)) else (e1, fx))"

definition on_peer_left :: "obs \<Rightarrow> str \<Rightarrow> engine \<Rightarrow> engine \<times> effect list" where
  "on_peer_left ob user_id e =
     (let e1 = e\<lparr>en_members := AList.delete user_id (en_members e), en_chan := cs_remove_peer user_id (en_chan e)\<rparr>;
          fx = [MOnLeft user_id, roster_of e1]
      in if am_authority (en_me_id e1) (en_members e1)
         then (let (e2, f2) = rotate_and_tell ob e1 in (e2, fx @ f2)) else (e1, fx))"

definition on_peer_ptt :: "obs \<Rightarrow> str \<Rightarrow> bool \<Rightarrow> engine \<Rightarrow> engine \<times> effect list" where
  "on_peer_ptt ob user_id active e =
     (let was = (case map_of (en_members e) user_id of Some m \<Rightarrow> m_speaking m | None \<Rightarrow> False);
          e1 = (case map_of (en_members e) user_id of
                  Some m \<Rightarrow> e\<lparr>en_members := AList.update user_id (m\<lparr>m_speaking := active\<rparr>) (en_members e)\<rparr>
                | None \<Rightarrow> e)
      in (e1, (if active \<and> \<not> was \<and> hears (ob_lc ob) user_id (en_chan e) then [Click] else []) @ [roster_of e1]))"

definition on_rekeyed :: "obs \<Rightarrow> str \<Rightarrow> engine \<Rightarrow> engine \<times> effect list" where
  "on_rekeyed ob by_name e =
     (let e1 = e\<lparr>en_key_gen := sat_inc32 (en_key_gen e)\<rparr>;
          fx = [MRekey, Ui (URekeyed (en_key_gen e1) by_name)]
      in if am_authority (en_me_id e1) (en_members e1)
         then (let (e2, f2) = rotate_and_tell ob e1 in (e2, fx @ f2)) else (e1, fx))"

definition shut_down :: "effect list \<Rightarrow> engine \<Rightarrow> engine \<times> effect list" where
  "shut_down fx e = (e\<lparr>en_running := False\<rparr>, fx @ [MCloseAll, Ui (UStatus False False)])"

fun on_server :: "obs \<Rightarrow> server_msg \<Rightarrow> engine \<Rightarrow> engine \<times> effect list" where
  "on_server ob (SRoster peers) e = on_roster ob peers e"
| "on_server ob (SPeerJoined u name) e = on_peer_joined ob u name e"
| "on_server ob (SPeerLeft u) e = on_peer_left ob u e"
| "on_server ob (SOffer src sdp) e = (e, [MOffer src sdp])"
| "on_server ob (SAnswer src sdp) e = (e, [MAnswer src sdp])"
| "on_server ob (SIce src c) e = (e, [MIce src c])"
| "on_server ob (SPtt u a) e = on_peer_ptt ob u a e"
| "on_server ob (SRekey by_name) e = on_rekeyed ob by_name e"
| "on_server ob (STurn t) e =
     (e, if en_relay e then [MAddTurn (tc_urls t) (tc_username t) (tc_credential t)]
         else [Ui (ULog ''TURN-Relay angeboten, aber deaktiviert (nur direkt/STUN).'')])"
| "on_server ob (SWarn sz cap) e =
     (e, [Ui (ULog (''Room '' @ show_nat sz @ ''/'' @ show_nat cap @ '' '' @ [CHR 0xE2, CHR 0x80, CHR 0x94]
              @ '' Audioqualit'' @ [CHR 0xC3, CHR 0xA4] @ ''t kann leiden''))])"
| "on_server ob (SRoomFull cap) e = shut_down [Ui (ULog (''Room voll @ '' @ show_nat cap))] e"
| "on_server ob (SError code msg) e =
     (case terminal_error_text code of
        Some text \<Rightarrow> shut_down [Ui (ULog (text @ '' ('' @ code @ '': '' @ msg @ '')''))] e
      | None \<Rightarrow> (e, [Ui (ULog (code @ '': '' @ msg))]))"

section \<open>Events of the mesh\<close>

definition on_link :: "obs \<Rightarrow> str \<Rightarrow> bool \<Rightarrow> engine \<Rightarrow> engine \<times> effect list" where
  "on_link ob peer up e =
     (case map_of (en_members e) peer of
        None \<Rightarrow> (e, [])
      | Some m \<Rightarrow>
          let m1 = (if up then m\<lparr>m_linked := True, m_secure := is_secure peer (ob_crypto ob),
                                 m_down_since := None, m_last_relink := None, m_link_warned := False\<rparr>
                    else if m_linked m \<or> m_down_since m = None
                    then m\<lparr>m_linked := False, m_badge := None, m_secure := False, m_fingerprint := None,
                           m_down_since := Some (ob_now ob)\<rparr>
                    else m);
              e1 = e\<lparr>en_members := AList.update peer m1 (en_members e)\<rparr>
          in (e1, (if up \<and> m_link_warned m then [Ui (ULog (''Verbindung zu '' @ m_name m @ '' steht wieder.''))] else [])
                  @ [roster_of e1]))"

definition on_peer_channels :: "obs \<Rightarrow> str list \<Rightarrow> engine \<Rightarrow> engine \<times> effect list" where
  "on_peer_channels ob names e =
     (let fresh = filter (\<lambda>n. canon_channel (ob_lc ob) n \<notin> set (en_removed e)) names;
          (grew, known) = merge_channels (ob_lc ob) (en_known e) fresh
      in if grew
         then (e\<lparr>en_known := known, en_chan := cs_set_dir known (en_chan e)\<rparr>, [MChannels known, Ui (UChannels known)])
         else (e\<lparr>en_known := known\<rparr>, []))"

definition drop_channel :: "obs \<Rightarrow> str \<Rightarrow> engine \<Rightarrow> engine \<times> effect list" where
  "drop_channel ob canon e =
     (let known = snd (remove_from_dir (ob_lc ob) (en_known e) canon)
      in (e\<lparr>en_removed := List.insert canon (en_removed e), en_known := known, en_chan := cs_set_dir known (en_chan e)\<rparr>,
          [MChannelRemoved canon, Ui (UChannelRemoved canon)]))"

definition on_peer_channel_removed :: "obs \<Rightarrow> str \<Rightarrow> engine \<Rightarrow> engine \<times> effect list" where
  "on_peer_channel_removed ob name e =
     (let canon = canon_channel (ob_lc ob) name
      in if canon \<noteq> [] \<and> canon \<noteq> canon_channel (ob_lc ob) DEFAULT_CHANNEL
            \<and> \<not> channel_in_use (ob_lc ob) canon (en_my_channel e) (en_members e)
            \<and> tombstone_allowed (ob_lc ob) canon (en_known e) (en_removed e)
            \<and> canon \<notin> set (en_removed e)
         then drop_channel ob canon e else (e, []))"

definition with_member :: "str \<Rightarrow> (member \<Rightarrow> member) \<Rightarrow> engine \<Rightarrow> engine" where
  "with_member peer f e =
     (case map_of (en_members e) peer of
        Some m \<Rightarrow> e\<lparr>en_members := AList.update peer (f m) (en_members e)\<rparr> | None \<Rightarrow> e)"

definition on_peer_secure :: "obs \<Rightarrow> str \<Rightarrow> str \<Rightarrow> engine \<Rightarrow> engine \<times> effect list" where
  "on_peer_secure ob peer fp e =
     (let e1 = with_member peer (\<lambda>m. m\<lparr>m_secure := True, m_fingerprint := if fp = [] then None else Some fp\<rparr>) e;
          (acts, k) = on_secure (ob_draw ob) peer (en_members e1) (en_keys e1)
      in (e1\<lparr>en_keys := k\<rparr>,
          [roster_of e1] @ map MKey acts
          @ (if am_authority (en_me_id e1) (en_members e1) then [Ui (URoomAudio (kc_generation k) True)] else [])))"

fun on_mesh :: "obs \<Rightarrow> mesh_event \<Rightarrow> engine \<Rightarrow> engine \<times> effect list" where
  "on_mesh ob (MEChat src text) e =
     (e, [Ui (UChat (case map_of (en_members e) src of Some m \<Rightarrow> m_name m | None \<Rightarrow> src) text)])"
| "on_mesh ob (MEBadge peer badge) e =
     (let e1 = with_member peer (\<lambda>m. m\<lparr>m_badge := Some badge\<rparr>) e in (e1, [roster_of e1]))"
| "on_mesh ob (MELink peer up) e = on_link ob peer up e"
| "on_mesh ob (MEPeerChannel peer name) e =
     (let e1 = with_member peer (\<lambda>m. m\<lparr>m_channel := name\<rparr>) e in (e1, [roster_of e1]))"
| "on_mesh ob (MEPeerChannels names) e = on_peer_channels ob names e"
| "on_mesh ob (MEPeerChannelRemoved name) e = on_peer_channel_removed ob name e"
| "on_mesh ob (MESecure peer fp) e = on_peer_secure ob peer fp e"
| "on_mesh ob (MERoomKey src gen key) e =
     (let (taken, k) = on_room_key src gen key (en_members e) (en_keys e)
      in (e\<lparr>en_keys := k\<rparr>, if taken
             then [Ui (URoomAudio (kc_generation k) (am_authority (en_me_id e) (en_members e)))] else []))"
| "on_mesh ob (MERoomGen src gen) e =
     (let (acts, k) = on_room_gen (ob_draw ob) src gen (en_members e)
             (secure_peer_ids (en_members e) (ob_crypto ob)) (en_keys e)
      in (e\<lparr>en_keys := k\<rparr>, if acts \<noteq> [] then map MKey acts @ [Ui (URoomAudio (kc_generation k) True)] else []))"

section \<open>Commands\<close>

definition set_tx :: "bool \<Rightarrow> engine \<Rightarrow> engine \<times> effect list" where
  "set_tx on e =
     (let e1 = e\<lparr>en_transmit := on\<rparr>
      in (e1, (if on then [Click] else []) @ (if en_up e then [ToServer (Ptt on)] else [])
              @ [Ui (UStatus True on), roster_of e1]))"

definition set_channel :: "obs \<Rightarrow> str \<Rightarrow> engine \<Rightarrow> engine \<times> effect list" where
  "set_channel ob raw e =
     (let cut = chars_take MAX_CHANNEL_LEN (trim raw);
          name = (if cut = [] then DEFAULT_CHANNEL else cut);
          e1 = e\<lparr>en_my_channel := name, en_chan := cs_set_mine name (en_chan e),
                 en_removed := removeAll (canon_channel (ob_lc ob) name) (en_removed e)\<rparr>;
          (grew, known) = merge_channels (ob_lc ob) (en_known e1) [name];
          e2 = e1\<lparr>en_known := known, en_chan := (if grew then cs_set_dir known (en_chan e1) else en_chan e1)\<rparr>
      in (e2, [MChannel name] @ (if grew then [MChannels known] else []) @ [Ui (UChannel name), roster_of e2]))"

definition remove_channel :: "obs \<Rightarrow> str \<Rightarrow> engine \<Rightarrow> engine \<times> effect list" where
  "remove_channel ob name e =
     (let canon = canon_channel (ob_lc ob) name
      in if canon \<noteq> [] \<and> canon \<noteq> canon_channel (ob_lc ob) DEFAULT_CHANNEL
            \<and> \<not> channel_in_use (ob_lc ob) canon (en_my_channel e) (en_members e)
         then drop_channel ob canon e else (e, []))"

text \<open>\<open>None\<close>: the handle was dropped.\<close>

fun on_cmd :: "obs \<Rightarrow> cmd option \<Rightarrow> engine \<Rightarrow> engine \<times> effect list" where
  "on_cmd ob (Some ToggleTx) e = set_tx (\<not> en_transmit e) e"
| "on_cmd ob (Some (SetTx on)) e = (if en_transmit e \<noteq> on then set_tx on e else (e, []))"
| "on_cmd ob (Some (ChatCmd t)) e = (e, [MChat t, Ui (UChat (en_me_name e) t)])"
| "on_cmd ob (Some RekeyCmd) e = (e, if en_up e then [ToServer Rekey] else [])"
| "on_cmd ob (Some Reconnect) e =
     (if \<not> en_up e then (e\<lparr>en_backoff := 2, en_next_try := Some (ob_now ob)\<rparr>, []) else (e, []))"
| "on_cmd ob (Some (SetChannel name)) e = set_channel ob name e"
| "on_cmd ob (Some (RemoveChannel name)) e = remove_channel ob name e"
| "on_cmd ob None e = shut_down (if en_up e then [ToServer Leave] else []) e"

definition on_promoted :: "u32 \<Rightarrow> engine \<Rightarrow> engine \<times> effect list" where
  "on_promoted g e =
     (let k = on_promote g (en_keys e)
      in (e\<lparr>en_keys := k\<rparr>,
          [Ui (URoomAudio (ra_sending_generation (kc_room k)) (am_authority (en_me_id e) (en_members e)))]))"

section \<open>The loop\<close>

datatype event =
    Tick nat nat
  | Uplink client_msg
  | ReconnectDue "str + unit"
  | SignalingLost
  | FromServer server_msg
  | FromMesh mesh_event
  | Command "cmd option"
  | Promoted u32

text \<open>One iteration.  Messages of the server only arrive while the link is up, and a loop that has
  broken out does nothing.\<close>

fun engine_step :: "obs \<times> event \<Rightarrow> engine \<Rightarrow> engine \<times> effect list" where
  "engine_step (ob, ev) e =
     (if \<not> en_running e then (e, [])
      else case ev of
        Tick up down \<Rightarrow> on_tick ob up down e
      | Uplink m \<Rightarrow> on_uplink m e
      | ReconnectDue res \<Rightarrow> on_reconnect ob res e
      | SignalingLost \<Rightarrow> if en_up e then on_signaling_lost ob e else (e, [])
      | FromServer m \<Rightarrow> if en_up e then on_server ob m e else (e, [])
      | FromMesh m \<Rightarrow> on_mesh ob m e
      | Command c \<Rightarrow> on_cmd ob c e
      | Promoted g \<Rightarrow> on_promoted g e)"

fun engine_run :: "(obs \<times> event) list \<Rightarrow> engine \<Rightarrow> engine \<times> effect list" where
  "engine_run [] e = (e, [])"
| "engine_run (x # xs) e =
     (let (e1, f1) = engine_step x e; (e2, f2) = engine_run xs e1 in (e2, f1 @ f2))"

end
