(* ===== verification/Engine_Props.thy ===== *)
theory Engine_Props
  imports Engine Keying_Props
begin

text \<open>Properties of the client's engine loop over any run of its \<open>select!\<close> arms: the channel
  directory, the reconnect schedule, the member table, the link watchdog and the rotation when a
  member leaves.\<close>

section \<open>What an arm leaves alone\<close>

named_theorems engine_defs \<open>definitions of the loop's arms\<close>

lemmas [engine_defs] =
  on_tick_def net_tick_def keyless_tick_def links_tick_def on_uplink_def on_reconnect_def on_signaling_lost_def
  on_roster_def on_peer_joined_def on_peer_left_def on_peer_ptt_def on_rekeyed_def shut_down_def on_link_def
  on_peer_secure_def on_promoted_def set_tx_def rotate_and_tell_def with_member_def

definition same_channels :: "engine \<Rightarrow> engine \<Rightarrow> bool" where
  "same_channels e e' \<longleftrightarrow> en_known e' = en_known e \<and> en_removed e' = en_removed e
     \<and> en_my_channel e' = en_my_channel e \<and> cs_dir (en_chan e') = cs_dir (en_chan e)
     \<and> cs_mine (en_chan e') = cs_mine (en_chan e)"

lemma chan_removals [simp]: "cs_dir (fold cs_remove_peer us cs) = cs_dir cs" "cs_mine (fold cs_remove_peer us cs) = cs_mine cs"
  by (induction us arbitrary: cs) (simp_all add: cs_remove_peer_def)

lemma chan_removal [simp]: "cs_dir (cs_remove_peer u cs) = cs_dir cs" "cs_mine (cs_remove_peer u cs) = cs_mine cs"
  by (simp_all add: cs_remove_peer_def)

lemma tick_channels: "same_channels e (fst (on_tick ob up down e))"
  by (simp add: same_channels_def engine_defs Let_def split: prod.split)

lemma server_channels: "same_channels e (fst (on_server ob m e))"
  by (cases m) (simp_all add: same_channels_def engine_defs Let_def split: prod.split option.split)

text \<open>The mesh events and commands that touch the directory are the four of these.\<close>

definition directory_event :: "event \<Rightarrow> bool" where
  "directory_event ev \<longleftrightarrow> (case ev of
     FromMesh (MEPeerChannels _) \<Rightarrow> True | FromMesh (MEPeerChannelRemoved _) \<Rightarrow> True
   | Command (Some (SetChannel _)) \<Rightarrow> True | Command (Some (RemoveChannel _)) \<Rightarrow> True | _ \<Rightarrow> False)"

lemma other_mesh_channels:
  "\<not> directory_event (FromMesh m) \<Longrightarrow> same_channels e (fst (on_mesh ob m e))"
  by (cases m) (simp_all add: directory_event_def same_channels_def engine_defs Let_def split: prod.split option.split)

lemma other_cmd_channels:
  "\<not> directory_event (Command c) \<Longrightarrow> same_channels e (fst (on_cmd ob c e))"
  by (cases "(ob, c, e)" rule: on_cmd.cases)
    (simp_all add: directory_event_def same_channels_def engine_defs Let_def split: prod.split option.split)

lemma other_channels:
  assumes "\<not> directory_event ev"
  shows "same_channels e (fst (engine_step (ob, ev) e))"
proof -
  have refl: "same_channels e e" by (simp add: same_channels_def)
  show ?thesis
  proof (cases ev)
    case (Tick up down)
    then show ?thesis using tick_channels refl by simp
  next
    case (FromServer m)
    then show ?thesis using server_channels refl by simp
  next
    case (FromMesh m)
    with assms show ?thesis using other_mesh_channels refl by simp
  next
    case (Command c)
    with assms show ?thesis using other_cmd_channels refl by simp
  qed (simp_all add: same_channels_def engine_defs Let_def split: sum.split option.split)
qed

section \<open>The channel directory\<close>

definition chans_ok :: "(str \<Rightarrow> str) \<Rightarrow> engine \<Rightarrow> bool" where
  "chans_ok lc e \<longleftrightarrow> dir_ok lc (en_known e) \<and> DEFAULT_CHANNEL \<in> set (en_known e)
     \<and> canon_channel lc ` set (en_known e) \<inter> set (en_removed e) = {}
     \<and> cs_dir (en_chan e) = en_known e \<and> cs_mine (en_chan e) = en_my_channel e"

lemma chans_ok_same: "chans_ok lc e \<Longrightarrow> same_channels e e' \<Longrightarrow> chans_ok lc e'"
  by (simp add: chans_ok_def same_channels_def)

lemma chans_ok_drop:
  assumes "chans_ok (ob_lc ob) e" and "canon \<noteq> canon_channel (ob_lc ob) DEFAULT_CHANNEL"
  shows "chans_ok (ob_lc ob) (fst (drop_channel ob canon e))"
proof -
  have "distinct (map (canon_channel lc) (filter P xs))" if "distinct (map (canon_channel lc) xs)" for lc P xs
    using that by (rule distinct_map_filter)
  moreover have "length (filter P (en_known e)) \<le> MAX_CHANNELS" for P
  proof -
    have "length (en_known e) \<le> MAX_CHANNELS" using assms(1) by (simp add: chans_ok_def dir_ok_def)
    with length_filter_le [of P "en_known e"] show ?thesis by (rule le_trans)
  qed
  ultimately show ?thesis
    using assms by (auto simp: chans_ok_def dir_ok_def drop_channel_def remove_from_dir_def Let_def cs_set_dir_def)
qed

lemma chans_ok_merge:
  assumes "chans_ok (ob_lc ob) e" and "\<forall>n \<in> set add. canon_channel (ob_lc ob) n \<notin> set (en_removed e)"
    and "merge_channels (ob_lc ob) (en_known e) add = (grew, known)"
  shows "chans_ok (ob_lc ob) (e\<lparr>en_known := known, en_chan := if grew then cs_set_dir known (en_chan e) else en_chan e\<rparr>)"
proof -
  from merge_prefix [of "ob_lc ob" "en_known e" add] assms(3) obtain new
    where new: "known = en_known e @ new" "set new \<subseteq> set add" "grew \<longleftrightarrow> new \<noteq> []" by auto
  have "dir_ok (ob_lc ob) known"
    using merge_ok [of "ob_lc ob" "en_known e" add] assms(1,3) by (simp add: chans_ok_def)
  with new assms(1,2) show ?thesis
    by (auto simp: chans_ok_def cs_set_dir_def)
qed

lemma chans_ok_merged:
  assumes "chans_ok (ob_lc ob) e" and "en_running e"
  shows "chans_ok (ob_lc ob) (fst (engine_step (ob, FromMesh (MEPeerChannels names)) e))"
proof -
  let ?add = "filter (\<lambda>n. canon_channel (ob_lc ob) n \<notin> set (en_removed e)) names"
  obtain grew known where m: "merge_channels (ob_lc ob) (en_known e) ?add = (grew, known)" by fastforce
  from chans_ok_merge [OF assms(1) _ m] assms(2) show ?thesis
    by (cases grew) (simp_all add: on_peer_channels_def m)
qed

lemma chans_ok_switched:
  assumes "chans_ok (ob_lc ob) e" and "en_running e"
  shows "chans_ok (ob_lc ob) (fst (engine_step (ob, Command (Some (SetChannel name))) e))"
proof -
  let ?name = "if chars_take MAX_CHANNEL_LEN (trim name) = [] then DEFAULT_CHANNEL else chars_take MAX_CHANNEL_LEN (trim name)"
  let ?e = "e\<lparr>en_my_channel := ?name, en_chan := cs_set_mine ?name (en_chan e),
      en_removed := removeAll (canon_channel (ob_lc ob) ?name) (en_removed e)\<rparr>"
  obtain grew known where m: "merge_channels (ob_lc ob) (en_known ?e) [?name] = (grew, known)" by fastforce
  have "chans_ok (ob_lc ob) ?e" using assms by (auto simp: chans_ok_def cs_set_mine_def)
  from chans_ok_merge [OF this _ m] assms(2) m show ?thesis
    by (simp add: set_channel_def Let_def del: merge_channels.simps)
qed

lemma chans_ok_step:
  assumes "chans_ok (ob_lc ob) e"
  shows "chans_ok (ob_lc ob) (fst (engine_step (ob, ev) e))"
proof (cases "directory_event ev \<and> en_running e")
  case False
  with assms chans_ok_same [OF assms other_channels] show ?thesis by (cases "en_running e") simp_all
next
  case True
  then consider (dirs) names where "ev = FromMesh (MEPeerChannels names)"
    | (gone) name where "ev = FromMesh (MEPeerChannelRemoved name)"
    | (switch) name where "ev = Command (Some (SetChannel name))"
    | (del) name where "ev = Command (Some (RemoveChannel name))"
    by (auto simp: directory_event_def split: event.splits mesh_event.splits option.splits cmd.splits)
  then show ?thesis
  proof cases
    case dirs
    with chans_ok_merged [OF assms] True show ?thesis by simp
  next
    case gone
    with True chans_ok_drop [OF assms] assms show ?thesis
      by (simp add: on_peer_channel_removed_def Let_def)
  next
    case switch
    with chans_ok_switched [OF assms] True show ?thesis by simp
  next
    case del
    with True chans_ok_drop [OF assms] assms show ?thesis
      by (simp add: remove_channel_def Let_def)
  qed
qed


section \<open>The reconnect schedule\<close>

definition link_ok :: "client_msg \<Rightarrow> engine \<Rightarrow> bool" where
  "link_ok jn e \<longleftrightarrow> en_join e = jn \<and> 2 \<le> en_backoff e \<and> en_backoff e \<le> 30 \<and> (en_up e \<or> en_next_try e \<noteq> None)"

lemma link_ok_server: "link_ok jn e \<Longrightarrow> link_ok jn (fst (on_server ob m e))"
  by (cases m) (simp_all add: link_ok_def engine_defs Let_def split: prod.split option.split)

lemma link_ok_mesh: "link_ok jn e \<Longrightarrow> link_ok jn (fst (on_mesh ob m e))"
  by (cases m) (simp_all add: link_ok_def engine_defs on_peer_channels_def on_peer_channel_removed_def drop_channel_def
      Let_def split: prod.split option.split)

lemma link_ok_cmd: "link_ok jn e \<Longrightarrow> link_ok jn (fst (on_cmd ob c e))"
  by (cases "(ob, c, e)" rule: on_cmd.cases)
    (simp_all add: link_ok_def engine_defs set_channel_def remove_channel_def drop_channel_def Let_def split: prod.split option.split)

lemma link_ok_step: "link_ok jn e \<Longrightarrow> link_ok jn (fst (engine_step (ob, ev) e))"
proof (cases ev)
  case (ReconnectDue res)
  assume "link_ok jn e"
  then show ?thesis by (auto simp: ReconnectDue link_ok_def on_reconnect_def Let_def split: sum.split option.split)
qed (auto simp: link_ok_server link_ok_mesh link_ok_cmd,
     auto simp: link_ok_def on_tick_def net_tick_def keyless_tick_def links_tick_def on_uplink_def on_signaling_lost_def
       on_promoted_def Let_def split: prod.split)

text \<open>Claim C17. The client never gives up on signaling: in any state of a running engine whose link is down, an
  attempt is scheduled; one that succeeds brings the link up and joins again with the very same message,
  secret included, and one that fails schedules the next, 4 to 30 seconds later.\<close>

theorem reconnect_never_gives_up:
  assumes "e = fst (engine_run xs (fst (engine_start me_id me_name relay jn now)))"
    and "en_running e" and "\<not> en_up e"
  shows "\<exists>t. en_next_try e = Some t \<and> (\<forall>ob. t \<le> ob_now ob \<longrightarrow>
     (case engine_step (ob, ReconnectDue (Inr ())) e of (e', fx) \<Rightarrow> en_up e' \<and> hd fx = ToServer jn)
     \<and> (\<forall>err. case engine_step (ob, ReconnectDue (Inl err)) e of (e', fx) \<Rightarrow>
          \<not> en_up e' \<and> (\<exists>t'. en_next_try e' = Some t' \<and> ob_now ob + 4000 \<le> t' \<and> t' \<le> ob_now ob + 30000)))"
proof -
  have run: "link_ok jn e \<Longrightarrow> link_ok jn (fst (engine_run xs e))" for e xs
  proof (induction xs arbitrary: e)
    case (Cons x xs)
    then have "link_ok jn (fst (engine_step x e))" using link_ok_step by (cases x) auto
    with Cons.IH show ?case by (simp add: Let_def case_prod_beta del: engine_step.simps)
  qed simp
  have "link_ok jn (fst (engine_start me_id me_name relay jn now))" by (simp add: engine_start_def link_ok_def)
  from run [OF this, of xs] have ok: "link_ok jn e" by (simp add: assms(1))
  then obtain t where t: "en_next_try e = Some t" using assms(3) by (auto simp: link_ok_def)
  then show ?thesis
    using ok assms(2,3) by (auto simp: link_ok_def on_reconnect_def Let_def)
qed

section \<open>The member table\<close>

lemma find_id: "find (\<lambda>p. pi_user_id p = u) ps = None \<longleftrightarrow> u \<notin> pi_user_id ` set ps"
  by (auto simp: find_None_iff)

lemma rebuild_map:
  assumes "distinct (map pi_user_id ps)"
  shows "map_of (rebuild ob e ps old fresh) u =
    (case find (\<lambda>p. pi_user_id p = u) ps of
       None \<Rightarrow> map_of fresh u
     | Some p \<Rightarrow> Some (case map_of old u of
           Some o_m \<Rightarrow> o_m\<lparr>m_name := pi_name p, m_secure := is_secure u (ob_crypto ob),
              m_fingerprint := if is_secure u (ob_crypto ob) then m_fingerprint o_m else None\<rparr>
         | None \<Rightarrow> member_seen ob e u (pi_name p)))"
  using assms
proof (induction ob e ps old fresh rule: rebuild.induct)
  case (2 ob e p ps old fresh)
  have "find (\<lambda>q. pi_user_id q = pi_user_id p) ps = None"
    unfolding find_id using "2.prems" by simp
  with 2 show ?case by (auto simp: Let_def split: option.split)
qed simp

lemma departed_iff: "u \<in> set (departed ms ps) \<longleftrightarrow> u \<in> fst ` set ms \<and> u \<notin> pi_user_id ` set ps"
  by (auto simp: departed_def)

lemma map_of_deletes: "map_of (fold AList.delete us ms) u = (if u \<in> set us then None else map_of ms u)"
  by (induction us arbitrary: ms) auto

lemma rotate_and_tell_members [simp]: "en_members (fst (rotate_and_tell ob e)) = en_members e"
    "en_me_id (fst (rotate_and_tell ob e)) = en_me_id e"
  by (simp_all add: rotate_and_tell_def split: prod.split)

lemma rotate_and_tell_keeps: "rotate_and_tell ob e = (e', fx) \<Longrightarrow> en_members e' = en_members e"
  using rotate_and_tell_members(1) [of ob e] by simp

lemma rotate_and_tell_keys:
  assumes "kc_ok (en_keys e)" and "kc_room_gen (en_keys e) \<noteq> - 1" and "rotate_and_tell ob e = (e', fx)"
  shows "ra_cur (kc_room (en_keys e')) = Some \<lparr>rk_gen = kc_room_gen (en_keys e) + 1, rk_auth = kc_me (en_keys e), rk_key = ob_draw ob\<rparr>
    \<and> (\<forall>a. MKey a \<in> set fx \<longleftrightarrow> (\<exists>i \<in> fst ` set (en_members e). is_secure i (ob_crypto ob)
          \<and> a = SendKey i (kc_room_gen (en_keys e) + 1) (ob_draw ob)))"
proof -
  obtain acts k where rot: "rotate_key (ob_draw ob) (secure_peer_ids (en_members e) (ob_crypto ob)) (en_keys e) = (acts, k)"
    by fastforce
  have inc: "sat_inc32 (kc_room_gen (en_keys e)) = kc_room_gen (en_keys e) + 1" using assms(2) by (simp add: sat_inc32_def)
  have "e' = e\<lparr>en_keys := k\<rparr>" "fx = map MKey acts @ [Ui (URoomAudio (kc_generation k) True)]"
    using assms(3) by (simp_all add: rotate_and_tell_def rot)
  with rotate_fresh [OF assms(1,2) rot] show ?thesis
    by (auto simp: inc secure_peer_ids_def)
qed

text \<open>A fresh roster is the truth: after it the client lists exactly those peers; it drops the link of
  exactly the members that vanished, asks the mesh for every listed peer, and keeps what it knew of the links
  of the others.\<close>

theorem roster_sync:
  assumes "distinct (map pi_user_id peers)" and "on_roster ob peers e = (e', fx)"
  shows "fst ` set (en_members e') = pi_user_id ` set peers
    \<and> (\<forall>u. MOnLeft u \<in> set fx \<longleftrightarrow> u \<in> fst ` set (en_members e) \<and> u \<notin> pi_user_id ` set peers)
    \<and> (\<forall>u. MOnPeer u \<in> set fx \<longleftrightarrow> u \<in> pi_user_id ` set peers)
    \<and> (\<forall>u m. map_of (en_members e) u = Some m \<and> u \<in> pi_user_id ` set peers \<longrightarrow>
         (\<exists>m'. map_of (en_members e') u = Some m' \<and> m_linked m' = m_linked m \<and> m_channel m' = m_channel m
            \<and> m_down_since m' = m_down_since m \<and> m_last_relink m' = m_last_relink m))"
proof -
  let ?gone = "departed (en_members e) peers"
  let ?e1 = "e\<lparr>en_chan := fold cs_remove_peer ?gone (en_chan e)\<rparr>"
  let ?ms = "rebuild ob ?e1 peers (fold AList.delete ?gone (en_members e)) []"
  have ms: "en_members e' = ?ms"
    using assms(2) by (auto simp: on_roster_def Let_def dest: rotate_and_tell_keeps split: if_splits prod.splits)
  have rot: "MOnLeft u \<notin> set (snd (rotate_and_tell ob x))" "MOnPeer u \<notin> set (snd (rotate_and_tell ob x))" for u x
    by (auto simp: rotate_and_tell_def split: prod.split)
  let ?e2 = "?e1\<lparr>en_members := ?ms\<rparr>"
  have fx: "\<exists>f3. fx = map MOnLeft ?gone @ map (\<lambda>p. MOnPeer (pi_user_id p)) peers @ [roster_of ?e2] @ f3
      \<and> (f3 = [] \<or> f3 = snd (rotate_and_tell ob ?e2))"
    using assms(2) by (auto simp: on_roster_def Let_def split: if_splits prod.splits)
  have keys: "map_of ?ms u = None \<longleftrightarrow> u \<notin> pi_user_id ` set peers" for u
    by (simp add: rebuild_map [OF assms(1)] find_id [symmetric] split: option.split)
  then have "fst ` set (en_members e') = pi_user_id ` set peers"
    unfolding ms by (metis (no_types, lifting) map_of_None_iff subsetI subset_antisym)
  moreover have "\<exists>m'. map_of ?ms u = Some m' \<and> m_linked m' = m_linked m \<and> m_channel m' = m_channel m
            \<and> m_down_since m' = m_down_since m \<and> m_last_relink m' = m_last_relink m"
    if known: "map_of (en_members e) u = Some m" "u \<in> pi_user_id ` set peers" for u m
  proof -
    obtain p where "find (\<lambda>p. pi_user_id p = u) peers = Some p"
      using known(2) find_id [of u peers] by (cases "find (\<lambda>p. pi_user_id p = u) peers") auto
    with known show ?thesis by (simp add: rebuild_map [OF assms(1)] map_of_deletes departed_iff)
  qed
  moreover obtain f3 where "fx = map MOnLeft ?gone @ map (\<lambda>p. MOnPeer (pi_user_id p)) peers @ [roster_of ?e2] @ f3"
      "f3 = [] \<or> f3 = snd (rotate_and_tell ob ?e2)" using fx by blast
  then have "MOnLeft u \<in> set fx \<longleftrightarrow> u \<in> set ?gone" "MOnPeer u \<in> set fx \<longleftrightarrow> u \<in> pi_user_id ` set peers" for u
    using rot [of u ?e2] by (auto simp: roster_of_def emit_roster_def)
  ultimately show ?thesis by (simp add: ms departed_iff)
qed

text \<open>Claim C12. Forward secrecy on a departure: when the remaining members make this client the authority, a member
  that leaves triggers a fresh key one generation up, handed to every remaining member with a pairwise session
  and to nobody else, in particular not to the one that left.\<close>

theorem departure_rekeys:
  assumes "on_peer_left ob u e = (e', fx)" and "kc_ok (en_keys e)" and "kc_room_gen (en_keys e) \<noteq> - 1"
    and "am_authority (en_me_id e) (AList.delete u (en_members e))"
  shows "ra_cur (kc_room (en_keys e')) = Some \<lparr>rk_gen = kc_room_gen (en_keys e) + 1, rk_auth = kc_me (en_keys e), rk_key = ob_draw ob\<rparr>
    \<and> (\<forall>v g k. MKey (SendKey v g k) \<in> set fx \<longleftrightarrow> v \<in> fst ` set (en_members e) \<and> v \<noteq> u \<and> is_secure v (ob_crypto ob)
         \<and> g = kc_room_gen (en_keys e) + 1 \<and> k = ob_draw ob)
    \<and> MOnLeft u \<in> set fx \<and> u \<notin> fst ` set (en_members e')"
proof -
  let ?e1 = "e\<lparr>en_members := AList.delete u (en_members e), en_chan := cs_remove_peer u (en_chan e)\<rparr>"
  obtain e2 f2 where r: "rotate_and_tell ob ?e1 = (e2, f2)" by fastforce
  have "e' = e2" "fx = [MOnLeft u, roster_of ?e1] @ f2"
    using assms(1,4) r by (simp_all add: on_peer_left_def Let_def)
  moreover have "en_members e2 = AList.delete u (en_members e)"
    using rotate_and_tell_keeps [OF r] by simp
  ultimately show ?thesis
    using rotate_and_tell_keys [OF _ _ r] assms(2,3) by (auto simp: roster_of_def emit_roster_def)
qed

section \<open>The link watchdog\<close>

lemma relinks: "MRelink i \<notin> set tail \<Longrightarrow> MRelink i \<in> set (map MRelink (map fst xs) @ tail) \<longleftrightarrow> i \<in> fst ` set xs"
  by auto

lemma link_tick_shape:
  assumes "links_tick ob e = (e', fx)"
  shows "MRelink i \<in> set fx \<longleftrightarrow> (\<exists>m. (i, m) \<in> set (en_members e) \<and> fst (snd (link_tick (en_me_id e) (ob_now ob) i m)))"
proof -
  let ?res = "map (\<lambda>(i, m). (i, link_tick (en_me_id e) (ob_now ob) i m)) (en_members e)"
  have "\<exists>tail. fx = map MRelink (map fst (filter (\<lambda>(i, m, r, w). r) ?res)) @ tail \<and> MRelink i \<notin> set tail"
    using assms by (auto simp: links_tick_def Let_def)
  then have "MRelink i \<in> set fx \<longleftrightarrow> i \<in> fst ` set (filter (\<lambda>(i, m, r, w). r) ?res)"
    by (elim exE conjE) (erule ssubst, erule relinks)
  also have "\<dots> \<longleftrightarrow> (\<exists>m. (i, m) \<in> set (en_members e) \<and> fst (snd (link_tick (en_me_id e) (ob_now ob) i m)))"
    by (simp add: filter_map o_def case_prod_beta image_image) force
  finally show ?thesis .
qed


section \<open>Concrete instances\<close>

definition demo_obs :: "nat \<Rightarrow> obs" where
  "demo_obs now = \<lparr>ob_now = now, ob_crypto = \<lparr>pc_my_id = ''al'', pc_sessions = [(''bob'', fst demo_pair), (''cy'', fst demo_pair)], pc_pending = []\<rparr>,
     ob_draw = ''draw'', ob_why = (\<lambda>i. ''?''), ob_kbps = (\<lambda>b t. 0), ob_lc = ascii_lower\<rparr>"

definition demo_engine :: engine where
  "demo_engine = (fst (engine_start ''al'' ''Al'' True Leave 0))\<lparr>en_members := demo_view ''al''\<rparr>"


theorem reconnect_never_gives_up_witness:
  "\<exists>t. en_next_try (fst (engine_run [(demo_obs 5, SignalingLost)] (fst (engine_start ''al'' ''Al'' True Leave 0)))) = Some t"
proof -
  have "en_running (fst (engine_run [(demo_obs 5, SignalingLost)] (fst (engine_start ''al'' ''Al'' True Leave 0))))"
    "\<not> en_up (fst (engine_run [(demo_obs 5, SignalingLost)] (fst (engine_start ''al'' ''Al'' True Leave 0))))"
    by (simp_all add: engine_start_def on_signaling_lost_def)
  from reconnect_never_gives_up [OF refl this] show ?thesis by blast
qed

theorem roster_sync_witness:
  "fst ` set (en_members (fst (on_roster (demo_obs 0) [\<lparr>pi_user_id = ''cy'', pi_name = ''Cy''\<rparr>, \<lparr>pi_user_id = ''dan'', pi_name = ''Dan''\<rparr>] demo_engine)))
     = {''cy'', ''dan''}"
  using roster_sync [OF _ prod.collapse [symmetric], of "[\<lparr>pi_user_id = ''cy'', pi_name = ''Cy''\<rparr>, \<lparr>pi_user_id = ''dan'', pi_name = ''Dan''\<rparr>]"]
  by simp

theorem departure_rekeys_witness:
  "\<forall>v g k. MKey (SendKey v g k) \<in> set (snd (on_peer_left (demo_obs 0) ''bob'' demo_engine)) \<longleftrightarrow> v = ''cy'' \<and> g = 1 \<and> k = ''draw''"
proof -
  have k: "en_keys demo_engine = kc_new ''al'' ra_new" by (simp add: demo_engine_def engine_start_def)
  have ok: "kc_ok (en_keys demo_engine)" "kc_room_gen (en_keys demo_engine) \<noteq> - 1"
    by (simp add: k kc_ok_new) (simp add: k kc_new_def)
  have a: "am_authority (en_me_id demo_engine) (AList.delete ''bob'' (en_members demo_engine))" by code_simp
  have m: "fst ` set (en_members demo_engine) = {''bob'', ''cy''}" by code_simp
  have s: "is_secure ''cy'' (ob_crypto (demo_obs 0))" "is_secure ''bob'' (ob_crypto (demo_obs 0))" "ob_draw (demo_obs 0) = ''draw''"
    by (simp_all add: demo_obs_def is_secure_def)
  show ?thesis
    using departure_rekeys [OF prod.collapse [symmetric] ok a, of "demo_obs 0"] s
    by (auto simp: m k kc_new_def)
qed


end
