(* ===== verification/Mesh.thy ===== *)
theory Mesh
  imports Engine
begin

text \<open>
  The peer-to-peer mesh of \<open>apps/companion-core/src/mesh.rs\<close>: one connection per peer with its buffer of
  early ICE candidates and its diagnosis, who offers and who yields when both do, the DataChannel protocol,
  and the receive path of an audio packet.

  \<open>webrtc\<close> is outside: a connection is a number, its signaling and connection states are those of the W3C
  state machine, its calls succeed or fail as \<open>me_ok\<close> says, and what the code asks of it is an effect.  JSON,
  base64 and the primitives of the handshake are further fields of \<open>mesh_env\<close>.
\<close>

section \<open>Environment\<close>

datatype api = NewPc | AddTrack | CreateDc | CreateOffer | SetLocal | ParseSdp | SetRemote | CreateAnswer

record mesh_env =
  me_prims :: prims
  me_b64e :: "bytes \<Rightarrow> str"
  me_b64d :: "str \<Rightarrow> bytes option"
  me_json :: "ctrl_msg \<Rightarrow> bytes"
  me_parse :: "bytes \<Rightarrow> ctrl_msg option"
  me_ok :: "api \<Rightarrow> bool"
  me_sdp :: "nat \<Rightarrow> str"
  me_ice_ok :: "str \<Rightarrow> bool"
  me_draw :: bytes
  me_secret :: bytes
  me_ts :: u64

section \<open>Link diagnosis\<close>

record diag =
  dg_local :: "str list"
  dg_remote :: "str list"
  dg_remote_desc :: bool
  dg_paired :: bool

definition diag_new :: diag where
  "diag_new = \<lparr>dg_local = [], dg_remote = [], dg_remote_desc = False, dg_paired = False\<rparr>"

definition candidate_type :: "str \<Rightarrow> str option" where
  "candidate_type line =
     (case split_once '' typ '' line of
        None \<Rightarrow> None
      | Some (_, after) \<Rightarrow>
          let rest = (case split_once '' typ '' after of Some (seg, _) \<Rightarrow> seg | None \<Rightarrow> after);
              t = takeWhile is_alnum_c (trim_start rest)
          in if t = [] then None else Some t)"

text \<open>A \<open>BTreeSet\<close>: sorted, without duplicates.\<close>

definition bt_insert :: "str \<Rightarrow> str list \<Rightarrow> str list" where
  "bt_insert t s = (if t \<in> set s then s else insort t s)"

definition note_local :: "str \<Rightarrow> diag \<Rightarrow> diag" where
  "note_local line d =
     (case candidate_type line of Some t \<Rightarrow> d\<lparr>dg_local := bt_insert t (dg_local d)\<rparr> | None \<Rightarrow> d)"

definition note_remote :: "str \<Rightarrow> diag \<Rightarrow> diag" where
  "note_remote line d =
     (case candidate_type line of Some t \<Rightarrow> d\<lparr>dg_remote := bt_insert t (dg_remote d)\<rparr> | None \<Rightarrow> d)"

definition diag_types :: "str list \<Rightarrow> str" where
  "diag_types s = (if s = [] then ''keine'' else join '','' s)"

definition diag_summary :: "diag \<Rightarrow> str" where
  "diag_summary d =
     (let l = diag_types (dg_local d); r = diag_types (dg_remote d)
      in if dg_paired d
         then ''Verbindung stand und ist abgebrochen (lokal '' @ l @ '', gegenueber '' @ r @ '')''
         else if \<not> dg_remote_desc d
         then ''kein Offer/Answer angekommen - Signalisierung, nicht NAT''
         else if dg_remote d = []
         then ''keine ICE-Kandidaten vom Gegenueber (lokal '' @ l @ '')''
         else ''Kandidaten getauscht (lokal '' @ l @ '', gegenueber '' @ r
              @ ''), aber kein Paar durchgekommen - der Weg ist blockiert'')"

section \<open>Connections\<close>

datatype sig_state = Stable | HaveLocalOffer | HaveRemoteOffer
datatype conn_state = CNew | CConnecting | CConnected | CDisconnected | CFailed | CClosed

record peer_conn =
  pn_pc :: nat
  pn_pending :: "str list"
  pn_remote_set :: bool
  pn_chat :: "nat option"
  pn_diag :: diag
  pn_sig :: sig_state
  pn_conn :: conn_state

record ice_server =
  is_urls :: "str list"
  is_username :: str
  is_credential :: str

record mesh =
  ms_my_id :: str
  ms_ice_servers :: "ice_server list"
  ms_peers :: "(str \<times> peer_conn) list"
  ms_next :: nat
  ms_crypto :: peer_crypto
  ms_chan :: chan_state

datatype mesh_fx =
    FOut client_msg
  | FNewPc nat "ice_server list"
  | FClose nat
  | FAddIce nat str
  | FRemoteOffer nat str
  | FRemoteAnswer nat str
  | FEvent mesh_event
  | FCtrl nat ctrl_msg
  | FDecode str bytes

definition MAX_PENDING_ICE :: nat where "MAX_PENDING_ICE = 128"
definition MAX_CHAT_CHARS :: nat where "MAX_CHAT_CHARS = 2000"
definition MAX_CTRL_BYTES :: nat where "MAX_CTRL_BYTES = 8 * 1024"

definition mesh_new :: "str \<Rightarrow> peer_crypto \<Rightarrow> chan_state \<Rightarrow> mesh" where
  "mesh_new my_id pc cs =
     \<lparr>ms_my_id = my_id,
      ms_ice_servers = [\<lparr>is_urls = [''stun:stun.l.google.com:19302''], is_username = [], is_credential = []\<rparr>],
      ms_peers = [], ms_next = 0, ms_crypto = pc, ms_chan = cs\<rparr>"

definition add_turn :: "str list \<Rightarrow> str \<Rightarrow> str \<Rightarrow> mesh \<Rightarrow> mesh" where
  "add_turn urls username credential m =
     m\<lparr>ms_ice_servers := ms_ice_servers m @ [\<lparr>is_urls = urls, is_username = username, is_credential = credential\<rparr>]\<rparr>"

section \<open>Early ICE candidates\<close>

definition add_or_queue_ice :: "mesh_env \<Rightarrow> str \<Rightarrow> peer_conn \<Rightarrow> peer_conn \<times> mesh_fx list" where
  "add_or_queue_ice env cand p =
     (let p1 = p\<lparr>pn_diag := note_remote cand (pn_diag p)\<rparr>
      in if pn_remote_set p then (p1, if me_ice_ok env cand then [FAddIce (pn_pc p) cand] else [])
         else if length (pn_pending p) < MAX_PENDING_ICE then (p1\<lparr>pn_pending := pn_pending p @ [cand]\<rparr>, [])
         else (p1, []))"

definition flush_ice :: "mesh_env \<Rightarrow> peer_conn \<Rightarrow> peer_conn \<times> mesh_fx list" where
  "flush_ice env p =
     (p\<lparr>pn_remote_set := True, pn_diag := (pn_diag p)\<lparr>dg_remote_desc := True\<rparr>, pn_pending := []\<rparr>,
      map (FAddIce (pn_pc p)) (filter (me_ice_ok env) (pn_pending p)))"

definition put_peer :: "str \<Rightarrow> peer_conn \<Rightarrow> mesh \<Rightarrow> mesh" where
  "put_peer i p m = m\<lparr>ms_peers := AList.update i p (ms_peers m)\<rparr>"

definition mesh_on_ice :: "mesh_env \<Rightarrow> str \<Rightarrow> str \<Rightarrow> mesh \<Rightarrow> mesh \<times> mesh_fx list" where
  "mesh_on_ice env src cand m =
     (case map_of (ms_peers m) src of
        None \<Rightarrow> (m, [])
      | Some p \<Rightarrow> (let (p1, fx) = add_or_queue_ice env cand p in (put_peer src p1 m, fx)))"

section \<open>Building and dropping a link\<close>

text \<open>\<open>False\<close>: the call failed and the caller returns early.\<close>

definition ensure :: "mesh_env \<Rightarrow> str \<Rightarrow> mesh \<Rightarrow> bool \<times> mesh \<times> mesh_fx list" where
  "ensure env peer m =
     (if map_of (ms_peers m) peer \<noteq> None then (True, m, [])
      else if \<not> me_ok env NewPc then (False, m, [])
      else
        let n = ms_next m; m1 = m\<lparr>ms_next := Suc n\<rparr>; fx = [FNewPc n (ms_ice_servers m)]
        in if \<not> me_ok env AddTrack then (False, m1, fx)
           else (True, put_peer peer \<lparr>pn_pc = n, pn_pending = [], pn_remote_set = False, pn_chat = None,
                   pn_diag = diag_new, pn_sig = Stable, pn_conn = CNew\<rparr> m1, fx))"

text \<open>Take the link out, forget its session and close it.\<close>

definition drop_link :: "str \<Rightarrow> mesh \<Rightarrow> mesh \<times> mesh_fx list" where
  "drop_link peer m =
     (case map_of (ms_peers m) peer of
        None \<Rightarrow> (m, [])
      | Some old \<Rightarrow> (m\<lparr>ms_peers := AList.delete peer (ms_peers m), ms_crypto := pc_remove peer (ms_crypto m)\<rparr>,
                    [FClose (pn_pc old)]))"

definition offer :: "mesh_env \<Rightarrow> str \<Rightarrow> mesh \<Rightarrow> mesh \<times> mesh_fx list" where
  "offer env peer m =
     (case map_of (ms_peers m) peer of
        None \<Rightarrow> (m, [])
      | Some p \<Rightarrow>
          if \<not> me_ok env CreateDc then (m, [])
          else
            let n = ms_next m; m1 = m\<lparr>ms_next := Suc n\<rparr>; p1 = p\<lparr>pn_chat := Some n\<rparr>
            in if \<not> me_ok env CreateOffer \<or> \<not> me_ok env SetLocal then (put_peer peer p1 m1, [])
               else (put_peer peer (p1\<lparr>pn_sig := HaveLocalOffer\<rparr>) m1, [FOut (Offer peer (me_sdp env (pn_pc p)))]))"

definition ensure_offer :: "mesh_env \<Rightarrow> str \<Rightarrow> mesh \<Rightarrow> mesh \<times> mesh_fx list" where
  "ensure_offer env peer m =
     (case ensure env peer m of
        (False, m1, f1) \<Rightarrow> (m1, f1)
      | (True, m1, f1) \<Rightarrow> (let (m2, f2) = offer env peer m1 in (m2, f1 @ f2)))"

definition on_peer :: "mesh_env \<Rightarrow> str \<Rightarrow> mesh \<Rightarrow> mesh \<times> mesh_fx list" where
  "on_peer env peer m =
     (if ms_my_id m < peer then
        let (m1, f1) = drop_link peer m; (m2, f2) = ensure_offer env peer m1 in (m2, f1 @ f2)
      else let (ok, m1, f1) = ensure env peer m in (m1, f1))"

definition link_why :: "str \<Rightarrow> mesh \<Rightarrow> str" where
  "link_why peer m =
     (case map_of (ms_peers m) peer of Some p \<Rightarrow> diag_summary (pn_diag p) | None \<Rightarrow> ''keine Verbindung aufgebaut'')"

definition relink :: "mesh_env \<Rightarrow> str \<Rightarrow> mesh \<Rightarrow> mesh \<times> mesh_fx list" where
  "relink env peer m =
     (if (case map_of (ms_peers m) peer of
            Some p \<Rightarrow> (pn_conn p = CNew \<or> pn_conn p = CConnecting) \<and> pn_remote_set p | None \<Rightarrow> False)
      then (m, [])
      else let (m1, f1) = drop_link peer m; (m2, f2) = ensure_offer env peer m1 in (m2, f1 @ f2))"

definition mesh_on_offer :: "mesh_env \<Rightarrow> str \<Rightarrow> str \<Rightarrow> mesh \<Rightarrow> mesh \<times> mesh_fx list" where
  "mesh_on_offer env src sdp m =
     (let glare = (case map_of (ms_peers m) src of Some p \<Rightarrow> pn_sig p = HaveLocalOffer | None \<Rightarrow> False)
      in if glare \<and> ms_my_id m < src then (m, [])
      else
        let (m1, f1) = (if glare then drop_link src m else (m, []));
            (m2, f2) = (case map_of (ms_peers m1) src of
                          Some p \<Rightarrow> if pn_remote_set p then drop_link src m1 else (m1, []) | None \<Rightarrow> (m1, []));
            (ok, m3, f3) = ensure env src m2
        in if \<not> ok then (m3, f1 @ f2 @ f3)
        else case map_of (ms_peers m3) src of
          None \<Rightarrow> (m3, f1 @ f2 @ f3)
        | Some p \<Rightarrow>
            if \<not> me_ok env ParseSdp \<or> \<not> me_ok env SetRemote then (m3, f1 @ f2 @ f3)
            else
              let (p1, f4) = flush_ice env (p\<lparr>pn_sig := HaveRemoteOffer\<rparr>);
                  f5 = f1 @ f2 @ f3 @ [FRemoteOffer (pn_pc p) sdp] @ f4
              in if \<not> me_ok env CreateAnswer \<or> \<not> me_ok env SetLocal then (put_peer src p1 m3, f5)
                 else (put_peer src (p1\<lparr>pn_sig := Stable\<rparr>) m3, f5 @ [FOut (Answer src (me_sdp env (pn_pc p)))]))"

definition mesh_on_answer :: "mesh_env \<Rightarrow> str \<Rightarrow> str \<Rightarrow> mesh \<Rightarrow> mesh \<times> mesh_fx list" where
  "mesh_on_answer env src sdp m =
     (case map_of (ms_peers m) src of
        None \<Rightarrow> (m, [])
      | Some p \<Rightarrow>
          if \<not> me_ok env ParseSdp \<or> \<not> me_ok env SetRemote then (m, [])
          else let (p1, fx) = flush_ice env (p\<lparr>pn_sig := Stable\<rparr>)
               in (put_peer src p1 m, FRemoteAnswer (pn_pc p) sdp # fx))"

definition close_all :: "mesh \<Rightarrow> mesh \<times> mesh_fx list" where
  "close_all m =
     (m\<lparr>ms_peers := [], ms_crypto := fold (\<lambda>(i, p) c. pc_remove i c) (ms_peers m) (ms_crypto m)\<rparr>,
      map (\<lambda>(i, p). FClose (pn_pc p)) (ms_peers m))"

definition on_left :: "str \<Rightarrow> mesh \<Rightarrow> mesh \<times> mesh_fx list" where
  "on_left peer m =
     (m\<lparr>ms_peers := AList.delete peer (ms_peers m), ms_crypto := pc_remove peer (ms_crypto m)\<rparr>,
      case map_of (ms_peers m) peer of Some p \<Rightarrow> [FClose (pn_pc p)] | None \<Rightarrow> [])"

text \<open>The old connection is taken out before \<open>on_peer\<close> runs, which therefore finds none.  A failing
  call ends the loop (\<open>?\<close>).\<close>

definition rekey_one :: "mesh_env \<Rightarrow> str \<Rightarrow> mesh \<Rightarrow> mesh \<times> mesh_fx list" where
  "rekey_one env i m =
     (if ms_my_id m < i then
        let f1 = (case map_of (ms_peers m) i of Some p \<Rightarrow> [FClose (pn_pc p)] | None \<Rightarrow> []);
            (m2, f2) = on_peer env i (m\<lparr>ms_peers := AList.delete i (ms_peers m)\<rparr>)
        in (m2, f1 @ f2)
      else (m, []))"

fun rekey_loop :: "mesh_env \<Rightarrow> str list \<Rightarrow> mesh \<Rightarrow> mesh \<times> mesh_fx list" where
  "rekey_loop env [] m = (m, [])"
| "rekey_loop env (i # is) m =
     (let (m1, f1) = rekey_one env i m
      in if ms_my_id m < i \<and> \<not> (me_ok env NewPc \<and> me_ok env AddTrack \<and> me_ok env CreateDc
                               \<and> me_ok env CreateOffer \<and> me_ok env SetLocal)
         then (m1, f1)
         else let (m2, f2) = rekey_loop env is m1 in (m2, f1 @ f2))"

definition mesh_rekey :: "mesh_env \<Rightarrow> mesh \<Rightarrow> mesh \<times> mesh_fx list" where
  "mesh_rekey env m = rekey_loop env (map fst (ms_peers m)) m"

section \<open>State changes of a connection\<close>

text \<open>\<open>pair\<close> is the display of the selected candidate pair, when one was selected in time.\<close>

definition selected_kind :: "str option \<Rightarrow> str option" where
  "selected_kind pair = map_option (\<lambda>t. if contains ''relay'' t then ''RELAY (TURN)'' else ''DIREKT'') pair"

definition on_conn_state :: "str \<Rightarrow> str option \<Rightarrow> conn_state \<Rightarrow> peer_conn \<Rightarrow> peer_conn \<times> mesh_fx list" where
  "on_conn_state peer pair st p =
     (let p1 = p\<lparr>pn_conn := st\<rparr>
      in case st of
           CConnected \<Rightarrow>
             (p1\<lparr>pn_diag := (pn_diag p)\<lparr>dg_paired := True\<rparr>\<rparr>,
              [FEvent (MEBadge peer (case selected_kind pair of Some b \<Rightarrow> b | None \<Rightarrow> ''DIREKT'')), FEvent (MELink peer True)])
         | CFailed \<Rightarrow> (p1, [FEvent (MELink peer False)])
         | CDisconnected \<Rightarrow> (p1, [FEvent (MELink peer False)])
         | CClosed \<Rightarrow> (p1, [FEvent (MELink peer False)])
         | _ \<Rightarrow> (p1, []))"

text \<open>A candidate gathered locally goes out through signaling; \<open>json\<close> is its serialization.\<close>

definition on_local_candidate :: "str \<Rightarrow> str \<Rightarrow> str \<Rightarrow> peer_conn \<Rightarrow> peer_conn \<times> mesh_fx list" where
  "on_local_candidate peer line json p =
     (p\<lparr>pn_diag := note_local line (pn_diag p)\<rparr>, [FOut (Ice peer json)])"

section \<open>The DataChannel protocol\<close>

definition hello_ctrl :: "mesh_env \<Rightarrow> hello \<Rightarrow> ctrl_msg" where
  "hello_ctrl env h = CKemHello (me_b64e env (h_kem_pk h)) (me_b64e env (h_x_pk h))"

definition reply_ctrl :: "mesh_env \<Rightarrow> reply \<Rightarrow> ctrl_msg" where
  "reply_ctrl env r = CKemReply (me_b64e env (r_x_pk r)) (me_b64e env (r_kem_ct r))"

text \<open>A base64 field that must decode to exactly 32 bytes.\<close>

definition b64_32 :: "mesh_env \<Rightarrow> str \<Rightarrow> bytes option" where
  "b64_32 env s = (case me_b64d env s of Some b \<Rightarrow> if length b = 32 then Some b else None | None \<Rightarrow> None)"

definition parse_hello :: "mesh_env \<Rightarrow> str \<Rightarrow> str \<Rightarrow> hello option" where
  "parse_hello env kem_pk x_pk =
     (case me_b64d env kem_pk of
        None \<Rightarrow> None
      | Some k \<Rightarrow> (case b64_32 env x_pk of Some x \<Rightarrow> Some \<lparr>h_kem_pk = k, h_x_pk = x\<rparr> | None \<Rightarrow> None))"

definition parse_reply :: "mesh_env \<Rightarrow> str \<Rightarrow> str \<Rightarrow> reply option" where
  "parse_reply env x_pk kem_ct =
     (case b64_32 env x_pk of
        None \<Rightarrow> None
      | Some x \<Rightarrow> (case me_b64d env kem_ct of Some c \<Rightarrow> Some \<lparr>r_x_pk = x, r_kem_ct = c\<rparr> | None \<Rightarrow> None))"

fun dispatch_inner :: "mesh_env \<Rightarrow> str \<Rightarrow> ctrl_msg \<Rightarrow> chan_state \<Rightarrow> chan_state \<times> mesh_event list" where
  "dispatch_inner env peer (CChat c) cs =
     (cs, [MEChat peer (if MAX_CHAT_CHARS < chars_count (cm_text c) then chars_take MAX_CHAT_CHARS (cm_text c) else cm_text c)])"
| "dispatch_inner env peer (CChannel name) cs =
     (let n = chars_take MAX_CHANNEL_LEN name in (cs_set_peer peer n cs, [MEPeerChannel peer n]))"
| "dispatch_inner env peer (CChannels names) cs =
     (cs, [MEPeerChannels (map (chars_take MAX_CHANNEL_LEN) (take MAX_CHANNELS names))])"
| "dispatch_inner env peer (CChannelRemoved name) cs =
     (cs, [MEPeerChannelRemoved (chars_take MAX_CHANNEL_LEN name)])"
| "dispatch_inner env peer (CRoomKey gen key) cs =
     (cs, case b64_32 env key of Some k \<Rightarrow> [MERoomKey peer gen k] | None \<Rightarrow> [])"
| "dispatch_inner env peer (CRoomGen gen) cs = (cs, [MERoomGen peer gen])"
| "dispatch_inner env peer _ cs = (cs, [])"

definition dispatch :: "mesh_env \<Rightarrow> str \<Rightarrow> ctrl_msg \<Rightarrow> mesh \<Rightarrow> mesh \<times> mesh_fx list" where
  "dispatch env peer msg m =
     (let (cs, evs) = dispatch_inner env peer msg (ms_chan m) in (m\<lparr>ms_chan := cs\<rparr>, map FEvent evs))"

definition on_dc_open :: "mesh_env \<Rightarrow> str \<Rightarrow> nat \<Rightarrow> mesh \<Rightarrow> mesh \<times> mesh_fx list" where
  "on_dc_open env peer dc m =
     (let (h, pc) = pc_begin (me_prims env) (me_draw env) (me_secret env) peer (ms_crypto m)
      in (m\<lparr>ms_crypto := pc\<rparr>,
          (case h of Some h \<Rightarrow> [FCtrl dc (hello_ctrl env h)] | None \<Rightarrow> [])
          @ [FCtrl dc (CChannel (cs_mine (ms_chan m))), FCtrl dc (CChannels (cs_dir (ms_chan m)))]))"

definition fingerprint_or_empty :: "str \<Rightarrow> peer_crypto \<Rightarrow> str" where
  "fingerprint_or_empty peer pc = (case pc_fingerprint peer pc of Some f \<Rightarrow> f | None \<Rightarrow> [])"

definition on_dc_message :: "mesh_env \<Rightarrow> str \<Rightarrow> nat \<Rightarrow> bytes \<Rightarrow> mesh \<Rightarrow> mesh \<times> mesh_fx list" where
  "on_dc_message env peer dc data m =
     (if MAX_CTRL_BYTES < length data then (m, [])
      else case me_parse env data of
        None \<Rightarrow> (m, [])
      | Some (CKemHello kem_pk x_pk) \<Rightarrow>
          (case parse_hello env kem_pk x_pk of
             None \<Rightarrow> (m, [])
           | Some h \<Rightarrow>
               (case pc_on_hello (me_prims env) (me_draw env) (me_secret env) peer h (ms_crypto m) of
                  (None, pc) \<Rightarrow> (m\<lparr>ms_crypto := pc\<rparr>, [])
                | (Some r, pc) \<Rightarrow>
                    (m\<lparr>ms_crypto := pc\<rparr>, [FCtrl dc (reply_ctrl env r), FEvent (MESecure peer (fingerprint_or_empty peer pc))])))
      | Some (CKemReply x_pk kem_ct) \<Rightarrow>
          (case parse_reply env x_pk kem_ct of
             None \<Rightarrow> (m, [])
           | Some r \<Rightarrow>
               (case pc_on_reply (me_prims env) peer r (ms_crypto m) of
                  (False, pc) \<Rightarrow> (m\<lparr>ms_crypto := pc\<rparr>, [])
                | (True, pc) \<Rightarrow> (m\<lparr>ms_crypto := pc\<rparr>, [FEvent (MESecure peer (fingerprint_or_empty peer pc))])))
      | Some (CEnc d) \<Rightarrow>
          (case me_b64d env d of
             None \<Rightarrow> (m, [])
           | Some wire \<Rightarrow>
               (case pc_open (me_prims env) peer Chat wire (ms_crypto m) of
                  (None, pc) \<Rightarrow> (m\<lparr>ms_crypto := pc\<rparr>, [])
                | (Some pt, pc) \<Rightarrow>
                    (case me_parse env pt of
                       None \<Rightarrow> (m\<lparr>ms_crypto := pc\<rparr>, [])
                     | Some inner \<Rightarrow> dispatch env peer inner (m\<lparr>ms_crypto := pc\<rparr>))))
      | Some (CRoomKey gen key) \<Rightarrow> (m, [])
      | Some (CRoomGen gen) \<Rightarrow> (m, [])
      | Some plain \<Rightarrow> dispatch env peer plain m)"

section \<open>Sending\<close>

definition broadcast_ctrl :: "ctrl_msg \<Rightarrow> mesh \<Rightarrow> mesh_fx list" where
  "broadcast_ctrl msg m =
     concat (map (\<lambda>(i, p). case pn_chat p of Some dc \<Rightarrow> [FCtrl dc msg] | None \<Rightarrow> []) (ms_peers m))"

definition broadcast_channel :: "str \<Rightarrow> mesh \<Rightarrow> mesh_fx list" where
  "broadcast_channel name = broadcast_ctrl (CChannel name)"

definition broadcast_channels :: "str list \<Rightarrow> mesh \<Rightarrow> mesh_fx list" where
  "broadcast_channels names = broadcast_ctrl (CChannels names)"

definition broadcast_channel_removed :: "str \<Rightarrow> mesh \<Rightarrow> mesh_fx list" where
  "broadcast_channel_removed name = broadcast_ctrl (CChannelRemoved name)"

fun chat_each :: "mesh_env \<Rightarrow> ctrl_msg \<Rightarrow> (str \<times> peer_conn) list \<Rightarrow> peer_crypto \<Rightarrow> peer_crypto \<times> mesh_fx list" where
  "chat_each env chat [] pc = (pc, [])"
| "chat_each env chat ((i, p) # ps) pc =
     (case pn_chat p of
        None \<Rightarrow> chat_each env chat ps pc
      | Some dc \<Rightarrow>
          let (w, pc1) = pc_seal (me_prims env) i Chat (me_json env chat) pc;
              out = (case w of Some wire \<Rightarrow> CEnc (me_b64e env wire) | None \<Rightarrow> chat);
              (pc2, fx) = chat_each env chat ps pc1
          in (pc2, FCtrl dc out # fx))"

definition broadcast_chat :: "mesh_env \<Rightarrow> str \<Rightarrow> mesh \<Rightarrow> mesh \<times> mesh_fx list" where
  "broadcast_chat env text m =
     (let (pc, fx) = chat_each env (CChat \<lparr>cm_text = text, cm_ts = me_ts env\<rparr>) (ms_peers m) (ms_crypto m)
      in (m\<lparr>ms_crypto := pc\<rparr>, fx))"

definition send_sealed :: "mesh_env \<Rightarrow> str \<Rightarrow> ctrl_msg \<Rightarrow> mesh \<Rightarrow> mesh \<times> mesh_fx list" where
  "send_sealed env peer msg m =
     (case pc_seal (me_prims env) peer Chat (me_json env msg) (ms_crypto m) of
        (None, pc) \<Rightarrow> (m\<lparr>ms_crypto := pc\<rparr>, [])
      | (Some wire, pc) \<Rightarrow>
          (m\<lparr>ms_crypto := pc\<rparr>,
           case map_of (ms_peers m) peer of
             None \<Rightarrow> []
           | Some p \<Rightarrow> (case pn_chat p of Some dc \<Rightarrow> [FCtrl dc (CEnc (me_b64e env wire))] | None \<Rightarrow> [])))"

definition send_room_key :: "mesh_env \<Rightarrow> str \<Rightarrow> u32 \<Rightarrow> bytes \<Rightarrow> mesh \<Rightarrow> mesh \<times> mesh_fx list" where
  "send_room_key env peer gen key = send_sealed env peer (CRoomKey gen (me_b64e env key))"

definition send_room_gen :: "mesh_env \<Rightarrow> str \<Rightarrow> u32 \<Rightarrow> mesh \<Rightarrow> mesh \<times> mesh_fx list" where
  "send_room_gen env peer gen = send_sealed env peer (CRoomGen gen)"

definition perform_key_action :: "mesh_env \<Rightarrow> key_action \<Rightarrow> mesh \<Rightarrow> mesh \<times> mesh_fx list" where
  "perform_key_action env a m =
     (case a of SendKey peer gen key \<Rightarrow> send_room_key env peer gen key m
      | SendGen peer gen \<Rightarrow> send_room_gen env peer gen m)"

section \<open>Receiving audio\<close>

text \<open>One packet of a peer's track: gated by channel, then unsealed.\<close>

definition read_packet :: "mesh_env \<Rightarrow> (str \<Rightarrow> str) \<Rightarrow> str \<Rightarrow> bytes \<Rightarrow> chan_state \<Rightarrow> room_audio \<Rightarrow> mesh_fx list" where
  "read_packet env lc peer payload cs room =
     (if payload \<noteq> [] \<and> hears lc peer cs
      then (case open_inbound (me_prims env) peer payload room of Some opus \<Rightarrow> [FDecode peer opus] | None \<Rightarrow> [])
      else [])"

end
