(* ===== verification/Mesh_Props.thy ===== *)
theory Mesh_Props
  imports Mesh
begin

text \<open>Properties of the mesh: early candidates are neither lost nor unbounded, simultaneous offers end in
  one link, hostile control frames stay within bounds, and a room key travels sealed.\<close>

section \<open>A bounded buffer\<close>

text \<open>What the early candidates need of their queue: pushes beyond the capacity are dropped, and a
  drain returns the first ones in order.\<close>

locale bounded_buffer =
  fixes push :: "'x \<Rightarrow> 's \<Rightarrow> 's"
    and content :: "'s \<Rightarrow> 'x list"
    and cap :: nat
    and open_for :: "'s \<Rightarrow> bool"
  assumes push_content: "open_for s \<Longrightarrow> content (push x s) = (if length (content s) < cap then content s @ [x] else content s)"
    and push_open: "open_for s \<Longrightarrow> open_for (push x s)"
begin

lemma fill: "open_for s \<Longrightarrow> length (content s) \<le> cap \<Longrightarrow>
    content (fold push xs s) = content s @ take (cap - length (content s)) xs \<and> open_for (fold push xs s)"
proof (induction xs arbitrary: s)
  case (Cons x xs)
  show ?case
  proof (cases "length (content s) < cap")
    case True
    with Cons.prems have "content (push x s) = content s @ [x]" by (simp add: push_content)
    moreover have "cap - length (content s) = Suc (cap - Suc (length (content s)))" using True by simp
    ultimately show ?thesis using Cons.IH [of "push x s"] Cons.prems push_open True by simp
  next
    case False
    with Cons show ?thesis by (simp add: push_content push_open)
  qed
qed simp

end

interpretation early_ice: bounded_buffer "\<lambda>c p. fst (add_or_queue_ice env c p)" pn_pending MAX_PENDING_ICE "\<lambda>p. \<not> pn_remote_set p"
  for env
  by unfold_locales (auto simp: add_or_queue_ice_def Let_def)

lemma queued_silent: "\<not> pn_remote_set p \<Longrightarrow> snd (add_or_queue_ice env c p) = []"
  by (simp add: add_or_queue_ice_def Let_def)

lemma queued_pc: "pn_pc (fst (add_or_queue_ice env c p)) = pn_pc p"
  by (simp add: add_or_queue_ice_def Let_def)

text \<open>Early ICE: of any run of candidates that arrive before the peer's description, at most
  128 are kept; the description applies exactly those, each once and in order of arrival, empties the
  buffer, and from then on a candidate is applied at once.\<close>

theorem early_ice_applied:
  assumes "\<not> pn_remote_set p" and "pn_pending p = []"
    and "q = fold (\<lambda>c p. fst (add_or_queue_ice env c p)) cands p"
  shows "length (pn_pending q) \<le> 128
    \<and> snd (flush_ice env q) = map (FAddIce (pn_pc p)) (filter (me_ice_ok env) (take 128 cands))
    \<and> pn_pending (fst (flush_ice env q)) = []
    \<and> (\<forall>c. me_ice_ok env c \<longrightarrow> snd (add_or_queue_ice env c (fst (flush_ice env q))) = [FAddIce (pn_pc p) c])"
proof -
  have "pn_pc q = pn_pc p"
    unfolding assms(3) by (induction cands arbitrary: p) (simp_all add: queued_pc)
  moreover have "pn_pending q = take 128 cands"
    using early_ice.fill [of p env cands] assms by (simp add: MAX_PENDING_ICE_def)
  ultimately show ?thesis by (simp add: flush_ice_def add_or_queue_ice_def Let_def)
qed

section \<open>Glare\<close>

definition all_ok :: "mesh_env \<Rightarrow> bool" where
  "all_ok env \<longleftrightarrow> (\<forall>a. me_ok env a)"

text \<open>The side with the larger id drops its own offer and answers on a new connection.\<close>

lemma glare_yields:
  assumes "all_ok env" and "ms_my_id A < ms_my_id B"
    and "map_of (ms_peers B) (ms_my_id A) = Some pb" and "pn_sig pb = HaveLocalOffer"
  shows "\<exists>B' fx pb'. mesh_on_offer env (ms_my_id A) sdp_a B = (B', fx) \<and> FClose (pn_pc pb) \<in> set fx
        \<and> map_of (ms_peers B') (ms_my_id A) = Some pb' \<and> pn_pc pb' = ms_next B \<and> pn_remote_set pb' \<and> pn_sig pb' = Stable
        \<and> \<not> is_secure (ms_my_id A) (ms_crypto B')
        \<and> {x. FOut x \<in> set fx} = {Answer (ms_my_id A) (me_sdp env (ms_next B))}"
proof -
  have ok: "me_ok env a" for a using assms(1) by (simp add: all_ok_def)
  let ?a = "ms_my_id A"
  define B1 where "B1 = B\<lparr>ms_peers := AList.delete ?a (ms_peers B), ms_crypto := pc_remove ?a (ms_crypto B)\<rparr>"
  define q where "q = \<lparr>pn_pc = ms_next B, pn_pending = [], pn_remote_set = False, pn_chat = None,
      pn_diag = diag_new, pn_sig = Stable, pn_conn = CNew\<rparr>"
  define B2 where "B2 = put_peer ?a q (B1\<lparr>ms_next := Suc (ms_next B)\<rparr>)"
  have glare: "(case map_of (ms_peers B) ?a of Some p \<Rightarrow> pn_sig p = HaveLocalOffer | None \<Rightarrow> False)" "\<not> ms_my_id B < ?a"
    using assms(2,3,4) by simp_all
  have dl: "drop_link ?a B = (B1, [FClose (pn_pc pb)])" by (simp add: drop_link_def assms(3) B1_def)
  have none: "map_of (ms_peers B1) ?a = None" by (simp add: B1_def)
  have en: "ensure env ?a B1 = (True, B2, [FNewPc (ms_next B) (ms_ice_servers B)])"
    using none ok by (simp add: ensure_def B2_def q_def Let_def) (simp add: B1_def)
  have q2: "map_of (ms_peers B2) ?a = Some q" by (simp add: B2_def put_peer_def)
  define q' where "q' = fst (flush_ice env (q\<lparr>pn_sig := HaveRemoteOffer\<rparr>))\<lparr>pn_sig := Stable\<rparr>"
  have fl: "snd (flush_ice env (q\<lparr>pn_sig := HaveRemoteOffer\<rparr>)) = []" by (simp add: flush_ice_def q_def)
  have "mesh_on_offer env ?a sdp_a B = (put_peer ?a q' B2, [FClose (pn_pc pb), FNewPc (ms_next B) (ms_ice_servers B),
      FRemoteOffer (ms_next B) sdp_a, FOut (Answer ?a (me_sdp env (ms_next B)))])"
    unfolding mesh_on_offer_def Let_def
    by (simp only: assms(3,4) glare(2) option.case dl none en q2 ok prod.case fl if_True if_False simp_thms
        append.simps case_prod_beta fst_conv snd_conv q'_def [symmetric])
      (simp add: q_def)
  moreover have "pn_pc q' = ms_next B" "pn_remote_set q'" "pn_sig q' = Stable"
    by (simp_all add: q'_def flush_ice_def q_def)
  moreover have "\<not> is_secure ?a (ms_crypto (put_peer ?a q' B2))"
    by (simp add: put_peer_def B2_def B1_def is_secure_def pc_remove_def)
  ultimately show ?thesis by (auto simp: put_peer_def)
qed

text \<open>Both sides offered: the smaller id keeps its own offer and ignores the other, the larger one drops
  its half-built link with the session, builds a new one and answers, and that answer completes the
  smaller side's; so one link remains, negotiated on both ends.\<close>

theorem glare_resolved:
  assumes "all_ok env" and "ms_my_id A < ms_my_id B"
    and "map_of (ms_peers A) (ms_my_id B) = Some pa" and "pn_sig pa = HaveLocalOffer"
    and "map_of (ms_peers B) (ms_my_id A) = Some pb" and "pn_sig pb = HaveLocalOffer"
  shows "mesh_on_offer env (ms_my_id B) sdp_b A = (A, [])
    \<and> (\<exists>B' fx pb' ans. mesh_on_offer env (ms_my_id A) sdp_a B = (B', fx) \<and> FClose (pn_pc pb) \<in> set fx
        \<and> map_of (ms_peers B') (ms_my_id A) = Some pb' \<and> pn_pc pb' = ms_next B \<and> pn_remote_set pb' \<and> pn_sig pb' = Stable
        \<and> \<not> is_secure (ms_my_id A) (ms_crypto B')
        \<and> {x. FOut x \<in> set fx} = {Answer (ms_my_id A) ans}
        \<and> (\<exists>A' fa pa'. mesh_on_answer env (ms_my_id B) ans A = (A', fa) \<and> map_of (ms_peers A') (ms_my_id B) = Some pa'
            \<and> pn_pc pa' = pn_pc pa \<and> pn_remote_set pa' \<and> pn_sig pa' = Stable))"
proof -
  have ok: "me_ok env a" for a using assms(1) by (simp add: all_ok_def)
  have first: "mesh_on_offer env (ms_my_id B) sdp_b A = (A, [])"
    using assms(2-4) by (simp add: mesh_on_offer_def Let_def)
  have last: "\<exists>A' fa pa'. mesh_on_answer env (ms_my_id B) ans A = (A', fa) \<and> map_of (ms_peers A') (ms_my_id B) = Some pa'
            \<and> pn_pc pa' = pn_pc pa \<and> pn_remote_set pa' \<and> pn_sig pa' = Stable" for ans
    using assms(3) ok by (simp add: mesh_on_answer_def flush_ice_def put_peer_def Let_def)
  note glare_yields [OF assms(1,2,5,6), of sdp_a]
  then obtain B' fx pb' where b: "mesh_on_offer env (ms_my_id A) sdp_a B = (B', fx)" "FClose (pn_pc pb) \<in> set fx"
      "map_of (ms_peers B') (ms_my_id A) = Some pb'" "pn_pc pb' = ms_next B" "pn_remote_set pb'" "pn_sig pb' = Stable"
      "\<not> is_secure (ms_my_id A) (ms_crypto B')" "{x. FOut x \<in> set fx} = {Answer (ms_my_id A) (me_sdp env (ms_next B))}"
    by blast
  show ?thesis
    by (rule conjI [OF first], rule exI [of _ B'], rule exI [of _ fx], rule exI [of _ pb'],
        rule exI [of _ "me_sdp env (ms_next B)"]) (intro conjI b last)
qed

section \<open>Control frames from the network\<close>

fun event_ok :: "str \<Rightarrow> mesh_event \<Rightarrow> bool" where
  "event_ok peer (MEChat src text) \<longleftrightarrow> src = peer \<and> chars_count text \<le> 2000"
| "event_ok peer (MEPeerChannel src name) \<longleftrightarrow> src = peer \<and> chars_count name \<le> 32"
| "event_ok peer (MEPeerChannels names) \<longleftrightarrow> length names \<le> 64 \<and> (\<forall>n \<in> set names. chars_count n \<le> 32)"
| "event_ok peer (MEPeerChannelRemoved name) \<longleftrightarrow> chars_count name \<le> 32"
| "event_ok peer (MESecure src fp) \<longleftrightarrow> src = peer"
| "event_ok peer (MERoomKey src gen key) \<longleftrightarrow> src = peer \<and> length key = 32"
| "event_ok peer (MERoomGen src gen) \<longleftrightarrow> src = peer"
| "event_ok peer _ \<longleftrightarrow> False"

definition is_room_event :: "mesh_event \<Rightarrow> bool" where
  "is_room_event e \<longleftrightarrow> (case e of MERoomKey _ _ _ \<Rightarrow> True | MERoomGen _ _ \<Rightarrow> True | _ \<Rightarrow> False)"

lemma b64_32_length: "b64_32 env s = Some k \<Longrightarrow> length k = 32"
  by (auto simp: b64_32_def split: option.splits if_splits)

lemma dispatch_ok: "dispatch_inner env peer msg cs = (cs', evs) \<Longrightarrow> e \<in> set evs \<Longrightarrow> event_ok peer e"
  by (cases msg)
    (auto simp: MAX_CHAT_CHARS_def MAX_CHANNEL_LEN_def MAX_CHANNELS_def Let_def dest: b64_32_length split: if_splits option.splits)

lemma dispatch_events: "dispatch env peer msg m = (m', fx) \<Longrightarrow> FEvent e \<in> set fx \<Longrightarrow> event_ok peer e"
  using dispatch_ok by (fastforce simp: dispatch_def split: prod.splits)

lemma dispatch_room: "dispatch env peer msg m = (m', fx) \<Longrightarrow> FEvent e \<in> set fx \<Longrightarrow> is_room_event e \<Longrightarrow>
    (\<exists>g k. msg = CRoomKey g k) \<or> (\<exists>g. msg = CRoomGen g)"
  by (cases msg) (auto simp: dispatch_def is_room_event_def Let_def split: prod.splits if_splits)

lemma plain_dispatch:
  assumes "me_parse env data = Some msg" and "length data \<le> MAX_CTRL_BYTES"
    and "on_dc_message env peer dc data m = (m', fx)" and "FEvent e \<in> set fx"
  shows "(event_ok peer e \<and> \<not> is_room_event e) \<or> (\<exists>d wire pt inner pc. msg = CEnc d \<and> me_b64d env d = Some wire
      \<and> pc_open (me_prims env) peer Chat wire (ms_crypto m) = (Some pt, pc) \<and> me_parse env pt = Some inner
      \<and> dispatch env peer inner (m\<lparr>ms_crypto := pc\<rparr>) = (m', fx))"
proof -
  have plain: "event_ok peer e \<and> \<not> is_room_event e" if "dispatch env peer msg m = (m', fx)"
      "\<And>g k. msg \<noteq> CRoomKey g k" "\<And>g. msg \<noteq> CRoomGen g"
    using dispatch_events [OF that(1) assms(4)] dispatch_room [OF that(1) assms(4)] that by auto
  show ?thesis
  proof (cases msg)
    case (CKemHello a b)
    with assms show ?thesis
      by (auto simp: on_dc_message_def is_room_event_def split: option.splits prod.splits)
  next
    case (CKemReply a b)
    with assms show ?thesis
      by (auto simp: on_dc_message_def is_room_event_def split: option.splits prod.splits bool.splits)
  next
    case (CEnc d)
    with assms show ?thesis
      by (auto simp: on_dc_message_def split: option.splits prod.splits)
  next
    case (CRoomKey g k)
    with assms show ?thesis by (simp add: on_dc_message_def)
  next
    case (CRoomGen g)
    with assms show ?thesis by (simp add: on_dc_message_def)
  qed (use assms plain in \<open>auto simp: on_dc_message_def\<close>)
qed

text \<open>Claim C18. Hostile control frames: whatever bytes a peer sends, every event handed to the engine names
  that peer as its source and is within the limits (2000 characters of chat, 32 per channel name, 64
  channels, a 32-byte key), and a room key or generation comes only from a frame that opened under the
  pairwise session with that peer.\<close>

theorem control_frames_safe:
  assumes "on_dc_message env peer dc data m = (m', fx)" and "FEvent e \<in> set fx"
  shows "event_ok peer e \<and> (is_room_event e \<longrightarrow>
    (\<exists>d wire pt pc. me_parse env data = Some (CEnc d) \<and> me_b64d env d = Some wire
       \<and> pc_open (me_prims env) peer Chat wire (ms_crypto m) = (Some pt, pc)))"
proof -
  have len: "length data \<le> MAX_CTRL_BYTES" using assms by (auto simp: on_dc_message_def split: if_splits)
  obtain msg where msg: "me_parse env data = Some msg"
    using assms by (cases "me_parse env data") (auto simp: on_dc_message_def split: if_splits)
  from plain_dispatch [OF msg len assms] show ?thesis
    using msg dispatch_events assms(2) by blast
qed

section \<open>A room key travels sealed\<close>

definition codec_ok :: "mesh_env \<Rightarrow> bool" where
  "codec_ok env \<longleftrightarrow> (\<forall>m. me_parse env (me_json env m) = Some m) \<and> (\<forall>b. me_b64d env (me_b64e env b) = Some b)"

text \<open>Key delivery: a room key sent to a peer with a session and an open channel leaves only inside a
  sealed envelope, and at that peer the envelope yields exactly this key and generation, attributed
  to the sender.\<close>

theorem room_key_delivered:
  assumes "codec_ok env" and "aead_ok (me_prims env)" and "length key = 32"
    and "map_of (pc_sessions (ms_crypto A)) (ms_my_id B) = Some sa" and "map_of (pc_sessions (ms_crypto B)) (ms_my_id A) = Some sb"
    and "mirrored sa sb" and "replay_ok (s_send_ctr sa) sb"
    and "map_of (ms_peers A) (ms_my_id B) = Some p" and "pn_chat p = Some dc"
    and "send_room_key env (ms_my_id B) gen key A = (A', fx)"
    and "\<forall>d. fx = [FCtrl dc (CEnc d)] \<longrightarrow> length (me_json env (CEnc d)) \<le> 8192"
  shows "\<exists>d. fx = [FCtrl dc (CEnc d)]
    \<and> snd (on_dc_message env (ms_my_id A) dc' (me_json env (CEnc d)) B) = [FEvent (MERoomKey (ms_my_id A) gen key)]"
proof -
  let ?msg = "CRoomKey gen (me_b64e env key)"
  obtain w sa' where se: "seal (me_prims env) Chat (me_json env ?msg) sa = (w, sa')" by fastforce
  have fx: "fx = [FCtrl dc (CEnc (me_b64e env w))]"
    using assms(4,8-10) se by (auto simp: send_room_key_def send_sealed_def pc_seal_def)
  have "open_frame (me_prims env) Chat w sb = (Some (me_json env ?msg), replay_mark (s_send_ctr sa) sb)"
    by (rule seal_open [OF assms(2,6) se assms(7)])
  then have "fst (pc_open (me_prims env) (ms_my_id A) Chat w (ms_crypto B)) = Some (me_json env ?msg)"
    using assms(5) by (simp add: pc_open_def)
  then obtain pc where op: "pc_open (me_prims env) (ms_my_id A) Chat w (ms_crypto B) = (Some (me_json env ?msg), pc)"
    by (cases "pc_open (me_prims env) (ms_my_id A) Chat w (ms_crypto B)") auto
  have "b64_32 env (me_b64e env key) = Some key" using assms(1,3) by (simp add: codec_ok_def b64_32_def)
  then have "snd (on_dc_message env (ms_my_id A) dc' (me_json env (CEnc (me_b64e env w))) B) = [FEvent (MERoomKey (ms_my_id A) gen key)]"
    using assms(1,11) fx op by (simp add: on_dc_message_def codec_ok_def MAX_CTRL_BYTES_def dispatch_def not_less)
  with fx show ?thesis by blast
qed

section \<open>Concrete instances\<close>

text \<open>A stand-in for the JSON codec: tagged fields, each byte escaped and each field terminated.\<close>

definition enc_field :: "str \<Rightarrow> bytes" where
  "enc_field s = concat (map (\<lambda>c. [CHR 0x01, c]) s) @ [CHR 0x00]"

fun dec_fields :: "str \<Rightarrow> bytes \<Rightarrow> str list" where
  "dec_fields acc [] = []"
| "dec_fields acc (c # cs) =
     (if c = CHR 0x00 then acc # dec_fields [] cs
      else (case cs of [] \<Rightarrow> [] | d # ds \<Rightarrow> dec_fields (acc @ [d]) ds))"

lemma dec_enc_field: "dec_fields acc (enc_field s @ r) = (acc @ s) # dec_fields [] r"
  by (induction s arbitrary: acc) (simp_all add: enc_field_def)

lemma dec_enc_fields: "dec_fields [] (concat (map enc_field fs)) = fs"
  by (induction fs) (simp_all add: dec_enc_field)

fun ctrl_fields :: "ctrl_msg \<Rightarrow> str list" where
  "ctrl_fields (CChat c) = [''c'', cm_text c, be64 (cm_ts c)]"
| "ctrl_fields (CChannel n) = [''n'', n]"
| "ctrl_fields (CChannels ns) = ''l'' # ns"
| "ctrl_fields (CChannelRemoved n) = [''r'', n]"
| "ctrl_fields (CKemHello a b) = [''h'', a, b]"
| "ctrl_fields (CKemReply a b) = [''y'', a, b]"
| "ctrl_fields (CEnc d) = [''e'', d]"
| "ctrl_fields (CRoomKey g k) = [''k'', be32 g, k]"
| "ctrl_fields (CRoomGen g) = [''g'', be32 g]"

definition fields_ctrl :: "str list \<Rightarrow> ctrl_msg option" where
  "fields_ctrl fs = (case fs of [] \<Rightarrow> None | t # vs \<Rightarrow>
     if t = ''c'' then Some (CChat \<lparr>cm_text = vs ! 0, cm_ts = word_of_nat (of_be (vs ! 1))\<rparr>)
     else if t = ''n'' then Some (CChannel (vs ! 0))
     else if t = ''l'' then Some (CChannels vs)
     else if t = ''r'' then Some (CChannelRemoved (vs ! 0))
     else if t = ''h'' then Some (CKemHello (vs ! 0) (vs ! 1))
     else if t = ''y'' then Some (CKemReply (vs ! 0) (vs ! 1))
     else if t = ''e'' then Some (CEnc (vs ! 0))
     else if t = ''k'' then Some (CRoomKey (word_of_nat (of_be (vs ! 0))) (vs ! 1))
     else if t = ''g'' then Some (CRoomGen (word_of_nat (of_be (vs ! 0))))
     else None)"

lemma fields_roundtrip: "fields_ctrl (ctrl_fields m) = Some m"
  by (cases m) (simp_all add: fields_ctrl_def)

definition demo_env :: mesh_env where
  "demo_env = \<lparr>me_prims = demo_prims, me_b64e = (\<lambda>b. b), me_b64d = Some,
     me_json = (\<lambda>m. concat (map enc_field (ctrl_fields m))), me_parse = (\<lambda>b. fields_ctrl (dec_fields [] b)),
     me_ok = (\<lambda>a. True), me_sdp = (\<lambda>n. ''sdp''), me_ice_ok = (\<lambda>c. True), me_draw = ''d'', me_secret = ''x'', me_ts = 0\<rparr>"

lemma demo_env_codec: "codec_ok demo_env"
  by (simp add: codec_ok_def demo_env_def dec_enc_fields fields_roundtrip)

lemma demo_env_ok: "all_ok demo_env" "aead_ok (me_prims demo_env)"
  by (simp_all add: all_ok_def demo_env_def demo_prims_ok)

definition demo_conn :: peer_conn where
  "demo_conn = \<lparr>pn_pc = 7, pn_pending = [], pn_remote_set = False, pn_chat = Some 3, pn_diag = diag_new,
     pn_sig = HaveLocalOffer, pn_conn = CNew\<rparr>"

definition demo_mesh :: "str \<Rightarrow> str \<Rightarrow> crypto_session \<Rightarrow> mesh" where
  "demo_mesh me peer s = (mesh_new me \<lparr>pc_my_id = me, pc_sessions = [(peer, s)], pc_pending = []\<rparr> cs_new)\<lparr>ms_peers := [(peer, demo_conn)]\<rparr>"

lemma demo_mesh_sel [simp]: "ms_my_id (demo_mesh me peer s) = me" "ms_peers (demo_mesh me peer s) = [(peer, demo_conn)]"
    "pc_sessions (ms_crypto (demo_mesh me peer s)) = [(peer, s)]"
  by (simp_all add: demo_mesh_def mesh_new_def)

theorem early_ice_applied_witness:
  "snd (flush_ice demo_env (fold (\<lambda>c p. fst (add_or_queue_ice demo_env c p)) [''c1'', ''c2''] demo_conn)) = [FAddIce 7 ''c1'', FAddIce 7 ''c2'']"
  using early_ice_applied [of demo_conn _ demo_env "[''c1'', ''c2'']", OF _ _ refl]
  by (simp add: demo_conn_def demo_env_def)

theorem glare_resolved_witness:
  "mesh_on_offer demo_env ''bob'' ''s'' (demo_mesh ''al'' ''bob'' (fst demo_pair)) = (demo_mesh ''al'' ''bob'' (fst demo_pair), [])"
proof -
  have lt: "''al'' < ''bob''" by code_simp
  have h: "ms_my_id (demo_mesh ''al'' ''bob'' (fst demo_pair)) < ms_my_id (demo_mesh ''bob'' ''al'' (snd demo_pair))"
      "map_of (ms_peers (demo_mesh ''al'' ''bob'' (fst demo_pair))) (ms_my_id (demo_mesh ''bob'' ''al'' (snd demo_pair))) = Some demo_conn"
      "map_of (ms_peers (demo_mesh ''bob'' ''al'' (snd demo_pair))) (ms_my_id (demo_mesh ''al'' ''bob'' (fst demo_pair))) = Some demo_conn"
      "pn_sig demo_conn = HaveLocalOffer"
    using lt by (simp_all add: demo_conn_def)
  from conjunct1 [OF glare_resolved [OF demo_env_ok(1) h(1,2,4,3,4)]] show ?thesis by simp
qed

theorem control_frames_safe_witness:
  "event_ok ''bob'' (MEPeerChannel ''bob'' ''Alpha'')"
proof -
  have "FEvent (MEPeerChannel ''bob'' ''Alpha'') \<in> set (snd (on_dc_message demo_env ''bob'' 3
      (concat (map enc_field [''n'', ''Alpha''])) (demo_mesh ''al'' ''bob'' (fst demo_pair))))" by code_simp
  from conjunct1 [OF control_frames_safe [OF prod.collapse [symmetric] this]] show ?thesis .
qed

theorem room_key_delivered_witness:
  "\<exists>d. snd (send_room_key demo_env ''bob'' 4 (replicate 32 CHR ''k'') (demo_mesh ''al'' ''bob'' (fst demo_pair))) = [FCtrl 3 (CEnc d)]
    \<and> snd (on_dc_message demo_env ''al'' 9 (me_json demo_env (CEnc d)) (demo_mesh ''bob'' ''al'' (snd demo_pair)))
        = [FEvent (MERoomKey ''al'' 4 (replicate 32 CHR ''k''))]"
proof -
  let ?A = "demo_mesh ''al'' ''bob'' (fst demo_pair)" and ?B = "demo_mesh ''bob'' ''al'' (snd demo_pair)"
  have h: "map_of (pc_sessions (ms_crypto ?A)) (ms_my_id ?B) = Some (fst demo_pair)"
      "map_of (pc_sessions (ms_crypto ?B)) (ms_my_id ?A) = Some (snd demo_pair)"
      "map_of (ms_peers ?A) (ms_my_id ?B) = Some demo_conn" "pn_chat demo_conn = Some 3"
      "length (replicate 32 CHR ''k'') = 32"
    by (simp_all add: demo_conn_def)
  have rp: "replay_ok (s_send_ctr (fst demo_pair)) (snd demo_pair)" by code_simp
  have fx: "snd (send_room_key demo_env (ms_my_id ?B) 4 (replicate 32 CHR ''k'') ?A) = [FCtrl 3 (CEnc d)]
      \<Longrightarrow> length (me_json demo_env (CEnc d)) \<le> 8192" for d
  proof -
    assume a: "snd (send_room_key demo_env (ms_my_id ?B) 4 (replicate 32 CHR ''k'') ?A) = [FCtrl 3 (CEnc d)]"
    have "(case snd (send_room_key demo_env (ms_my_id ?B) 4 (replicate 32 CHR ''k'') ?A) of
        [FCtrl n (CEnc e)] \<Rightarrow> length (me_json demo_env (CEnc e)) \<le> 8192 | _ \<Rightarrow> True)" by code_simp
    with a show ?thesis by simp
  qed
  from room_key_delivered [OF demo_env_codec demo_env_ok(2) h(5) h(1,2) demo_pair_ok(1) rp h(3,4) prod.collapse [symmetric], of 4 9] fx
  show ?thesis by simp
qed

section \<open>Sessions across a rekey\<close>

text \<open>\<open>rekey\<close> takes the old connection out before \<open>on_peer\<close> could notice it, so no pairwise session is
  forgotten: every peer that was secure still is, while its new DataChannel is not open yet.\<close>

lemma ensure_offer_crypto: "ms_crypto (fst (ensure_offer env i m)) = ms_crypto m"
  by (auto simp: ensure_offer_def ensure_def offer_def put_peer_def Let_def split: option.splits prod.splits if_splits bool.splits)

lemma rekey_one_crypto: "ms_crypto (fst (rekey_one env i m)) = ms_crypto m"
  using ensure_offer_crypto [of env i "m\<lparr>ms_peers := AList.delete i (ms_peers m)\<rparr>"]
  by (auto simp: rekey_one_def on_peer_def drop_link_def Let_def split: prod.split)

lemma rekey_keeps_sessions: "ms_crypto (fst (rekey_loop env is m)) = ms_crypto m"
proof (induction env "is" m rule: rekey_loop.induct)
  case (2 env i is' m)
  then show ?case using rekey_one_crypto [of env i m]
    by (auto simp: Let_def split: prod.splits if_splits)
qed simp

end
