(* ===== verification/Signaling.thy ===== *)
theory Signaling
  imports Protocol
begin

text \<open>
  The client's signaling link (\<open>companion-core/src/signaling.rs\<close>): which server addresses are
  acceptable, how the TLS verifier is chosen and what it accepts, the time budget of a
  connection attempt, and the two tasks that relay frames between the socket and the engine.

  SHA-256, hex decoding, JSON text and the dialing itself are third-party code and parameters:
  \<open>sha\<close>, \<open>hexdec\<close>, \<open>parse\<close>, \<open>dial\<close>.
\<close>

section \<open>Server addresses\<close>

definition url_host :: "str \<Rightarrow> str option" where
  "url_host url =
     (case split_once ''://'' url of
        None \<Rightarrow> None
      | Some (_, rest) \<Rightarrow>
          let authority = takeWhile (\<lambda>c. c \<notin> {CHR ''/'', CHR ''?'', CHR ''#''}) rest;
              hostport = List.last (split_on (CHR ''@'') authority);
              host = (case strip_prefix ''['' hostport of
                        Some aft \<Rightarrow> hd (split_on (CHR '']'') aft)
                      | None \<Rightarrow> hd (split_on (CHR '':'') hostport))
          in if host = [] then None else Some (ascii_lower host))"

definition is_loopback :: "str \<Rightarrow> bool" where
  "is_loopback url \<longleftrightarrow> url_host url \<in> {Some ''localhost'', Some ''127.0.0.1'', Some ''::1''}"

definition server_url_ok :: "str \<Rightarrow> bool" where
  "server_url_ok url =
     (let u = trim url
      in case strip_prefix ''wss://'' u of
           Some stripped \<Rightarrow> stripped \<noteq> [] \<and> url_host u \<noteq> None
         | None \<Rightarrow> if prefix ''ws://'' u then is_loopback u else False)"

section \<open>Certificate pinning\<close>

text \<open>\<open>PinnedCert::verify_server_cert\<close>: intermediates, server name, OCSP answer and time are ignored.\<close>

definition verify_server_cert ::
  "(bytes \<Rightarrow> bytes) \<Rightarrow> bytes \<Rightarrow> bytes \<Rightarrow> bytes list \<Rightarrow> str \<Rightarrow> bytes \<Rightarrow> nat \<Rightarrow> str + unit" where
  "verify_server_cert sha pinned end_entity intermediates server_name ocsp now =
     (if sha end_entity = pinned then Inr () else Inl ''certificate pin mismatch'')"

definition pinned_connector :: "(str \<Rightarrow> bytes option) \<Rightarrow> str \<Rightarrow> str + bytes" where
  "pinned_connector hexdec cert_sha256 =
     (case hexdec (trim cert_sha256) of
        None \<Rightarrow> Inl (''CERT_SHA256 ist kein g'' @ [CHR 0xC3, CHR 0xBC] @ ''ltiges Hex'')
      | Some b \<Rightarrow> if length b \<noteq> 32 then Inl ''CERT_SHA256 muss 32 Byte (64 Hex-Zeichen) sein'' else Inr b)"

section \<open>Connecting\<close>

definition CONNECT_TIMEOUT :: nat where "CONNECT_TIMEOUT = 10000"
definition RECV_IDLE :: nat where "RECV_IDLE = 60000"

text \<open>The verifier a dial uses: one pinned certificate, or the library's default for the URL.\<close>

datatype connector = Pinned bytes | Default_Verifier

definition BAD_URL :: str where
  "BAD_URL = ''ung'' @ [CHR 0xC3, CHR 0xBC] @ ''ltige Server-Adresse - erlaubt sind wss://host oder ws://127.0.0.1''"

definition choose_connector :: "(str \<Rightarrow> bytes option) \<Rightarrow> str \<Rightarrow> str option \<Rightarrow> str + connector" where
  "choose_connector hexdec url cert =
     (if \<not> server_url_ok url then Inl BAD_URL
      else if prefix ''wss://'' url
      then (case cert of
              Some pin \<Rightarrow> (case pinned_connector hexdec pin of Inl e \<Rightarrow> Inl e | Inr b \<Rightarrow> Inr (Pinned b))
            | None \<Rightarrow> Inr Default_Verifier)
      else Inr Default_Verifier)"

text \<open>\<open>dial\<close> gives the time the handshake takes (\<open>None\<close>: it never ends) and its outcome.\<close>

definition connect_inner ::
  "(str \<Rightarrow> bytes option) \<Rightarrow> (str \<Rightarrow> connector \<Rightarrow> nat option \<times> (str + 'link)) \<Rightarrow>
   str \<Rightarrow> str option \<Rightarrow> nat option \<times> (str + 'link)" where
  "connect_inner hexdec dial url cert =
     (case choose_connector hexdec url cert of
        Inl e \<Rightarrow> (Some 0, Inl e)
      | Inr k \<Rightarrow> dial url k)"

definition connect_with_timeout ::
  "(str \<Rightarrow> bytes option) \<Rightarrow> (str \<Rightarrow> connector \<Rightarrow> nat option \<times> (str + 'link)) \<Rightarrow>
   str \<Rightarrow> str option \<Rightarrow> nat \<Rightarrow> nat \<times> (str + 'link)" where
  "connect_with_timeout hexdec dial url cert budget =
     (case connect_inner hexdec dial url cert of
        (Some t, r) \<Rightarrow> if t \<le> budget then (t, r) else (budget, Inl ''Signaling-Server antwortet nicht'')
      | (None, _) \<Rightarrow> (budget, Inl ''Signaling-Server antwortet nicht''))"

section \<open>The relay tasks\<close>

text \<open>The writer: an outgoing message, the end of the handle, or the 25-second ping; the flag says
  whether the socket took the frame.\<close>

datatype wr_event = Out_Msg client_msg bool | Out_Closed | Ping_Tick bool
datatype wr_frame = Wr_Text client_msg | Wr_Ping | Wr_Close

fun writer :: "wr_event list \<Rightarrow> wr_frame list" where
  "writer [] = []"
| "writer (Out_Msg m ok # es) = (if ok then Wr_Text m # writer es else [])"
| "writer (Out_Closed # es) = [Wr_Close]"
| "writer (Ping_Tick ok # es) = (if ok then Wr_Ping # writer es else [])"

text \<open>The reader: each event with the silence before it; the flag says whether the engine still
  holds the receiving end.\<close>

datatype rd_event = Rd_Text str bool | Rd_Other | Rd_Error | Rd_End

fun reader :: "(str \<Rightarrow> server_msg option) \<Rightarrow> (nat \<times> rd_event) list \<Rightarrow> server_msg list" where
  "reader parse [] = []"
| "reader parse ((gap, e) # es) =
     (if RECV_IDLE < gap then []
      else case e of
          Rd_Text t alive \<Rightarrow>
            (case parse t of
               Some m \<Rightarrow> if alive then m # reader parse es else []
             | None \<Rightarrow> reader parse es)
        | Rd_Other \<Rightarrow> reader parse es
        | Rd_Error \<Rightarrow> []
        | Rd_End \<Rightarrow> [])"

section \<open>The host of a URL\<close>

lemma takeWhile_app_cut: "P c = False \<Longrightarrow> takeWhile P (a @ c # r) = takeWhile P a"
  by (induction a) auto

lemma takeWhile_app_all: "\<forall>c \<in> set a. P c \<Longrightarrow> takeWhile P (a @ b) = a @ takeWhile P b"
  by (induction a) auto

lemma last_split_on_at: "List.last (split_on d (a @ d # b)) = List.last (split_on d b)"
proof -
  have "\<exists>w ws. split_on d (a @ d # b) = w # ws \<and> ws \<noteq> [] \<and> List.last ws = List.last (split_on d b)"
    by (induction a) auto
  then show ?thesis by auto
qed

lemma split_on_id: "d \<notin> set s \<Longrightarrow> split_on d s = [s]"
  by (induction s) auto

lemma hd_split_on: "d \<notin> set a \<Longrightarrow> hd (split_on d (a @ d # r)) = a"
proof (induction a)
  case (Cons c a)
  then show ?case by (cases "split_on d (a @ d # r)") auto
qed simp

lemma url_host_ws: "url_host (''ws://'' @ rest) =
    (let authority = takeWhile (\<lambda>c. c \<notin> {CHR ''/'', CHR ''?'', CHR ''#''}) rest;
         hostport = List.last (split_on (CHR ''@'') authority);
         host = (case strip_prefix ''['' hostport of
                   Some aft \<Rightarrow> hd (split_on (CHR '']'') aft)
                 | None \<Rightarrow> hd (split_on (CHR '':'') hostport))
     in if host = [] then None else Some (ascii_lower host))"
  by (simp add: url_host_def)

lemma url_host_path:
  "c \<in> {CHR ''/'', CHR ''?'', CHR ''#''} \<Longrightarrow> url_host (''ws://'' @ a @ c # r) = url_host (''ws://'' @ a)"
  unfolding url_host_ws by (simp only: Let_def takeWhile_app_cut simp_thms)

lemma url_host_userinfo:
  assumes "set user \<inter> {CHR ''/'', CHR ''?'', CHR ''#''} = {}"
  shows "url_host (''ws://'' @ user @ CHR ''@'' # h) = url_host (''ws://'' @ h)"
proof -
  let ?P = "\<lambda>c. c \<notin> {CHR ''/'', CHR ''?'', CHR ''#''}"
  have "takeWhile ?P ((user @ ''@'') @ h) = (user @ ''@'') @ takeWhile ?P h"
    by (rule takeWhile_app_all) (use assms in auto)
  then have "takeWhile ?P (user @ CHR ''@'' # h) = user @ CHR ''@'' # takeWhile ?P h" by simp
  then show ?thesis unfolding url_host_ws by (simp only: Let_def last_split_on_at)
qed

lemma url_host_plain:
  assumes "set h \<inter> {CHR ''/'', CHR ''?'', CHR ''#'', CHR ''@'', CHR '':'', CHR ''[''} = {}" and "h \<noteq> []"
    and that: "port = [] \<or> (port = CHR '':'' # p \<and> set p \<inter> {CHR ''/'', CHR ''?'', CHR ''#'', CHR ''@''} = {})"
  shows "url_host (''ws://'' @ h @ port) = Some (ascii_lower h)"
proof -
  let ?P = "\<lambda>c. c \<notin> {CHR ''/'', CHR ''?'', CHR ''#''}"
  have "takeWhile ?P (h @ port) = h @ port"
    using assms that by (subst takeWhile_eq_all_conv) auto
  moreover have "CHR ''@'' \<notin> set (h @ port)" using assms that by auto
  moreover have "strip_prefix ''['' (h @ port) = None"
    using assms by (cases h) (auto simp: strip_prefix_def)
  moreover have "hd (split_on (CHR '':'') (h @ port)) = h"
    using assms that hd_split_on [of "CHR '':''" h p] by (auto simp: split_on_id)
  ultimately show ?thesis
    using assms(2) unfolding url_host_ws
    by (simp only: Let_def split_on_id List.last.simps simp_thms if_True if_False option.case)
qed

text \<open>Plain \<open>ws://\<close> is accepted only for a loopback host, and nothing but the host part decides:
  a path, query or fragment after it and user information before it (the places where
  \<open>127.0.0.1\<close> could be spelled to deceive a substring test) never change the verdict; a plain host
  with or without a port is accepted exactly when it is one of the loopback names.\<close>

theorem loopback_not_spoofable:
  assumes "set user \<inter> {CHR ''/'', CHR ''?'', CHR ''#''} = {}"
    and "set h \<inter> {CHR ''/'', CHR ''?'', CHR ''#'', CHR ''@'', CHR '':'', CHR ''[''} = {}" and "h \<noteq> []"
    and "c \<in> {CHR ''/'', CHR ''?'', CHR ''#''}"
    and "set p \<inter> {CHR ''/'', CHR ''?'', CHR ''#'', CHR ''@''} = {}"
  shows "(is_loopback (''ws://'' @ user @ CHR ''@'' # h @ (CHR '':'' # p) @ c # tail_part)
      \<longleftrightarrow> ascii_lower h \<in> {''localhost'', ''127.0.0.1''})
    \<and> (is_loopback (''ws://'' @ h @ c # tail_part) \<longleftrightarrow> ascii_lower h \<in> {''localhost'', ''127.0.0.1''})"
proof -
  have no6: "ascii_lower h \<noteq> ''::1''"
  proof
    assume e: "ascii_lower h = ''::1''"
    then obtain a r where h: "h = a # r" "lower_c a = CHR '':''" by (cases h) (auto simp: ascii_lower_def)
    have "a = CHR '':''"
    proof (cases "is_upper_c a")
      case True
      then have "byte (lower_c a) = byte a + 32" "byte a \<le> 90" "65 \<le> byte a" by (auto simp: lower_c_def is_upper_c_def)
      with h(2) show ?thesis by simp
    qed (use h(2) in \<open>simp add: lower_c_def\<close>)
    with h assms(2) show False by auto
  qed
  have "url_host (''ws://'' @ user @ CHR ''@'' # (h @ (CHR '':'' # p)) @ c # tail_part)
      = url_host (''ws://'' @ (h @ (CHR '':'' # p)) @ c # tail_part)"
    by (rule url_host_userinfo [OF assms(1)])
  also have "\<dots> = url_host (''ws://'' @ h @ (CHR '':'' # p))" by (rule url_host_path [OF assms(4)])
  also have "\<dots> = Some (ascii_lower h)" using assms(5) by (intro url_host_plain [OF assms(2,3)]) simp
  finally have one: "is_loopback (''ws://'' @ user @ CHR ''@'' # h @ (CHR '':'' # p) @ c # tail_part)
      \<longleftrightarrow> ascii_lower h \<in> {''localhost'', ''127.0.0.1''}"
    using no6 by (simp add: is_loopback_def)
  have "url_host (''ws://'' @ h @ c # tail_part) = url_host (''ws://'' @ h)" by (rule url_host_path [OF assms(4)])
  also have "\<dots> = Some (ascii_lower h)" using url_host_plain [OF assms(2,3), of "[]"] by simp
  finally have "is_loopback (''ws://'' @ h @ c # tail_part) \<longleftrightarrow> ascii_lower h \<in> {''localhost'', ''127.0.0.1''}"
    using no6 by (simp add: is_loopback_def)
  with one show ?thesis by (rule conjI)
qed

lemma demo_hosts: "ascii_lower ''LOCALHOST'' = ''localhost''" "ascii_lower ''evil.example'' = ''evil.example''"
  by code_simp+

theorem loopback_not_spoofable_witness:
  "\<not> is_loopback ''ws://127.0.0.1@evil.example:80/127.0.0.1'' \<and> is_loopback ''ws://LOCALHOST/ws''"
  using loopback_not_spoofable [of "''127.0.0.1''" "''evil.example''" "CHR ''/''" "''80''" "''127.0.0.1''"]
    loopback_not_spoofable [of "[]" "''LOCALHOST''" "CHR ''/''" "[]" "''ws''"]
  by (simp add: demo_hosts)



section \<open>Budget and relay\<close>

lemma connect_bounded: "fst (connect_with_timeout hexdec dial url cert budget) \<le> budget"
  by (auto simp: connect_with_timeout_def split: prod.splits option.splits)

lemma rejected_never_dials:
  "\<not> server_url_ok url \<Longrightarrow> connect_inner hexdec dial url cert = connect_inner hexdec dial' url cert"
  by (simp add: connect_inner_def choose_connector_def)

lemma reader_garbage_harmless:
  "gap \<le> RECV_IDLE \<Longrightarrow> parse t = None \<Longrightarrow> reader parse ((gap, Rd_Text t alive) # es) = reader parse es"
  by simp

text \<open>What reaches the engine is, in order, the parsed messages of an initial part of the stream.\<close>

abbreviation rd_msg :: "(str \<Rightarrow> server_msg option) \<Rightarrow> nat \<times> rd_event \<Rightarrow> server_msg option" where
  "rd_msg parse ge \<equiv> (case snd ge of Rd_Text t _ \<Rightarrow> parse t | _ \<Rightarrow> None)"

lemma reader_prefix: "\<exists>n. reader parse es = List.map_filter (rd_msg parse) (take n es)"
proof (induction parse es rule: reader.induct)
  case (2 parse gap e es)
  have stop: "\<exists>n. [] = List.map_filter (rd_msg parse) (take n ((gap, e) # es))"
    by (intro exI [of _ 0]) (simp add: List.map_filter_def)
  have cons: "\<exists>n. (case rd_msg parse (gap, e) of None \<Rightarrow> [] | Some m \<Rightarrow> [m]) @ xs = List.map_filter (rd_msg parse) (take n ((gap, e) # es))"
    if "\<exists>n. xs = List.map_filter (rd_msg parse) (take n es)" for xs
  proof -
    from that obtain n where "xs = List.map_filter (rd_msg parse) (take n es)" by blast
    then show ?thesis
      by (intro exI [of _ "Suc n"]) (simp add: List.map_filter_def split: option.split)
  qed
  show ?case
  proof (cases "RECV_IDLE < gap")
    case True
    then show ?thesis using stop by simp
  next
    case gap: False
    show ?thesis
    proof (cases e)
      case (Rd_Text t alive)
      show ?thesis
      proof (cases "parse t")
        case None
        with 2 Rd_Text gap have "\<exists>n. reader parse es = List.map_filter (rd_msg parse) (take n es)" by simp
        from cons [OF this] show ?thesis using Rd_Text None gap by simp
      next
        case (Some m)
        show ?thesis
        proof (cases alive)
          case True
          with 2 Rd_Text Some gap have "\<exists>n. reader parse es = List.map_filter (rd_msg parse) (take n es)" by simp
          from cons [OF this] show ?thesis using Rd_Text Some gap True by simp
        qed (use stop Rd_Text Some gap in simp)
      qed
    next
      case Rd_Other
      with 2 gap have "\<exists>n. reader parse es = List.map_filter (rd_msg parse) (take n es)" by simp
      from cons [OF this] show ?thesis using Rd_Other gap by simp
    qed (use stop gap in simp_all)
  qed
qed (simp add: List.map_filter_def)

end
