(* ===== verification/Control.thy ===== *)
theory Control
  imports Protocol
begin

text \<open>
  The local control API of the desktop app (\<open>apps/companion/src-tauri/src/control.rs\<close>): the
  command router, the authentication gate and session of one connection, the cached state and
  its broadcast, and the whole server as a step relation over its connections.

  \<open>into_text\<close> (tungstenite) and \<open>from_str\<close> (\<open>serde_json\<close>) are parameters; frames that leave are
  JSON values, their text is \<open>serde_json\<close>'s.
\<close>

section \<open>Commands\<close>

datatype ctl_out = CtlPtt bool | CtlChanCycle int | CtlCtl json | CtlRefresh

definition MAX_MSG :: nat where "MAX_MSG = 4096"
definition MAX_AUTH_TRIES :: nat where "MAX_AUTH_TRIES = 3"

definition tag_of :: "json \<Rightarrow> str option" where
  "tag_of v = Option.bind (jget ''t'' v) as_str"

definition route :: "json \<Rightarrow> ctl_out option" where
  "route v =
     (case tag_of v of
        None \<Rightarrow> None
      | Some t \<Rightarrow>
          if t = ''ptt'' then map_option CtlPtt (Option.bind (jget ''on'' v) as_bool)
          else if t = ''chan-cycle''
          then (case Option.bind (jget ''dir'' v) as_i64 of
                  None \<Rightarrow> None
                | Some d \<Rightarrow> if d = - 1 \<or> d = 1 then Some (CtlChanCycle d) else None)
          else if t \<in> {''mic-toggle'', ''deafen-toggle'', ''channel'', ''rekey'', ''disconnect'',
                       ''volume'', ''volume-delta''}
          then Some (CtlCtl v)
          else None)"

definition constant_time_eq :: "bytes \<Rightarrow> bytes \<Rightarrow> bool" where
  "constant_time_eq a b =
     (if length a \<noteq> length b then False
      else foldl (\<lambda>acc (x, y). acc OR (of_nat (byte x) XOR of_nat (byte y))) (0 :: u8) (zip a b) = 0)"

lemma fold_ct_diff:
  "foldl (\<lambda>acc (x, y). acc OR (of_nat (byte x) XOR of_nat (byte y))) (d :: u8) (zip a b) = ct_diff a b d"
  by (induction a b d rule: ct_diff.induct) simp_all

lemma constant_time_eq_iff [simp]: "constant_time_eq a b \<longleftrightarrow> a = b"
  by (auto simp: constant_time_eq_def fold_ct_diff ct_diff_0)

section \<open>The server\<close>

datatype 'm frame_in = Frame 'm | Lost_Conn    \<comment> \<open>a message, or the end of the stream or an error\<close>
datatype ws_kind = KData | KPing | KPong | KClose

record 'm ctl_ext =
  into_text :: "'m \<Rightarrow> str option"
  kind_of :: "'m \<Rightarrow> ws_kind"
  from_str :: "str \<Rightarrow> json option"

text \<open>
  A connection's task: in the gate with its failed tries, about to register after the hello, in
  the session, or ended.  The server holds the registered clients' channels; a channel is the
  list of messages it still holds, and \<open>out\<close> is what went to the app, oldest first.
\<close>

datatype ctl_phase = CGate nat | CHello | CLive | CGone

type_synonym client = nat

record control_server =
  cs_port :: nat
  cs_token :: str
  cs_state :: json
  cs_clients :: "client list"
  cs_queue :: "client \<Rightarrow> json list"
  cs_out :: "ctl_out list"

definition control_start :: "nat \<Rightarrow> str \<Rightarrow> control_server" where
  "control_start port token =
     \<lparr>cs_port = port, cs_token = token, cs_state = JObj [(''connected'', JBool False)],
      cs_clients = [], cs_queue = (\<lambda>_. []), cs_out = []\<rparr>"

definition state_msg :: "json \<Rightarrow> json" where
  "state_msg v = JObj [(''t'', JStr ''state''), (''state'', v)]"

definition hello_msg :: "json \<Rightarrow> json" where
  "hello_msg v = JObj [(''t'', JStr ''hello''), (''app'', JStr ''subraum''), (''state'', v)]"

definition auth_failed_msg :: json where
  "auth_failed_msg = JObj [(''t'', JStr ''auth-failed'')]"

text \<open>\<open>publish_state\<close>: cache, then send to every client, dropping those whose channel is closed.\<close>

definition publish_state :: "(client \<Rightarrow> bool) \<Rightarrow> json \<Rightarrow> control_server \<Rightarrow> control_server" where
  "publish_state is_open v s =
     s\<lparr>cs_state := v,
       cs_queue := (\<lambda>c. if c \<in> set (cs_clients s) \<and> is_open c then cs_queue s c @ [state_msg v] else cs_queue s c),
       cs_clients := filter is_open (cs_clients s)\<rparr>"

text \<open>
  One message at the gate: the next phase and the frames sent back; \<open>ok\<close> says whether the socket
  takes the hello.
\<close>

definition presented_token :: "json \<Rightarrow> str option" where
  "presented_token v =
     (if tag_of v = Some ''auth''
      then Some (case Option.bind (jget ''token'' v) as_str of Some t \<Rightarrow> t | None \<Rightarrow> [])
      else None)"

definition gate_frame ::
  "'m ctl_ext \<Rightarrow> control_server \<Rightarrow> nat \<Rightarrow> 'm frame_in \<Rightarrow> bool \<Rightarrow> ctl_phase \<times> json list" where
  "gate_frame x s tries f ok =
     (case f of
        Lost_Conn \<Rightarrow> (CGone, [])
      | Frame m \<Rightarrow>
          (case into_text x m of
             None \<Rightarrow> (CGate tries, [])
           | Some text \<Rightarrow>
               if MAX_MSG < length text then (CGone, [])
               else (case from_str x text of
                       None \<Rightarrow> (CGate tries, [])
                     | Some v \<Rightarrow>
                         (case presented_token v of
                            None \<Rightarrow> (CGate tries, [])
                          | Some presented \<Rightarrow>
                              if constant_time_eq presented (cs_token s)
                              then (if ok then (CHello, [hello_msg (cs_state s)]) else (CGone, []))
                              else let t = tries + 1
                                   in (if MAX_AUTH_TRIES \<le> t then CGone else CGate t, [auth_failed_msg])))))"

text \<open>Registration, right after the hello went out.\<close>

definition register :: "client \<Rightarrow> control_server \<Rightarrow> control_server" where
  "register c s = s\<lparr>cs_clients := cs_clients s @ [c], cs_out := cs_out s @ [CtlRefresh]\<rparr>"

text \<open>One inbound message of the session: does the session go on, and what goes to the app.\<close>

definition session_frame :: "'m ctl_ext \<Rightarrow> 'm frame_in \<Rightarrow> bool \<times> ctl_out list" where
  "session_frame x f =
     (case f of
        Lost_Conn \<Rightarrow> (False, [])
      | Frame m \<Rightarrow>
          if kind_of x m = KPing \<or> kind_of x m = KPong then (True, [])
          else if kind_of x m = KClose then (False, [])
          else (case into_text x m of
                  None \<Rightarrow> (True, [])
                | Some text \<Rightarrow>
                    if MAX_MSG < length text then (False, [])
                    else (case from_str x text of
                            None \<Rightarrow> (True, [])
                          | Some v \<Rightarrow> (True, case route v of Some cmd \<Rightarrow> [cmd] | None \<Rightarrow> []))))"

text \<open>One connection read from its start, without broadcasts in between: its phase, what it was
  sent, and what it made the app do.\<close>

fun serve_conn ::
  "'m ctl_ext \<Rightarrow> control_server \<Rightarrow> ctl_phase \<Rightarrow> ('m frame_in \<times> bool) list \<Rightarrow> ctl_phase \<times> json list \<times> ctl_out list" where
  "serve_conn x s ph [] = (ph, [], [])"
| "serve_conn x s (CGate n) ((f, ok) # fs) =
     (case gate_frame x s n f ok of
        (ph, sent) \<Rightarrow>
          (let pre = (if ph = CHello then [CtlRefresh] else []);
               ph' = (if ph = CHello then CLive else ph)
           in case serve_conn x s ph' fs of (p, s', o') \<Rightarrow> (p, sent @ s', pre @ o')))"
| "serve_conn x s CLive ((f, ok) # fs) =
     (case session_frame x f of
        (cont, cmds) \<Rightarrow>
          (case serve_conn x s (if cont then CLive else CGone) fs of (p, s', o') \<Rightarrow> (p, s', cmds @ o')))"
| "serve_conn x s ph fs = (ph, [], [])"

section \<open>The server with its connections\<close>

record ctl_world =
  cw_srv :: control_server
  cw_phase :: "client \<Rightarrow> ctl_phase option"
  cw_sent :: "client \<Rightarrow> json list"

inductive ctl_step :: "'m ctl_ext \<Rightarrow> ctl_world \<Rightarrow> ctl_world \<Rightarrow> bool" for x where
  accept: "cw_phase w c = None \<Longrightarrow>
    ctl_step x w (w\<lparr>cw_phase := (cw_phase w)(c \<mapsto> CGate 0)\<rparr>)"
| gate: "cw_phase w c = Some (CGate n) \<Longrightarrow> gate_frame x (cw_srv w) n f ok = (ph, sent) \<Longrightarrow>
    ctl_step x w (w\<lparr>cw_phase := (cw_phase w)(c \<mapsto> ph), cw_sent := (cw_sent w)(c := cw_sent w c @ sent)\<rparr>)"
| registered: "cw_phase w c = Some CHello \<Longrightarrow>
    ctl_step x w (w\<lparr>cw_srv := register c (cw_srv w), cw_phase := (cw_phase w)(c \<mapsto> CLive)\<rparr>)"
| session: "cw_phase w c = Some CLive \<Longrightarrow> session_frame x f = (cont, cmds) \<Longrightarrow>
    ctl_step x w (w\<lparr>cw_srv := (cw_srv w)\<lparr>cs_out := cs_out (cw_srv w) @ cmds\<rparr>,
      cw_phase := (cw_phase w)(c \<mapsto> (if cont then CLive else CGone))\<rparr>)"
| broadcast: "cw_phase w c = Some CLive \<Longrightarrow> cs_queue (cw_srv w) c = m # ms \<Longrightarrow>
    ctl_step x w (w\<lparr>cw_srv := (cw_srv w)\<lparr>cs_queue := (cs_queue (cw_srv w))(c := ms)\<rparr>,
      cw_sent := (if ok then (cw_sent w)(c := cw_sent w c @ [m]) else cw_sent w),
      cw_phase := (cw_phase w)(c \<mapsto> (if ok then CLive else CGone))\<rparr>)"
| publish: "ctl_step x w (w\<lparr>cw_srv := publish_state (\<lambda>c. cw_phase w c = Some CLive) v (cw_srv w)\<rparr>)"

inductive ctl_reach :: "'m ctl_ext \<Rightarrow> ctl_world \<Rightarrow> ctl_world \<Rightarrow> bool" for x where
  refl: "ctl_reach x w w"
| step: "ctl_reach x w w' \<Longrightarrow> ctl_step x w' w'' \<Longrightarrow> ctl_reach x w w''"

inductive_cases ctl_stepE: "ctl_step x w w'"

definition ctl_initial :: "nat \<Rightarrow> str \<Rightarrow> ctl_world" where
  "ctl_initial port token = \<lparr>cw_srv = control_start port token, cw_phase = Map.empty, cw_sent = (\<lambda>_. [])\<rparr>"

section \<open>Authentication\<close>

definition presents :: "'m ctl_ext \<Rightarrow> str \<Rightarrow> 'm frame_in \<Rightarrow> bool" where
  "presents x tok f \<longleftrightarrow>
     (case f of
        Lost_Conn \<Rightarrow> False
      | Frame m \<Rightarrow> (case Option.bind (into_text x m) (from_str x) of
                     None \<Rightarrow> False
                   | Some v \<Rightarrow> presented_token v = Some tok))"

lemma gate_hello: "gate_frame x s n f ok = (CHello, sent) \<Longrightarrow> presents x (cs_token s) f"
  by (auto simp: gate_frame_def presents_def Let_def split: frame_in.splits option.splits if_splits)

lemma gate_next:
  "\<not> presents x (cs_token s) f \<Longrightarrow> gate_frame x s n f ok = (ph, sent) \<Longrightarrow>
   (ph = CGate n \<and> sent = []) \<or> (ph = CGate (Suc n) \<and> Suc n < 3 \<and> sent = [auth_failed_msg])
   \<or> (ph = CGone \<and> (sent = [] \<or> sent = [auth_failed_msg]))"
  by (auto simp: gate_frame_def presents_def Let_def MAX_AUTH_TRIES_def
      split: frame_in.splits option.splits if_splits)

lemma serve_gone [simp]: "serve_conn x s CGone fs = (CGone, [], [])"
  by (cases fs) auto

lemma unauthenticated:
  "\<forall>(f, ok) \<in> set fs. \<not> presents x (cs_token s) f \<Longrightarrow> n < 3 \<Longrightarrow> serve_conn x s (CGate n) fs = (ph, sent, out) \<Longrightarrow>
   out = [] \<and> set sent \<subseteq> {auth_failed_msg} \<and> length sent + n \<le> 3 \<and> (ph = CGone \<or> (\<exists>k<3. ph = CGate k \<and> k = n + length sent))"
proof (induction fs arbitrary: n ph sent out)
  case (Cons fo fs)
  obtain f ok where fo: "fo = (f, ok)" by (cases fo)
  obtain p1 s1 where g: "gate_frame x s n f ok = (p1, s1)" by (cases "gate_frame x s n f ok")
  obtain p2 s2 o2 where r: "serve_conn x s p1 fs = (p2, s2, o2)" by (cases "serve_conn x s p1 fs") auto
  have np: "\<not> presents x (cs_token s) f" using Cons.prems(1) fo by simp
  note nx = gate_next [OF np g]
  then have "p1 \<noteq> CHello" by auto
  with Cons.prems(3) g r fo have res: "ph = p2" "sent = s1 @ s2" "out = o2" by simp_all
  from nx consider (a) "p1 = CGate n" "s1 = []" | (b) "p1 = CGate (Suc n)" "Suc n < 3" "s1 = [auth_failed_msg]"
    | (c) "p1 = CGone" "s1 = [] \<or> s1 = [auth_failed_msg]" by blast
  then show ?case
  proof cases
    case a
    with Cons.IH [of n p2 s2 o2] Cons.prems r res show ?thesis by simp
  next
    case b
    with Cons.IH [of "Suc n" p2 s2 o2] Cons.prems r res show ?thesis by auto
  next
    case c
    with r have "p2 = CGone" "s2 = []" "o2 = []" by simp_all
    with c res Cons.prems(2) show ?thesis by auto
  qed
qed simp

text \<open>Claim C39. The control API is gated by its token: a connection none of whose messages presents the
  token makes the app do nothing, is sent nothing but \<open>auth-failed\<close>, at most three times, and after
  the third failed try it is closed.\<close>

theorem control_needs_token:
  assumes "\<forall>(f, ok) \<in> set fs. \<not> presents x (cs_token s) f"
    and "serve_conn x s (CGate 0) fs = (ph, sent, out)"
  shows "out = [] \<and> set sent \<subseteq> {auth_failed_msg} \<and> length sent \<le> MAX_AUTH_TRIES
    \<and> (length sent = MAX_AUTH_TRIES \<longrightarrow> ph = CGone)"
  using unauthenticated [OF assms(1) _ assms(2)] by (auto simp: MAX_AUTH_TRIES_def)

definition demo_ctl :: "json ctl_ext" where
  "demo_ctl = \<lparr>into_text = (\<lambda>m. case m of JStr s \<Rightarrow> Some s | _ \<Rightarrow> None), kind_of = (\<lambda>_. KData),
     from_str = (\<lambda>s. if s = ''p'' then Some (JObj [(''t'', JStr ''ptt''), (''on'', JBool True)])
                     else Some (JObj [(''t'', JStr ''auth''), (''token'', JStr s)]))\<rparr>"

definition demo_wrong :: "(json frame_in \<times> bool) list" where
  "demo_wrong = map (\<lambda>s. (Frame (JStr s), True)) [''p'', ''x'', ''y'', ''z'', ''tok'', ''p'']"

theorem control_needs_token_witness:
  "serve_conn demo_ctl (control_start 1 ''secret'') (CGate 0) demo_wrong
     = (CGone, replicate 3 auth_failed_msg, []) \<and> length (replicate 3 auth_failed_msg) \<le> MAX_AUTH_TRIES"
proof -
  have r: "serve_conn demo_ctl (control_start 1 ''secret'') (CGate 0) demo_wrong
     = (CGone, replicate 3 auth_failed_msg, [])" by code_simp
  have "\<forall>(f, ok) \<in> set demo_wrong. \<not> presents demo_ctl (cs_token (control_start 1 ''secret'')) f" by code_simp
  from control_needs_token [OF this r] r show ?thesis by blast
qed

lemma authenticated_run:
  "serve_conn demo_ctl (control_start 1 ''secret'') (CGate 0)
     (map (\<lambda>s. (Frame (JStr s), True)) [''p'', ''secret'', ''p''])
   = (CLive, [hello_msg (JObj [(''connected'', JBool False)])], [CtlRefresh, CtlPtt True])"
  by code_simp

text \<open>The router lets through exactly the enumerated commands.\<close>

lemma route_tags: "route v = Some c \<Longrightarrow> c \<noteq> CtlRefresh \<and>
    tag_of v \<in> Some ` {''ptt'', ''chan-cycle'', ''mic-toggle'', ''deafen-toggle'', ''channel'', ''rekey'',
      ''disconnect'', ''volume'', ''volume-delta''}"
  by (auto simp: route_def split: option.splits if_splits)

lemma route_cycle: "route v = Some (CtlChanCycle d) \<Longrightarrow> d = - 1 \<or> d = 1"
  by (auto simp: route_def split: option.splits if_splits)

section \<open>What the clients see\<close>

text \<open>A client's view: the state in the last message it was sent or has queued.\<close>

definition view :: "ctl_world \<Rightarrow> client \<Rightarrow> json option" where
  "view w c = (case rev (cw_sent w c @ cs_queue (cw_srv w) c) of [] \<Rightarrow> None | m # _ \<Rightarrow> jget ''state'' m)"

definition up_to_date :: "client \<Rightarrow> ctl_world \<Rightarrow> bool" where
  "up_to_date c w \<longleftrightarrow>
     cw_phase w c = Some CGone \<or>
     (cw_phase w c = Some CLive \<and> c \<in> set (cs_clients (cw_srv w)) \<and> view w c = Some (cs_state (cw_srv w)))"

lemma jget_state [simp]: "jget ''state'' (state_msg v) = Some v" "jget ''state'' (hello_msg v) = Some v"
  by (simp_all add: jget_def state_msg_def hello_msg_def)

lemma up_to_date_step:
  assumes "ctl_step x w w'" and "up_to_date c w"
  shows "up_to_date c w'"
  using assms
proof (cases rule: ctl_step.cases)
  case (publish v)
  then show ?thesis using assms(2)
    by (auto simp: up_to_date_def view_def publish_state_def)
qed (use assms(2) in \<open>auto simp: up_to_date_def view_def register_def split: if_splits list.splits\<close>)

text \<open>Only connections that passed the gate are registered, every connection in its session is, and
  what the app was told began with a registration.\<close>

definition ctl_ok :: "ctl_world \<Rightarrow> bool" where
  "ctl_ok w \<longleftrightarrow> (\<forall>c \<in> set (cs_clients (cw_srv w)). cw_phase w c = Some CLive \<or> cw_phase w c = Some CGone)
     \<and> (\<forall>c. cw_phase w c = Some CLive \<longrightarrow> c \<in> set (cs_clients (cw_srv w)) \<and> cs_out (cw_srv w) \<noteq> [])
     \<and> (cs_out (cw_srv w) \<noteq> [] \<longrightarrow> hd (cs_out (cw_srv w)) = CtlRefresh)"

lemma gate_not_live: "gate_frame x s n f ok = (ph, sent) \<Longrightarrow> ph \<noteq> CLive"
  by (auto simp: gate_frame_def Let_def split: frame_in.splits option.splits if_splits)

lemma ctl_ok_step:
  assumes "ctl_step x w w'" and "ctl_ok w"
  shows "ctl_ok w'"
  using assms(1)
proof (cases rule: ctl_step.cases)
  case (gate c n f ok ph sent)
  with assms(2) gate_not_live [OF gate(3)] show ?thesis by (auto simp: ctl_ok_def)
next
  case (session c f cont cmds)
  with assms(2) show ?thesis by (auto simp: ctl_ok_def hd_append)
qed (use assms(2) in \<open>auto simp: ctl_ok_def register_def publish_state_def hd_append\<close>)

lemma ctl_ok_reach:
  assumes "ctl_reach x w0 w" and "w0 = ctl_initial port token"
  shows "ctl_ok w"
proof -
  have "ctl_ok w0" by (simp add: assms(2) ctl_ok_def ctl_initial_def control_start_def)
  with assms(1) show ?thesis by (induction rule: ctl_reach.induct) (auto intro: ctl_ok_step)
qed

text \<open>No stale controllers: once the webview publishes a state, every controller registered at
  that moment sees it as its latest, and at every later moment, whatever happens in between, a
  controller still connected has the current cached state as the last one sent or queued for it.\<close>

theorem controllers_current:
  assumes "ctl_reach x (ctl_initial port token) w" and "cw_phase w c = Some CLive"
    and "w1 = w\<lparr>cw_srv := publish_state (\<lambda>c. cw_phase w c = Some CLive) v (cw_srv w)\<rparr>"
    and "ctl_reach x w1 w2"
  shows "view w1 c = Some v \<and> (cw_phase w2 c = Some CGone \<or> view w2 c = Some (cs_state (cw_srv w2)))"
proof -
  have reg: "c \<in> set (cs_clients (cw_srv w))"
    using ctl_ok_reach [OF assms(1) HOL.refl] assms(2) by (simp add: ctl_ok_def)
  have v1: "view w1 c = Some v" using reg assms(2-3) by (simp add: view_def publish_state_def)
  have u1: "up_to_date c w1"
    using reg assms(2-3) v1 by (simp add: up_to_date_def publish_state_def)
  from assms(4) have "up_to_date c w1 \<longrightarrow> up_to_date c w2"
    by (induction rule: ctl_reach.induct) (auto intro: up_to_date_step)
  with u1 v1 show ?thesis by (auto simp: up_to_date_def)
qed

definition demo_greeted :: ctl_world where
  "demo_greeted = (let w = ctl_initial 1 ''k'' in w\<lparr>cw_phase := (Map.empty)(0 \<mapsto> CHello),
     cw_sent := (cw_sent w)(0 := [hello_msg (cs_state (cw_srv w))])\<rparr>)"

definition demo_live :: ctl_world where
  "demo_live = demo_greeted\<lparr>cw_srv := register 0 (cw_srv demo_greeted), cw_phase := (cw_phase demo_greeted)(0 \<mapsto> CLive)\<rparr>"

lemma demo_live_reach: "ctl_reach demo_ctl (ctl_initial 1 ''k'') demo_live"
proof -
  let ?w0 = "ctl_initial 1 ''k''"
  let ?w1 = "?w0\<lparr>cw_phase := (cw_phase ?w0)(0 \<mapsto> CGate 0)\<rparr>"
  let ?h = "hello_msg (cs_state (cw_srv ?w0))"
  have s1: "ctl_step demo_ctl ?w0 ?w1" by (rule ctl_step.accept) (simp add: ctl_initial_def)
  have g: "gate_frame demo_ctl (cw_srv ?w1) 0 (Frame (JStr ''k'')) True = (CHello, [?h])" by code_simp
  have "ctl_step demo_ctl ?w1 (?w1\<lparr>cw_phase := (cw_phase ?w1)(0 \<mapsto> CHello), cw_sent := (cw_sent ?w1)(0 := cw_sent ?w1 0 @ [?h])\<rparr>)"
    by (rule ctl_step.gate [OF _ g]) simp
  also have "?w1\<lparr>cw_phase := (cw_phase ?w1)(0 \<mapsto> CHello), cw_sent := (cw_sent ?w1)(0 := cw_sent ?w1 0 @ [?h])\<rparr> = demo_greeted"
    by (simp add: demo_greeted_def ctl_initial_def Let_def)
  finally have s2: "ctl_step demo_ctl ?w1 demo_greeted" .
  have s3: "ctl_step demo_ctl demo_greeted demo_live"
    unfolding demo_live_def by (rule ctl_step.registered) (simp add: demo_greeted_def Let_def)
  show ?thesis by (rule ctl_reach.step [OF ctl_reach.step [OF ctl_reach.step [OF ctl_reach.refl s1] s2] s3])
qed

theorem controllers_current_witness:
  "view (demo_live\<lparr>cw_srv := publish_state (\<lambda>c. cw_phase demo_live c = Some CLive) (JBool True) (cw_srv demo_live)\<rparr>) 0
     = Some (JBool True)"
proof -
  have "cw_phase demo_live 0 = Some CLive" by (simp add: demo_live_def)
  from controllers_current [OF demo_live_reach this HOL.refl ctl_reach.refl] show ?thesis by blast
qed

end
