(* ===== verification/Floats.thy ===== *)
theory Floats
  imports Complex_Main Prelude
begin

text \<open>
  Floating point as the audio code uses it.  A value is a number, an infinity or NaN; the two zeros
  are one value (no operation of the program tells them apart: it never divides by a zero).  The
  comparisons, \<open>clamp\<close>, \<open>min\<close>, \<open>max\<close>, \<open>abs\<close> and the casts to integers are exact and defined as the
  language defines them.  Arithmetic rounds: the rounding of a number to a format (\<open>f32\<close>, \<open>f64\<close>) is a
  parameter, and so are the elementary functions; what a proof needs of the rounding is a named
  hypothesis that IEEE 754 satisfies.
\<close>

datatype fl = FNan | FInf bool | FFin rat   \<comment> \<open>\<open>FInf True\<close> is negative infinity\<close>

record fpu =
  rnd32 :: "rat \<Rightarrow> fl"
  rnd64 :: "rat \<Rightarrow> fl"
  f_exp :: "fl \<Rightarrow> fl"
  f_sin :: "fl \<Rightarrow> fl"
  f_cos :: "fl \<Rightarrow> fl"
  f_tanh :: "fl \<Rightarrow> fl"
  f_powf :: "fl \<Rightarrow> fl \<Rightarrow> fl"

section \<open>Comparisons and exact operations\<close>

fun f_lt :: "fl \<Rightarrow> fl \<Rightarrow> bool" where
  "f_lt FNan _ = False"
| "f_lt _ FNan = False"
| "f_lt (FInf a) (FInf b) = (a \<and> \<not> b)"
| "f_lt (FInf a) (FFin _) = a"
| "f_lt (FFin _) (FInf b) = (\<not> b)"
| "f_lt (FFin x) (FFin y) = (x < y)"

definition f_ge :: "fl \<Rightarrow> fl \<Rightarrow> bool" where
  "f_ge a b \<longleftrightarrow> f_lt b a \<or> (a = b \<and> a \<noteq> FNan)"

definition is_finite :: "fl \<Rightarrow> bool" where
  "is_finite x \<longleftrightarrow> (case x of FFin _ \<Rightarrow> True | _ \<Rightarrow> False)"

definition f_clamp :: "fl \<Rightarrow> fl \<Rightarrow> fl \<Rightarrow> fl" where
  "f_clamp lo hi x = (if f_lt x lo then lo else if f_lt hi x then hi else x)"

text \<open>\<open>max\<close> returns the other operand when one is NaN.\<close>

definition f_max :: "fl \<Rightarrow> fl \<Rightarrow> fl" where
  "f_max a b = (if a = FNan then b else if b = FNan then a else if f_lt a b then b else a)"

fun f_abs :: "fl \<Rightarrow> fl" where
  "f_abs FNan = FNan"
| "f_abs (FInf _) = FInf False"
| "f_abs (FFin x) = FFin \<bar>x\<bar>"

fun f_neg :: "fl \<Rightarrow> fl" where
  "f_neg FNan = FNan"
| "f_neg (FInf a) = FInf (\<not> a)"
| "f_neg (FFin x) = FFin (- x)"

section \<open>Rounded arithmetic\<close>

fun f_add :: "(rat \<Rightarrow> fl) \<Rightarrow> fl \<Rightarrow> fl \<Rightarrow> fl" where
  "f_add r FNan _ = FNan"
| "f_add r _ FNan = FNan"
| "f_add r (FInf a) (FInf b) = (if a = b then FInf a else FNan)"
| "f_add r (FInf a) (FFin _) = FInf a"
| "f_add r (FFin _) (FInf b) = FInf b"
| "f_add r (FFin x) (FFin y) = r (x + y)"

definition f_sub :: "(rat \<Rightarrow> fl) \<Rightarrow> fl \<Rightarrow> fl \<Rightarrow> fl" where
  "f_sub r a b = f_add r a (f_neg b)"

fun f_mul :: "(rat \<Rightarrow> fl) \<Rightarrow> fl \<Rightarrow> fl \<Rightarrow> fl" where
  "f_mul r FNan _ = FNan"
| "f_mul r _ FNan = FNan"
| "f_mul r (FInf a) (FInf b) = FInf (a \<noteq> b)"
| "f_mul r (FInf a) (FFin x) = (if x = 0 then FNan else FInf (a \<noteq> (x < 0)))"
| "f_mul r (FFin x) (FInf b) = (if x = 0 then FNan else FInf (b \<noteq> (x < 0)))"
| "f_mul r (FFin x) (FFin y) = r (x * y)"

fun f_div :: "(rat \<Rightarrow> fl) \<Rightarrow> fl \<Rightarrow> fl \<Rightarrow> fl" where
  "f_div r FNan _ = FNan"
| "f_div r _ FNan = FNan"
| "f_div r (FInf a) (FInf b) = FNan"
| "f_div r (FInf a) (FFin x) = FInf (a \<noteq> (x < 0))"
| "f_div r (FFin x) (FInf b) = FFin 0"
| "f_div r (FFin x) (FFin y) = (if y = 0 then (if x = 0 then FNan else FInf (x < 0)) else r (x / y))"

section \<open>Casts\<close>

text \<open>\<open>as\<close> from float to integer truncates towards zero, saturates, and maps NaN to zero.\<close>

definition trunc :: "rat \<Rightarrow> int" where
  "trunc x = (if 0 \<le> x then \<lfloor>x\<rfloor> else - \<lfloor>- x\<rfloor>)"

fun f_to_int :: "int \<Rightarrow> int \<Rightarrow> fl \<Rightarrow> int" where
  "f_to_int lo hi FNan = 0"
| "f_to_int lo hi (FInf a) = (if a then lo else hi)"
| "f_to_int lo hi (FFin x) = max lo (min hi (trunc x))"

type_synonym i16 = int   \<comment> \<open>\<open>- 2 ^ 15 .. 2 ^ 15 - 1\<close>\<close>

definition f_to_i16 :: "fl \<Rightarrow> i16" where
  "f_to_i16 = f_to_int (- 32768) 32767"

definition f_to_i32 :: "fl \<Rightarrow> int" where
  "f_to_i32 = f_to_int (- (2 ^ 31)) (2 ^ 31 - 1)"

definition f_to_usize :: "fl \<Rightarrow> nat" where
  "f_to_usize x = nat (f_to_int 0 (2 ^ 64 - 1) x)"

definition i16_ok :: "i16 \<Rightarrow> bool" where
  "i16_ok s \<longleftrightarrow> - 32768 \<le> s \<and> s \<le> 32767"

lemma f_to_i16_ok [simp]: "i16_ok (f_to_i16 x)"
  by (cases x) (auto simp: f_to_i16_def i16_ok_def)

text \<open>Integers to \<open>f32\<close>, and literals.\<close>

definition i_to_f32 :: "fpu \<Rightarrow> int \<Rightarrow> fl" where
  "i_to_f32 m i = rnd32 m (of_int i)"

definition lit :: "fpu \<Rightarrow> rat \<Rightarrow> fl" where
  "lit m q = rnd32 m q"

section \<open>Rounding\<close>

text \<open>
  What IEEE 754 round-to-nearest to 53 bits guarantees and the resampler relies on: numbers of
  moderate size stay numbers, rounding is monotone, and multiples of \<open>2 ^ -20\<close> below \<open>2 ^ 30\<close>
  are exact.
\<close>

definition rnd64_ok :: "(rat \<Rightarrow> fl) \<Rightarrow> bool" where
  "rnd64_ok r \<longleftrightarrow>
     (\<forall>x. \<bar>x\<bar> \<le> 2 ^ 30 \<longrightarrow> (\<exists>y. r x = FFin y))
     \<and> (\<forall>x x' y y'. x \<le> x' \<and> r x = FFin y \<and> r x' = FFin y' \<longrightarrow> y \<le> y')
     \<and> (\<forall>k :: int. \<bar>k\<bar> \<le> 2 ^ 50 \<longrightarrow> r (of_int k / 2 ^ 20) = FFin (of_int k / 2 ^ 20))"

lemma rnd64_ok_exact: "rnd64_ok FFin"
  by (simp add: rnd64_ok_def)

text \<open>An instance that does not round, for examples.\<close>

definition exact_fpu :: fpu where
  "exact_fpu = \<lparr>rnd32 = FFin, rnd64 = FFin, f_exp = id, f_sin = id, f_cos = id, f_tanh = id, f_powf = (\<lambda>x y. x)\<rparr>"

lemma rnd_fin: "rnd64_ok r \<Longrightarrow> \<bar>x\<bar> \<le> 2 ^ 30 \<Longrightarrow> \<exists>y. r x = FFin y"
  by (simp add: rnd64_ok_def)

lemma rnd_mono: "rnd64_ok r \<Longrightarrow> x \<le> x' \<Longrightarrow> r x = FFin y \<Longrightarrow> r x' = FFin y' \<Longrightarrow> y \<le> y'"
  unfolding rnd64_ok_def by blast

lemma rnd_grid: "rnd64_ok r \<Longrightarrow> \<bar>k\<bar> \<le> 2 ^ 50 \<Longrightarrow> r (of_int k / 2 ^ 20) = FFin (of_int k / 2 ^ 20)"
  unfolding rnd64_ok_def by blast

lemma rnd_int: "rnd64_ok r \<Longrightarrow> \<bar>k\<bar> \<le> 2 ^ 30 \<Longrightarrow> r (of_int k) = FFin (of_int k)"
proof -
  assume r: "rnd64_ok r" and k: "\<bar>k\<bar> \<le> (2 ^ 30 :: int)"
  have "\<bar>k * 2 ^ 20\<bar> = \<bar>k\<bar> * 2 ^ 20" by (simp add: abs_mult)
  also have "\<dots> \<le> 2 ^ 30 * 2 ^ 20" using k by (rule mult_right_mono) simp
  finally have "\<bar>k * 2 ^ 20\<bar> \<le> 2 ^ 50" by simp
  from rnd_grid [OF r this] show ?thesis by simp
qed

section \<open>Clamping\<close>

lemma f_lt_irrefl [simp]: "\<not> f_lt x x"
  by (cases x) auto

lemma clamp_fin: "lo \<le> hi \<Longrightarrow> f_clamp (FFin lo) (FFin hi) (FFin x) = FFin (max lo (min hi x))"
  by (auto simp: f_clamp_def)

lemma clamp_range:
  assumes "lo \<le> hi" and "x \<noteq> FNan"
  shows "\<exists>y. f_clamp (FFin lo) (FFin hi) x = FFin y \<and> lo \<le> y \<and> y \<le> hi"
  using assms by (cases x) (auto simp: f_clamp_def)

end
