(* ===== verification/Audio.thy ===== *)
theory Audio
  imports Floats
begin

text \<open>
  The audio pipeline of the client core (\<open>apps/companion-core/src/audio.rs\<close>): gains, the click,
  the resampler, the capture and playback callbacks, the device thread, the capture DSP, the radio
  effect, and one round each of the encoder, decoder and mixer threads.

  Devices (cpal), the noise suppressor (nnnoiseless) and Opus (audiopus) are parameters.  A ring
  buffer is a list, oldest sample first; the mix map an association list from peer to buffer.
\<close>

definition OPUS_SR :: nat where "OPUS_SR = 48000"
definition FRAME :: nat where "FRAME = 960"

type_synonym mix_map = "(str \<times> i16 list) list"

section \<open>Gains\<close>

record gains =
  ga_master :: "fl option"
  ga_peers :: "(str \<times> fl) list"

definition gains_new :: gains where
  "gains_new = \<lparr>ga_master = Some (FFin 1), ga_peers = []\<rparr>"

definition set_master :: "fl \<Rightarrow> gains \<Rightarrow> gains" where
  "set_master v g = g\<lparr>ga_master := Some (f_clamp (FFin 0) (FFin 2) v)\<rparr>"

definition set_peer :: "str \<Rightarrow> fl \<Rightarrow> gains \<Rightarrow> gains" where
  "set_peer peer v g = g\<lparr>ga_peers := AList.update peer (f_clamp (FFin 0) (FFin 2) v) (ga_peers g)\<rparr>"

definition master_v :: "gains \<Rightarrow> fl" where
  "master_v g = (case ga_master g of Some v \<Rightarrow> v | None \<Rightarrow> FFin 1)"

definition peer_v :: "str \<Rightarrow> gains \<Rightarrow> fl" where
  "peer_v peer g = (case map_of (ga_peers g) peer of Some v \<Rightarrow> v | None \<Rightarrow> FFin 1)"

section \<open>The earcon\<close>

definition EARCON_KEY :: str where "EARCON_KEY = ''__earcon__''"

record earcon =
  ec_enabled :: bool
  ec_volume :: fl
  ec_samples :: "i16 list"
  ec_latch_on :: "i16 list"
  ec_latch_off :: "i16 list"

definition PI32 :: fl where "PI32 = FFin (13176795 / 4194304)"

definition sine :: "fpu \<Rightarrow> fl \<Rightarrow> fl \<Rightarrow> fl" where
  "sine m freq t = f_sin m (f_mul (rnd32 m) (f_mul (rnd32 m) (f_mul (rnd32 m) (FFin 2) PI32) freq) t)"

definition to_sample :: "fpu \<Rightarrow> fl \<Rightarrow> i16" where
  "to_sample m s = f_to_i16 (f_mul (rnd32 m) (f_clamp (FFin (- 1)) (FFin 1) s) (FFin 32767))"

text \<open>Silence up to a position (\<open>while out.len() < gap { push(0) }\<close>).\<close>

definition pad_to :: "nat \<Rightarrow> i16 list \<Rightarrow> i16 list" where
  "pad_to n out = out @ replicate (n - length out) 0"

definition click_tick :: "fpu \<Rightarrow> i16 list \<Rightarrow> rat \<times> rat \<times> rat \<times> rat \<Rightarrow> i16 list" where
  "click_tick m out p = (case p of (start_ms, freq, amp, tau_ms) \<Rightarrow>
     (let mul = f_mul (rnd32 m); dv = f_div (rnd32 m); sr = FFin 48000; tau = dv (lit m tau_ms) (FFin 1000);
          gap = f_to_usize (mul (dv (lit m start_ms) (FFin 1000)) sr);
          n = f_to_usize (mul (dv (mul (lit m tau_ms) (FFin 5)) (FFin 1000)) sr)
      in pad_to gap out @ map (\<lambda>i. let t = dv (i_to_f32 m (int i)) sr; env = f_exp m (dv (f_neg t) tau)
                                  in to_sample m (mul (mul (sine m (lit m freq) t) env) (lit m amp))) [0..<n]))"

definition render_click :: "fpu \<Rightarrow> i16 list" where
  "render_click m = foldl (click_tick m) [] [(0, 1800, 28/100, 15/10), (18, 1300, 20/100, 2)]"

definition latch_tone :: "fpu \<Rightarrow> i16 list \<Rightarrow> nat \<times> rat \<Rightarrow> i16 list" where
  "latch_tone m out p = (case p of (i, freq) \<Rightarrow>
     (let mul = f_mul (rnd32 m); dv = f_div (rnd32 m); sr = FFin 48000;
          from_pos = f_to_usize (mul (mul (i_to_f32 m (int i)) (lit m (55/1000))) sr);
          n = f_to_usize (mul (lit m (45/1000)) sr)
      in pad_to from_pos out @ map (\<lambda>k. let t = dv (i_to_f32 m (int k)) sr;
               env = mul (f_sub (rnd32 m) (FFin 1) (f_exp m (dv (f_neg t) (lit m (4/1000)))))
                         (f_exp m (dv (f_neg t) (lit m (20/1000))))
           in to_sample m (mul (mul (sine m (lit m freq) t) env) (lit m (30/100)))) [0..<n]))"

definition render_latch :: "fpu \<Rightarrow> bool \<Rightarrow> i16 list" where
  "render_latch m on = foldl (latch_tone m) [] (if on then [(0, 740), (1, 1175)] else [(0, 1175), (1, 740)])"

definition earcon_new :: "fpu \<Rightarrow> bool \<Rightarrow> earcon" where
  "earcon_new m enabled =
     \<lparr>ec_enabled = enabled, ec_volume = FFin 1, ec_samples = render_click m,
      ec_latch_on = render_latch m True, ec_latch_off = render_latch m False\<rparr>"

definition set_enabled :: "bool \<Rightarrow> earcon \<Rightarrow> earcon" where
  "set_enabled on e = e\<lparr>ec_enabled := on\<rparr>"

definition set_volume :: "fl \<Rightarrow> earcon \<Rightarrow> earcon" where
  "set_volume v e = e\<lparr>ec_volume := (if is_finite v then f_clamp (FFin 0) (FFin 2) v else FFin 1)\<rparr>"

text \<open>Put one rendered cue into the mixer, in place of what was still queued there.\<close>

definition F32_EPSILON :: fl where "F32_EPSILON = FFin (1 / 2 ^ 23)"

definition queue_cue :: "fpu \<Rightarrow> fl \<Rightarrow> i16 list \<Rightarrow> mix_map \<Rightarrow> mix_map" where
  "queue_cue m vol src mix =
     AList.update EARCON_KEY
       (if f_lt (f_abs (f_sub (rnd32 m) vol (FFin 1))) F32_EPSILON then src
        else map (\<lambda>s. f_to_i16 (f_clamp (FFin (- 32768)) (FFin 32767) (f_mul (rnd32 m) (i_to_f32 m s) vol))) src) mix"

definition muted :: "fl \<Rightarrow> bool" where
  "muted vol \<longleftrightarrow> f_ge (FFin 0) vol"

definition click :: "fpu \<Rightarrow> earcon \<Rightarrow> mix_map \<Rightarrow> mix_map" where
  "click m e mix =
     (if \<not> ec_enabled e then mix else if muted (ec_volume e) then mix
      else queue_cue m (ec_volume e) (ec_samples e) mix)"

definition latch_cue :: "fpu \<Rightarrow> bool \<Rightarrow> earcon \<Rightarrow> mix_map \<Rightarrow> mix_map" where
  "latch_cue m on e mix =
     (if muted (ec_volume e) then mix
      else queue_cue m (ec_volume e) (if on then ec_latch_on e else ec_latch_off e) mix)"

section \<open>The resampler\<close>

record resampler =
  rs_step :: fl
  rs_t :: fl
  rs_prev :: fl
  rs_have :: bool

definition resampler_new :: "fpu \<Rightarrow> nat \<Rightarrow> nat \<Rightarrow> resampler" where
  "resampler_new m src dst =
     \<lparr>rs_step = f_div (rnd64 m) (FFin (of_nat src)) (FFin (of_nat dst)), rs_t = FFin 0, rs_prev = FFin 0, rs_have = False\<rparr>"

definition f64_to_f32 :: "fpu \<Rightarrow> fl \<Rightarrow> fl" where
  "f64_to_f32 m x = (case x of FFin q \<Rightarrow> rnd32 m q | _ \<Rightarrow> x)"

definition lerp :: "fpu \<Rightarrow> fl \<Rightarrow> fl \<Rightarrow> fl \<Rightarrow> fl" where
  "lerp m prev cur t = f_add (rnd32 m) prev (f_mul (rnd32 m) (f_sub (rnd32 m) cur prev) (f64_to_f32 m t))"

text \<open>The inner \<open>while self.t < 1.0\<close>; \<open>None\<close> if it does not end.\<close>

partial_function (option) emit :: "fpu \<Rightarrow> fl \<Rightarrow> fl \<Rightarrow> fl \<Rightarrow> fl \<Rightarrow> fl list \<Rightarrow> (fl \<times> fl list) option" where
  "emit m step prev cur t out =
     (if f_lt t (FFin 1) then emit m step prev cur (f_add (rnd64 m) t step) (out @ [lerp m prev cur t])
      else Some (t, out))"

fun rs_process :: "fpu \<Rightarrow> resampler \<Rightarrow> fl list \<Rightarrow> fl list \<Rightarrow> (resampler \<times> fl list) option" where
  "rs_process m r [] out = Some (r, out)"
| "rs_process m r (cur # input) out =
     (if \<not> rs_have r then rs_process m (r\<lparr>rs_prev := cur, rs_have := True\<rparr>) input out
      else (case emit m (rs_step r) (rs_prev r) cur (rs_t r) out of
              None \<Rightarrow> None
            | Some (t, out') \<Rightarrow>
                rs_process m (r\<lparr>rs_t := f_sub (rnd64 m) t (FFin 1), rs_prev := cur\<rparr>) input out'))"

section \<open>Device callbacks\<close>

definition CAP_MAX :: nat where "CAP_MAX = 96000"

definition cap_push :: "i16 list \<Rightarrow> i16 \<Rightarrow> i16 list" where
  "cap_push b s = (if CAP_MAX \<le> length b then tl b else b) @ [s]"

function chunks :: "nat \<Rightarrow> 'a list \<Rightarrow> 'a list list" where
  "chunks n xs = (if n = 0 \<or> xs = [] then [] else take n xs # chunks n (drop n xs))"
  by pat_completeness auto
termination
  by (relation "measure (\<lambda>(n, xs). length xs)") auto

declare chunks.simps [simp del]

definition input_f32 :: "fpu \<Rightarrow> nat \<Rightarrow> fl list \<Rightarrow> i16 list \<Rightarrow> i16 list" where
  "input_f32 m ch data cap =
     foldl (\<lambda>b fr. cap_push b (to_sample m (f_div (rnd32 m) (foldl (f_add (rnd32 m)) (FFin 0) fr) (i_to_f32 m (int ch)))))
       cap (chunks ch data)"

text \<open>Integer division truncates towards zero.\<close>

definition idiv :: "int \<Rightarrow> int \<Rightarrow> int" where
  "idiv a b = (if (0 \<le> a) = (0 < b) then \<bar>a\<bar> div \<bar>b\<bar> else - (\<bar>a\<bar> div \<bar>b\<bar>))"

definition input_i16 :: "nat \<Rightarrow> i16 list \<Rightarrow> i16 list \<Rightarrow> i16 list" where
  "input_i16 ch data cap = foldl (\<lambda>b fr. cap_push b (idiv (sum_list fr) (int ch))) cap (chunks ch data)"

text \<open>Playback: one sample per frame of \<open>ch\<close> slots, silence when the ring is empty.\<close>

fun output_frames :: "nat list \<Rightarrow> i16 list \<Rightarrow> i16 list \<times> i16 list" where
  "output_frames [] play = ([], play)"
| "output_frames (n # ns) play =
     (let (v, rest) = (case play of [] \<Rightarrow> (0, []) | s # ss \<Rightarrow> (s, ss));
          (more, play') = output_frames ns rest
      in (replicate n v @ more, play'))"

definition output_i16 :: "nat \<Rightarrow> nat \<Rightarrow> i16 list \<Rightarrow> i16 list \<times> i16 list" where
  "output_i16 ch len play = output_frames (map length (chunks ch (replicate len ()))) play"

definition output_f32 :: "fpu \<Rightarrow> nat \<Rightarrow> nat \<Rightarrow> i16 list \<Rightarrow> fl list \<times> i16 list" where
  "output_f32 m ch len play =
     (case output_i16 ch len play of (data, play') \<Rightarrow>
        (map (\<lambda>v. f_div (rnd32 m) (i_to_f32 m v) (FFin 32768)) data, play'))"

section \<open>The device thread\<close>

text \<open>Choosing: a device is its name, if it has one, and what is known of it.\<close>

definition choose_device :: "bool \<Rightarrow> str option \<Rightarrow> (str option \<times> 'dev) list \<Rightarrow> 'dev option \<Rightarrow> str + 'dev" where
  "choose_device input want devs dflt =
     (let kind = (if input then ''Input'' else ''Output'')
      in case want of
           Some w \<Rightarrow>
             if w \<noteq> [] then
               (case find (\<lambda>(nm, d). case nm of Some n \<Rightarrow> contains w n | None \<Rightarrow> False) devs of
                  Some (_, d) \<Rightarrow> Inr d
                | None \<Rightarrow> Inl (kind @ ''-Device '' @ [CHR 0x27] @ w @ [CHR 0x27] @ '' nicht gefunden''))
             else (case dflt of Some d \<Rightarrow> Inr d | None \<Rightarrow> Inl (''kein Default-'' @ kind))
         | None \<Rightarrow> (case dflt of Some d \<Rightarrow> Inr d | None \<Rightarrow> Inl (''kein Default-'' @ kind)))"

datatype dev_cmd = SetInput "str option" | SetOutput "str option"

record 'st devices =
  dv_in :: "'st option"
  dv_out :: "'st option"
  dv_in_rate :: nat
  dv_out_rate :: nat

text \<open>
  \<open>choose\<close>, \<open>build\<close> and \<open>play\<close> for input (\<open>True\<close>) or output: the picked device, its stream, and
  whether it starts.  \<open>env_in\<close> and \<open>env_out\<close> are \<open>IN_DEVICE\<close> and \<open>OUT_DEVICE\<close>.
\<close>

record ('p, 'st) audio_host =
  h_choose :: "bool \<Rightarrow> str option \<Rightarrow> str + 'p"
  h_rate :: "'p \<Rightarrow> nat"
  h_build :: "bool \<Rightarrow> 'p \<Rightarrow> str + 'st"
  h_play :: "'st \<Rightarrow> str option"     \<comment> \<open>the error, if it does not start\<close>
  h_env_in :: "str option"
  h_env_out :: "str option"

definition or_env :: "str option \<Rightarrow> str option \<Rightarrow> str option" where
  "or_env name env = (case name of Some n \<Rightarrow> Some n | None \<Rightarrow> env)"

definition open_devices :: "('p, 'st) audio_host \<Rightarrow> str option \<Rightarrow> str option \<Rightarrow> str + 'st devices" where
  "open_devices h in_name out_name =
     (case h_choose h True (or_env in_name (h_env_in h)) of Inl e \<Rightarrow> Inl e | Inr inp \<Rightarrow>
     (case h_choose h False (or_env out_name (h_env_out h)) of Inl e \<Rightarrow> Inl e | Inr outp \<Rightarrow>
     (case h_build h True inp of Inl e \<Rightarrow> Inl e | Inr in_s \<Rightarrow>
     (case h_build h False outp of Inl e \<Rightarrow> Inl e | Inr out_s \<Rightarrow>
     (case h_play h in_s of Some e \<Rightarrow> Inl (''Input-Stream startet nicht: '' @ e) | None \<Rightarrow>
     (case h_play h out_s of Some e \<Rightarrow> Inl (''Output-Stream startet nicht: '' @ e) | None \<Rightarrow>
        Inr \<lparr>dv_in = Some in_s, dv_out = Some out_s, dv_in_rate = h_rate h inp, dv_out_rate = h_rate h outp\<rparr>))))))"

text \<open>One live switch: the new stream has to run before the old one is dropped.\<close>

definition reopen :: "('p, 'st) audio_host \<Rightarrow> bool \<Rightarrow> str option \<Rightarrow> (nat \<times> 'st) option" where
  "reopen h input want =
     (case h_choose h input want of
        Inl _ \<Rightarrow> None
      | Inr p \<Rightarrow> (case h_build h input p of
          Inl _ \<Rightarrow> None
        | Inr st \<Rightarrow> if h_play h st = None then Some (h_rate h p, st) else None))"

definition on_dev_cmd :: "('p, 'st) audio_host \<Rightarrow> dev_cmd \<Rightarrow> 'st devices \<Rightarrow> 'st devices" where
  "on_dev_cmd h c d =
     (case c of
        SetInput name \<Rightarrow> (case reopen h True (or_env name (h_env_in h)) of
            Some (r, st) \<Rightarrow> d\<lparr>dv_in_rate := r, dv_in := Some st\<rparr> | None \<Rightarrow> d)
      | SetOutput name \<Rightarrow> (case reopen h False (or_env name (h_env_out h)) of
            Some (r, st) \<Rightarrow> d\<lparr>dv_out_rate := r, dv_out := Some st\<rparr> | None \<Rightarrow> d))"

text \<open>The thread: report the outcome of opening, then serve the commands until told to stop.\<close>

definition run_devices ::
  "('p, 'st) audio_host \<Rightarrow> str option \<Rightarrow> str option \<Rightarrow> dev_cmd list \<Rightarrow> str + 'st devices" where
  "run_devices h in_name out_name cmds =
     (case open_devices h in_name out_name of
        Inl e \<Rightarrow> Inl e
      | Inr d \<Rightarrow> Inr (fold (on_dev_cmd h) cmds d))"

lemma devices_never_silent:
  "run_devices h i out cmds = Inr d \<Longrightarrow> dv_in d \<noteq> None \<and> dv_out d \<noteq> None"
proof -
  have keep: "dv_in d \<noteq> None \<and> dv_out d \<noteq> None \<Longrightarrow>
      dv_in (fold (on_dev_cmd h) cmds d) \<noteq> None \<and> dv_out (fold (on_dev_cmd h) cmds d) \<noteq> None" for d
  proof (induction cmds arbitrary: d)
    case (Cons c cs)
    have "dv_in (on_dev_cmd h c d) \<noteq> None \<and> dv_out (on_dev_cmd h c d) \<noteq> None"
      using Cons.prems by (auto simp: on_dev_cmd_def split: dev_cmd.splits option.splits)
    from Cons.IH [OF this] show ?case by simp
  qed simp
  assume "run_devices h i out cmds = Inr d"
  then obtain d0 where d0: "open_devices h i out = Inr d0" "d = fold (on_dev_cmd h) cmds d0"
    by (auto simp: run_devices_def split: sum.splits)
  from d0(1) have "dv_in d0 \<noteq> None \<and> dv_out d0 \<noteq> None"
    by (auto simp: open_devices_def split: sum.splits option.splits)
  from keep [OF this] d0(2) show ?thesis by simp
qed

lemma failed_switch_keeps:
  "reopen h True (or_env name (h_env_in h)) = None \<Longrightarrow> on_dev_cmd h (SetInput name) d = d"
  by (simp add: on_dev_cmd_def)

end
