(* ===== verification/Audio_Loops.thy ===== *)
theory Audio_Loops
  imports Audio
begin

text \<open>
  The signal processing of \<open>audio.rs\<close> (noise gate, compressor, limiter; the radio effect) and one
  round of each worker thread: encoder, decoder, mixer.

  What another thread may change between two reads (flags, configurations) is an argument of each
  read.  The noise suppressor and the Opus codecs are parameters with their state.
\<close>

section \<open>Capture DSP\<close>

record dsp_config =
  dc_gate :: bool
  dc_gate_threshold :: fl
  dc_compressor :: bool
  dc_comp_threshold :: fl
  dc_comp_ratio :: fl
  dc_comp_makeup :: fl
  dc_limiter :: bool
  dc_limiter_ceiling :: fl

definition dsp_default :: "fpu \<Rightarrow> dsp_config" where
  "dsp_default m =
     \<lparr>dc_gate = True, dc_gate_threshold = lit m (15/1000), dc_compressor = True,
      dc_comp_threshold = lit m (15/100), dc_comp_ratio = FFin 3, dc_comp_makeup = lit m (14/10),
      dc_limiter = True, dc_limiter_ceiling = lit m (97/100)\<rparr>"

record dsp =
  ds_gate_env :: fl
  ds_gate_gain :: fl
  ds_comp_env :: fl
  ds_lim_gain :: fl
  ds_atk :: fl
  ds_rel :: fl
  ds_gate_open :: fl
  ds_gate_close :: fl
  ds_lim_rel :: fl

definition time_coef :: "fpu \<Rightarrow> rat \<Rightarrow> fl" where
  "time_coef m secs = f_exp m (f_div (rnd32 m) (FFin (- 1)) (f_mul (rnd32 m) (lit m secs) (FFin 48000)))"

definition dsp_new :: "fpu \<Rightarrow> dsp" where
  "dsp_new m =
     \<lparr>ds_gate_env = FFin 0, ds_gate_gain = FFin 1, ds_comp_env = FFin 0, ds_lim_gain = FFin 1,
      ds_atk = time_coef m (5/1000), ds_rel = time_coef m (80/1000), ds_gate_open = time_coef m (2/1000),
      ds_gate_close = time_coef m (150/1000), ds_lim_rel = time_coef m (50/1000)\<rparr>"

text \<open>\<open>c * old + (1 - c) * new\<close>, in single precision.\<close>

definition smooth :: "fpu \<Rightarrow> fl \<Rightarrow> fl \<Rightarrow> fl \<Rightarrow> fl" where
  "smooth m c old new =
     f_add (rnd32 m) (f_mul (rnd32 m) c old) (f_mul (rnd32 m) (f_sub (rnd32 m) (FFin 1) c) new)"

definition dsp_gate :: "fpu \<Rightarrow> dsp_config \<Rightarrow> dsp \<times> fl \<Rightarrow> dsp \<times> fl" where
  "dsp_gate m c ds = (case ds of (d, s) \<Rightarrow>
     if \<not> dc_gate c then (d, s)
     else
       let a = f_abs s;
           env = (if f_lt (ds_gate_env d) a then a else smooth m (ds_rel d) (ds_gate_env d) a);
           target = (if f_ge env (dc_gate_threshold c) then FFin 1 else FFin 0);
           coef = (if f_lt (ds_gate_gain d) target then ds_gate_open d else ds_gate_close d);
           g = smooth m coef (ds_gate_gain d) target
       in (d\<lparr>ds_gate_env := env, ds_gate_gain := g\<rparr>, f_mul (rnd32 m) s g))"

definition dsp_comp :: "fpu \<Rightarrow> dsp_config \<Rightarrow> dsp \<times> fl \<Rightarrow> dsp \<times> fl" where
  "dsp_comp m c ds = (case ds of (d, s) \<Rightarrow>
     if \<not> dc_compressor c then (d, s)
     else
       let a = f_abs s;
           coef = (if f_lt (ds_comp_env d) a then ds_atk d else ds_rel d);
           env = smooth m coef (ds_comp_env d) a;
           gain = (if f_lt (dc_comp_threshold c) env
                   then f_div (rnd32 m)
                          (f_add (rnd32 m) (dc_comp_threshold c)
                             (f_div (rnd32 m) (f_sub (rnd32 m) env (dc_comp_threshold c)) (f_max (dc_comp_ratio c) (FFin 1))))
                          (f_max env (lit m (1/1000000)))
                   else FFin 1)
       in (d\<lparr>ds_comp_env := env\<rparr>, f_mul (rnd32 m) (f_mul (rnd32 m) s gain) (dc_comp_makeup c)))"

definition dsp_limit :: "fpu \<Rightarrow> dsp_config \<Rightarrow> dsp \<times> fl \<Rightarrow> dsp \<times> fl" where
  "dsp_limit m c ds = (case ds of (d, s) \<Rightarrow>
     if \<not> dc_limiter c then (d, s)
     else
       let ceil = f_clamp (lit m (5/100)) (FFin 1) (dc_limiter_ceiling c);
           peak = f_abs s;
           target = (if f_lt ceil peak then f_div (rnd32 m) ceil peak else FFin 1);
           g = (if f_lt target (ds_lim_gain d) then target
                else f_add (rnd32 m) (f_mul (rnd32 m) (ds_lim_rel d) (ds_lim_gain d)) (f_sub (rnd32 m) (FFin 1) (ds_lim_rel d)))
       in (d\<lparr>ds_lim_gain := g\<rparr>, f_mul (rnd32 m) s g))"

definition dsp_process :: "fpu \<Rightarrow> dsp_config \<Rightarrow> fl \<Rightarrow> dsp \<Rightarrow> dsp \<times> fl" where
  "dsp_process m c x d =
     (case dsp_limit m c (dsp_comp m c (dsp_gate m c (d, x))) of
        (d', s) \<Rightarrow> (d', f_clamp (FFin (- 1)) (FFin 1) s))"

section \<open>The radio effect\<close>

record radio_cfg =
  rc_enabled :: bool
  rc_low_cut :: fl
  rc_high_cut :: fl
  rc_saturation :: fl
  rc_destruction :: fl

definition radio_default :: "fpu \<Rightarrow> radio_cfg" where
  "radio_default m =
     \<lparr>rc_enabled = False, rc_low_cut = FFin 300, rc_high_cut = FFin 3400,
      rc_saturation = lit m (35/100), rc_destruction = lit m (15/100)\<rparr>"

record biquad =
  bq_b0 :: fl  bq_b1 :: fl  bq_b2 :: fl  bq_a1 :: fl  bq_a2 :: fl
  bq_x1 :: fl  bq_x2 :: fl  bq_y1 :: fl  bq_y2 :: fl
  bq_tuned :: fl
  bq_high :: bool

definition biquad_new :: "bool \<Rightarrow> biquad" where
  "biquad_new high =
     \<lparr>bq_b0 = FFin 1, bq_b1 = FFin 0, bq_b2 = FFin 0, bq_a1 = FFin 0, bq_a2 = FFin 0,
      bq_x1 = FFin 0, bq_x2 = FFin 0, bq_y1 = FFin 0, bq_y2 = FFin 0, bq_tuned = FFin 0, bq_high = high\<rparr>"

definition f_eq :: "fl \<Rightarrow> fl \<Rightarrow> bool" where
  "f_eq a b \<longleftrightarrow> a = b \<and> a \<noteq> FNan"

definition FRAC_1_SQRT_2 :: fl where "FRAC_1_SQRT_2 = FFin (11863283 / 16777216)"

definition biquad_tune :: "fpu \<Rightarrow> fl \<Rightarrow> biquad \<Rightarrow> biquad" where
  "biquad_tune m cutoff b =
     (if f_eq cutoff (bq_tuned b) then b
      else
        let mul = f_mul (rnd32 m); dv = f_div (rnd32 m); add = f_add (rnd32 m); sub = f_sub (rnd32 m);
            w = dv (mul (mul (FFin 2) PI32) cutoff) (FFin 48000);
            sw = f_sin m w; cw = f_cos m w;
            alpha = dv sw (mul (FFin 2) FRAC_1_SQRT_2);
            a0 = add (FFin 1) alpha;
            b0 = (if bq_high b then dv (dv (add (FFin 1) cw) (FFin 2)) a0 else dv (dv (sub (FFin 1) cw) (FFin 2)) a0);
            b1 = (if bq_high b then dv (f_neg (add (FFin 1) cw)) a0 else dv (sub (FFin 1) cw) a0)
        in b\<lparr>bq_tuned := cutoff, bq_b0 := b0, bq_b1 := b1, bq_b2 := b0,
             bq_a1 := dv (mul (FFin (- 2)) cw) a0, bq_a2 := dv (sub (FFin 1) alpha) a0\<rparr>)"

definition biquad_process :: "fpu \<Rightarrow> fl \<Rightarrow> biquad \<Rightarrow> fl \<times> biquad" where
  "biquad_process m x b =
     (let mul = f_mul (rnd32 m); add = f_add (rnd32 m); sub = f_sub (rnd32 m);
          y = sub (sub (add (add (mul (bq_b0 b) x) (mul (bq_b1 b) (bq_x1 b))) (mul (bq_b2 b) (bq_x2 b)))
                       (mul (bq_a1 b) (bq_y1 b))) (mul (bq_a2 b) (bq_y2 b))
      in (y, b\<lparr>bq_x2 := bq_x1 b, bq_x1 := x, bq_y2 := bq_y1 b, bq_y1 := y\<rparr>))"

record radio_fx =
  fx_hp :: biquad
  fx_lp :: biquad
  fx_held :: fl
  fx_phase :: fl

definition radio_fx_new :: radio_fx where
  "radio_fx_new = \<lparr>fx_hp = biquad_new True, fx_lp = biquad_new False, fx_held = FFin 0, fx_phase = FFin 0\<rparr>"

text \<open>\<open>f32::round\<close>: half away from zero; the result is representable.\<close>

fun f_round :: "fl \<Rightarrow> fl" where
  "f_round (FFin x) = FFin (of_int (if 0 \<le> x then \<lfloor>x + 1/2\<rfloor> else - \<lfloor>- x + 1/2\<rfloor>))"
| "f_round x = x"

definition saturate :: "fpu \<Rightarrow> radio_cfg \<Rightarrow> fl \<Rightarrow> fl" where
  "saturate m c s =
     (if f_lt (FFin 0) (rc_saturation c) then
        let mul = f_mul (rnd32 m);
            drive = f_add (rnd32 m) (FFin 1) (mul (rc_saturation c) (FFin 9))
        in mul (f_tanh m (mul s drive)) (f_div (rnd32 m) (FFin (1/2)) (f_tanh m (mul (FFin (1/2)) drive)))
      else s)"

definition destroy :: "fpu \<Rightarrow> radio_cfg \<Rightarrow> radio_fx \<times> fl \<Rightarrow> radio_fx \<times> fl" where
  "destroy m c fs = (case fs of (fx, s) \<Rightarrow>
     if f_lt (FFin 0) (rc_destruction c) then
       let mul = f_mul (rnd32 m); add = f_add (rnd32 m); sub = f_sub (rnd32 m);
           factor = add (FFin 1) (mul (rc_destruction c) (FFin 11));
           phase = add (fx_phase fx) (FFin 1);
           fx1 = (if f_ge phase factor then fx\<lparr>fx_phase := sub phase factor, fx_held := s\<rparr> else fx\<lparr>fx_phase := phase\<rparr>);
           bits = sub (FFin 16) (mul (rc_destruction c) (FFin 11));
           steps = f_powf m (FFin 2) (sub bits (FFin 1))
       in (fx1, f_div (rnd32 m) (f_round (mul (fx_held fx1) steps)) steps)
     else (fx, s))"

definition fx_process :: "fpu \<Rightarrow> radio_cfg \<Rightarrow> fl \<Rightarrow> radio_fx \<Rightarrow> fl \<times> radio_fx" where
  "fx_process m c x fx =
     (if \<not> rc_enabled c then (x, fx)
      else
        let hp = biquad_tune m (rc_low_cut c) (fx_hp fx); lp = biquad_tune m (rc_high_cut c) (fx_lp fx);
            (y1, hp') = biquad_process m x hp; (y2, lp') = biquad_process m y1 lp;
            (fx', s) = destroy m c (fx\<lparr>fx_hp := hp', fx_lp := lp'\<rparr>, saturate m c y2)
        in (f_clamp (FFin (- 1)) (FFin 1) s, fx'))"

section \<open>The encoder thread\<close>

record ('d, 'e) codec =
  cd_denoise :: "'d \<Rightarrow> fl list \<Rightarrow> 'd \<times> fl list"     \<comment> \<open>one block of 480 samples\<close>
  cd_bitrate :: "nat \<Rightarrow> 'e \<Rightarrow> 'e"
  cd_encode :: "'e \<Rightarrow> i16 list \<Rightarrow> 'e \<times> bytes option"

record ('d, 'e) enc_state =
  es_rate :: nat
  es_up :: resampler
  es_den :: 'd
  es_dsp :: dsp
  es_buf48 :: "fl list"
  es_clean :: "fl list"
  es_last_br :: nat
  es_enc :: 'e

definition NS :: nat where "NS = 480"

definition enc_start :: "fpu \<Rightarrow> nat \<Rightarrow> 'd \<Rightarrow> 'e \<Rightarrow> ('d, 'e) enc_state" where
  "enc_start m rate den enc =
     \<lparr>es_rate = rate, es_up = resampler_new m rate OPUS_SR, es_den = den, es_dsp = dsp_new m,
      es_buf48 = [], es_clean = [], es_last_br = 2 ^ 32 - 1, es_enc = enc\<rparr>"

function denoise_blocks :: "fpu \<Rightarrow> ('d, 'e) codec \<Rightarrow> 'd \<Rightarrow> fl list \<Rightarrow> fl list \<Rightarrow> 'd \<times> fl list \<times> fl list" where
  "denoise_blocks m cd den buf clean =
     (if NS \<le> length buf then
        let (den', out) = cd_denoise cd den (map (\<lambda>s. f_mul (rnd32 m) s (FFin 32768)) (take NS buf))
        in denoise_blocks m cd den' (drop NS buf)
             (clean @ map (\<lambda>s. f_clamp (FFin (- 1)) (FFin 1) (f_div (rnd32 m) s (FFin 32768))) out)
      else (den, buf, clean))"
  by pat_completeness auto
termination
  by (relation "measure (\<lambda>(m, cd, den, buf, clean). length buf)") (auto simp: NS_def)

declare denoise_blocks.simps [simp del]

fun dsp_frame :: "fpu \<Rightarrow> dsp_config \<Rightarrow> fl list \<Rightarrow> dsp \<Rightarrow> dsp \<times> i16 list" where
  "dsp_frame m c [] d = (d, [])"
| "dsp_frame m c (s # ss) d =
     (let (d1, y) = dsp_process m c s d; (d2, ys) = dsp_frame m c ss d1
      in (d2, f_to_i16 (f_mul (rnd32 m) y (FFin 32767)) # ys))"

text \<open>Append to a buffer and keep its newest \<open>cap\<close> samples.\<close>

definition keep_last :: "nat \<Rightarrow> 'a list \<Rightarrow> 'a list" where
  "keep_last n xs = drop (length xs - n) xs"

definition mix_push :: "nat \<Rightarrow> str \<Rightarrow> i16 list \<Rightarrow> mix_map \<Rightarrow> mix_map" where
  "mix_push cap key samples mix =
     AList.update key (keep_last cap ((case map_of mix key of Some b \<Rightarrow> b | None \<Rightarrow> []) @ samples)) mix"

record frame_env =
  fe_cfg :: dsp_config
  fe_monitor :: bool
  fe_transmit :: bool
  fe_monitor2 :: bool     \<comment> \<open>the flag at its second read\<close>
  fe_bitrate :: nat
  fe_dtx :: bool

definition silent_frame :: "i16 list \<Rightarrow> bool" where
  "silent_frame frame \<longleftrightarrow> list_all (\<lambda>s. \<bar>s\<bar> < 250) frame"

definition encode_frame ::
  "fpu \<Rightarrow> ('d, 'e) codec \<Rightarrow> frame_env \<Rightarrow> ('d, 'e) enc_state \<times> mix_map \<Rightarrow> (('d, 'e) enc_state \<times> mix_map) \<times> bytes list" where
  "encode_frame m cd env sm = (case sm of (s, mix) \<Rightarrow>
     (let (d, frame) = dsp_frame m (fe_cfg env) (take FRAME (es_clean s)) (es_dsp s);
          s1 = s\<lparr>es_clean := drop FRAME (es_clean s), es_dsp := d\<rparr>;
          mix1 = (if fe_monitor env then mix_push 9600 ''self'' frame mix else mix)
      in if fe_transmit env \<and> \<not> fe_monitor2 env then
           let s2 = (if fe_bitrate env \<noteq> es_last_br s1
                     then s1\<lparr>es_enc := cd_bitrate cd (fe_bitrate env) (es_enc s1), es_last_br := fe_bitrate env\<rparr> else s1)
           in if fe_dtx env \<and> silent_frame frame then ((s2, mix1), [])
              else (case cd_encode cd (es_enc s2) frame of
                      (e, Some pkt) \<Rightarrow> ((s2\<lparr>es_enc := e\<rparr>, mix1), [pkt])
                    | (e, None) \<Rightarrow> ((s2\<lparr>es_enc := e\<rparr>, mix1), []))
         else ((s1, mix1), [])))"

text \<open>The frames of one round; the environment is read anew for each.\<close>

function encode_frames ::
  "fpu \<Rightarrow> ('d, 'e) codec \<Rightarrow> (nat \<Rightarrow> frame_env) \<Rightarrow> nat \<Rightarrow> ('d, 'e) enc_state \<times> mix_map
    \<Rightarrow> (('d, 'e) enc_state \<times> mix_map) \<times> bytes list" where
  "encode_frames m cd env k sm =
     (if FRAME \<le> length (es_clean (fst sm)) then
        let (sm1, p1) = encode_frame m cd (env k) sm; (sm2, p2) = encode_frames m cd env (Suc k) sm1
        in (sm2, p1 @ p2)
      else (sm, []))"
  by pat_completeness auto

lemma encode_frame_clean: "es_clean (fst (fst (encode_frame m cd env sm))) = drop FRAME (es_clean (fst sm))"
  by (auto simp: encode_frame_def Let_def split: prod.splits option.splits)

termination encode_frames
proof (relation "measure (\<lambda>(m, cd, env, k, sm). length (es_clean (fst sm)))", goal_cases)
  case (2 m cd env k sm x sm1 p1)
  from 2(2,3) have "encode_frame m cd (env k) sm = (sm1, p1)" by simp
  with encode_frame_clean [of m cd "env k" sm] have "es_clean (fst sm1) = drop FRAME (es_clean (fst sm))"
    by simp
  with 2(1) show ?case by (simp add: FRAME_def)
qed simp

declare encode_frames.simps [simp del]

text \<open>
  One round of \<open>encode_loop\<close> after the stop flag was found unset: \<open>rate\<close> is the live capture rate,
  \<open>chunk\<close> what the capture ring held.  \<open>None\<close> if the resampler would not return.
\<close>

definition encode_round ::
  "fpu \<Rightarrow> ('d, 'e) codec \<Rightarrow> (nat \<Rightarrow> frame_env) \<Rightarrow> nat \<Rightarrow> i16 list \<Rightarrow> ('d, 'e) enc_state \<times> mix_map
    \<Rightarrow> ((('d, 'e) enc_state \<times> mix_map) \<times> bytes list) option" where
  "encode_round m cd env rate chunk sm = (case sm of (s0, mix) \<Rightarrow>
     (let s = (if rate \<noteq> es_rate s0 then s0\<lparr>es_rate := rate, es_up := resampler_new m rate OPUS_SR\<rparr> else s0)
      in if chunk = [] then Some ((s, mix), [])
         else (case rs_process m (es_up s) (map (\<lambda>v. f_div (rnd32 m) (i_to_f32 m v) (FFin 32768)) chunk) (es_buf48 s) of
                 None \<Rightarrow> None
               | Some (up, buf) \<Rightarrow>
                   (case denoise_blocks m cd (es_den s) buf (es_clean s) of
                      (den, buf', clean) \<Rightarrow>
                        Some (encode_frames m cd env 0 (s\<lparr>es_up := up, es_den := den, es_buf48 := buf', es_clean := clean\<rparr>, mix))))))"

section \<open>The decoder thread\<close>

definition DECODER_IDLE :: nat where "DECODER_IDLE = 30000"

record 'x dec_state =
  de_decoders :: "(str \<times> 'x \<times> nat) list"
  de_last_gc :: nat

definition dec_start :: "nat \<Rightarrow> 'x dec_state" where
  "dec_start now = \<lparr>de_decoders = [], de_last_gc = now\<rparr>"

text \<open>\<open>dec\<close> is \<open>Decoder::decode\<close> with the decoder's state, \<open>fresh\<close> a new decoder.\<close>

definition decode_msg ::
  "('x \<Rightarrow> bytes \<Rightarrow> 'x \<times> i16 list option) \<Rightarrow> 'x \<Rightarrow> nat \<Rightarrow> nat \<Rightarrow> str \<Rightarrow> bytes
    \<Rightarrow> 'x dec_state \<times> mix_map \<Rightarrow> 'x dec_state \<times> mix_map" where
  "decode_msg dec fresh idle now peer payload sm = (case sm of (s, mix) \<Rightarrow>
     (let d0 = (case map_of (de_decoders s) peer of Some (d, _) \<Rightarrow> d | None \<Rightarrow> fresh);
          (d1, pcm) = dec d0 payload;
          s1 = s\<lparr>de_decoders := AList.update peer (d1, now) (de_decoders s)\<rparr>;
          mix1 = (case pcm of Some xs \<Rightarrow> mix_push 19200 peer xs mix | None \<Rightarrow> mix)
      in if idle \<le> 2 * (now - de_last_gc s1) then
           let stale = map fst (filter (\<lambda>(k, d, seen). idle \<le> now - seen) (de_decoders s1))
           in (s1\<lparr>de_last_gc := now, de_decoders := fold AList.delete stale (de_decoders s1)\<rparr>,
               fold AList.delete stale mix1)
         else (s1, mix1)))"

section \<open>The mixer thread\<close>

fun add_into :: "int list \<Rightarrow> int list \<Rightarrow> int list" where
  "add_into (x # xs) (y # ys) = (x + y) # add_into xs ys"
| "add_into xs _ = xs"

text \<open>Take up to one frame from every buffer, scaled by the peer's gain, and sum.\<close>

fun mix_peers :: "fpu \<Rightarrow> gains \<Rightarrow> mix_map \<Rightarrow> int list \<Rightarrow> int list \<times> mix_map" where
  "mix_peers m g [] acc = (acc, [])"
| "mix_peers m g ((peer, b) # rest) acc =
     (let n = min (length b) FRAME;
          acc1 = (if 0 < n then add_into acc (map (\<lambda>s. f_to_i32 (f_mul (rnd32 m) (i_to_f32 m s) (peer_v peer g))) (take n b)) else acc);
          (acc2, rest') = mix_peers m g rest acc1
      in (acc2, (peer, drop n b) # rest'))"

fun fx_frame :: "fpu \<Rightarrow> radio_cfg \<Rightarrow> fl \<Rightarrow> int list \<Rightarrow> radio_fx \<Rightarrow> fl list \<times> radio_fx" where
  "fx_frame m c master [] fx = ([], fx)"
| "fx_frame m c master (v # vs) fx =
     (let (y, fx1) = fx_process m c (f_div (rnd32 m) (i_to_f32 m v) (FFin 32768)) fx;
          (ys, fx2) = fx_frame m c master vs fx1
      in (f_tanh m (f_mul (rnd32 m) y master) # ys, fx2))"

record mixer =
  mx_rate :: nat
  mx_down :: resampler
  mx_fx :: radio_fx
  mx_target :: nat
  mx_cap :: nat
  mx_mix :: mix_map
  mx_play :: "i16 list"

definition mixer_start :: "fpu \<Rightarrow> nat \<Rightarrow> mix_map \<Rightarrow> i16 list \<Rightarrow> mixer" where
  "mixer_start m rate mix play =
     \<lparr>mx_rate = rate, mx_down = resampler_new m OPUS_SR rate, mx_fx = radio_fx_new,
      mx_target = rate * 60 div 1000, mx_cap = rate div 2, mx_mix = mix, mx_play = play\<rparr>"

definition mixer_retune :: "fpu \<Rightarrow> nat \<Rightarrow> mixer \<Rightarrow> mixer" where
  "mixer_retune m r s =
     (if r \<noteq> mx_rate s
      then s\<lparr>mx_rate := r, mx_down := resampler_new m OPUS_SR r, mx_target := r * 60 div 1000, mx_cap := r div 2\<rparr>
      else s)"

definition mix_frame :: "fpu \<Rightarrow> gains \<times> radio_cfg \<Rightarrow> mixer \<Rightarrow> mixer option" where
  "mix_frame m env s = (case env of (g, rc) \<Rightarrow>
     (let (mixed, mix') = mix_peers m g (mx_mix s) (replicate FRAME 0);
          (f, fx') = fx_frame m rc (master_v g) mixed (mx_fx s)
      in (case rs_process m (mx_down s) f [] of
            None \<Rightarrow> None
          | Some (down, out) \<Rightarrow>
              Some (s\<lparr>mx_mix := mix', mx_fx := fx', mx_down := down,
                      mx_play := keep_last (mx_cap s) (mx_play s @ map (\<lambda>v. f_to_i16 (f_mul (rnd32 m) v (FFin 32767))) out)\<rparr>))))"

text \<open>The refill loop, with the gains and the effect settings at each of its rounds; \<open>None\<close> if it does
  not end.  Samples the playback callback takes meanwhile are not part of it.\<close>

partial_function (option) refill :: "fpu \<Rightarrow> (nat \<Rightarrow> gains \<times> radio_cfg) \<Rightarrow> nat \<Rightarrow> mixer \<Rightarrow> mixer option" where
  "refill m env k s =
     (if mx_target s \<le> length (mx_play s) then Some s
      else Option.bind (mix_frame m (env k) s) (refill m env (Suc k)))"

definition mixer_round :: "fpu \<Rightarrow> (nat \<Rightarrow> gains \<times> radio_cfg) \<Rightarrow> nat \<Rightarrow> mixer \<Rightarrow> mixer option" where
  "mixer_round m env rate s = refill m env 0 (mixer_retune m rate s)"

end
