(* ===== verification/Audio_Props.thy ===== *)
theory Audio_Props
  imports Audio_Loops
begin

text \<open>
  The worker threads make progress and keep within their bounds: the resampler returns under the
  rounding of \<open>f64\<close>, so each round of the encoder and of the mixer ends; the microphone leaves the
  machine only while transmitting; jitter buffers are bounded and silent peers are forgotten.
\<close>

section \<open>The resampler returns\<close>

text \<open>A resampler between rates of at least 1 and below \<open>2 ^ 32\<close> against 48 kHz.\<close>

definition step_ok :: "fl \<Rightarrow> bool" where
  "step_ok x \<longleftrightarrow> (\<exists>s. x = FFin s \<and> 1 / 2 ^ 20 \<le> s \<and> s \<le> 2 ^ 20)"

definition rs_ok :: "resampler \<Rightarrow> bool" where
  "rs_ok r \<longleftrightarrow> step_ok (rs_step r) \<and> (\<exists>t. rs_t r = FFin t \<and> 0 \<le> t \<and> t \<le> 2 ^ 21)"

lemma rnd_between:
  assumes r: "rnd64_ok r" and "of_int a / 2 ^ 20 \<le> x" "x \<le> of_int b / 2 ^ 20" "\<bar>a\<bar> \<le> 2 ^ 50" "\<bar>b\<bar> \<le> 2 ^ 50"
  shows "\<exists>y. r x = FFin y \<and> of_int a / 2 ^ 20 \<le> y \<and> y \<le> of_int b / 2 ^ 20"
proof -
  have i: "of_int \<bar>k\<bar> \<le> (2 ^ 50 :: rat)" if "\<bar>k\<bar> \<le> (2 ^ 50 :: int)" for k
  proof -
    have "(of_int \<bar>k\<bar> :: rat) \<le> of_int (2 ^ 50)" using that by (simp only: of_int_le_iff)
    then show ?thesis by simp
  qed
  have "\<bar>x\<bar> \<le> 2 ^ 30"
    using i [OF assms(4)] i [OF assms(5)] assms(2,3) by (simp add: abs_le_iff field_simps)
  with rnd_fin [OF r] obtain y where y: "r x = FFin y" by blast
  from rnd_mono [OF r assms(2) rnd_grid [OF r assms(4)] y] rnd_mono [OF r assms(3) y rnd_grid [OF r assms(5)]] y
  show ?thesis by blast
qed

lemma rnd_div_step:
  assumes r: "rnd64_ok r" and "0 < a" "a < 2 ^ 32" and "x = of_nat a / 48000 \<or> x = 48000 / of_nat a"
  shows "\<exists>s. r x = FFin s \<and> 1 / 2 ^ 20 \<le> s \<and> s \<le> 2 ^ 20"
proof -
  have a: "1 \<le> (of_nat a :: rat)" using assms(2) by simp
  have b: "(of_nat a :: rat) \<le> 2 ^ 32"
  proof -
    have "(of_nat a :: rat) \<le> of_nat (2 ^ 32)" using assms(3) by (simp only: of_nat_le_iff)
    then show ?thesis by simp
  qed
  have "(48000 :: rat) / 2 ^ 32 \<le> 48000 / of_nat a" "48000 / of_nat a \<le> (48000 :: rat) / 1"
    using a b by (intro divide_left_mono; simp)+
  then have "1 / 2 ^ 20 \<le> x" "x \<le> 2 ^ 20"
    using assms(4) a b by auto
  then show ?thesis using rnd_between [OF r, of 1 x "2 ^ 40"] by simp
qed

lemma rs_new_ok:
  assumes "rnd64_ok (rnd64 m)" and "0 < rate" "rate < 2 ^ 32"
  shows "rs_ok (resampler_new m OPUS_SR rate)" and "rs_ok (resampler_new m rate OPUS_SR)"
  using rnd_div_step [OF assms] assms(2)
  by (auto simp: rs_ok_def step_ok_def resampler_new_def OPUS_SR_def)

lemma emit_total:
  assumes r: "rnd64_ok (rnd64 m)" and s: "1 / 2 ^ 20 \<le> s" "s \<le> 2 ^ 20"
    and t: "of_int k / 2 ^ 20 \<le> t" "t \<le> 2 ^ 21" and k: "0 \<le> k"
  shows "\<exists>t' os. emit m (FFin s) prev cur (FFin t) out = Some (FFin t', out @ os)
    \<and> 1 \<le> t' \<and> t' \<le> 2 ^ 21 \<and> (t < 1 \<longleftrightarrow> os \<noteq> []) \<and> (os = [] \<longrightarrow> t' = t)"
  using t k
proof (induction "nat (2 ^ 20 - k)" arbitrary: k t out rule: less_induct)
  case less
  show ?case
  proof (cases "t < 1")
    case False
    then show ?thesis using less.prems by (simp add: emit.simps)
  next
    case True
    have "(of_int k :: rat) / 2 ^ 20 < 1" using less.prems(1) True by (rule le_less_trans)
    then have "(of_int k :: rat) < of_int (2 ^ 20)" by simp
    then have k1: "k < 2 ^ 20" by (simp only: of_int_less_iff)
    have lo: "of_int (k + 1) / 2 ^ 20 \<le> t + s" using less.prems(1) s(1) by (simp add: add_divide_distrib)
    have hi: "t + s \<le> of_int (2 ^ 41) / 2 ^ 20" using True s(2) by simp
    obtain t1 where t1: "rnd64 m (t + s) = FFin t1" "of_int (k + 1) / 2 ^ 20 \<le> t1" "t1 \<le> 2 ^ 21"
      using rnd_between [OF r lo hi] k1 less.prems(3) by auto
    have "nat (2 ^ 20 - (k + 1)) < nat (2 ^ 20 - k)" using k1 by simp
    from less.hyps [OF this t1(2,3), of "out @ [lerp m prev cur (FFin t)]"] less.prems(3)
    obtain t' os where e: "emit m (FFin s) prev cur (FFin t1) (out @ [lerp m prev cur (FFin t)]) =
        Some (FFin t', (out @ [lerp m prev cur (FFin t)]) @ os)" "1 \<le> t'" "t' \<le> 2 ^ 21" by auto
    have "emit m (FFin s) prev cur (FFin t) out = Some (FFin t', out @ (lerp m prev cur (FFin t) # os))"
      using True e(1) t1(1) by (simp add: emit.simps [of m _ _ _ "FFin t"])
    with True e(2,3) show ?thesis by blast
  qed
qed

text \<open>Processing returns; if it puts out nothing, the position sinks by one per input sample.\<close>

text \<open>One sample: output until the position passes it, then one step back.\<close>

lemma rs_sample_total:
  assumes "rnd64_ok (rnd64 m)" and "step_ok (FFin s)" and "0 \<le> t" and "t \<le> 2 ^ 21"
  shows "\<exists>t1 t2 os. emit m (FFin s) prev cur (FFin t) out = Some (FFin t1, out @ os) \<and> rnd64 m (t1 - 1) = FFin t2
    \<and> 0 \<le> t2 \<and> t2 \<le> 2 ^ 21 \<and> (os = [] \<longrightarrow> \<lceil>t2\<rceil> \<le> \<lceil>t\<rceil> - 1)"
proof -
  have s: "1 / 2 ^ 20 \<le> s" "s \<le> 2 ^ 20" using assms(2) by (simp_all add: step_ok_def)
  obtain t1 os where e: "emit m (FFin s) prev cur (FFin t) out = Some (FFin t1, out @ os)"
    "1 \<le> t1" "t1 \<le> 2 ^ 21" "os = [] \<longrightarrow> t1 = t"
    using emit_total [OF assms(1) s, of 0 t prev cur out] assms(3,4) by auto
  have c1: "1 \<le> \<lceil>t1\<rceil>" "\<lceil>t1\<rceil> \<le> 2 ^ 21" using e(2,3) by (simp_all add: ceiling_le_iff one_le_ceiling)
  have up: "t1 - 1 \<le> of_int ((\<lceil>t1\<rceil> - 1) * 2 ^ 20) / 2 ^ 20" by simp
  have "\<bar>(\<lceil>t1\<rceil> - 1) * 2 ^ 20\<bar> \<le> 2 ^ 50" using c1 by (simp add: abs_mult)
  then obtain t2 where t2: "rnd64 m (t1 - 1) = FFin t2" "0 \<le> t2" "t2 \<le> of_int (\<lceil>t1\<rceil> - 1)"
    using rnd_between [OF assms(1) _ up, of 0] e(2) by auto
  have "\<lceil>t2\<rceil> \<le> \<lceil>t1\<rceil> - 1" using t2(3) by (simp only: ceiling_le_iff)
  moreover have "(of_int (\<lceil>t1\<rceil> - 1) :: rat) \<le> of_int (2 ^ 21)" using c1 by (simp only: of_int_le_iff)
  then have "t2 \<le> 2 ^ 21" using order_trans [OF t2(3)] by simp
  ultimately show ?thesis using e(1,4) t2(1,2) by blast
qed

lemma rs_process_total:
  assumes r: "rnd64_ok (rnd64 m)" and "rs_ok q" and "rs_t q = FFin t"
  shows "\<exists>q' os t'. rs_process m q input out = Some (q', out @ os) \<and> rs_ok q' \<and> rs_step q' = rs_step q
    \<and> rs_t q' = FFin t' \<and> (os = [] \<longrightarrow> \<lceil>t'\<rceil> + int (length input) \<le> \<lceil>t\<rceil> + 1 \<or> input = [] \<and> t' = t)
    \<and> (rs_have q \<longrightarrow> os = [] \<longrightarrow> \<lceil>t'\<rceil> + int (length input) \<le> \<lceil>t\<rceil>)"
  using assms(2,3)
proof (induction input arbitrary: q t out)
  case Nil
  then show ?case by auto
next
  case (Cons cur input)
  show ?case
  proof (cases "rs_have q")
    case False
    let ?q = "q\<lparr>rs_prev := cur, rs_have := True\<rparr>"
    have "rs_ok ?q" "rs_t ?q = FFin t" "rs_have ?q" using Cons.prems by (simp_all add: rs_ok_def)
    from Cons.IH [OF this(1,2), of out] this(3)
    obtain q' os t' where "rs_process m ?q input out = Some (q', out @ os)" "rs_ok q'" "rs_step q' = rs_step q"
      "rs_t q' = FFin t'" "os = [] \<longrightarrow> \<lceil>t'\<rceil> + int (length input) \<le> \<lceil>t\<rceil>" by auto
    with False show ?thesis by (intro exI [of _ q'] exI [of _ os] exI [of _ t']) simp
  next
    case True
    obtain s where s: "rs_step q = FFin s" using Cons.prems by (auto simp: rs_ok_def step_ok_def)
    obtain t1 t2 os1 where e: "emit m (FFin s) (rs_prev q) cur (FFin t) out = Some (FFin t1, out @ os1)"
      "rnd64 m (t1 - 1) = FFin t2" "0 \<le> t2" "t2 \<le> 2 ^ 21" "os1 = [] \<longrightarrow> \<lceil>t2\<rceil> \<le> \<lceil>t\<rceil> - 1"
      using rs_sample_total [OF r, of s t "rs_prev q" cur out] Cons.prems s by (auto simp: rs_ok_def)
    let ?q = "q\<lparr>rs_t := FFin t2, rs_prev := cur\<rparr>"
    have "rs_ok ?q" "rs_t ?q = FFin t2" "rs_have ?q" using Cons.prems e(3,4) True by (simp_all add: rs_ok_def)
    from Cons.IH [OF this(1,2), of "out @ os1"] this(3)
    obtain q' os t' where i: "rs_process m ?q input (out @ os1) = Some (q', (out @ os1) @ os)" "rs_ok q'"
      "rs_step q' = rs_step q" "rs_t q' = FFin t'" "os = [] \<longrightarrow> \<lceil>t'\<rceil> + int (length input) \<le> \<lceil>t2\<rceil>" by auto
    have "rs_process m q (cur # input) out = Some (q', out @ (os1 @ os))"
      using True e(1,2) i(1) s Cons.prems(2) by (simp add: f_sub_def)
    moreover have "os1 @ os = [] \<longrightarrow> \<lceil>t'\<rceil> + int (length (cur # input)) \<le> \<lceil>t\<rceil>"
      using i(5) e(5) by auto
    ultimately show ?thesis using i(2-4) by (intro exI [of _ q'] exI [of _ "os1 @ os"] exI [of _ t']) auto
  qed
qed

section \<open>The mixer\<close>

definition mixer_ok :: "mixer \<Rightarrow> bool" where
  "mixer_ok s \<longleftrightarrow> rs_ok (mx_down s) \<and> mx_target s = mx_rate s * 60 div 1000 \<and> mx_cap s = mx_rate s div 2"

lemma mixer_start_ok:
  "rnd64_ok (rnd64 m) \<Longrightarrow> 0 < rate \<Longrightarrow> rate < 2 ^ 32 \<Longrightarrow> mixer_ok (mixer_start m rate mix play)"
  by (simp add: mixer_ok_def mixer_start_def rs_new_ok)

lemma mixer_retune_ok:
  "rnd64_ok (rnd64 m) \<Longrightarrow> 0 < rate \<Longrightarrow> rate < 2 ^ 32 \<Longrightarrow> mixer_ok s \<Longrightarrow> mixer_ok (mixer_retune m rate s)"
  by (simp add: mixer_ok_def mixer_retune_def rs_new_ok)

lemma target_le_cap: "mixer_ok s \<Longrightarrow> mx_target s \<le> mx_cap s"
proof -
  have "r * 60 div 1000 \<le> r div 2" for r :: nat
  proof -
    have "r * 60 div 1000 \<le> 500 * r div 1000" by (rule div_le_mono) simp
    also have "\<dots> = 500 * r div (500 * 2)" by simp
    also have "\<dots> = r div 2" by (rule div_mult_mult1) simp
    finally show ?thesis .
  qed
  then show "mixer_ok s \<Longrightarrow> mx_target s \<le> mx_cap s" by (simp add: mixer_ok_def)
qed

lemma length_add_into [simp]: "length (add_into xs ys) = length xs"
  by (induction xs ys rule: add_into.induct) auto

lemma length_mix_peers: "mix_peers m g mix acc = (acc', mix') \<Longrightarrow> length acc' = length acc"
proof (induction mix arbitrary: acc acc' mix')
  case (Cons pb rest)
  obtain peer b where pb: "pb = (peer, b)" by (cases pb)
  let ?acc1 = "if 0 < min (length b) FRAME
      then add_into acc (map (\<lambda>s. f_to_i32 (f_mul (rnd32 m) (i_to_f32 m s) (peer_v peer g))) (take (min (length b) FRAME) b)) else acc"
  obtain acc2 rest' where r: "mix_peers m g rest ?acc1 = (acc2, rest')" by (cases "mix_peers m g rest ?acc1")
  have "acc' = acc2" using Cons.prems r unfolding pb by (simp only: mix_peers.simps Let_def prod.case prod.inject)
  with Cons.IH [OF r] show ?case by simp
qed simp

lemma length_fx_frame: "fx_frame m c master vs fx = (ys, fx') \<Longrightarrow> length ys = length vs"
  by (induction m c master vs fx arbitrary: ys fx' rule: fx_frame.induct) (auto split: prod.splits)

lemma length_keep_last [simp]: "length (keep_last n xs) = min n (length xs)"
  by (auto simp: keep_last_def min_def)

definition down_t :: "mixer \<Rightarrow> nat" where
  "down_t s = (case rs_t (mx_down s) of FFin t \<Rightarrow> nat \<lceil>t\<rceil> | _ \<Rightarrow> 0)"

lemma mix_frame_progress:
  assumes r: "rnd64_ok (rnd64 m)" and ok: "mixer_ok s" and less: "length (mx_play s) < mx_target s"
  shows "\<exists>s'. mix_frame m env s = Some s' \<and> mixer_ok s' \<and> mx_target s' = mx_target s \<and> mx_rate s' = mx_rate s
    \<and> mx_cap s' = mx_cap s \<and> length (mx_play s') \<le> mx_cap s
    \<and> (length (mx_play s) < length (mx_play s') \<or> length (mx_play s') = length (mx_play s) \<and> down_t s' < down_t s)"
proof -
  obtain g rc where env: "env = (g, rc)" by (cases env)
  obtain mixed mix' where mp: "mix_peers m g (mx_mix s) (replicate FRAME 0) = (mixed, mix')"
    by (cases "mix_peers m g (mx_mix s) (replicate FRAME 0)")
  obtain f fx' where ff: "fx_frame m rc (master_v g) mixed (mx_fx s) = (f, fx')"
    by (cases "fx_frame m rc (master_v g) mixed (mx_fx s)")
  have len: "length f = 960" using length_mix_peers [OF mp] length_fx_frame [OF ff] by (simp add: FRAME_def)
  have ok': "rs_ok (mx_down s)" using ok by (simp add: mixer_ok_def)
  then obtain t where t: "rs_t (mx_down s) = FFin t" "0 \<le> t" by (auto simp: rs_ok_def)
  obtain down os t' where p: "rs_process m (mx_down s) f [] = Some (down, os)" "rs_ok down" "rs_t down = FFin t'"
    "os = [] \<longrightarrow> \<lceil>t'\<rceil> + 960 \<le> \<lceil>t\<rceil> + 1"
    using rs_process_total [OF r ok' t(1), of f "[]"] len by auto
  let ?s' = "s\<lparr>mx_mix := mix', mx_fx := fx', mx_down := down,
      mx_play := keep_last (mx_cap s) (mx_play s @ map (\<lambda>v. f_to_i16 (f_mul (rnd32 m) v (FFin 32767))) os)\<rparr>"
  have run: "mix_frame m env s = Some ?s'"
    using env mp ff p(1) by (simp add: mix_frame_def)
  have cap: "length (mx_play s) < mx_cap s" using less target_le_cap [OF ok] by simp
  have "0 \<le> t'" using p(2,3) by (auto simp: rs_ok_def)
  then have "0 \<le> \<lceil>t'\<rceil>" by simp
  then have "os = [] \<longrightarrow> nat \<lceil>t'\<rceil> < nat \<lceil>t\<rceil>" using p(4) by (simp only: nat_less_eq_zless) linarith
  then have "length (mx_play s) < length (mx_play ?s') \<or> length (mx_play ?s') = length (mx_play s) \<and> down_t ?s' < down_t s"
    using p(3) t cap by (cases os) (auto simp: down_t_def simp del: nat_less_eq_zless zless_nat_eq_int_zless)
  with run p(2) ok show ?thesis by (auto simp: mixer_ok_def)
qed

lemma refill_total:
  assumes r: "rnd64_ok (rnd64 m)" and "mixer_ok s"
  shows "\<exists>s'. refill m env k s = Some s' \<and> mixer_ok s' \<and> mx_rate s' = mx_rate s \<and> mx_target s' \<le> length (mx_play s')
    \<and> length (mx_play s') \<le> max (mx_cap s) (length (mx_play s))"
  using assms(2)
proof (induction s arbitrary: k rule: wf_induct_rule [OF wf_measures
      [of "[\<lambda>s. mx_target s - length (mx_play s), down_t]"]])
  case (1 s)
  show ?case
  proof (cases "mx_target s \<le> length (mx_play s)")
    case True
    then show ?thesis using 1(2) by (simp add: refill.simps)
  next
    case False
    then obtain s1 where s1: "mix_frame m (env k) s = Some s1" "mixer_ok s1" "mx_target s1 = mx_target s"
      "mx_rate s1 = mx_rate s" "mx_cap s1 = mx_cap s" "length (mx_play s1) \<le> mx_cap s"
      "length (mx_play s) < length (mx_play s1) \<or> length (mx_play s1) = length (mx_play s) \<and> down_t s1 < down_t s"
      using mix_frame_progress [OF r 1(2), of "env k"] by auto
    have "(s1, s) \<in> measures [\<lambda>s. mx_target s - length (mx_play s), down_t]"
      using s1(3,7) False by auto
    from 1(1) [OF this s1(2), of "Suc k"] s1(1,4-6) False show ?thesis
      by (auto simp: refill.simps [of m env k s])
  qed
qed

text \<open>Rounds of the mixer thread: the live output rate, the settings, what the decoder left in the mix
  map, and how many samples the device took since the round before.\<close>

fun mixer_run ::
  "fpu \<Rightarrow> (nat \<times> (nat \<Rightarrow> gains \<times> radio_cfg) \<times> mix_map \<times> nat) list \<Rightarrow> mixer \<Rightarrow> mixer option" where
  "mixer_run m [] s = Some s"
| "mixer_run m ((rate, env, mix, taken) # rs) s =
     Option.bind (mixer_round m env rate (s\<lparr>mx_mix := mix, mx_play := drop taken (mx_play s)\<rparr>)) (mixer_run m rs)"



section \<open>The encoder\<close>

lemma denoise_rest: "denoise_blocks m cd den buf clean = (den', buf', clean') \<Longrightarrow> length buf' < NS"
  by (induction m cd den buf clean rule: denoise_blocks.induct)
    (auto simp: denoise_blocks.simps [of _ _ _ buf for buf] split: prod.splits if_splits)

lemma encode_frame_quiet:
  "encode_frame m cd env sm = (sm', pkts) \<Longrightarrow>
     es_up (fst sm') = es_up (fst sm) \<and> es_rate (fst sm') = es_rate (fst sm) \<and> es_buf48 (fst sm') = es_buf48 (fst sm)
     \<and> es_clean (fst sm') = drop FRAME (es_clean (fst sm)) \<and> length pkts \<le> 1
     \<and> ((fe_transmit env \<longrightarrow> fe_monitor2 env) \<longrightarrow> pkts = [])
     \<and> (\<not> fe_monitor env \<longrightarrow> snd sm' = snd sm)"
  by (auto simp: encode_frame_def Let_def split: prod.splits option.splits if_splits)

lemma encode_frames_quiet:
  assumes "encode_frames m cd env k sm = (sm', pkts)"
  shows "es_up (fst sm') = es_up (fst sm) \<and> es_buf48 (fst sm') = es_buf48 (fst sm) \<and> length (es_clean (fst sm')) < FRAME
    \<and> length pkts \<le> length (es_clean (fst sm)) div FRAME
    \<and> ((\<forall>k. fe_transmit (env k) \<longrightarrow> fe_monitor2 (env k)) \<longrightarrow> pkts = [])
    \<and> ((\<forall>k. \<not> fe_monitor (env k)) \<longrightarrow> snd sm' = snd sm)"
  using assms
proof (induction m cd env k sm arbitrary: sm' pkts rule: encode_frames.induct)
  case (1 m cd env k sm)
  show ?case
  proof (cases "FRAME \<le> length (es_clean (fst sm))")
    case False
    with 1(2) show ?thesis by (simp add: encode_frames.simps)
  next
    case True
    obtain sm1 p1 where a: "encode_frame m cd (env k) sm = (sm1, p1)" by (cases "encode_frame m cd (env k) sm")
    obtain sm2 p2 where b: "encode_frames m cd env (Suc k) sm1 = (sm2, p2)" by (cases "encode_frames m cd env (Suc k) sm1")
    have res: "sm' = sm2" "pkts = p1 @ p2" using 1(2) True a b by (simp_all add: encode_frames.simps [of m cd env k])
    note q = encode_frame_quiet [OF a] and ih = 1(1) [OF True a [symmetric] HOL.refl b]
    have "length (es_clean (fst sm1)) div FRAME + 1 = length (es_clean (fst sm)) div FRAME"
      using True q by (simp add: FRAME_def le_div_geq)
    with q ih res show ?thesis by auto
  qed
qed

text \<open>Claim C22. The microphone is private and the capture path keeps up: every round of the encoder ends; it
  leaves less than one 10 ms block and one 20 ms frame behind; and while not transmitting, or while
  the self-check is listening, nothing is sent, and only the self-check ever reaches the local mix.\<close>

theorem mic_private:
  assumes "rnd64_ok (rnd64 m)" and "0 < rate" and "rate < 2 ^ 32" and "rs_ok (es_up s)"
  shows "\<exists>s' mix' pkts. encode_round m cd env rate chunk (s, mix) = Some ((s', mix'), pkts) \<and> rs_ok (es_up s')
    \<and> (chunk \<noteq> [] \<longrightarrow> length (es_clean s') < FRAME \<and> length (es_buf48 s') < NS)
    \<and> ((\<forall>k. fe_transmit (env k) \<longrightarrow> fe_monitor2 (env k)) \<longrightarrow> pkts = [])
    \<and> ((\<forall>k. \<not> fe_monitor (env k)) \<longrightarrow> mix' = mix)"
proof (cases "chunk = []")
  case True
  then show ?thesis using assms(4) rs_new_ok(2) [OF assms(1-3)] by (simp add: encode_round_def)
next
  case False
  let ?s = "if rate \<noteq> es_rate s then s\<lparr>es_rate := rate, es_up := resampler_new m rate OPUS_SR\<rparr> else s"
  let ?in = "map (\<lambda>v. f_div (rnd32 m) (i_to_f32 m v) (FFin 32768)) chunk"
  have up: "rs_ok (es_up ?s)" using assms(4) rs_new_ok(2) [OF assms(1-3)] by simp
  then obtain t where "rs_t (es_up ?s) = FFin t" by (auto simp: rs_ok_def)
  from rs_process_total [OF assms(1) up this, of ?in "es_buf48 ?s"] obtain up' buf where
    p: "rs_process m (es_up ?s) ?in (es_buf48 ?s) = Some (up', buf)" "rs_ok up'" by blast
  obtain den buf' clean where d: "denoise_blocks m cd (es_den ?s) buf (es_clean ?s) = (den, buf', clean)"
    by (cases "denoise_blocks m cd (es_den ?s) buf (es_clean ?s)")
  let ?s1 = "?s\<lparr>es_up := up', es_den := den, es_buf48 := buf', es_clean := clean\<rparr>"
  obtain s' mix' pkts where e: "encode_frames m cd env 0 (?s1, mix) = ((s', mix'), pkts)"
    by (cases "encode_frames m cd env 0 (?s1, mix)") auto
  have "encode_round m cd env rate chunk (s, mix) = Some ((s', mix'), pkts)"
    using False p(1) d e by (simp add: encode_round_def Let_def)
  moreover note encode_frames_quiet [OF e] denoise_rest [OF d] p(2)
  ultimately show ?thesis by simp
qed

definition quiet_env :: "bool \<Rightarrow> frame_env" where
  "quiet_env tx = \<lparr>fe_cfg = dsp_default exact_fpu, fe_monitor = tx, fe_transmit = tx, fe_monitor2 = tx, fe_bitrate = 0, fe_dtx = False\<rparr>"

definition demo_codec :: "(unit, unit) codec" where
  "demo_codec = \<lparr>cd_denoise = (\<lambda>d xs. (d, xs)), cd_bitrate = (\<lambda>_ e. e), cd_encode = (\<lambda>e xs. (e, Some ''opus''))\<rparr>"

theorem mic_private_witness:
  "\<exists>s' mix'. encode_round exact_fpu demo_codec (\<lambda>_. quiet_env True) 48000 (replicate 2000 7)
      (enc_start exact_fpu 48000 () (), []) = Some ((s', mix'), []) \<and> length (es_clean s') < FRAME"
proof -
  have r: "rnd64_ok (rnd64 exact_fpu)" by (simp add: exact_fpu_def rnd64_ok_exact)
  have ok: "rs_ok (es_up (enc_start exact_fpu 48000 () ()))"
    using rs_new_ok(2) [OF r, of 48000] by (simp add: enc_start_def)
  from mic_private [OF r _ _ ok, of 48000 demo_codec "\<lambda>_. quiet_env True" "replicate 2000 7" "[]"]
  show ?thesis by (auto simp: quiet_env_def)
qed

section \<open>The decoder\<close>

text \<open>Every jitter buffer of a peer is bounded, every remembered peer was heard recently, and every buffer
  outside \<open>other\<close> (the local cues) belongs to a remembered peer.\<close>

definition dec_ok :: "nat \<Rightarrow> nat \<Rightarrow> str set \<Rightarrow> 'x dec_state \<times> mix_map \<Rightarrow> bool" where
  "dec_ok idle now other sm \<longleftrightarrow> (case sm of (s, mix) \<Rightarrow>
     distinct (map fst (de_decoders s)) \<and> distinct (map fst mix)
     \<and> (\<forall>(k, b) \<in> set mix. k \<in> other \<or> (k \<in> fst ` set (de_decoders s) \<and> length b \<le> 19200))
     \<and> (\<forall>(k, d, seen) \<in> set (de_decoders s). seen \<le> now \<and> de_last_gc s < seen + idle)
     \<and> de_last_gc s \<le> now)"

fun decode_run ::
  "('x \<Rightarrow> bytes \<Rightarrow> 'x \<times> i16 list option) \<Rightarrow> 'x \<Rightarrow> nat \<Rightarrow> (nat \<times> str \<times> bytes) list
    \<Rightarrow> 'x dec_state \<times> mix_map \<Rightarrow> 'x dec_state \<times> mix_map" where
  "decode_run dec fresh idle [] sm = sm"
| "decode_run dec fresh idle ((now, peer, payload) # ms) sm =
     decode_run dec fresh idle ms (decode_msg dec fresh idle now peer payload sm)"

lemma set_update_sub: "set (AList.update k v m) \<subseteq> insert (k, v) {x \<in> set m. fst x \<noteq> k} \<union> {x \<in> set m. fst x = k \<and> \<not> distinct (map fst m)}"
proof (induction m)
  case (Cons a m)
  then show ?case by (cases a) (auto simp: image_iff)
qed simp

lemma set_update_distinct: "distinct (map fst m) \<Longrightarrow> set (AList.update k v m) \<subseteq> insert (k, v) {x \<in> set m. fst x \<noteq> k}"
  using set_update_sub [of k v m] by auto

lemma set_fold_delete: "set (fold AList.delete ks m) = {x \<in> set m. fst x \<notin> set ks}"
proof (induction ks arbitrary: m)
  case (Cons k ks)
  show ?case by (simp add: Cons.IH) (auto simp: AList.delete_eq)
qed simp

lemma distinct_fold_delete: "distinct (map fst m) \<Longrightarrow> distinct (map fst (fold AList.delete ks m))"
  by (induction ks arbitrary: m) simp_all

lemma distinct_mix_push: "distinct (map fst mix) \<Longrightarrow> distinct (map fst (mix_push cap k xs mix))"
  by (simp add: mix_push_def)

lemma mix_push_set:
  assumes "distinct (map fst mix)" and "(k, b) \<in> set (mix_push cap key xs mix)"
  shows "(k, b) \<in> set mix \<or> (k = key \<and> length b \<le> cap)"
  using set_update_distinct [OF assms(1)] assms(2) by (fastforce simp: mix_push_def)

lemma dec_okI:
  assumes "distinct (map fst (de_decoders s))" "distinct (map fst mix)" "de_last_gc s \<le> now"
    and "\<And>k b. (k, b) \<in> set mix \<Longrightarrow> k \<in> other \<or> (k \<in> fst ` set (de_decoders s) \<and> length b \<le> 19200)"
    and "\<And>k d seen. (k, d, seen) \<in> set (de_decoders s) \<Longrightarrow> seen \<le> now \<and> de_last_gc s < seen + idle"
    and "\<And>k d seen. (k, d, seen) \<in> set (de_decoders s) \<Longrightarrow> 2 * now < 2 * seen + 3 * idle"
  shows "dec_ok idle now other (s, mix) \<and> (\<forall>(k, d, seen) \<in> set (de_decoders (fst (s, mix))). 2 * now < 2 * seen + 3 * idle)"
proof -
  have "\<forall>(k, b) \<in> set mix. k \<in> other \<or> (k \<in> fst ` set (de_decoders s) \<and> length b \<le> 19200)" using assms(4) by blast
  moreover have "\<forall>(k, d, seen) \<in> set (de_decoders s). seen \<le> now \<and> de_last_gc s < seen + idle" using assms(5) by blast
  moreover have "\<forall>(k, d, seen) \<in> set (de_decoders s). 2 * now < 2 * seen + 3 * idle" using assms(6) by blast
  ultimately show ?thesis using assms(1-3) by (simp add: dec_ok_def)
qed

text \<open>The sweep: peers silent for \<open>idle\<close> are forgotten, with what they had buffered.\<close>

lemma sweep_ok:
  assumes "distinct (map fst ds)" "distinct (map fst mix)"
    and mix: "\<And>k b. (k, b) \<in> set mix \<Longrightarrow> k \<in> other \<or> (k \<in> fst ` set ds \<and> length b \<le> 19200)"
    and seen: "\<And>k d sn. (k, d, sn) \<in> set ds \<Longrightarrow> sn \<le> now"
    and st: "stale = map fst (filter (\<lambda>(k, d, seen). idle \<le> now - seen) ds)"
  shows "dec_ok idle now other (s\<lparr>de_last_gc := now, de_decoders := fold AList.delete stale ds\<rparr>, fold AList.delete stale mix)
    \<and> (\<forall>(k, d, seen) \<in> set (fold AList.delete stale ds). 2 * now < 2 * seen + 3 * idle)"
proof -
  have young: "sn \<le> now \<and> now < sn + idle" if "(k, d, sn) \<in> set (fold AList.delete stale ds)" for k d sn
  proof -
    have "(k, d, sn) \<in> set ds" "k \<notin> set stale" using that by (auto simp: set_fold_delete)
    then have "\<not> idle \<le> now - sn" unfolding st by force
    with seen [OF \<open>(k, d, sn) \<in> set ds\<close>] show ?thesis by linarith
  qed
  have keys: "fst ` set (fold AList.delete stale ds) = fst ` set ds - set stale"
    by (auto simp: set_fold_delete)
  have mem: "k \<in> other \<or> (k \<in> fst ` set (fold AList.delete stale ds) \<and> length b \<le> 19200)"
    if "(k, b) \<in> set (fold AList.delete stale mix)" for k b
    using that mix [of k b] unfolding keys by (auto simp: set_fold_delete)
  have "2 * now < 2 * sn + 3 * idle" if "(k, d, sn) \<in> set (fold AList.delete stale ds)" for k d sn
    using young [OF that] by linarith
  moreover have "distinct (map fst (fold AList.delete stale ds))" "distinct (map fst (fold AList.delete stale mix))"
    using assms(1,2) by (simp_all only: distinct_fold_delete)
  ultimately show ?thesis using mem young
      dec_okI [of "s\<lparr>de_last_gc := now, de_decoders := fold AList.delete stale ds\<rparr>" "fold AList.delete stale mix" now other idle]
    by simp
qed

lemma decode_msg_ok:
  assumes ok: "dec_ok idle t other sm" and "t \<le> now" and "0 < idle"
  shows "dec_ok idle now other (decode_msg dec fresh idle now peer payload sm)
    \<and> (\<forall>(k, d, seen) \<in> set (de_decoders (fst (decode_msg dec fresh idle now peer payload sm))). 2 * now < 2 * seen + 3 * idle)"
proof -
  obtain s mix where sm: "sm = (s, mix)" by (cases sm)
  define d0 where "d0 = (case map_of (de_decoders s) peer of Some (d, _) \<Rightarrow> d | None \<Rightarrow> fresh)"
  obtain d1 pcm where d1: "dec d0 payload = (d1, pcm)" by (cases "dec d0 payload")
  define ds where "ds = AList.update peer (d1, now) (de_decoders s)"
  define mix1 where "mix1 = (case pcm of Some xs \<Rightarrow> mix_push 19200 peer xs mix | None \<Rightarrow> mix)"
  have dist: "distinct (map fst (de_decoders s))" "distinct (map fst mix)" using ok sm by (simp_all add: dec_ok_def)
  have ds_set: "set ds \<subseteq> insert (peer, d1, now) (set (de_decoders s))" "fst ` set ds = insert peer (fst ` set (de_decoders s))"
    using set_update_distinct [OF dist(1), of peer "(d1, now)"] by (auto simp: ds_def dom_update simp flip: dom_hmap)
  have dist1: "distinct (map fst ds)" "distinct (map fst mix1)"
    using dist by (simp_all add: ds_def mix1_def distinct_mix_push split: option.split)
  have mix1: "k \<in> other \<or> (k \<in> fst ` set ds \<and> length b \<le> 19200)" if "(k, b) \<in> set mix1" for k b
  proof -
    have "(k, b) \<in> set mix \<or> (k = peer \<and> length b \<le> 19200)"
      using that mix_push_set [OF dist(2)] by (auto simp: mix1_def split: option.splits)
    then show ?thesis using ok sm ds_set(2) by (auto simp: dec_ok_def)
  qed
  have seen: "sn \<le> now \<and> de_last_gc s < sn + idle" if "(k, d, sn) \<in> set ds" for k d sn
    using that ds_set(1) ok sm assms(2,3) by (fastforce simp: dec_ok_def)
  have gc: "de_last_gc s \<le> now" using ok sm assms(2) by (simp add: dec_ok_def)
  show ?thesis
  proof (cases "idle \<le> 2 * (now - de_last_gc s)")
    case False
    have "decode_msg dec fresh idle now peer payload sm = (s\<lparr>de_decoders := ds\<rparr>, mix1)"
      using False sm d1 by (simp add: decode_msg_def Let_def d0_def [symmetric] ds_def mix1_def)
    moreover have "2 * now < 2 * sn + 3 * idle" if "(k, d, sn) \<in> set ds" for k d sn
      using seen [OF that] False by linarith
    ultimately show ?thesis using dist1 gc mix1 seen
      by (simp only:) (rule dec_okI; simp)
  next
    case True
    let ?stale = "map fst (filter (\<lambda>(k, d, seen). idle \<le> now - seen) ds)"
    have run: "decode_msg dec fresh idle now peer payload sm =
        (s\<lparr>de_last_gc := now, de_decoders := fold AList.delete ?stale ds\<rparr>, fold AList.delete ?stale mix1)"
      using True sm d1 by (simp add: decode_msg_def Let_def d0_def [symmetric] ds_def mix1_def)
    have "\<And>k d sn. (k, d, sn) \<in> set ds \<Longrightarrow> sn \<le> now" using seen by blast
    from sweep_ok [OF dist1 mix1 this refl, where idle = idle and s = s] show ?thesis unfolding run by simp
  qed
qed

text \<open>Bounded playback memory: over any stream of incoming frames with rising times, every peer's
  jitter buffer holds at most 400 ms, a buffer exists only for a peer the decoder remembers, and after
  each frame every peer remembered was heard less than one and a half idle periods ago.\<close>

theorem jitter_bounded:
  assumes "0 < idle" and "sorted (t0 # map fst msgs)" and "fst ` set mix0 \<subseteq> other" and "distinct (map fst mix0)"
    and "msgs \<noteq> []" and "decode_run dec fresh idle msgs (dec_start t0, mix0) = (s, mix)"
  shows "(\<forall>(k, b) \<in> set mix. k \<in> other \<or> (k \<in> fst ` set (de_decoders s) \<and> length b \<le> 19200))
    \<and> (\<forall>(k, d, seen) \<in> set (de_decoders s). 2 * fst (List.last msgs) < 2 * seen + 3 * idle)"
proof -
  have gen: "dec_ok idle (List.last (t # map fst msgs)) other (s', mix') \<and>
      (msgs \<noteq> [] \<longrightarrow> (\<forall>(k, d, seen) \<in> set (de_decoders s'). 2 * fst (List.last msgs) < 2 * seen + 3 * idle))"
    if "dec_ok idle t other sm" "sorted (t # map fst msgs)" "decode_run dec fresh idle msgs sm = (s', mix')" for t msgs sm s' mix'
    using that
  proof (induction msgs arbitrary: t sm)
    case (Cons x ms)
    obtain now peer payload where x: "x = (now, peer, payload)" by (cases x) auto
    let ?sm = "decode_msg dec fresh idle now peer payload sm"
    have le: "t \<le> now" "sorted (now # map fst ms)" using Cons.prems(2) x by simp_all
    note ok = decode_msg_ok [OF Cons.prems(1) le(1) assms(1), of dec fresh peer payload]
    have run: "decode_run dec fresh idle ms ?sm = (s', mix')" using Cons.prems(3) x by simp
    from Cons.IH [OF conjunct1 [OF ok] le(2) run] conjunct2 [OF ok] run x show ?case
      by (cases ms) auto
  qed simp
  have "dec_ok idle t0 other (dec_start t0, mix0)"
    using assms(3,4) by (auto simp: dec_ok_def dec_start_def)
  from gen [OF this assms(2,6)] assms(5) show ?thesis by (auto simp: dec_ok_def)
qed

theorem jitter_bounded_witness:
  "\<forall>(k, d, seen) \<in> set (de_decoders (fst (decode_run (\<lambda>d p. (d, Some [1, 2])) () 30000
      [(1000, ''bob'', ''x''), (2000, ''ann'', ''y''), (60000, ''ann'', ''z'')] (dec_start 0, [])))).
     2 * 60000 < 2 * seen + 3 * 30000"
proof -
  let ?ms = "[(1000, ''bob'', ''x''), (2000, ''ann'', ''y''), (60000, ''ann'', ''z'')]"
  obtain s mix where r: "decode_run (\<lambda>d p. (d, Some [1, 2])) () 30000 ?ms (dec_start 0, []) = (s, mix)"
    by (cases "decode_run (\<lambda>d p. (d, Some [1, 2])) () 30000 ?ms (dec_start 0, [])")
  from jitter_bounded [OF _ _ _ _ _ r, of "{}"] r show ?thesis by simp
qed

section \<open>Cues\<close>

text \<open>A cue replaces what was queued of the last one: rapid toggling never piles up, and no voice is touched.\<close>

lemma click_no_pile_up:
  "length (the (map_of (click m e (click m e mix)) EARCON_KEY)) \<le> max (length (ec_samples e)) (length (the (map_of mix EARCON_KEY)))
   \<and> (\<forall>k. k \<noteq> EARCON_KEY \<longrightarrow> map_of (click m e mix) k = map_of mix k)"
  by (auto simp: click_def queue_cue_def)

end
