(* ===== verification/Client.thy ===== *)
theory Client
  imports Engine Mesh Signaling Audio_Loops
begin

text \<open>
  The client's handles (\<open>apps/companion-core/src/lib.rs\<close>, \<open>serverless.rs\<close>): opening the audio rig,
  the guard that takes it down again, starting the engine, the methods of its handle, and the
  serverless one-to-one mode.

  The rig's threads are in \<open>Audio_Loops\<close>; here it is the state they share with the handle.  What the
  platform does (opening devices, building a peer connection, connecting) is an argument: the error
  or the result.  The order of openings and closings is recorded as effects.
\<close>

section \<open>The audio rig\<close>

datatype rig_fx = OpenRig | StopRig | OpenPc | ClosePc

record rig =
  rg_transmit :: bool
  rg_gains :: gains
  rg_dsp :: dsp_config
  rg_radio :: radio_cfg
  rg_monitor :: bool
  rg_stop :: bool
  rg_bitrate :: nat
  rg_dtx :: bool
  rg_dev_cmds :: "dev_cmd list"
  rg_earcon :: earcon

text \<open>\<open>setup_audio\<close>: \<open>dev\<close> is what the device thread reports for the two names.\<close>

definition setup_audio ::
  "fpu \<Rightarrow> (str option \<Rightarrow> str option \<Rightarrow> str + unit) \<Rightarrow> str option \<Rightarrow> str option \<Rightarrow> str + rig" where
  "setup_audio m dev in_name out_name =
     (case dev in_name out_name of
        Inl e \<Rightarrow> Inl e
      | Inr _ \<Rightarrow> Inr \<lparr>rg_transmit = False, rg_gains = gains_new, rg_dsp = dsp_default m, rg_radio = radio_default m,
          rg_monitor = False, rg_stop = False, rg_bitrate = 0, rg_dtx = False, rg_dev_cmds = [],
          rg_earcon = earcon_new m True\<rparr>)"

text \<open>\<open>StopGuard\<close>: dropped while armed it stops the rig.\<close>

record stop_guard = sg_armed :: bool

definition guard_new :: stop_guard where "guard_new = \<lparr>sg_armed = True\<rparr>"
definition guard_disarm :: "stop_guard \<Rightarrow> stop_guard" where "guard_disarm g = g\<lparr>sg_armed := False\<rparr>"

definition guard_drop :: "stop_guard \<Rightarrow> rig \<Rightarrow> rig \<times> rig_fx list" where
  "guard_drop g r = (if sg_armed g then (r\<lparr>rg_stop := True\<rparr>, [StopRig]) else (r, []))"

section \<open>Starting the engine\<close>

record engine_config =
  ec_server :: str
  ec_room :: str
  ec_user_id :: str
  ec_name :: str
  ec_token :: "str option"
  ec_cert :: "str option"
  ec_input :: "str option"
  ec_output :: "str option"
  ec_relay :: bool

record start_env =
  sv_fpu :: fpu
  sv_devices :: "str option \<Rightarrow> str option \<Rightarrow> str + unit"
  sv_api :: "str + unit"                                  \<comment> \<open>\<open>build_api\<close>\<close>
  sv_connect :: "str \<Rightarrow> str option \<Rightarrow> str + unit"      \<comment> \<open>\<open>signaling::connect\<close>\<close>
  sv_join_sent :: "str + unit"
  sv_secret :: bytes                                      \<comment> \<open>16 random bytes\<close>
  sv_hexenc :: "bytes \<Rightarrow> str"
  sv_now :: nat

record engine_handle =
  eh_cmds :: "cmd list"     \<comment> \<open>sent to the loop\<close>
  eh_rig :: rig

definition join_of :: "start_env \<Rightarrow> engine_config \<Rightarrow> client_msg" where
  "join_of v cfg = Join PROTOCOL_VERSION (ec_room cfg) (ec_user_id cfg) (ec_name cfg) (ec_token cfg)
     (sv_hexenc v (sv_secret v))"

text \<open>An early return drops the guard, and with it the rig.\<close>

definition abort :: "'e \<Rightarrow> stop_guard \<Rightarrow> rig \<Rightarrow> rig_fx list \<Rightarrow> ('e + 'a) \<times> rig_fx list" where
  "abort e g r fx = (Inl e, fx @ snd (guard_drop g r))"

definition client_start ::
  "start_env \<Rightarrow> engine_config \<Rightarrow> (str + engine_handle \<times> engine \<times> effect list) \<times> rig_fx list" where
  "client_start v cfg =
     (case setup_audio (sv_fpu v) (sv_devices v) (ec_input cfg) (ec_output cfg) of
        Inl e \<Rightarrow> (Inl e, [])
      | Inr r \<Rightarrow>
          let g = guard_new; fx = [OpenRig]
          in case sv_api v of Inl e \<Rightarrow> abort e g r fx | Inr _ \<Rightarrow>
            (case sv_connect v (ec_server cfg) (ec_cert cfg) of Inl e \<Rightarrow> abort e g r fx | Inr _ \<Rightarrow>
            (case sv_join_sent v of Inl e \<Rightarrow> abort e g r fx | Inr _ \<Rightarrow>
              let g' = guard_disarm g
              in (Inr (\<lparr>eh_cmds = [], eh_rig = fst (guard_drop g' r)\<rparr>,
                       engine_start (ec_user_id cfg) (ec_name cfg) (ec_relay cfg) (join_of v cfg) (sv_now v)),
                  fx @ snd (guard_drop g' r)))))"

section \<open>The engine's handle\<close>

definition send_cmd :: "cmd \<Rightarrow> engine_handle \<Rightarrow> engine_handle" where
  "send_cmd c h = h\<lparr>eh_cmds := eh_cmds h @ [c]\<rparr>"

definition on_rig :: "(rig \<Rightarrow> rig) \<Rightarrow> engine_handle \<Rightarrow> engine_handle" where
  "on_rig f h = h\<lparr>eh_rig := f (eh_rig h)\<rparr>"

definition eh_toggle_transmit :: "engine_handle \<Rightarrow> engine_handle" where
  "eh_toggle_transmit = send_cmd ToggleTx"
definition eh_set_transmit :: "bool \<Rightarrow> engine_handle \<Rightarrow> engine_handle" where
  "eh_set_transmit on = send_cmd (SetTx on)"
definition eh_send_chat :: "str \<Rightarrow> engine_handle \<Rightarrow> engine_handle" where
  "eh_send_chat t = send_cmd (ChatCmd t)"
definition eh_rotate_key :: "engine_handle \<Rightarrow> engine_handle" where
  "eh_rotate_key = send_cmd RekeyCmd"
definition eh_reconnect :: "engine_handle \<Rightarrow> engine_handle" where
  "eh_reconnect = send_cmd Reconnect"
definition eh_set_channel :: "str \<Rightarrow> engine_handle \<Rightarrow> engine_handle" where
  "eh_set_channel n = send_cmd (SetChannel n)"
definition eh_remove_channel :: "str \<Rightarrow> engine_handle \<Rightarrow> engine_handle" where
  "eh_remove_channel n = send_cmd (RemoveChannel n)"
definition eh_set_dsp :: "dsp_config \<Rightarrow> engine_handle \<Rightarrow> engine_handle" where
  "eh_set_dsp c = on_rig (\<lambda>r. r\<lparr>rg_dsp := c\<rparr>)"
definition eh_set_radio :: "radio_cfg \<Rightarrow> engine_handle \<Rightarrow> engine_handle" where
  "eh_set_radio c = on_rig (\<lambda>r. r\<lparr>rg_radio := c\<rparr>)"
definition eh_set_monitor :: "bool \<Rightarrow> engine_handle \<Rightarrow> engine_handle" where
  "eh_set_monitor on = on_rig (\<lambda>r. r\<lparr>rg_monitor := on\<rparr>)"
definition eh_set_input_device :: "str option \<Rightarrow> engine_handle \<Rightarrow> engine_handle" where
  "eh_set_input_device n = on_rig (\<lambda>r. r\<lparr>rg_dev_cmds := rg_dev_cmds r @ [SetInput n]\<rparr>)"
definition eh_set_output_device :: "str option \<Rightarrow> engine_handle \<Rightarrow> engine_handle" where
  "eh_set_output_device n = on_rig (\<lambda>r. r\<lparr>rg_dev_cmds := rg_dev_cmds r @ [SetOutput n]\<rparr>)"
definition eh_set_low_bandwidth :: "bool \<Rightarrow> engine_handle \<Rightarrow> engine_handle" where
  "eh_set_low_bandwidth on = on_rig (\<lambda>r. r\<lparr>rg_bitrate := (if on then 14000 else 0), rg_dtx := on\<rparr>)"
definition eh_set_master_volume :: "fl \<Rightarrow> engine_handle \<Rightarrow> engine_handle" where
  "eh_set_master_volume v = on_rig (\<lambda>r. r\<lparr>rg_gains := set_master v (rg_gains r)\<rparr>)"
definition eh_set_peer_volume :: "str \<Rightarrow> fl \<Rightarrow> engine_handle \<Rightarrow> engine_handle" where
  "eh_set_peer_volume u v = on_rig (\<lambda>r. r\<lparr>rg_gains := set_peer u v (rg_gains r)\<rparr>)"
definition eh_set_earcon :: "bool \<Rightarrow> engine_handle \<Rightarrow> engine_handle" where
  "eh_set_earcon on = on_rig (\<lambda>r. r\<lparr>rg_earcon := set_enabled on (rg_earcon r)\<rparr>)"
definition eh_set_earcon_volume :: "fl \<Rightarrow> engine_handle \<Rightarrow> engine_handle" where
  "eh_set_earcon_volume v = on_rig (\<lambda>r. r\<lparr>rg_earcon := set_volume v (rg_earcon r)\<rparr>)"

text \<open>\<open>ptt_latch_cue\<close> plays into the mix map.\<close>

definition eh_ptt_latch_cue :: "fpu \<Rightarrow> bool \<Rightarrow> engine_handle \<Rightarrow> mix_map \<Rightarrow> mix_map" where
  "eh_ptt_latch_cue m on h = latch_cue m on (rg_earcon (eh_rig h))"

definition eh_drop :: "engine_handle \<Rightarrow> rig \<times> rig_fx list" where
  "eh_drop h = ((eh_rig h)\<lparr>rg_stop := True\<rparr>, [StopRig])"

section \<open>The serverless mode\<close>

definition MAX_CHAT_BYTES :: nat where "MAX_CHAT_BYTES = 4096"

record sl_env =
  sl_fpu :: fpu
  sl_devices :: "str option \<Rightarrow> str option \<Rightarrow> str + unit"
  sl_api :: "str + unit"
  sl_new_pc :: "str + unit"
  sl_add_track :: "str + unit"
  sl_create_dc :: "str + unit"
  sl_create_offer :: "str + unit"
  sl_create_answer :: "str + unit"
  sl_set_local :: "str + unit"
  sl_set_remote :: "str \<Rightarrow> str + unit"
  sl_local_sdp :: "str option"                 \<comment> \<open>after gathering\<close>
  sl_parse_offer :: "str \<Rightarrow> str + str"
  sl_parse_answer :: "str \<Rightarrow> str + str"
  sl_b64dec :: "str \<Rightarrow> bytes option"
  sl_b64enc :: "bytes \<Rightarrow> str"
  sl_utf8 :: "bytes \<Rightarrow> bool"

record serverless =
  sl_rig :: rig
  sl_chat :: "nat option"
  sl_me :: str

definition NOT_B64 :: str where
  "NOT_B64 = ''ung'' @ [CHR 0xC3, CHR 0xBC] @ ''ltiger Code (kein base64)''"
definition NOT_UTF8 :: str where
  "NOT_UTF8 = ''ung'' @ [CHR 0xC3, CHR 0xBC] @ ''ltiger Code (kein UTF-8)''"

definition decode_code :: "sl_env \<Rightarrow> str \<Rightarrow> str + str" where
  "decode_code v code =
     (case sl_b64dec v (concat (filter (\<lambda>c. \<not> is_ws c) (chars code))) of
        None \<Rightarrow> Inl NOT_B64
      | Some b \<Rightarrow> if sl_utf8 v b then Inr b else Inl NOT_UTF8)"

text \<open>\<open>build_pc\<close>: the connection is closed by its last owner when a later step fails.\<close>

definition build_pc :: "sl_env \<Rightarrow> (str + rig) \<times> rig_fx list" where
  "build_pc v =
     (case setup_audio (sl_fpu v) (sl_devices v) None None of
        Inl e \<Rightarrow> (Inl e, [])
      | Inr r \<Rightarrow>
          let g = guard_new; fx = [OpenRig]
          in case sl_api v of Inl e \<Rightarrow> abort e g r fx | Inr _ \<Rightarrow>
            (case sl_new_pc v of Inl e \<Rightarrow> abort e g r fx | Inr _ \<Rightarrow>
            (case sl_add_track v of Inl e \<Rightarrow> abort e g r (fx @ [OpenPc]) | Inr _ \<Rightarrow>
              (Inr (fst (guard_drop (guard_disarm g) r)), fx @ [OpenPc] @ snd (guard_drop (guard_disarm g) r)))))"

definition sl_drop :: "serverless \<Rightarrow> rig \<times> rig_fx list" where
  "sl_drop s = ((sl_rig s)\<lparr>rg_stop := True\<rparr>, [StopRig, ClosePc])"

definition sl_fail :: "'e \<Rightarrow> serverless \<Rightarrow> rig_fx list \<Rightarrow> ('e + 'a) \<times> rig_fx list" where
  "sl_fail e s fx = (Inl e, fx @ snd (sl_drop s))"

definition create_offer :: "sl_env \<Rightarrow> str \<Rightarrow> (str + serverless \<times> str) \<times> rig_fx list" where
  "create_offer v me =
     (case build_pc v of
        (Inl e, fx) \<Rightarrow> (Inl e, fx)
      | (Inr r, fx) \<Rightarrow>
          let s = \<lparr>sl_rig = r, sl_chat = None, sl_me = me\<rparr>
          in case sl_create_dc v of Inl e \<Rightarrow> sl_fail e s fx | Inr _ \<Rightarrow>
            let s1 = s\<lparr>sl_chat := Some 0\<rparr>
            in (case sl_create_offer v of Inl e \<Rightarrow> sl_fail e s1 fx | Inr _ \<Rightarrow>
               (case sl_set_local v of Inl e \<Rightarrow> sl_fail e s1 fx | Inr _ \<Rightarrow>
               (case sl_local_sdp v of None \<Rightarrow> sl_fail ''no local description'' s1 fx | Some sdp \<Rightarrow>
                  (Inr (s1, sl_b64enc v sdp), fx)))))"

definition accept_offer :: "sl_env \<Rightarrow> str \<Rightarrow> str \<Rightarrow> (str + serverless \<times> str) \<times> rig_fx list" where
  "accept_offer v code me =
     (case decode_code v code of Inl e \<Rightarrow> (Inl e, []) | Inr txt \<Rightarrow>
     (case sl_parse_offer v txt of Inl e \<Rightarrow> (Inl e, []) | Inr offer_sdp \<Rightarrow>
     (case build_pc v of
        (Inl e, fx) \<Rightarrow> (Inl e, fx)
      | (Inr r, fx) \<Rightarrow>
          let s = \<lparr>sl_rig = r, sl_chat = None, sl_me = me\<rparr>
          in case sl_set_remote v offer_sdp of Inl e \<Rightarrow> sl_fail e s fx | Inr _ \<Rightarrow>
            (case sl_create_answer v of Inl e \<Rightarrow> sl_fail e s fx | Inr _ \<Rightarrow>
            (case sl_set_local v of Inl e \<Rightarrow> sl_fail e s fx | Inr _ \<Rightarrow>
            (case sl_local_sdp v of None \<Rightarrow> sl_fail ''no local description'' s fx | Some sdp \<Rightarrow>
               (Inr (s, sl_b64enc v sdp), fx)))))))"

definition accept_answer :: "sl_env \<Rightarrow> str \<Rightarrow> str + unit" where
  "accept_answer v code =
     (case decode_code v code of Inl e \<Rightarrow> Inl e | Inr txt \<Rightarrow>
     (case sl_parse_answer v txt of Inl e \<Rightarrow> Inl e | Inr sdp \<Rightarrow> sl_set_remote v sdp))"

definition sl_set :: "bool \<Rightarrow> serverless \<Rightarrow> serverless \<times> ui_event list" where
  "sl_set on s = (s\<lparr>sl_rig := (sl_rig s)\<lparr>rg_transmit := on\<rparr>\<rparr>, [UStatus True on])"

definition sl_toggle_transmit :: "serverless \<Rightarrow> serverless \<times> ui_event list" where
  "sl_toggle_transmit s = sl_set (\<not> rg_transmit (sl_rig s)) s"

definition sl_set_transmit :: "bool \<Rightarrow> serverless \<Rightarrow> serverless \<times> ui_event list" where
  "sl_set_transmit on s = (if rg_transmit (sl_rig s) \<noteq> on then sl_set on s else (s, []))"

text \<open>\<open>json\<close> is the text of a chat message, \<open>sent\<close> whether the channel took it.\<close>

definition sl_send_chat :: "(chat_msg \<Rightarrow> str) \<Rightarrow> (str \<Rightarrow> bool) \<Rightarrow> u64 \<Rightarrow> str \<Rightarrow> serverless \<Rightarrow> ui_event list" where
  "sl_send_chat json sent ts text s =
     (case sl_chat s of
        None \<Rightarrow> [ULog ''Chat: noch nicht verbunden'']
      | Some _ \<Rightarrow>
          let j = json \<lparr>cm_text = text, cm_ts = ts\<rparr>
          in if MAX_CHAT_BYTES < length j then [ULog ''Chat: Nachricht zu lang'']
             else if \<not> sent j then [ULog ''Chat: Senden fehlgeschlagen'']
             else [UChat (sl_me s) text])"

definition sl_on_message :: "(bytes \<Rightarrow> chat_msg option) \<Rightarrow> bytes \<Rightarrow> ui_event list" where
  "sl_on_message parse data =
     (if MAX_CHAT_BYTES < length data then []
      else (case parse data of
              None \<Rightarrow> []
            | Some c \<Rightarrow> [UChat ''Peer'' (if MAX_CHAT_CHARS < chars_count (cm_text c)
                                      then chars_take MAX_CHAT_CHARS (cm_text c) else cm_text c)]))"

text \<open>The up to ten polls for the selected pair; each is the pair's text, if one is selected.\<close>

definition badge_of :: "str option list \<Rightarrow> str" where
  "badge_of polls =
     (case find (\<lambda>p. p \<noteq> None) (take 10 polls) of
        Some (Some pair) \<Rightarrow> if contains ''relay'' pair then ''RELAY (TURN)'' else ''DIREKT''
      | _ \<Rightarrow> ''DIREKT'')"

definition sl_on_state :: "str option list \<Rightarrow> str \<Rightarrow> conn_state \<Rightarrow> ui_event list" where
  "sl_on_state polls me st =
     (if st = CConnected then
        [UStatus True False,
         URoster [\<lparr>p_user_id = ''me'', p_name = me, p_you = True, p_badge = None, p_speaking = False,
                    p_channel = DEFAULT_CHANNEL, p_secure = True, p_fingerprint = None, p_linked = True\<rparr>,
                  \<lparr>p_user_id = ''peer'', p_name = ''Peer'', p_you = False, p_badge = Some (badge_of polls), p_speaking = False,
                    p_channel = DEFAULT_CHANNEL, p_secure = False, p_fingerprint = None, p_linked = True\<rparr>]]
      else if st = CFailed \<or> st = CDisconnected then [UStatus False False]
      else [])"

definition sl_read_track :: "bytes \<Rightarrow> (str \<times> bytes) list" where
  "sl_read_track payload = (if payload \<noteq> [] then [(''peer'', payload)] else [])"

section \<open>No microphone is left open\<close>

fun opens :: "rig_fx list \<Rightarrow> int" where
  "opens [] = 0"
| "opens (OpenRig # fx) = opens fx + 1"
| "opens (StopRig # fx) = opens fx - 1"
| "opens (_ # fx) = opens fx"

lemma opens_append [simp]: "opens (a @ b) = opens a + opens b"
  by (induction a rule: opens.induct) auto

lemmas rig_defs = setup_audio_def guard_new_def guard_disarm_def guard_drop_def abort_def build_pc_def
  sl_fail_def sl_drop_def eh_drop_def

lemma setup_running: "setup_audio m dev i out = Inr r \<Longrightarrow> \<not> rg_stop r \<and> \<not> rg_transmit r"
  by (auto simp: setup_audio_def split: sum.splits)

lemma build_pc_opens:
  "build_pc v = (res, fx) \<Longrightarrow> (case res of Inl _ \<Rightarrow> opens fx = 0 | Inr r \<Rightarrow> opens fx = 1 \<and> \<not> rg_stop r)"
  by (auto simp: rig_defs Let_def split: sum.splits)

lemma client_start_opens:
  "client_start v cfg = (res, fx) \<Longrightarrow>
   (case res of Inl _ \<Rightarrow> opens fx = 0 | Inr (h, _) \<Rightarrow> opens fx = 1 \<and> \<not> rg_stop (eh_rig h))"
  by (auto simp: client_start_def rig_defs Let_def split: sum.splits)

lemma create_offer_opens:
  assumes "create_offer v me = (res, fx)"
  shows "case res of Inl _ \<Rightarrow> opens fx = 0 | Inr (s, _) \<Rightarrow> opens fx = 1 \<and> \<not> rg_stop (sl_rig s)"
proof -
  obtain r0 fx0 where b: "build_pc v = (r0, fx0)" by (cases "build_pc v")
  from build_pc_opens [OF b] assms show ?thesis
    by (auto simp: create_offer_def b sl_fail_def sl_drop_def Let_def split: sum.splits option.splits)
qed

lemma accept_offer_opens:
  assumes "accept_offer v code me = (res, fx)"
  shows "case res of Inl _ \<Rightarrow> opens fx = 0 | Inr (s, _) \<Rightarrow> opens fx = 1 \<and> \<not> rg_stop (sl_rig s)"
proof -
  obtain r0 fx0 where b: "build_pc v = (r0, fx0)" by (cases "build_pc v")
  from build_pc_opens [OF b] assms show ?thesis
    by (auto simp: accept_offer_def b sl_fail_def sl_drop_def Let_def split: sum.splits option.splits)
qed

text \<open>No open microphone is left behind: starting the engine, and either side of a serverless
  session, takes the audio rig down again on every failing step, and on success leaves exactly one
  running, whose handle stops it when dropped; a mistyped code opens none at all.\<close>

theorem rig_released:
  "(case client_start v cfg of
      (Inl _, fx) \<Rightarrow> opens fx = 0
    | (Inr (h, _), fx) \<Rightarrow> opens fx = 1 \<and> \<not> rg_stop (eh_rig h) \<and> opens (fx @ snd (eh_drop h)) = 0 \<and> rg_stop (fst (eh_drop h)))
   \<and> (\<forall>res \<in> {create_offer sv me, accept_offer sv code me}. case res of
        (Inl _, fx) \<Rightarrow> opens fx = 0
      | (Inr (s, _), fx) \<Rightarrow> opens fx = 1 \<and> \<not> rg_stop (sl_rig s) \<and> opens (fx @ snd (sl_drop s)) = 0 \<and> rg_stop (fst (sl_drop s)))
   \<and> (\<forall>e. decode_code sv code = Inl e \<longrightarrow> accept_offer sv code me = (Inl e, []))"
  using client_start_opens [of v cfg] create_offer_opens [of sv me] accept_offer_opens [of sv code me]
  by (auto simp: eh_drop_def sl_drop_def accept_offer_def [of sv code me] split: prod.splits sum.splits)

definition demo_sl :: sl_env where
  "demo_sl =
     \<lparr>sl_fpu = exact_fpu, sl_devices = (\<lambda>_ _. Inr ()), sl_api = Inr (), sl_new_pc = Inr (),
      sl_add_track = Inr (), sl_create_dc = Inr (), sl_create_offer = Inr (), sl_create_answer = Inr (),
      sl_set_local = Inl ''no ports'', sl_set_remote = (\<lambda>_. Inr ()), sl_local_sdp = Some ''sdp'',
      sl_parse_offer = Inr, sl_parse_answer = Inr,
      sl_b64dec = (\<lambda>c. if c = ''?'' then None else Some c), sl_b64enc = id, sl_utf8 = (\<lambda>_. True)\<rparr>"

text \<open>A mistyped code opens nothing; a failing step after the rig is up takes it down again.\<close>

theorem rig_released_witness:
  "accept_offer demo_sl ''?'' ''Ann'' = (Inl NOT_B64, []) \<and> opens (snd (create_offer demo_sl ''Ann'')) = 0
   \<and> create_offer demo_sl ''Ann'' = (Inl ''no ports'', [OpenRig, OpenPc, StopRig, ClosePc])"
proof -
  have d: "decode_code demo_sl ''?'' = Inl NOT_B64"
    by (simp add: decode_code_def demo_sl_def) code_simp
  note r = rig_released [of undefined undefined demo_sl "''Ann''" "''?''"]
  have c: "create_offer demo_sl ''Ann'' = (Inl ''no ports'', [OpenRig, OpenPc, StopRig, ClosePc])"
    by (simp add: create_offer_def rig_defs demo_sl_def)
  moreover have "accept_offer demo_sl ''?'' ''Ann'' = (Inl NOT_B64, [])" using r d by blast
  moreover have "opens (snd (create_offer demo_sl ''Ann'')) = 0" using r c by simp
  ultimately show ?thesis by blast
qed

text \<open>Wrapped pastes: whitespace anywhere in a code makes no difference.\<close>

lemma decode_code_ws:
  "filter (\<lambda>c. \<not> is_ws c) (chars a) = filter (\<lambda>c. \<not> is_ws c) (chars b) \<Longrightarrow> decode_code v a = decode_code v b"
  by (simp add: decode_code_def)

end
