(* ===== verification/Ptt.thy ===== *)
theory Ptt
  imports Prelude
begin

text \<open>
  Global push-to-talk input of the desktop app (\<open>apps/companion/src-tauri/src/lib.rs\<close>): the merge of
  the transmit sources, key chords, the handler of every raw key, mouse and pad edge with its
  capture modes, and the edges that keys, mouse buttons and pad reports stand for.

  The statics of the module are one record; what is emitted to the webview is a list of events in
  order.  Windows itself (packets, HID descriptors) is input.
\<close>

section \<open>Merging the transmit sources\<close>

record ptt_sources =
  ps_key :: bool
  ps_ctl :: bool
  ps_emitted :: bool

definition ptt_update :: "bool option \<Rightarrow> bool option \<Rightarrow> ptt_sources \<Rightarrow> bool option \<times> ptt_sources" where
  "ptt_update key ctl s0 =
     (let s1 = (case key of Some k \<Rightarrow> s0\<lparr>ps_key := k\<rparr> | None \<Rightarrow> s0);
          s = (case ctl of Some c \<Rightarrow> s1\<lparr>ps_ctl := c\<rparr> | None \<Rightarrow> s1);
          combined = (ps_key s \<or> ps_ctl s)
      in if combined = ps_emitted s then (None, s) else (Some combined, s\<lparr>ps_emitted := combined\<rparr>))"

section \<open>Modifier chords\<close>

record mods =
  md_shift :: bool
  md_ctrl :: bool
  md_alt :: bool
  md_meta :: bool

definition no_mods :: mods where
  "no_mods = \<lparr>md_shift = False, md_ctrl = False, md_alt = False, md_meta = False\<rparr>"

definition mod_of_label :: "str \<Rightarrow> str option" where
  "mod_of_label code =
     (if code = ''ShiftLeft'' \<or> code = ''ShiftRight'' then Some ''Shift''
      else if code = ''ControlLeft'' \<or> code = ''ControlRight'' then Some ''Ctrl''
      else if code = ''Alt'' \<or> code = ''AltGr'' then Some ''Alt''
      else if code = ''MetaLeft'' \<or> code = ''MetaRight'' then Some ''Meta''
      else None)"

definition mods_ok :: "mods \<Rightarrow> mods \<Rightarrow> bool" where
  "mods_ok req held \<longleftrightarrow>
     (\<not> md_shift req \<or> md_shift held) \<and> (\<not> md_ctrl req \<or> md_ctrl held)
     \<and> (\<not> md_alt req \<or> md_alt held) \<and> (\<not> md_meta req \<or> md_meta held)"

text \<open>The loop of \<open>parse_binding\<close>: it ends because every round takes a prefix off.\<close>

function parse_mods :: "mods \<Rightarrow> str \<Rightarrow> mods \<times> str" where
  "parse_mods m rest =
     (case split_once ''+'' rest of
        None \<Rightarrow> (m, rest)
      | Some (tok, r) \<Rightarrow>
          if tok = ''Shift'' then parse_mods (m\<lparr>md_shift := True\<rparr>) r
          else if tok = ''Ctrl'' then parse_mods (m\<lparr>md_ctrl := True\<rparr>) r
          else if tok = ''Alt'' then parse_mods (m\<lparr>md_alt := True\<rparr>) r
          else if tok = ''Meta'' then parse_mods (m\<lparr>md_meta := True\<rparr>) r
          else (m, rest))"
  by pat_completeness auto
termination
  by (relation "measure (length \<circ> snd)") (auto dest: split_once_append)

declare parse_mods.simps [simp del]

definition parse_binding :: "str \<Rightarrow> mods \<times> str" where
  "parse_binding s = parse_mods no_mods s"

definition build_combo :: "str \<Rightarrow> mods \<Rightarrow> str" where
  "build_combo base m =
     (if md_ctrl m then ''Ctrl+'' else []) @ (if md_alt m then ''Alt+'' else [])
     @ (if md_shift m then ''Shift+'' else []) @ (if md_meta m then ''Meta+'' else []) @ base"

section \<open>The input state\<close>

text \<open>A pair of slots is a list of length two; a capture slot of \<open>-1\<close> is \<open>None\<close>.\<close>

record input_state =
  in_ptt :: "str option list"
  in_ptt_capture :: "nat option"
  in_ptt_down :: "bool list"
  in_sources :: ptt_sources
  in_chan :: "str option list"
  in_chan_capture :: "nat option"
  in_chan_down :: "bool list"
  in_chan_any :: bool
  in_mods :: mods

datatype input_event =
    EvPtt bool
  | EvPttBound nat str
  | EvChanBound nat str
  | EvChanCycle int

definition input_init :: input_state where
  "input_init =
     \<lparr>in_ptt = [Some ''F8'', None], in_ptt_capture = None, in_ptt_down = [False, False],
      in_sources = \<lparr>ps_key = False, ps_ctl = False, ps_emitted = False\<rparr>,
      in_chan = [None, None], in_chan_capture = None, in_chan_down = [False, False],
      in_chan_any = False, in_mods = no_mods\<rparr>"

definition publish_ptt :: "bool option \<Rightarrow> bool option \<Rightarrow> input_state \<Rightarrow> input_state \<times> input_event list" where
  "publish_ptt key ctl s =
     (case ptt_update key ctl (in_sources s) of
        (r, src) \<Rightarrow> (s\<lparr>in_sources := src\<rparr>, case r of Some b \<Rightarrow> [EvPtt b] | None \<Rightarrow> []))"

definition refresh_chan_bound :: "input_state \<Rightarrow> input_state" where
  "refresh_chan_bound s = s\<lparr>in_chan_any := list_ex (\<lambda>b. b \<noteq> None) (in_chan s)\<rparr>"

section \<open>The binding commands\<close>

definition binding_code :: "str option \<Rightarrow> str option" where
  "binding_code code = (case code of Some c \<Rightarrow> if c \<noteq> [] \<and> length c \<le> 64 then Some c else None | None \<Rightarrow> None)"

definition set_ptt_binding :: "nat \<Rightarrow> str option \<Rightarrow> input_state \<Rightarrow> input_state" where
  "set_ptt_binding slot code s =
     (if 2 \<le> slot then s
      else s\<lparr>in_ptt_down := (in_ptt_down s)[slot := False], in_ptt := (in_ptt s)[slot := binding_code code]\<rparr>)"

definition start_ptt_capture :: "nat \<Rightarrow> input_state \<Rightarrow> input_state" where
  "start_ptt_capture slot s = (if slot < 2 then s\<lparr>in_ptt_capture := Some slot\<rparr> else s)"

definition set_chan_binding :: "nat \<Rightarrow> str option \<Rightarrow> input_state \<Rightarrow> input_state" where
  "set_chan_binding slot code s =
     (if 2 \<le> slot then s
      else refresh_chan_bound
        (s\<lparr>in_chan_down := (in_chan_down s)[slot := False], in_chan := (in_chan s)[slot := binding_code code]\<rparr>))"

definition start_chan_capture :: "nat \<Rightarrow> input_state \<Rightarrow> input_state" where
  "start_chan_capture slot s = (if slot < 2 then s\<lparr>in_chan_capture := Some slot\<rparr> else s)"

section \<open>One raw edge\<close>

definition track_mod :: "str \<Rightarrow> bool \<Rightarrow> mods \<Rightarrow> mods" where
  "track_mod code down m =
     (case mod_of_label code of
        None \<Rightarrow> m
      | Some g \<Rightarrow>
          if g = ''Shift'' then m\<lparr>md_shift := down\<rparr>
          else if g = ''Ctrl'' then m\<lparr>md_ctrl := down\<rparr>
          else if g = ''Alt'' then m\<lparr>md_alt := down\<rparr>
          else if g = ''Meta'' then m\<lparr>md_meta := down\<rparr>
          else m)"

definition base_of :: "str option \<Rightarrow> str option" where
  "base_of b = map_option (snd \<circ> parse_binding) b"

definition mark_down :: "str \<Rightarrow> bool \<Rightarrow> str option list \<Rightarrow> bool list \<Rightarrow> bool list" where
  "mark_down code down bs ds = map2 (\<lambda>b d. if base_of b = Some code then down else d) bs ds"

definition slot_active :: "mods \<Rightarrow> str option \<Rightarrow> bool \<Rightarrow> bool" where
  "slot_active held b d = (case b of Some bind \<Rightarrow> d \<and> mods_ok (fst (parse_binding bind)) held | None \<Rightarrow> False)"

definition combined_ptt :: "mods \<Rightarrow> str option list \<Rightarrow> bool list \<Rightarrow> bool" where
  "combined_ptt held bs ds = list_ex (\<lambda>(b, d). slot_active held b d) (zip bs ds)"

text \<open>The events of the channel loop, slot by slot, from the \<open>down\<close> flags before the edge.\<close>

definition cycle_events :: "str \<Rightarrow> bool \<Rightarrow> mods \<Rightarrow> str option list \<Rightarrow> bool list \<Rightarrow> input_event list" where
  "cycle_events code down held bs ds =
     concat (map2 (\<lambda>i (b, was). case b of
         Some bind \<Rightarrow>
           if snd (parse_binding bind) = code \<and> down \<and> \<not> was \<and> mods_ok (fst (parse_binding bind)) held
           then [EvChanCycle (if i = 0 then - 1 else 1)] else []
       | None \<Rightarrow> []) [0..<2] (zip bs ds))"

definition handle_raw :: "str \<Rightarrow> bool \<Rightarrow> input_state \<Rightarrow> input_state \<times> input_event list" where
  "handle_raw code down s0 =
     (let s = s0\<lparr>in_mods := track_mod code down (in_mods s0)\<rparr>;
          is_mod = (mod_of_label code \<noteq> None);
          held = in_mods s
      in case in_ptt_capture s of
           Some cap \<Rightarrow>
             if down \<and> \<not> is_mod then
               let slot = min cap 1; combo = build_combo code held
               in (s\<lparr>in_ptt_capture := None, in_ptt_down := (in_ptt_down s)[slot := False],
                     in_ptt := (in_ptt s)[slot := Some combo]\<rparr>, [EvPttBound slot combo])
             else (s, [])
         | None \<Rightarrow>
        (case in_chan_capture s of
           Some cap \<Rightarrow>
             if down \<and> \<not> is_mod then
               let slot = min cap 1; combo = build_combo code held
               in (refresh_chan_bound
                     (s\<lparr>in_chan_capture := None, in_chan_down := (in_chan_down s)[slot := False],
                        in_chan := (in_chan s)[slot := Some combo]\<rparr>), [EvChanBound slot combo])
             else (s, [])
         | None \<Rightarrow>
             let ds = mark_down code down (in_ptt s) (in_ptt_down s);
                 (s1, e1) = publish_ptt (Some (combined_ptt held (in_ptt s) ds)) None (s\<lparr>in_ptt_down := ds\<rparr>)
             in if in_chan_any s1
                then (s1\<lparr>in_chan_down := mark_down code down (in_chan s1) (in_chan_down s1)\<rparr>,
                      e1 @ cycle_events code down held (in_chan s1) (in_chan_down s1))
                else (s1, e1)))"

fun handle_all :: "(str \<times> bool) list \<Rightarrow> input_state \<Rightarrow> input_state \<times> input_event list" where
  "handle_all [] s = (s, [])"
| "handle_all ((c, d) # es) s =
     (let (s1, e1) = handle_raw c d s; (s2, e2) = handle_all es s1 in (s2, e1 @ e2))"

section \<open>Edges of the devices\<close>

definition vk_fixed :: "(nat \<times> str) list" where
  "vk_fixed =
     [(0x08, ''Backspace''), (0x09, ''Tab''), (0x0D, ''Return''), (0x13, ''Pause''), (0x14, ''CapsLock''),
      (0x1B, ''Escape''), (0x20, ''Space''), (0x21, ''PageUp''), (0x22, ''PageDown''), (0x23, ''End''),
      (0x24, ''Home''), (0x25, ''LeftArrow''), (0x26, ''UpArrow''), (0x27, ''RightArrow''),
      (0x28, ''DownArrow''), (0x2D, ''Insert''), (0x2E, ''Delete''), (0x10, ''ShiftLeft''),
      (0x11, ''ControlLeft''), (0x12, ''Alt''), (0xA0, ''ShiftLeft''), (0xA1, ''ShiftRight''),
      (0xA2, ''ControlLeft''), (0xA3, ''ControlRight''), (0xA4, ''Alt''), (0xA5, ''AltGr''),
      (0x5B, ''MetaLeft''), (0x5C, ''MetaRight''), (0x90, ''NumLock''), (0x91, ''ScrollLock''),
      (0x6A, ''KpMultiply''), (0x6B, ''KpPlus''), (0x6D, ''KpMinus''), (0x6E, ''KpDelete''),
      (0x6F, ''KpDivide''), (0xBA, ''SemiColon''), (0xBB, ''Equal''), (0xBC, ''Comma''), (0xBD, ''Minus''),
      (0xBE, ''Dot''), (0xBF, ''Slash''), (0xC0, ''BackQuote''), (0xDB, ''LeftBracket''),
      (0xDC, ''BackSlash''), (0xDD, ''RightBracket''), (0xDE, ''Quote'')]"

definition vk_label :: "16 word \<Rightarrow> str option" where
  "vk_label vk =
     (let n = unat vk
      in case map_of vk_fixed n of
           Some s \<Rightarrow> Some s
         | None \<Rightarrow>
             if 0x30 \<le> n \<and> n \<le> 0x39 then Some (''Num'' @ show_nat (n - 0x30))
             else if 0x41 \<le> n \<and> n \<le> 0x5A then Some (''Key'' @ [char_of (n - 0x41 + 65)])
             else if 0x60 \<le> n \<and> n \<le> 0x69 then Some (''Kp'' @ show_nat (n - 0x60))
             else if 0x70 \<le> n \<and> n \<le> 0x87 then Some (''F'' @ show_nat (n - 0x70 + 1))
             else Some (''Vk'' @ show_nat n))"

definition MOUSE_BTN :: "(16 word \<times> str \<times> bool) list" where
  "MOUSE_BTN =
     [(0x0001, ''Mouse:Left'', True), (0x0002, ''Mouse:Left'', False),
      (0x0004, ''Mouse:Right'', True), (0x0008, ''Mouse:Right'', False),
      (0x0010, ''Mouse:Middle'', True), (0x0020, ''Mouse:Middle'', False),
      (0x0040, ''Mouse:Unknown(1)'', True), (0x0080, ''Mouse:Unknown(1)'', False),
      (0x0100, ''Mouse:Unknown(2)'', True), (0x0200, ''Mouse:Unknown(2)'', False)]"

definition RI_KEY_BREAK :: "16 word" where "RI_KEY_BREAK = 1"
definition RI_MOUSE_WHEEL :: "16 word" where "RI_MOUSE_WHEEL = 0x0400"
definition RI_MOUSE_HWHEEL :: "16 word" where "RI_MOUSE_HWHEEL = 0x0800"

type_synonym edge = "str \<times> bool"

definition key_edges :: "16 word \<Rightarrow> 16 word \<Rightarrow> edge list" where
  "key_edges vk flags =
     (if vk = 0 \<or> vk = 0xFF then []
      else (case vk_label vk of Some code \<Rightarrow> [(code, flags AND RI_KEY_BREAK = 0)] | None \<Rightarrow> []))"

definition mouse_edges :: "16 word \<Rightarrow> 16 word \<Rightarrow> edge list" where
  "mouse_edges flags data =
     map (\<lambda>(_, code, down). (code, down)) (filter (\<lambda>(mask, _, _). flags AND mask \<noteq> 0) MOUSE_BTN)
     @ (if flags AND (RI_MOUSE_WHEEL OR RI_MOUSE_HWHEEL) \<noteq> 0 then
          let delta = sint data;
              code = (if flags AND RI_MOUSE_WHEEL \<noteq> 0
                      then (if 0 < delta then ''Mouse:WheelUp'' else ''Mouse:WheelDown'')
                      else if 0 < delta then ''Mouse:WheelRight'' else ''Mouse:WheelLeft'')
          in [(code, True), (code, False)]
        else [])"

definition pad_code :: "16 word \<Rightarrow> str" where
  "pad_code u = ''Pad:'' @ show_nat (unat u)"

text \<open>The pressed usages of each pad, as last seen.\<close>

type_synonym pressed_cache = "(nat \<times> 16 word list) list"

definition diff_buttons :: "nat \<Rightarrow> 16 word list \<Rightarrow> pressed_cache \<Rightarrow> edge list \<times> pressed_cache" where
  "diff_buttons key now cache =
     (let prev = (case map_of cache key of Some p \<Rightarrow> p | None \<Rightarrow> [])
      in (map (\<lambda>u. (pad_code u, True)) (filter (\<lambda>u. u \<notin> set prev) now)
          @ map (\<lambda>u. (pad_code u, False)) (filter (\<lambda>u. u \<notin> set now) prev),
          AList.update key now cache))"

fun hid_edges :: "nat \<Rightarrow> 16 word list list \<Rightarrow> pressed_cache \<Rightarrow> edge list \<times> pressed_cache" where
  "hid_edges key [] cache = ([], cache)"
| "hid_edges key (now # rs) cache =
     (let (e1, c1) = diff_buttons key now cache; (e2, c2) = hid_edges key rs c1 in (e1 @ e2, c2))"

end
