(* ===== verification/Ptt_Props.thy ===== *)
theory Ptt_Props
  imports Ptt
begin

text \<open>
  What the push-to-talk input guarantees: chords survive their textual form, the transmit edges
  the webview sees are the merge of all sources, the decision depends only on the last edge of
  each bound key, and the edges of a pad replay to its reports.
\<close>

section \<open>Chords as text\<close>

lemma split_once_plus: "CHR ''+'' \<notin> set a \<Longrightarrow> split_once ''+'' (a @ CHR ''+'' # b) = Some (a, b)"
  by (induction a) auto

lemma split_once_plus_None: "CHR ''+'' \<notin> set s \<Longrightarrow> split_once ''+'' s = None"
  by (induction s) auto

lemma parse_mods_group:
  "parse_mods m (''Shift+'' @ r) = parse_mods (m\<lparr>md_shift := True\<rparr>) r"
  "parse_mods m (''Ctrl+'' @ r) = parse_mods (m\<lparr>md_ctrl := True\<rparr>) r"
  "parse_mods m (''Alt+'' @ r) = parse_mods (m\<lparr>md_alt := True\<rparr>) r"
  "parse_mods m (''Meta+'' @ r) = parse_mods (m\<lparr>md_meta := True\<rparr>) r"
  using split_once_plus [of "''Shift''" r] split_once_plus [of "''Ctrl''" r]
    split_once_plus [of "''Alt''" r] split_once_plus [of "''Meta''" r]
  by (simp_all add: parse_mods.simps)

lemma parse_mods_base: "CHR ''+'' \<notin> set base \<Longrightarrow> parse_mods m base = (m, base)"
  by (simp add: parse_mods.simps split_once_plus_None)

lemma parse_build: "CHR ''+'' \<notin> set base \<Longrightarrow> parse_binding (build_combo base m) = (m, base)"
  by (cases m; cases "md_shift m"; cases "md_ctrl m"; cases "md_alt m"; cases "md_meta m")
    (simp_all only: build_combo_def parse_binding_def if_True if_False append_Nil append_assoc
      mods.select_convs no_mods_def parse_mods_group parse_mods_base mods.update_convs simp_thms)

lemma show_nat_no_plus: "CHR ''+'' \<notin> set (show_nat n)"
proof (induction n rule: show_nat.induct)
  case (1 n)
  have d: "CHR ''+'' \<noteq> digit_c k" for k
  proof
    assume "CHR ''+'' = digit_c k"
    then have "byte (digit_c k) = byte (CHR ''+'')" by simp
    then show False by (simp add: digit_c_def)
  qed
  show ?case using 1 d by (simp add: show_nat.simps [of n])
qed

lemma vk_fixed_no_plus: "map_of vk_fixed n = Some s \<Longrightarrow> CHR ''+'' \<notin> set s"
proof -
  have "list_all (\<lambda>(_, s). CHR ''+'' \<notin> set s) vk_fixed" by code_simp
  then show "map_of vk_fixed n = Some s \<Longrightarrow> CHR ''+'' \<notin> set s"
    by (auto simp: list_all_iff dest!: map_of_SomeD)
qed

lemma vk_label_no_plus: "vk_label vk = Some s \<Longrightarrow> CHR ''+'' \<notin> set s"
proof -
  have letter: "CHR ''+'' \<noteq> char_of n" if "65 \<le> n" "n \<le> 90" for n :: nat
  proof
    assume "CHR ''+'' = char_of n"
    then have "byte (char_of n) = byte (CHR ''+'')" by simp
    with that show False by simp
  qed
  show "vk_label vk = Some s \<Longrightarrow> CHR ''+'' \<notin> set s"
    using show_nat_no_plus letter
    by (auto simp: vk_label_def Let_def dest: vk_fixed_no_plus split: option.splits if_splits)
qed

lemma mouse_no_plus: "(c, d) \<in> set (mouse_edges fl dt) \<Longrightarrow> CHR ''+'' \<notin> set c"
proof -
  have "list_all (\<lambda>(_, c, _). CHR ''+'' \<notin> set c) MOUSE_BTN" by code_simp
  then show "(c, d) \<in> set (mouse_edges fl dt) \<Longrightarrow> CHR ''+'' \<notin> set c"
    unfolding mouse_edges_def Let_def list_all_iff
    by (simp only: set_append set_map Un_iff) (elim disjE, fastforce, auto split: if_splits)
qed

text \<open>Chords survive their textual form: for every code an input device can produce, the label
  captured with some modifiers held parses back to exactly these modifiers and that code.\<close>

theorem chord_roundtrip:
  assumes "(code, d) \<in> set (key_edges vk fl) \<union> set (mouse_edges fl dt) \<union> set (fst (diff_buttons dev now cache))"
  shows "parse_binding (build_combo code m) = (m, code)"
proof (rule parse_build)
  show "CHR ''+'' \<notin> set code"
    using assms show_nat_no_plus
    by (auto simp: key_edges_def diff_buttons_def pad_code_def Let_def
        dest: vk_label_no_plus [OF sym] mouse_no_plus split: if_splits option.splits)
qed

theorem chord_roundtrip_witness:
  "parse_binding (build_combo ''F8'' \<lparr>md_shift = True, md_ctrl = True, md_alt = False, md_meta = False\<rparr>)
     = (\<lparr>md_shift = True, md_ctrl = True, md_alt = False, md_meta = False\<rparr>, ''F8'')"
proof -
  have "(''F8'', True) \<in> set (key_edges 0x77 0) \<union> set (mouse_edges 0 0) \<union> set (fst (diff_buttons 0 [] []))"
    by code_simp
  from chord_roundtrip [OF this] show ?thesis by blast
qed

section \<open>Runs of the input module\<close>

text \<open>Everything that can reach it: raw edges, the control API's push-to-talk, the commands.\<close>

datatype input_op =
    OpEdge str bool
  | OpCtl bool
  | OpSetPtt nat "str option"
  | OpCapPtt nat
  | OpSetChan nat "str option"
  | OpCapChan nat

fun input_step :: "input_op \<Rightarrow> input_state \<Rightarrow> input_state \<times> input_event list" where
  "input_step (OpEdge c d) s = handle_raw c d s"
| "input_step (OpCtl on) s = publish_ptt None (Some on) s"
| "input_step (OpSetPtt i c) s = (set_ptt_binding i c s, [])"
| "input_step (OpCapPtt i) s = (start_ptt_capture i s, [])"
| "input_step (OpSetChan i c) s = (set_chan_binding i c s, [])"
| "input_step (OpCapChan i) s = (start_chan_capture i s, [])"

fun input_run :: "input_op list \<Rightarrow> input_state \<Rightarrow> input_state \<times> input_event list" where
  "input_run [] s = (s, [])"
| "input_run (x # xs) s = (let (s1, e1) = input_step x s; (s2, e2) = input_run xs s1 in (s2, e1 @ e2))"

text \<open>Every operation reaches the transmit state through at most one \<open>publish_ptt\<close>.\<close>

definition ptt_part :: "input_event list \<Rightarrow> bool list" where
  "ptt_part ev = List.map_filter (\<lambda>e. case e of EvPtt b \<Rightarrow> Some b | _ \<Rightarrow> None) ev"

lemma ptt_part_append [simp]: "ptt_part (a @ b) = ptt_part a @ ptt_part b"
  by (simp add: ptt_part_def List.map_filter_def)

lemma ptt_part_simps [simp]:
  "ptt_part [] = []" "ptt_part (EvPtt b # ev) = b # ptt_part ev"
  "ptt_part (EvPttBound i c # ev) = ptt_part ev" "ptt_part (EvChanBound i c # ev) = ptt_part ev"
  "ptt_part (EvChanCycle d # ev) = ptt_part ev"
  by (simp_all add: ptt_part_def List.map_filter_def)

lemma ptt_part_cycle [simp]: "ptt_part (cycle_events code down held bs ds) = []"
proof -
  have "ptt_part (concat xs) = concat (map ptt_part xs)" for xs
    by (induction xs) simp_all
  then show ?thesis
    by (auto simp: cycle_events_def concat_eq_Nil_conv split: option.splits if_splits)
qed

definition src_ok :: "input_state \<Rightarrow> bool" where
  "src_ok s \<longleftrightarrow> ps_emitted (in_sources s) = (ps_key (in_sources s) \<or> ps_ctl (in_sources s))"

definition flips :: "bool \<Rightarrow> bool list \<Rightarrow> bool \<Rightarrow> bool" where
  "flips a bs b \<longleftrightarrow> (bs = [] \<and> a = b) \<or> (bs = [b] \<and> a \<noteq> b)"

lemma update_flips:
  "ptt_update k c s = (r, s') \<Longrightarrow>
   flips (ps_emitted s) (case r of Some b \<Rightarrow> [b] | None \<Rightarrow> []) (ps_emitted s') \<and> ps_emitted s' = (ps_key s' \<or> ps_ctl s')
   \<and> ps_key s' = (case k of Some v \<Rightarrow> v | None \<Rightarrow> ps_key s) \<and> ps_ctl s' = (case c of Some v \<Rightarrow> v | None \<Rightarrow> ps_ctl s)"
  by (auto simp: ptt_update_def flips_def Let_def split: option.splits if_splits)

lemma publish_flips:
  "publish_ptt k c s = (s', ev) \<Longrightarrow>
   flips (ps_emitted (in_sources s)) (ptt_part ev) (ps_emitted (in_sources s')) \<and> src_ok s'"
  using update_flips [of k c "in_sources s"]
  by (auto simp: publish_ptt_def src_ok_def split: prod.splits option.splits)

lemma flips_refl [simp]: "flips a [] a" by (simp add: flips_def)

lemma step_flips:
  assumes "src_ok s" and "input_step x s = (s', ev)"
  shows "flips (ps_emitted (in_sources s)) (ptt_part ev) (ps_emitted (in_sources s')) \<and> src_ok s'"
proof (cases x)
  case (OpEdge c d)
  show ?thesis
  proof (cases "in_ptt_capture s = None \<and> in_chan_capture s = None")
    case True
    let ?s = "s\<lparr>in_mods := track_mod c d (in_mods s)\<rparr>"
    let ?ds = "mark_down c d (in_ptt s) (in_ptt_down s)"
    obtain s1 e1 where p: "publish_ptt (Some (combined_ptt (in_mods ?s) (in_ptt s) ?ds)) None (?s\<lparr>in_ptt_down := ?ds\<rparr>) = (s1, e1)"
      by (cases "publish_ptt (Some (combined_ptt (in_mods ?s) (in_ptt s) ?ds)) None (?s\<lparr>in_ptt_down := ?ds\<rparr>)")
    from publish_flips [OF p] assms(2) p True OpEdge show ?thesis
      by (auto simp: handle_raw_def Let_def src_ok_def split: if_splits)
  next
    case False
    then show ?thesis using assms OpEdge
      by (auto simp: handle_raw_def Let_def src_ok_def refresh_chan_bound_def split: if_splits option.splits)
  qed
next
  case (OpCtl on)
  with assms(2) publish_flips [of None "Some on" s] show ?thesis by simp
qed (use assms in \<open>auto simp: src_ok_def set_ptt_binding_def start_ptt_capture_def set_chan_binding_def
    refresh_chan_bound_def start_chan_capture_def split: if_splits\<close>)

text \<open>Alternating edges: each differs from the one before, the first from \<open>a\<close>.\<close>

fun alternating :: "bool \<Rightarrow> bool list \<Rightarrow> bool" where
  "alternating a [] \<longleftrightarrow> True"
| "alternating a (b # bs) \<longleftrightarrow> a \<noteq> b \<and> alternating b bs"

lemma flips_alternating:
  "flips a bs b \<Longrightarrow> alternating b cs \<Longrightarrow> List.last (b # cs) = e \<Longrightarrow> alternating a (bs @ cs) \<and> List.last (a # bs @ cs) = e"
  by (cases cs) (auto simp: flips_def)

text \<open>One transmit state: over any run of key edges, control commands, captures and rebindings the
  webview is told exactly the alternating edges of the merged state, starting with a press; after
  the run the last of them says whether a bound key or the control API asks to transmit.\<close>

theorem ptt_edges_merged:
  "let (s, ev) = input_run ops input_init in
     alternating False (ptt_part ev)
     \<and> List.last (False # ptt_part ev) = (ps_key (in_sources s) \<or> ps_ctl (in_sources s))"
proof -
  have "alternating (ps_emitted (in_sources s)) (ptt_part ev) \<and> src_ok s'
      \<and> List.last (ps_emitted (in_sources s) # ptt_part ev) = ps_emitted (in_sources s')"
    if "src_ok s" "input_run ops s = (s', ev)" for s s' ev
    using that
  proof (induction ops arbitrary: s s' ev)
    case (Cons x xs)
    obtain s1 e1 where a: "input_step x s = (s1, e1)" by (cases "input_step x s")
    obtain s2 e2 where b: "input_run xs s1 = (s2, e2)" by (cases "input_run xs s1")
    have r: "s' = s2" "ev = e1 @ e2" using Cons.prems(2) a b by simp_all
    from step_flips [OF Cons.prems(1) a]
    have f: "flips (ps_emitted (in_sources s)) (ptt_part e1) (ps_emitted (in_sources s1))" and ok: "src_ok s1" by simp_all
    from Cons.IH [OF ok b] have ih: "alternating (ps_emitted (in_sources s1)) (ptt_part e2)" "src_ok s2"
      "List.last (ps_emitted (in_sources s1) # ptt_part e2) = ps_emitted (in_sources s2)" by simp_all
    from flips_alternating [OF f ih(1,3)] ih(2) r show ?case by simp
  qed simp
  moreover obtain s' ev where run: "input_run ops input_init = (s', ev)" by (cases "input_run ops input_init")
  moreover have "src_ok input_init" "ps_emitted (in_sources input_init) = False"
    by (simp_all add: src_ok_def input_init_def)
  ultimately have "alternating False (ptt_part ev)" "src_ok s'"
    "List.last (False # ptt_part ev) = ps_emitted (in_sources s')" by metis+
  with run show ?thesis by (simp add: src_ok_def)
qed

section \<open>The decision depends on the last edges only\<close>

definition last_edge :: "str \<Rightarrow> edge list \<Rightarrow> bool" where
  "last_edge code es = (case rev (filter (\<lambda>(c, _). c = code) es) of [] \<Rightarrow> False | (_, d) # _ \<Rightarrow> d)"

definition mods_after :: "edge list \<Rightarrow> mods \<Rightarrow> mods" where
  "mods_after es m = fold (\<lambda>(c, d). track_mod c d) es m"

lemma last_edge_snoc: "last_edge code (es @ [(c, d)]) = (if c = code then d else last_edge code es)"
  by (simp add: last_edge_def)

definition downs :: "str option list \<Rightarrow> edge list \<Rightarrow> bool list" where
  "downs bs es = map (\<lambda>b. case base_of b of Some c \<Rightarrow> last_edge c es | None \<Rightarrow> False) bs"

lemma mark_down_downs: "mark_down c d bs (downs bs es) = downs bs (es @ [(c, d)])"
  by (induction bs) (auto simp: mark_down_def downs_def last_edge_snoc split: option.splits)

lemma handle_all_snoc:
  "handle_all (es @ [(c, d)]) s =
     (let (s1, e1) = handle_all es s; (s2, e2) = handle_raw c d s1 in (s2, e1 @ e2))"
  by (induction es arbitrary: s) (auto simp: Let_def split: prod.splits)

text \<open>The handler's state after any edges, from a fresh start with the bindings \<open>bs\<close>.\<close>

lemma edges_state:
  assumes "length bs = 2" and "handle_all es (input_init\<lparr>in_ptt := bs\<rparr>) = (s, ev)"
  shows "in_ptt s = bs \<and> in_ptt_capture s = None \<and> in_chan_capture s = None \<and> \<not> in_chan_any s
      \<and> in_mods s = mods_after es no_mods \<and> in_ptt_down s = downs bs es
      \<and> ps_key (in_sources s) = (es \<noteq> [] \<and> combined_ptt (mods_after es no_mods) bs (downs bs es))"
  using assms(2)
proof (induction es arbitrary: s ev rule: rev_induct)
  case Nil
  have "downs bs [] = [False, False]"
    using assms(1) by (auto simp: downs_def last_edge_def length_Suc_conv numeral_2_eq_2 split: option.splits)
  with Nil show ?case by (auto simp: input_init_def mods_after_def)
next
  case (snoc e es)
  obtain c d where e: "e = (c, d)" by (cases e)
  obtain s1 e1 where a: "handle_all es (input_init\<lparr>in_ptt := bs\<rparr>) = (s1, e1)" by (cases "handle_all es (input_init\<lparr>in_ptt := bs\<rparr>)")
  from snoc.prems a e obtain e2 where b: "handle_raw c d s1 = (s, e2)"
    by (auto simp: handle_all_snoc split: prod.splits)
  note ih = snoc.IH [OF a]
  let ?m = "track_mod c d (in_mods s1)" and ?ds = "mark_down c d bs (in_ptt_down s1)"
  obtain r src where u: "ptt_update (Some (combined_ptt ?m bs ?ds)) None (in_sources s1) = (r, src)"
    by (cases "ptt_update (Some (combined_ptt ?m bs ?ds)) None (in_sources s1)")
  have key: "ps_key src = combined_ptt ?m bs ?ds" using update_flips [OF u] by simp
  have "s = s1\<lparr>in_mods := ?m, in_ptt_down := ?ds, in_sources := src\<rparr>"
    using b ih u by (auto simp: handle_raw_def publish_ptt_def Let_def)
  then show ?case using ih key e by (auto simp: mods_after_def mark_down_downs)
qed

lemma combined_downs:
  "combined_ptt m bs (downs bs es) \<longleftrightarrow>
     (\<exists>bind. Some bind \<in> set bs \<and> last_edge (snd (parse_binding bind)) es \<and> mods_ok (fst (parse_binding bind)) m)"
proof -
  have "combined_ptt m bs (downs bs es) \<longleftrightarrow> (\<exists>b \<in> set bs. slot_active m b (case base_of b of Some c \<Rightarrow> last_edge c es | None \<Rightarrow> False))"
    by (induction bs) (auto simp: combined_ptt_def downs_def)
  also have "\<dots> \<longleftrightarrow> (\<exists>bind. Some bind \<in> set bs \<and> last_edge (snd (parse_binding bind)) es \<and> mods_ok (fst (parse_binding bind)) m)"
    by (fastforce simp: slot_active_def base_of_def split: option.splits)
  finally show ?thesis .
qed

text \<open>Claim C19. Transmit is decided by the keys alone: from a fresh start with any two push-to-talk bindings
  and no capture, after any sequence of edges the key source is on exactly when the last edge of some
  bound chord's key was a press and its modifiers, as last tracked, are held; repeats and edges of
  other keys make no difference.\<close>

theorem transmit_by_last_edges:
  assumes "length bs = 2" and "handle_all es (input_init\<lparr>in_ptt := bs\<rparr>) = (s, ev)" and "es \<noteq> []"
  shows "ps_key (in_sources s) \<longleftrightarrow>
    (\<exists>bind. Some bind \<in> set bs \<and> last_edge (snd (parse_binding bind)) es
       \<and> mods_ok (fst (parse_binding bind)) (mods_after es no_mods))"
  using edges_state [OF assms(1,2)] assms(3) by (simp add: combined_downs)

theorem transmit_by_last_edges_witness:
  "ps_key (in_sources (fst (handle_all [(''ShiftLeft'', True), (''KeyT'', True), (''KeyT'', True), (''KeyQ'', True)]
      (input_init\<lparr>in_ptt := [Some ''Shift+KeyT'', None]\<rparr>))))"
proof -
  let ?es = "[(''ShiftLeft'', True), (''KeyT'', True), (''KeyT'', True), (''KeyQ'', True)]"
  let ?bs = "[Some ''Shift+KeyT'', None]"
  have p: "parse_binding ''Shift+KeyT'' = (\<lparr>md_shift = True, md_ctrl = False, md_alt = False, md_meta = False\<rparr>, ''KeyT'')"
    using parse_build [of "''KeyT''" "\<lparr>md_shift = True, md_ctrl = False, md_alt = False, md_meta = False\<rparr>"]
    by (simp add: build_combo_def)
  have "mods_ok (fst (parse_binding ''Shift+KeyT'')) (mods_after ?es no_mods) \<and> last_edge (snd (parse_binding ''Shift+KeyT'')) ?es"
    unfolding p by code_simp
  moreover obtain s ev where r: "handle_all ?es (input_init\<lparr>in_ptt := ?bs\<rparr>) = (s, ev)"
    by (cases "handle_all ?es (input_init\<lparr>in_ptt := ?bs\<rparr>)")
  ultimately have "ps_key (in_sources s)"
    using transmit_by_last_edges [OF _ r] by auto
  with r show ?thesis by simp
qed

section \<open>Pads\<close>

lemma digit_c_inj: "digit_c a = digit_c b \<Longrightarrow> a < 10 \<Longrightarrow> b < 10 \<Longrightarrow> a = b"
proof -
  assume "digit_c a = digit_c b" "a < 10" "b < 10"
  then have "byte (digit_c a) = byte (digit_c b)" "a < 10" "b < 10" by simp_all
  then show ?thesis by (simp add: digit_c_def)
qed

lemma show_nat_ne [simp]: "show_nat n \<noteq> []" "[] \<noteq> show_nat n"
  by (simp_all add: show_nat.simps [of n])

lemma digit_c_mod [simp]: "digit_c (n mod 10) = digit_c n"
  by (simp add: digit_c_def)

lemma show_nat_inj: "show_nat m = show_nat n \<Longrightarrow> m = n"
proof (induction m arbitrary: n rule: show_nat.induct)
  case (1 m)
  have eq: "(if m < 10 then [digit_c m] else show_nat (m div 10) @ [digit_c m])
      = (if n < 10 then [digit_c n] else show_nat (n div 10) @ [digit_c n])"
    using 1(2) by (simp only: show_nat.simps [of m, symmetric] show_nat.simps [of n, symmetric])
  then have d: "digit_c (m mod 10) = digit_c (n mod 10)" by (auto split: if_splits)
  have md: "m mod 10 = n mod 10" by (rule digit_c_inj [OF d]) simp_all
  show ?case
  proof (cases "m < 10")
    case True
    with eq have "n < 10" by (auto split: if_splits)
    with True md show ?thesis by simp
  next
    case False
    with eq have "\<not> n < 10" "show_nat (m div 10) = show_nat (n div 10)" by (auto split: if_splits)
    with 1(1) [OF False] have "m div 10 = n div 10" by blast
    with md show ?thesis by (metis div_mult_mod_eq)
  qed
qed

lemma pad_code_inj: "inj pad_code"
  by (rule injI) (auto simp: pad_code_def word_unat_eq_iff dest!: show_nat_inj)

definition replay_edges :: "edge list \<Rightarrow> str set \<Rightarrow> str set" where
  "replay_edges es H = fold (\<lambda>(c, d) H. if d then insert c H else H - {c}) es H"

lemma replay_press: "replay_edges (map (\<lambda>u. (f u, True)) us) H = H \<union> f ` set us"
  by (induction us arbitrary: H) (auto simp: replay_edges_def)

lemma replay_release: "replay_edges (map (\<lambda>u. (f u, False)) us) H = H - f ` set us"
  by (induction us arbitrary: H) (auto simp: replay_edges_def)

lemma replay_append [simp]: "replay_edges (a @ b) H = replay_edges b (replay_edges a H)"
  by (simp add: replay_edges_def)

definition pressed :: "nat \<Rightarrow> pressed_cache \<Rightarrow> 16 word set" where
  "pressed key cache = (case map_of cache key of Some p \<Rightarrow> set p | None \<Rightarrow> {})"

lemma diff_replay:
  assumes "diff_buttons key now cache = (es, cache')"
  shows "replay_edges es (pad_code ` pressed key cache) = pad_code ` set now \<and> pressed key cache' = set now"
proof -
  let ?prev = "case map_of cache key of Some p \<Rightarrow> p | None \<Rightarrow> []"
  have p: "pressed key cache = set ?prev" by (simp add: pressed_def split: option.split)
  have "pad_code ` set ?prev \<union> pad_code ` set (filter (\<lambda>u. u \<notin> set ?prev) now) - pad_code ` set (filter (\<lambda>u. u \<notin> set now) ?prev)
      = pad_code ` ((set ?prev \<union> set now) - (set ?prev - set now))"
    by (auto simp: inj_image_mem_iff [OF pad_code_inj] dest: injD [OF pad_code_inj])
  also have "\<dots> = pad_code ` set now" by (rule arg_cong [of _ _ "image pad_code"]) auto
  finally show ?thesis using assms p
    by (auto simp: diff_buttons_def Let_def replay_press replay_release pressed_def)
qed

text \<open>Pads: the press and release edges made from any sequence of reports of a pad, replayed over the
  buttons held before, leave exactly the buttons of the last report held.\<close>

theorem pad_edges_exact:
  assumes "hid_edges dev reports cache = (es, cache')" and "reports \<noteq> []"
  shows "replay_edges es (pad_code ` pressed dev cache) = pad_code ` set (List.last reports)"
proof -
  have "replay_edges es (pad_code ` pressed dev cache) = pad_code ` pressed dev cache'
      \<and> (reports \<noteq> [] \<longrightarrow> pressed dev cache' = set (List.last reports))"
    if "hid_edges dev reports cache = (es, cache')" for reports cache es cache'
    using that
  proof (induction dev reports cache arbitrary: es cache' rule: hid_edges.induct)
    case (1 key cache)
    then show ?case by (simp add: replay_edges_def)
  next
    case (2 key now rs cache)
    obtain e1 c1 where a: "diff_buttons key now cache = (e1, c1)" by (cases "diff_buttons key now cache")
    obtain e2 c2 where b: "hid_edges key rs c1 = (e2, c2)" by (cases "hid_edges key rs c1")
    have r: "es = e1 @ e2" "cache' = c2" using 2(2) a b by simp_all
    have d: "replay_edges e1 (pad_code ` pressed key cache) = pad_code ` set now" "pressed key c1 = set now"
      using diff_replay [OF a] by simp_all
    from 2(1) [OF a [symmetric] refl b] d r b show ?case by (cases rs) auto
  qed
  from this [OF assms(1)] assms(2) show ?thesis by simp
qed

theorem pad_edges_exact_witness:
  "replay_edges (fst (hid_edges 7 [[1, 2], [2, 3]] [])) (pad_code ` pressed 7 []) = pad_code ` {2, 3}"
proof -
  obtain es c where r: "hid_edges 7 [[1, 2], [2, 3]] [] = (es, c)" by (cases "hid_edges 7 [[1, 2], [2, 3]] []")
  from pad_edges_exact [OF r] r show ?thesis by simp
qed

section \<open>An edge lost to a capture\<close>

text \<open>While a capture is armed every edge is consumed, so the release of a held push-to-talk key is lost:
  the microphone stays open until that key is pressed and released once more.\<close>

lemma capture_loses_release:
  "ps_emitted (in_sources (fst (input_run
     [OpEdge ''F8'' True, OpCapChan 0, OpEdge ''F8'' False, OpEdge ''KeyN'' True, OpEdge ''KeyN'' False] input_init)))"
  by code_simp

end
