(* ===== verification/Raw_Input.thy ===== *)
theory Raw_Input
  imports Ptt_Props
begin

text \<open>
  The raw-input thread of the desktop app (module \<open>raw_input\<close> of \<open>src-tauri/src/lib.rs\<close>): the window
  procedure's packets, from Windows' answers to the edges the handler gets.

  Windows' calls about pads are the record \<open>hid_api\<close>: each field is the outcome of one call, \<open>None\<close>
  for a status other than success.
\<close>

section \<open>Pad packets\<close>

record hid_api =
  ha_preparsed :: "nat \<Rightarrow> bytes option"                               \<comment> \<open>device\<close>
  ha_caps :: "bytes \<Rightarrow> nat option"                                    \<comment> \<open>number of button caps\<close>
  ha_button_pages :: "bytes \<Rightarrow> nat \<Rightarrow> 16 word list option"            \<comment> \<open>usage page of each\<close>
  ha_max_usages :: "bytes \<Rightarrow> 16 word \<Rightarrow> nat"
  ha_usages :: "bytes \<Rightarrow> 16 word \<Rightarrow> nat \<Rightarrow> bytes \<Rightarrow> 16 word list option" \<comment> \<open>pressed in one report\<close>

record hid_packet =
  hp_device :: nat
  hp_size :: nat
  hp_count :: nat
  hp_data :: bytes

record hid_caches =
  hc_preparsed :: "(nat \<times> bytes) list"
  hc_pressed :: pressed_cache

definition caches_new :: hid_caches where
  "caches_new = \<lparr>hc_preparsed = [], hc_pressed = []\<rparr>"

definition get_preparsed :: "hid_api \<Rightarrow> nat \<Rightarrow> (nat \<times> bytes) list \<Rightarrow> bytes \<times> (nat \<times> bytes) list" where
  "get_preparsed api dev cache =
     (case map_of cache dev of
        Some v \<Rightarrow> (v, cache)
      | None \<Rightarrow> (case ha_preparsed api dev of
                  None \<Rightarrow> ([], cache)
                | Some buf \<Rightarrow> if buf = [] then ([], cache) else (buf, AList.update dev buf cache)))"

text \<open>The usage page and the longest usage list, when every call before the reports succeeds.\<close>

definition button_page :: "hid_api \<Rightarrow> bytes \<Rightarrow> (16 word \<times> nat) option" where
  "button_page api pp =
     (if pp = [] then None
      else (case ha_caps api pp of None \<Rightarrow> None | Some n \<Rightarrow>
        if n = 0 then None
        else (case ha_button_pages api pp n of None \<Rightarrow> None | Some [] \<Rightarrow> None
              | Some (page # _) \<Rightarrow>
                  let maxn = ha_max_usages api pp page
                  in if maxn = 0 then None else Some (page, maxn))))"

text \<open>Report \<open>r\<close> of a packet; one that cannot be decoded is skipped.\<close>

definition report_at :: "hid_packet \<Rightarrow> nat \<Rightarrow> bytes" where
  "report_at p r = take (hp_size p) (drop (r * hp_size p) (hp_data p))"

definition pad_reports :: "hid_api \<Rightarrow> hid_packet \<Rightarrow> bytes \<Rightarrow> 16 word list list" where
  "pad_reports api p pp =
     (case button_page api pp of
        None \<Rightarrow> []
      | Some (page, maxn) \<Rightarrow>
          List.map_filter (\<lambda>r. map_option (take maxn) (ha_usages api pp page maxn (report_at p r))) [0..<hp_count p])"

definition process_hid :: "hid_api \<Rightarrow> hid_packet \<Rightarrow> hid_caches \<Rightarrow> edge list \<times> hid_caches" where
  "process_hid api p c =
     (if hp_size p = 0 \<or> hp_count p = 0 then ([], c)
      else (let (pp, cache) = get_preparsed api (hp_device p) (hc_preparsed c);
                (es, pressed) = hid_edges (hp_device p) (pad_reports api p pp) (hc_pressed c)
            in (es, \<lparr>hc_preparsed = cache, hc_pressed = pressed\<rparr>)))"

section \<open>Packets\<close>

text \<open>What \<open>GetRawInputData\<close> returns for a message: \<open>RawOther\<close> also when it fails or is too short.\<close>

datatype raw_packet =
    RawKey "16 word" "16 word"            \<comment> \<open>virtual key, flags\<close>
  | RawMouse "16 word" "16 word"          \<comment> \<open>button flags, button data\<close>
  | RawHid hid_packet
  | RawOther

fun packet_edges :: "hid_api \<Rightarrow> raw_packet \<Rightarrow> hid_caches \<Rightarrow> edge list \<times> hid_caches" where
  "packet_edges api (RawKey vk flags) c = (key_edges vk flags, c)"
| "packet_edges api (RawMouse flags data) c = (mouse_edges flags data, c)"
| "packet_edges api (RawHid p) c = process_hid api p c"
| "packet_edges api RawOther c = ([], c)"

definition process_input ::
  "hid_api \<Rightarrow> raw_packet \<Rightarrow> input_state \<times> hid_caches \<Rightarrow> (input_state \<times> hid_caches) \<times> input_event list" where
  "process_input api p sc =
     (let (es, c) = packet_edges api p (snd sc); (s, ev) = handle_all es (fst sc) in ((s, c), ev))"

text \<open>The thread's message loop over a list of packets.\<close>

fun message_loop ::
  "hid_api \<Rightarrow> raw_packet list \<Rightarrow> input_state \<times> hid_caches \<Rightarrow> (input_state \<times> hid_caches) \<times> input_event list" where
  "message_loop api [] sc = (sc, [])"
| "message_loop api (p # ps) sc =
     (let (sc1, e1) = process_input api p sc; (sc2, e2) = message_loop api ps sc1 in (sc2, e1 @ e2))"

section \<open>A run of packets is a run of edges\<close>

fun all_edges :: "hid_api \<Rightarrow> raw_packet list \<Rightarrow> hid_caches \<Rightarrow> edge list \<times> hid_caches" where
  "all_edges api [] c = ([], c)"
| "all_edges api (p # ps) c =
     (let (e1, c1) = packet_edges api p c; (e2, c2) = all_edges api ps c1 in (e1 @ e2, c2))"

lemma handle_all_append:
  "handle_all (a @ b) s = (let (s1, e1) = handle_all a s; (s2, e2) = handle_all b s1 in (s2, e1 @ e2))"
  by (induction a s rule: handle_all.induct) (auto simp: Let_def split: prod.splits)

lemma message_loop_edges:
  "all_edges api ps c = (es, c') \<Longrightarrow>
   message_loop api ps (s, c) = (case handle_all es s of (s', ev) \<Rightarrow> ((s', c'), ev))"
proof (induction ps arbitrary: c es s)
  case (Cons p ps)
  obtain e1 c1 where a: "packet_edges api p c = (e1, c1)" by (cases "packet_edges api p c")
  obtain e2 where b: "all_edges api ps c1 = (e2, c')" and es: "es = e1 @ e2"
    using Cons.prems a by (auto split: prod.splits)
  show ?case
    using Cons.IH [OF b] a by (simp add: process_input_def es handle_all_append Let_def split: prod.splits)
qed simp

section \<open>Pad buttons\<close>

text \<open>Codes of keys and mouse buttons are not codes of pad buttons.\<close>

lemma take_pad: "take 4 (pad_code u) = ''Pad:''"
  by (simp add: pad_code_def)

lemma vk_label_not_pad: "vk_label vk = Some s \<Longrightarrow> take 4 s \<noteq> ''Pad:''"
proof -
  have "list_all (\<lambda>(_, s). take 4 s \<noteq> ''Pad:'') vk_fixed" by code_simp
  then have "map_of vk_fixed n = Some s \<Longrightarrow> take 4 s \<noteq> ''Pad:''" for n
    by (auto simp: list_all_iff dest!: map_of_SomeD)
  then show "vk_label vk = Some s \<Longrightarrow> take 4 s \<noteq> ''Pad:''"
    by (auto simp: vk_label_def Let_def numeral_eq_Suc split: option.splits if_splits)
qed

lemma mouse_not_pad: "(c, d) \<in> set (mouse_edges fl dt) \<Longrightarrow> take 4 c \<noteq> ''Pad:''"
proof -
  have "list_all (\<lambda>(_, c, _). take 4 c \<noteq> ''Pad:'') MOUSE_BTN" by code_simp
  then show "(c, d) \<in> set (mouse_edges fl dt) \<Longrightarrow> take 4 c \<noteq> ''Pad:''"
    unfolding mouse_edges_def Let_def list_all_iff
    by (simp only: set_append set_map Un_iff) (elim disjE, fastforce, auto split: if_splits)
qed

definition foreign :: "edge list \<Rightarrow> bool" where
  "foreign es \<longleftrightarrow> (\<forall>(c, d) \<in> set es. take 4 c \<noteq> ''Pad:'')"

lemma foreign_edges: "foreign (key_edges vk fl)" "foreign (mouse_edges fl dt)"
  by (auto simp: foreign_def key_edges_def dest: vk_label_not_pad [OF sym] mouse_not_pad split: option.splits)

text \<open>The codes of pad buttons among the codes held.\<close>

definition pads :: "str set \<Rightarrow> str set" where
  "pads H = {c \<in> H. take 4 c = ''Pad:''}"

lemma replay_Cons: "replay_edges ((c, d) # es) H = replay_edges es (if d then insert c H else H - {c})"
  by (simp add: replay_edges_def)

lemma replay_Nil [simp]: "replay_edges [] H = H"
  by (simp add: replay_edges_def)

lemma pads_foreign: "foreign es \<Longrightarrow> pads (replay_edges es H) = pads H"
proof (induction es arbitrary: H)
  case (Cons e es)
  obtain c d where e: "e = (c, d)" by (cases e)
  with Cons.prems have "pads (if d then insert c H else H - {c}) = pads H" by (auto simp: foreign_def pads_def)
  with Cons e show ?case by (simp add: replay_Cons foreign_def)
qed simp

lemma pads_diff:
  assumes "diff_buttons dev now cache = (es, cache')" and "pads H = pad_code ` pressed dev cache"
  shows "pads (replay_edges es H) = pad_code ` pressed dev cache'"
proof -
  have "pads (replay_edges es H) = replay_edges es (pads H)" if "\<forall>(c, d) \<in> set es. take 4 c = ''Pad:''" for es H
    using that
  proof (induction es arbitrary: H)
    case (Cons e es)
    obtain c d where e: "e = (c, d)" by (cases e)
    with Cons.prems have "pads (if d then insert c H else H - {c}) = (if d then insert c (pads H) else pads H - {c})"
      by (auto simp: pads_def)
    with Cons e show ?case by (simp add: replay_Cons)
  qed simp
  moreover have "\<forall>(c, d) \<in> set es. take 4 c = ''Pad:''"
    using assms(1) take_pad by (auto simp: diff_buttons_def Let_def)
  ultimately show ?thesis using diff_replay [OF assms(1)] assms(2) by simp
qed

text \<open>The buttons held after some reports, given those held before.\<close>

definition held :: "16 word set \<Rightarrow> 16 word list list \<Rightarrow> 16 word set" where
  "held P rs = (if rs = [] then P else set (List.last rs))"

lemma held_append: "held P (a @ b) = held (held P a) b"
  by (simp add: held_def)

text \<open>The buttons the handler sees held, replayed from the edges, are those of the pad's last report.\<close>

lemma pads_hid:
  "hid_edges dev reports cache = (es, cache') \<Longrightarrow> pads H = pad_code ` pressed dev cache \<Longrightarrow>
   pads (replay_edges es H) = pad_code ` pressed dev cache' \<and> pressed dev cache' = held (pressed dev cache) reports"
proof (induction dev reports cache arbitrary: es cache' H rule: hid_edges.induct)
  case (1 key cache)
  then show ?case by (simp add: held_def)
next
  case (2 key now rs cache)
  obtain e1 c1 where a: "diff_buttons key now cache = (e1, c1)" by (cases "diff_buttons key now cache")
  obtain e2 where b: "hid_edges key rs c1 = (e2, cache')" and es: "es = e1 @ e2"
    using 2(2) a by (auto split: prod.splits)
  have "pressed key c1 = set now" using diff_replay [OF a] by simp
  with 2(1) [OF a [symmetric] HOL.refl b pads_diff [OF a 2(3)]] show ?case by (simp add: es held_def)
qed

section \<open>The descriptor cache\<close>

definition descriptor :: "hid_api \<Rightarrow> nat \<Rightarrow> bytes" where
  "descriptor api dev = (case ha_preparsed api dev of Some b \<Rightarrow> b | None \<Rightarrow> [])"

definition cache_ok :: "hid_api \<Rightarrow> (nat \<times> bytes) list \<Rightarrow> bool" where
  "cache_ok api cache \<longleftrightarrow> (\<forall>dev b. map_of cache dev = Some b \<longrightarrow> ha_preparsed api dev = Some b)"

lemma get_preparsed_ok:
  "cache_ok api cache \<Longrightarrow> get_preparsed api dev cache = (b, cache') \<Longrightarrow> b = descriptor api dev \<and> cache_ok api cache'"
  by (auto simp: get_preparsed_def cache_ok_def descriptor_def update_conv' split: option.splits if_splits)

section \<open>From packets to transmit\<close>

definition only_pad :: "nat \<Rightarrow> raw_packet \<Rightarrow> bool" where
  "only_pad dev p = (case p of RawHid h \<Rightarrow> hp_device h = dev | _ \<Rightarrow> True)"

text \<open>The reports of a packet that can be decoded, without any cache.\<close>

definition reports_of :: "hid_api \<Rightarrow> raw_packet \<Rightarrow> 16 word list list" where
  "reports_of api p =
     (case p of RawHid h \<Rightarrow> if hp_size h = 0 \<or> hp_count h = 0 then [] else pad_reports api h (descriptor api (hp_device h))
      | _ \<Rightarrow> [])"

definition in_step :: "hid_api \<Rightarrow> nat \<Rightarrow> str set \<Rightarrow> hid_caches \<Rightarrow> bool" where
  "in_step api dev H c \<longleftrightarrow> cache_ok api (hc_preparsed c) \<and> pads H = pad_code ` pressed dev (hc_pressed c)"

lemma packet_in_step:
  assumes "packet_edges api p c = (es, c')" and "only_pad dev p" and "in_step api dev H c"
  shows "in_step api dev (replay_edges es H) c'
    \<and> pressed dev (hc_pressed c') = held (pressed dev (hc_pressed c)) (reports_of api p)"
proof (cases p)
  case (RawHid h)
  show ?thesis
  proof (cases "hp_size h = 0 \<or> hp_count h = 0")
    case True
    with assms RawHid show ?thesis by (simp add: process_hid_def reports_of_def held_def)
  next
    case False
    obtain pp pc where g: "get_preparsed api dev (hc_preparsed c) = (pp, pc)" by (cases "get_preparsed api dev (hc_preparsed c)")
    with False assms(1,2) RawHid have e: "hid_edges dev (pad_reports api h pp) (hc_pressed c) = (es, hc_pressed c')" "hc_preparsed c' = pc"
      by (auto simp: only_pad_def process_hid_def Let_def split: prod.splits)
    from assms(3) have s: "cache_ok api (hc_preparsed c)" "pads H = pad_code ` pressed dev (hc_pressed c)"
      by (simp_all add: in_step_def)
    show ?thesis
      using get_preparsed_ok [OF s(1) g] pads_hid [OF e(1) s(2)] False RawHid assms(2) e(2)
      by (simp add: in_step_def reports_of_def only_pad_def)
  qed
qed (use assms foreign_edges in \<open>auto simp: pads_foreign in_step_def reports_of_def held_def\<close>)

lemma all_in_step:
  "all_edges api ps c = (es, c') \<Longrightarrow> list_all (only_pad dev) ps \<Longrightarrow> in_step api dev H c \<Longrightarrow>
   in_step api dev (replay_edges es H) c'
   \<and> pressed dev (hc_pressed c') = held (pressed dev (hc_pressed c)) (concat (map (reports_of api) ps))"
proof (induction ps arbitrary: c es H)
  case (Cons p ps)
  obtain e1 c1 where a: "packet_edges api p c = (e1, c1)" by (cases "packet_edges api p c")
  obtain e2 where b: "all_edges api ps c1 = (e2, c')" and es: "es = e1 @ e2"
    using Cons.prems a by (auto split: prod.splits)
  have p: "only_pad dev p" "list_all (only_pad dev) ps" using Cons.prems(2) by simp_all
  note x = packet_in_step [OF a p(1) Cons.prems(3)]
  from x Cons.IH [OF b p(2) conjunct1 [OF x]] show ?case by (simp add: es held_append)
qed (simp add: held_def)

lemma last_edge_replay: "last_edge c es \<longleftrightarrow> c \<in> replay_edges es {}"
  by (induction es rule: rev_induct) (auto simp: last_edge_snoc last_edge_def replay_Cons split: if_splits)


text \<open>A driver for two pads whose reports are the usages themselves, byte by byte; 0 cannot be decoded.\<close>

definition demo_hid :: hid_api where
  "demo_hid =
     \<lparr>ha_preparsed = (\<lambda>_. Some ''d''), ha_caps = (\<lambda>_. Some 1), ha_button_pages = (\<lambda>_ _. Some [9]), ha_max_usages = (\<lambda>_ _. 4),
      ha_usages = (\<lambda>_ _ _ r. if r = [CHR 0x00] then None else Some (map (\<lambda>c. of_nat (byte c)) (filter (\<lambda>c. c \<noteq> CHR 0xFF) r)))\<rparr>"

definition demo_report :: "nat \<Rightarrow> bytes \<Rightarrow> raw_packet" where
  "demo_report dev r = RawHid \<lparr>hp_device = dev, hp_size = 1, hp_count = 1, hp_data = r\<rparr>"


text \<open>
  Two pads share the codes of their buttons: while one holds the bound button, a press and release of
  the same button on the other ends the transmission.
\<close>

lemma two_pads_share_buttons:
  "\<not> ps_key (in_sources (fst (fst (message_loop demo_hid
     [demo_report 7 [CHR 0x03], demo_report 8 [CHR 0x03], demo_report 8 [CHR 0xFF]]
     (input_init\<lparr>in_ptt := [Some (pad_code 3), None]\<rparr>, caches_new)))))"
  by code_simp

end
