(* ===== verification/Ducking.thy ===== *)
theory Ducking
  imports Floats
begin

text \<open>
  Audio ducking of the desktop app (module \<open>ducking\<close> of \<open>apps/companion/src-tauri/src/lib.rs\<close>): the
  amount, the queue of edges to the one worker thread, and the worker applying an edge to the audio
  sessions Windows lists.  A session is its process, its volume, and whether reading it works.
\<close>

record session_vol =
  sv_pid :: nat
  sv_vol :: fl
  sv_readable :: bool

record duck_state =
  dk_percent :: nat
  dk_active :: bool
  dk_queue :: "bool list"            \<comment> \<open>edges the worker has not taken yet\<close>
  dk_saved :: "(nat \<times> fl) list"      \<comment> \<open>process, volume before ducking\<close>

definition duck_init :: duck_state where
  "duck_init = \<lparr>dk_percent = 75, dk_active = False, dk_queue = [], dk_saved = []\<rparr>"

definition duck_set :: "bool \<Rightarrow> duck_state \<Rightarrow> duck_state" where
  "duck_set active d = d\<lparr>dk_active := active, dk_queue := dk_queue d @ [active]\<rparr>"

definition set_amount :: "nat \<Rightarrow> duck_state \<Rightarrow> duck_state" where
  "set_amount percent d =
     (let d1 = d\<lparr>dk_percent := min percent 100\<rparr> in if dk_active d1 then duck_set True d1 else d1)"

definition duck_factor :: "fpu \<Rightarrow> duck_state \<Rightarrow> fl" where
  "duck_factor m d =
     f_sub (rnd32 m) (FFin 1) (f_div (rnd32 m) (i_to_f32 m (int (min (dk_percent d) 100))) (FFin 100))"

text \<open>The session loop of one edge; a volume that cannot be read ends it (\<open>False\<close>).\<close>

fun duck_sessions ::
  "fpu \<Rightarrow> nat \<Rightarrow> fl \<Rightarrow> bool \<Rightarrow> session_vol list \<Rightarrow> (nat \<times> fl) list \<Rightarrow> bool \<times> session_vol list \<times> (nat \<times> fl) list" where
  "duck_sessions m me fac active [] saved = (True, [], saved)"
| "duck_sessions m me fac active (s # ss) saved =
     (if sv_pid s = 0 \<or> sv_pid s = me then
        (case duck_sessions m me fac active ss saved of (ok, ss', sv) \<Rightarrow> (ok, s # ss', sv))
      else if active then
        (if \<not> sv_readable s then (False, s # ss, saved)
         else
           let orig = (case map_of saved (sv_pid s) of Some v \<Rightarrow> v | None \<Rightarrow> sv_vol s);
               saved1 = (case map_of saved (sv_pid s) of Some v \<Rightarrow> saved | None \<Rightarrow> AList.update (sv_pid s) (sv_vol s) saved)
           in (case duck_sessions m me fac active ss saved1 of
                 (ok, ss', sv) \<Rightarrow> (ok, s\<lparr>sv_vol := f_mul (rnd32 m) orig fac\<rparr> # ss', sv)))
      else
        (case map_of saved (sv_pid s) of
           Some orig \<Rightarrow>
             (case duck_sessions m me fac active ss (AList.delete (sv_pid s) saved) of
                (ok, ss', sv) \<Rightarrow> (ok, s\<lparr>sv_vol := orig\<rparr> # ss', sv))
         | None \<Rightarrow> (case duck_sessions m me fac active ss saved of (ok, ss', sv) \<Rightarrow> (ok, s # ss', sv))))"

text \<open>The worker takes the oldest edge.\<close>

definition duck_worker :: "fpu \<Rightarrow> nat \<Rightarrow> duck_state \<times> session_vol list \<Rightarrow> duck_state \<times> session_vol list" where
  "duck_worker m me ds = (case ds of (d, ss) \<Rightarrow>
     (case dk_queue d of
        [] \<Rightarrow> (d, ss)
      | active # q \<Rightarrow>
          (case duck_sessions m me (duck_factor m d) active ss (dk_saved d) of
             (ok, ss', saved) \<Rightarrow>
               (d\<lparr>dk_queue := q, dk_saved := (if ok \<and> \<not> active then [] else saved)\<rparr>, ss'))))"

section \<open>Ducking is undone\<close>

definition foreign :: "nat \<Rightarrow> session_vol \<Rightarrow> bool" where
  "foreign me s \<longleftrightarrow> sv_pid s \<noteq> 0 \<and> sv_pid s \<noteq> me"

text \<open>The volume a session has without ducking: what is saved for its process, else its own.\<close>

definition natural :: "(nat \<times> fl) list \<Rightarrow> session_vol \<Rightarrow> fl" where
  "natural saved s = (case map_of saved (sv_pid s) of Some v \<Rightarrow> v | None \<Rightarrow> sv_vol s)"

definition restored :: "nat \<Rightarrow> (nat \<times> fl) list \<Rightarrow> session_vol list \<Rightarrow> (nat \<times> fl) list" where
  "restored me saved ss = map (\<lambda>s. (sv_pid s, if foreign me s then natural saved s else sv_vol s)) ss"

lemma duck_on:
  assumes "distinct (map sv_pid (filter (foreign me) ss))" and "\<forall>s \<in> set ss. sv_readable s"
    and "duck_sessions m me fac True ss saved = (ok, ss', saved')"
  shows "ok \<and> map sv_pid ss' = map sv_pid ss \<and> (\<forall>s \<in> set ss'. sv_readable s)
    \<and> (\<forall>p. p \<notin> sv_pid ` set (filter (foreign me) ss) \<longrightarrow> map_of saved' p = map_of saved p)
    \<and> restored me saved' ss' = restored me saved ss
    \<and> (\<forall>s \<in> set ss'. foreign me s \<longrightarrow> (\<exists>v. map_of saved' (sv_pid s) = Some v \<and> sv_vol s = f_mul (rnd32 m) v fac))"
  using assms
proof (induction ss arbitrary: saved ok ss' saved')
  case (Cons s ss)
  show ?case
  proof (cases "foreign me s")
    case False
    obtain ok1 ss1 sv1 where r: "duck_sessions m me fac True ss saved = (ok1, ss1, sv1)"
      by (cases "duck_sessions m me fac True ss saved") auto
    have "ok = ok1" "ss' = s # ss1" "saved' = sv1" using Cons.prems(3) r False by (auto simp: foreign_def)
    with Cons.IH [OF _ _ r] Cons.prems(1,2) False show ?thesis by (auto simp: restored_def)
  next
    case True
    let ?orig = "natural saved s"
    let ?sv = "case map_of saved (sv_pid s) of Some v \<Rightarrow> saved | None \<Rightarrow> AList.update (sv_pid s) (sv_vol s) saved"
    have look: "map_of ?sv (sv_pid s) = Some ?orig" "\<forall>p. p \<noteq> sv_pid s \<longrightarrow> map_of ?sv p = map_of saved p"
      by (simp_all add: natural_def split: option.split)
    obtain ok1 ss1 sv1 where r: "duck_sessions m me fac True ss ?sv = (ok1, ss1, sv1)"
      by (cases "duck_sessions m me fac True ss ?sv") auto
    let ?s' = "s\<lparr>sv_vol := f_mul (rnd32 m) ?orig fac\<rparr>"
    have res: "ok = ok1" "ss' = ?s' # ss1" "saved' = sv1"
      using Cons.prems(2,3) r True by (auto simp: foreign_def natural_def Let_def split: option.splits)
    have "distinct (map sv_pid (filter (foreign me) ss))" "\<forall>s \<in> set ss. sv_readable s"
      and notin: "sv_pid s \<notin> sv_pid ` set (filter (foreign me) ss)" using Cons.prems(1,2) True by auto
    note ih = Cons.IH [OF this(1,2) r]
    have keep: "map_of sv1 (sv_pid s) = Some ?orig" using ih notin look(1) by auto
    have "natural ?sv u = natural saved u" if "u \<in> set ss" "foreign me u" for u
    proof -
      have "sv_pid u \<in> sv_pid ` set (filter (foreign me) ss)" using that by simp
      with notin have "sv_pid u \<noteq> sv_pid s" by metis
      then show ?thesis using look(2) by (simp add: natural_def)
    qed
    then have "restored me ?sv ss = restored me saved ss" by (simp add: restored_def)
    with ih res keep look True Cons.prems(2) show ?thesis
      by (auto simp: restored_def natural_def foreign_def)
  qed
qed (simp add: restored_def)

lemma duck_off:
  assumes "distinct (map sv_pid (filter (foreign me) ss))"
    and "duck_sessions m me fac False ss saved = (ok, ss', saved')"
  shows "ok \<and> map (\<lambda>s. (sv_pid s, sv_vol s)) ss' = restored me saved ss"
  using assms
proof (induction ss arbitrary: saved ok ss' saved')
  case (Cons s ss)
  show ?case
  proof (cases "foreign me s \<and> map_of saved (sv_pid s) \<noteq> None")
    case False
    obtain ok1 ss1 sv1 where r: "duck_sessions m me fac False ss saved = (ok1, ss1, sv1)"
      by (cases "duck_sessions m me fac False ss saved") auto
    have "ok = ok1" "ss' = s # ss1" using Cons.prems(2) r False
      by (cases "sv_pid s = 0 \<or> sv_pid s = me"; simp add: foreign_def)+
    with Cons.IH [OF _ r] Cons.prems(1) False show ?thesis by (auto simp: restored_def natural_def split: if_splits)
  next
    case True
    then obtain v where v: "map_of saved (sv_pid s) = Some v" by blast
    obtain ok1 ss1 sv1 where r: "duck_sessions m me fac False ss (AList.delete (sv_pid s) saved) = (ok1, ss1, sv1)"
      by (cases "duck_sessions m me fac False ss (AList.delete (sv_pid s) saved)") auto
    have res: "ok = ok1" "ss' = s\<lparr>sv_vol := v\<rparr> # ss1" using Cons.prems(2) r True v by (auto simp: foreign_def)
    have "natural (AList.delete (sv_pid s) saved) u = natural saved u" if "u \<in> set ss" "foreign me u" for u
    proof -
      have "sv_pid u \<in> sv_pid ` set (filter (foreign me) ss)" using that by simp
      moreover have "sv_pid s \<notin> sv_pid ` set (filter (foreign me) ss)" using Cons.prems(1) True by auto
      ultimately have "sv_pid u \<noteq> sv_pid s" by metis
      then show ?thesis by (simp add: natural_def)
    qed
    then have "restored me (AList.delete (sv_pid s) saved) ss = restored me saved ss" by (simp add: restored_def)
    with Cons.IH [OF _ r] Cons.prems(1) res True v show ?thesis by (simp add: restored_def natural_def)
  qed
qed (simp add: restored_def)

text \<open>Any run of press edges and changes of the amount, each applied, and then the release.\<close>

fun duck_run :: "fpu \<Rightarrow> nat \<Rightarrow> nat option list \<Rightarrow> duck_state \<times> session_vol list \<Rightarrow> duck_state \<times> session_vol list" where
  "duck_run m me [] ds = ds"
| "duck_run m me (op # ops) ds =
     duck_run m me ops
       (duck_worker m me (case op of None \<Rightarrow> (duck_set True (fst ds), snd ds) | Some p \<Rightarrow> (set_amount p (fst ds), snd ds)))"

text \<open>What holds between edges: the sessions are the ones at the start, the saved volumes give back
  theirs, and while ducking is on every other application's volume is a fraction of its saved one.\<close>

definition at_percent :: "fpu \<Rightarrow> nat \<Rightarrow> fl" where
  "at_percent m p = duck_factor m (duck_init\<lparr>dk_percent := p\<rparr>)"

lemma duck_factor_at: "duck_factor m d = at_percent m (dk_percent d)"
  by (simp add: at_percent_def duck_factor_def)

definition recoverable :: "nat \<Rightarrow> session_vol list \<Rightarrow> duck_state \<Rightarrow> session_vol list \<Rightarrow> bool" where
  "recoverable me ss d s1 \<longleftrightarrow> map sv_pid s1 = map sv_pid ss \<and> (\<forall>s \<in> set s1. sv_readable s) \<and> dk_queue d = []
      \<and> restored me (dk_saved d) s1 = map (\<lambda>s. (sv_pid s, sv_vol s)) ss"

definition lowered :: "fpu \<Rightarrow> nat \<Rightarrow> duck_state \<Rightarrow> session_vol list \<Rightarrow> bool" where
  "lowered m me d s1 \<longleftrightarrow> dk_active d \<and> (\<forall>s \<in> set s1. foreign me s \<longrightarrow>
      (\<exists>v p. map_of (dk_saved d) (sv_pid s) = Some v \<and> sv_vol s = f_mul (rnd32 m) v (at_percent m p)))"

definition duck_op :: "nat option \<Rightarrow> duck_state \<Rightarrow> duck_state" where
  "duck_op op d = (case op of None \<Rightarrow> duck_set True d | Some p \<Rightarrow> set_amount p d)"

lemma duck_run_Cons: "duck_run m me (op # ops) (d, ss) = duck_run m me ops (duck_worker m me (duck_op op d, ss))"
  by (cases op) (simp_all add: duck_op_def)

lemma pids_distinct:
  assumes "distinct (map sv_pid (filter (foreign me) ss))" and "map sv_pid s1 = map sv_pid ss"
  shows "distinct (map sv_pid (filter (foreign me) s1))"
proof -
  have "map sv_pid (filter (foreign me) xs) = filter (\<lambda>p. p \<noteq> 0 \<and> p \<noteq> me) (map sv_pid xs)" for xs
    by (induction xs) (auto simp: foreign_def)
  with assms show ?thesis by metis
qed

lemma duck_step:
  assumes "distinct (map sv_pid (filter (foreign me) ss))" and "recoverable me ss d s1" and "dk_active d \<or> op = None"
    and "duck_worker m me (duck_op op d, s1) = (d', s')"
  shows "recoverable me ss d' s' \<and> lowered m me d' s'"
proof -
  define e where "e = duck_op op d"
  have e: "dk_queue e = [True]" "dk_active e" "dk_saved e = dk_saved d"
    using assms(2,3) by (auto simp: e_def recoverable_def duck_op_def duck_set_def set_amount_def Let_def split: option.splits)
  obtain ok s2 sv where r: "duck_sessions m me (at_percent m (dk_percent e)) True s1 (dk_saved d) = (ok, s2, sv)"
    by (cases "duck_sessions m me (at_percent m (dk_percent e)) True s1 (dk_saved d)") auto
  have "d' = e\<lparr>dk_queue := [], dk_saved := sv\<rparr>" "s' = s2"
    using assms(4) e r by (simp_all add: duck_worker_def duck_factor_at e_def [symmetric])
  moreover note duck_on [OF pids_distinct [OF assms(1), of s1] _ r]
  ultimately show ?thesis using assms(2) e unfolding recoverable_def lowered_def by fastforce
qed

lemma duck_run_ok:
  assumes "distinct (map sv_pid (filter (foreign me) ss))"
  shows "recoverable me ss d0 s0 \<Longrightarrow> lowered m me d0 s0 \<Longrightarrow> duck_run m me ops (d0, s0) = (d1, s1)
    \<Longrightarrow> recoverable me ss d1 s1 \<and> lowered m me d1 s1"
proof (induction ops arbitrary: d0 s0)
  case (Cons op ops)
  obtain d' s' where w: "duck_worker m me (duck_op op d0, s0) = (d', s')"
    by (cases "duck_worker m me (duck_op op d0, s0)")
  have "recoverable me ss d' s' \<and> lowered m me d' s'"
    using duck_step [OF assms Cons.prems(1) _ w] Cons.prems(2) by (simp add: lowered_def)
  moreover have "duck_run m me ops (d', s') = (d1, s1)" using Cons.prems(3) w by (simp only: duck_run_Cons)
  ultimately show ?case using Cons.IH by blast
qed simp

lemma duck_release:
  assumes "distinct (map sv_pid (filter (foreign me) ss))" and "recoverable me ss d s1"
    and "duck_worker m me (duck_set False d, s1) = (d2, s2)"
  shows "map (\<lambda>s. (sv_pid s, sv_vol s)) s2 = map (\<lambda>s. (sv_pid s, sv_vol s)) ss \<and> dk_saved d2 = []"
proof -
  obtain ok sx sv where r: "duck_sessions m me (duck_factor m (duck_set False d)) False s1 (dk_saved d) = (ok, sx, sv)"
    by (cases "duck_sessions m me (duck_factor m (duck_set False d)) False s1 (dk_saved d)") auto
  note off = duck_off [OF pids_distinct [OF assms(1)] r]
  show ?thesis using assms(2,3) off r by (auto simp: recoverable_def duck_worker_def duck_set_def)
qed

text \<open>A lowered volume is a fraction of an original one.\<close>

lemma lowered_fraction:
  assumes "recoverable me ss d s1" and "lowered m me d s1" and "s \<in> set s1" "foreign me s"
  shows "\<exists>s0 \<in> set ss. \<exists>p. sv_pid s0 = sv_pid s \<and> sv_vol s = f_mul (rnd32 m) (sv_vol s0) (at_percent m p)"
proof -
  from assms obtain v p where v: "map_of (dk_saved d) (sv_pid s) = Some v" "sv_vol s = f_mul (rnd32 m) v (at_percent m p)"
    unfolding lowered_def by blast
  have "(sv_pid s, v) \<in> set (restored me (dk_saved d) s1)"
    using assms(3,4) v(1) by (force simp: restored_def natural_def)
  then obtain s0 where "s0 \<in> set ss" "sv_pid s0 = sv_pid s" "sv_vol s0 = v" using assms(1) by (auto simp: recoverable_def)
  with v(2) show ?thesis by blast
qed

text \<open>Ducking is undone: however often voice activity begins and the amount is changed meanwhile,
  when it ends every other application's volume is what it was before, as long as each process has
  one audio session and the volumes can be read; and during it the volume is always a fraction of the
  original, never of an already lowered one.\<close>

theorem ducking_restores:
  assumes "distinct (map sv_pid (filter (foreign me) ss))" and "\<forall>s \<in> set ss. sv_readable s"
    and "duck_run m me (None # ops) (duck_init, ss) = (d, ss1)"
    and "duck_worker m me (duck_set False d, ss1) = (d2, ss2)"
  shows "map (\<lambda>s. (sv_pid s, sv_vol s)) ss2 = map (\<lambda>s. (sv_pid s, sv_vol s)) ss \<and> dk_saved d2 = []
    \<and> (\<forall>s \<in> set ss1. foreign me s \<longrightarrow>
         (\<exists>s0 \<in> set ss. \<exists>p. sv_pid s0 = sv_pid s \<and> sv_vol s = f_mul (rnd32 m) (sv_vol s0) (duck_factor m (duck_init\<lparr>dk_percent := p\<rparr>))))"
proof -
  have i0: "recoverable me ss duck_init ss"
    using assms(2) by (simp add: recoverable_def duck_init_def restored_def natural_def)
  obtain d' s' where w: "duck_worker m me (duck_op None duck_init, ss) = (d', s')"
    by (cases "duck_worker m me (duck_op None duck_init, ss)")
  have "duck_run m me ops (d', s') = (d, ss1)" using assms(3) w by (simp only: duck_run_Cons)
  then have fin: "recoverable me ss d ss1 \<and> lowered m me d ss1"
    using duck_run_ok [OF assms(1)] duck_step [OF assms(1) i0 _ w] by blast
  with duck_release [OF assms(1) _ assms(4)] lowered_fraction [of me ss d ss1 m] show ?thesis
    unfolding at_percent_def by blast
qed

definition demo_sessions :: "session_vol list" where
  "demo_sessions = [\<lparr>sv_pid = 0, sv_vol = FFin 1, sv_readable = True\<rparr>, \<lparr>sv_pid = 7, sv_vol = FFin (1/2), sv_readable = True\<rparr>,
     \<lparr>sv_pid = 9, sv_vol = FFin 1, sv_readable = True\<rparr>]"

theorem ducking_restores_witness:
  "map (\<lambda>s. (sv_pid s, sv_vol s)) (snd (duck_worker exact_fpu 9 (case duck_run exact_fpu 9 [None, Some 40, None] (duck_init, demo_sessions)
      of (d, ss) \<Rightarrow> (duck_set False d, ss))))
   = [(0, FFin 1), (7, FFin (1/2)), (9, FFin 1)]"
proof -
  obtain d ss1 where a: "duck_run exact_fpu 9 [None, Some 40, None] (duck_init, demo_sessions) = (d, ss1)"
    by (cases "duck_run exact_fpu 9 [None, Some 40, None] (duck_init, demo_sessions)")
  obtain d2 ss2 where b: "duck_worker exact_fpu 9 (duck_set False d, ss1) = (d2, ss2)"
    by (cases "duck_worker exact_fpu 9 (duck_set False d, ss1)")
  have "distinct (map sv_pid (filter (foreign 9) demo_sessions))" "\<forall>s \<in> set demo_sessions. sv_readable s"
    by (simp_all add: demo_sessions_def foreign_def)
  from ducking_restores [OF this a b] a b show ?thesis by (simp add: demo_sessions_def)
qed

text \<open>The originals are kept per process: of two sessions of one process only the first is restored.\<close>

lemma second_session_stays_ducked:
  "let two = [\<lparr>sv_pid = 7, sv_vol = FFin 1, sv_readable = True\<rparr>, \<lparr>sv_pid = 7, sv_vol = FFin 1, sv_readable = True\<rparr>];
       (d, ss) = duck_worker exact_fpu 9 (duck_set True duck_init, two);
       (d2, ss2) = duck_worker exact_fpu 9 (duck_set False d, ss)
   in map sv_vol ss2 = [FFin 1, FFin (1/4)]"
  by (simp add: duck_worker_def duck_set_def duck_init_def duck_factor_def exact_fpu_def f_sub_def i_to_f32_def)

end
