(* ===== verification/Ipc.thy ===== *)
theory Ipc
  imports Client Ptt Control
begin

text \<open>
  The command layer of the desktop app (\<open>apps/companion/src-tauri/src/lib.rs\<close>): the validators of
  everything the webview sends, the commands that drive the engine or a serverless session, the
  deep links and the dispatch of what the control API asks for.

  The managed state is the record \<open>shell\<close>.  A command returns its reply, the new state and the
  openings and closings of the audio rig it caused; assigning a slot drops its old content.
\<close>

section \<open>Validators\<close>

text \<open>All characters of a string are ASCII characters with the property.\<close>

definition all_ascii :: "(char \<Rightarrow> bool) \<Rightarrow> str \<Rightarrow> bool" where
  "all_ascii P s = list_all (\<lambda>ch. case ch of [c] \<Rightarrow> P c | _ \<Rightarrow> False) (chars s)"

definition MAX_CHAT_LEN :: nat where "MAX_CHAT_LEN = 2000"
definition MAX_CODE_LEN :: nat where "MAX_CODE_LEN = 32 * 1024"
definition MAX_CONTROL_STATE :: nat where "MAX_CONTROL_STATE = 16 * 1024"

definition valid_id :: "str \<Rightarrow> nat \<Rightarrow> bool" where
  "valid_id s mx \<longleftrightarrow> s \<noteq> [] \<and> length s \<le> mx
     \<and> all_ascii (\<lambda>c. is_alnum_c c \<or> c = CHR ''-'' \<or> c = CHR ''_'') s"

definition valid_user_id :: "str \<Rightarrow> nat \<Rightarrow> bool" where
  "valid_user_id s mx \<longleftrightarrow> s \<noteq> [] \<and> length s \<le> mx
     \<and> all_ascii (\<lambda>c. is_alnum_c c \<or> c = CHR ''-'' \<or> c = CHR ''_'' \<or> c = CHR ''.'') s"

definition valid_name :: "str \<Rightarrow> bool" where
  "valid_name s \<longleftrightarrow> s \<noteq> [] \<and> chars_count s \<le> 64 \<and> \<not> list_ex is_control (chars s)"

definition valid_code :: "str \<Rightarrow> bool" where
  "valid_code s \<longleftrightarrow> s \<noteq> [] \<and> length s \<le> MAX_CODE_LEN
     \<and> list_all (\<lambda>ch. (case ch of [c] \<Rightarrow> is_alnum_c c \<or> c \<in> set ''+/='' | _ \<Rightarrow> False) \<or> is_ws ch) (chars s)"

definition valid_hex :: "str \<Rightarrow> nat \<Rightarrow> bool" where
  "valid_hex s mx \<longleftrightarrow> s \<noteq> [] \<and> length s \<le> mx \<and> all_ascii is_hex_c s"

definition valid_channel :: "str \<Rightarrow> bool" where
  "valid_channel name \<longleftrightarrow> name \<noteq> [] \<and> chars_count name \<le> MAX_CHANNEL_LEN \<and> \<not> list_ex is_control (chars name)"

text \<open>\<open>map(trim).filter(non-empty)\<close>.\<close>

definition trimmed :: "str option \<Rightarrow> str option" where
  "trimmed x = (case x of Some t \<Rightarrow> if trim t \<noteq> [] then Some (trim t) else None | None \<Rightarrow> None)"

definition clean_token :: "str option \<Rightarrow> str + str option" where
  "clean_token token =
     (case trimmed token of
        Some t \<Rightarrow> if valid_hex t 128 then Inr (Some t) else Inl ''invalid token''
      | None \<Rightarrow> Inr None)"

definition clean_cert :: "str option \<Rightarrow> str + str option" where
  "clean_cert cert =
     (case trimmed cert of
        Some c \<Rightarrow> if length c = 64 \<and> valid_hex c 64 then Inr (Some c) else Inl ''invalid cert_sha256 (64 hex chars)''
      | None \<Rightarrow> Inr None)"

definition clean_device :: "str option \<Rightarrow> str + str option" where
  "clean_device d =
     (case trimmed d of
        Some s \<Rightarrow> if length s \<le> 256 then Inr (Some s) else Inl ''invalid device name''
      | None \<Rightarrow> Inr None)"

definition live_device :: "str option \<Rightarrow> str option" where
  "live_device name = (case trimmed name of Some s \<Rightarrow> if length s \<le> 256 then Some s else None | None \<Rightarrow> None)"

definition bounded_chat :: "str \<Rightarrow> str option" where
  "bounded_chat text =
     (let t = chars_take MAX_CHAT_LEN text in if trim t = [] then None else Some t)"

definition norm_f32 :: "fl \<Rightarrow> fl \<Rightarrow> fl \<Rightarrow> fl \<Rightarrow> fl" where
  "norm_f32 v lo hi dflt = (if is_finite v then f_clamp lo hi v else dflt)"

definition normalize_dsp :: "fpu \<Rightarrow> dsp_config \<Rightarrow> dsp_config" where
  "normalize_dsp m c = c\<lparr>
     dc_gate_threshold := norm_f32 (dc_gate_threshold c) (FFin 0) (FFin (1/2)) (lit m (15/1000)),
     dc_comp_threshold := norm_f32 (dc_comp_threshold c) (lit m (1/100)) (FFin 1) (lit m (15/100)),
     dc_comp_ratio := norm_f32 (dc_comp_ratio c) (FFin 1) (FFin 20) (FFin 3),
     dc_comp_makeup := norm_f32 (dc_comp_makeup c) (lit m (1/10)) (FFin 4) (lit m (14/10)),
     dc_limiter_ceiling := norm_f32 (dc_limiter_ceiling c) (lit m (5/100)) (FFin 1) (lit m (97/100))\<rparr>"

definition normalize_radio :: "fpu \<Rightarrow> radio_cfg \<Rightarrow> radio_cfg" where
  "normalize_radio m c = c\<lparr>
     rc_low_cut := norm_f32 (rc_low_cut c) (FFin 50) (FFin 1000) (FFin 300),
     rc_high_cut := norm_f32 (rc_high_cut c) (FFin 1200) (FFin 12000) (FFin 3400),
     rc_saturation := norm_f32 (rc_saturation c) (FFin 0) (FFin 1) (lit m (35/100)),
     rc_destruction := norm_f32 (rc_destruction c) (FFin 0) (FFin 1) (lit m (15/100))\<rparr>"

definition clamp_vol :: "fl \<Rightarrow> fl" where
  "clamp_vol v = (if is_finite v then f_clamp (FFin 0) (FFin 2) v else FFin 1)"

text \<open>\<open>to_string\<close> of a value is a parameter; \<open>None\<close> if it fails.\<close>

definition control_state_ok :: "(json \<Rightarrow> str option) \<Rightarrow> json \<Rightarrow> bool" where
  "control_state_ok to_string snapshot =
     (case to_string snapshot of Some s \<Rightarrow> length s \<le> MAX_CONTROL_STATE | None \<Rightarrow> False)"

section \<open>The managed state\<close>

record shell =
  sh_engine :: "engine_handle option"
  sh_serverless :: "serverless option"
  sh_control :: "control_server option"

definition shell_init :: shell where
  "shell_init = \<lparr>sh_engine = None, sh_serverless = None, sh_control = None\<rparr>"

definition put_engine :: "engine_handle option \<Rightarrow> shell \<Rightarrow> shell \<times> rig_fx list" where
  "put_engine e sh = (sh\<lparr>sh_engine := e\<rparr>, case sh_engine sh of Some h \<Rightarrow> snd (eh_drop h) | None \<Rightarrow> [])"

definition put_serverless :: "serverless option \<Rightarrow> shell \<Rightarrow> shell \<times> rig_fx list" where
  "put_serverless e sh = (sh\<lparr>sh_serverless := e\<rparr>, case sh_serverless sh of Some s \<Rightarrow> snd (sl_drop s) | None \<Rightarrow> [])"

definition on_engine :: "(engine_handle \<Rightarrow> engine_handle) \<Rightarrow> shell \<Rightarrow> shell" where
  "on_engine f sh = sh\<lparr>sh_engine := map_option f (sh_engine sh)\<rparr>"

section \<open>Connecting\<close>

record connect_args =
  ca_server :: str
  ca_room :: str
  ca_user_id :: str
  ca_name :: str
  ca_token :: "str option"
  ca_cert :: "str option"
  ca_input :: "str option"
  ca_output :: "str option"
  ca_relay :: "bool option"

definition en_dash :: str where "en_dash = [CHR 0xE2, CHR 0x80, CHR 0x93]"
definition em_dash :: str where "em_dash = [CHR 0xE2, CHR 0x80, CHR 0x94]"

definition E_URL :: str where "E_URL = ''invalid server URL '' @ em_dash @ '' use wss:// or loopback ws://''"
definition E_NAME :: str where "E_NAME = ''invalid name (1'' @ en_dash @ ''64 chars, no control chars)''"
definition E_BUSY :: str where "E_BUSY = ''already connected '' @ em_dash @ '' disconnect first''"
definition E_CHANNEL :: str where "E_CHANNEL = ''invalid channel (1'' @ en_dash @ ''32 chars, no control chars)''"

text \<open>The validation, in the order of the code.\<close>

definition connect_config :: "connect_args \<Rightarrow> str + engine_config" where
  "connect_config a =
     (let server = trim (ca_server a); name = trim (ca_name a)
      in if \<not> server_url_ok server then Inl E_URL
      else if \<not> valid_id (ca_room a) 64 then Inl ''invalid room''
      else if \<not> valid_user_id (ca_user_id a) 64 then Inl ''invalid user_id''
      else if \<not> valid_name name then Inl E_NAME
      else (case clean_token (ca_token a) of Inl e \<Rightarrow> Inl e | Inr token \<Rightarrow>
           (case clean_cert (ca_cert a) of Inl e \<Rightarrow> Inl e | Inr cert \<Rightarrow>
           (case clean_device (ca_input a) of Inl e \<Rightarrow> Inl e | Inr inp \<Rightarrow>
           (case clean_device (ca_output a) of Inl e \<Rightarrow> Inl e | Inr out \<Rightarrow>
              Inr \<lparr>ec_server = server, ec_room = ca_room a, ec_user_id = ca_user_id a, ec_name = name,
                   ec_token = token, ec_cert = cert, ec_input = inp, ec_output = out,
                   ec_relay = (case ca_relay a of Some b \<Rightarrow> b | None \<Rightarrow> False)\<rparr>)))))"

text \<open>\<open>connect\<close> up to its \<open>await\<close>, and from there on; other commands may run in between.\<close>

definition connect_begin :: "connect_args \<Rightarrow> shell \<Rightarrow> (str + engine_config) \<times> shell \<times> rig_fx list" where
  "connect_begin a sh =
     (case connect_config a of
        Inl e \<Rightarrow> (Inl e, sh, [])
      | Inr cfg \<Rightarrow>
          if sh_engine sh \<noteq> None then (Inl E_BUSY, sh, [])
          else (case put_serverless None sh of (sh1, fx) \<Rightarrow> (Inr cfg, sh1, fx)))"

definition connect_end :: "start_env \<Rightarrow> engine_config \<Rightarrow> shell \<Rightarrow> (str + unit) \<times> shell \<times> rig_fx list" where
  "connect_end v cfg sh =
     (case client_start v cfg of
        (Inl e, fx) \<Rightarrow> (Inl e, sh, fx)
      | (Inr (h, _), fx) \<Rightarrow> (case put_engine (Some h) sh of (sh1, fx1) \<Rightarrow> (Inr (), sh1, fx @ fx1)))"

definition connect :: "start_env \<Rightarrow> connect_args \<Rightarrow> shell \<Rightarrow> (str + unit) \<times> shell \<times> rig_fx list" where
  "connect v a sh =
     (case connect_begin a sh of
        (Inl e, sh1, fx) \<Rightarrow> (Inl e, sh1, fx)
      | (Inr cfg, sh1, fx) \<Rightarrow> (case connect_end v cfg sh1 of (r, sh2, fx2) \<Rightarrow> (r, sh2, fx @ fx2)))"

definition disconnect :: "shell \<Rightarrow> shell \<times> rig_fx list" where
  "disconnect sh =
     (case put_engine None sh of (sh1, fx1) \<Rightarrow>
     (case put_serverless None sh1 of (sh2, fx2) \<Rightarrow> (sh2, fx1 @ fx2)))"

section \<open>Serverless\<close>

definition serverless_offer :: "sl_env \<Rightarrow> str \<Rightarrow> shell \<Rightarrow> (str + str) \<times> shell \<times> rig_fx list" where
  "serverless_offer v name sh =
     (if \<not> valid_name (trim name) then (Inl E_NAME, sh, [])
      else (case create_offer v (trim name) of
              (Inl e, fx) \<Rightarrow> (Inl e, sh, fx)
            | (Inr (s, code), fx) \<Rightarrow> (case put_serverless (Some s) sh of (sh1, fx1) \<Rightarrow> (Inr code, sh1, fx @ fx1))))"

definition serverless_accept_offer :: "sl_env \<Rightarrow> str \<Rightarrow> str \<Rightarrow> shell \<Rightarrow> (str + str) \<times> shell \<times> rig_fx list" where
  "serverless_accept_offer v name code sh =
     (if \<not> valid_name (trim name) then (Inl E_NAME, sh, [])
      else if \<not> valid_code code then (Inl ''invalid code'', sh, [])
      else (case accept_offer v code (trim name) of
              (Inl e, fx) \<Rightarrow> (Inl e, sh, fx)
            | (Inr (s, answer), fx) \<Rightarrow> (case put_serverless (Some s) sh of (sh1, fx1) \<Rightarrow> (Inr answer, sh1, fx @ fx1))))"

definition serverless_accept_answer :: "sl_env \<Rightarrow> str \<Rightarrow> shell \<Rightarrow> str + unit" where
  "serverless_accept_answer v code sh =
     (if \<not> valid_code code then Inl ''invalid code''
      else (case sh_serverless sh of
              Some s \<Rightarrow> accept_answer v code
            | None \<Rightarrow> Inl ''keine offene Serverless-Sitzung''))"

section \<open>Commands of a session\<close>

text \<open>Transmit and chat go to the serverless session when there is one.\<close>

definition toggle_transmit :: "shell \<Rightarrow> shell \<times> ui_event list" where
  "toggle_transmit sh =
     (case sh_serverless sh of
        Some s \<Rightarrow> (case sl_toggle_transmit s of (s1, ev) \<Rightarrow> (sh\<lparr>sh_serverless := Some s1\<rparr>, ev))
      | None \<Rightarrow> (on_engine eh_toggle_transmit sh, []))"

definition set_transmit :: "bool \<Rightarrow> shell \<Rightarrow> shell \<times> ui_event list" where
  "set_transmit on sh =
     (case sh_serverless sh of
        Some s \<Rightarrow> (case sl_set_transmit on s of (s1, ev) \<Rightarrow> (sh\<lparr>sh_serverless := Some s1\<rparr>, ev))
      | None \<Rightarrow> (on_engine (eh_set_transmit on) sh, []))"

record chat_env =
  ce_json :: "chat_msg \<Rightarrow> str"
  ce_sent :: "str \<Rightarrow> bool"
  ce_ts :: u64

definition send_chat :: "chat_env \<Rightarrow> str \<Rightarrow> shell \<Rightarrow> shell \<times> ui_event list" where
  "send_chat ce text sh =
     (case bounded_chat text of
        None \<Rightarrow> (sh, [])
      | Some t \<Rightarrow>
          (case sh_serverless sh of
             Some s \<Rightarrow> (sh, sl_send_chat (ce_json ce) (ce_sent ce) (ce_ts ce) t s)
           | None \<Rightarrow> (on_engine (eh_send_chat t) sh, [])))"

definition set_master_volume :: "fl \<Rightarrow> shell \<Rightarrow> shell" where
  "set_master_volume v = on_engine (eh_set_master_volume (clamp_vol v))"

definition set_peer_volume :: "str \<Rightarrow> fl \<Rightarrow> shell \<Rightarrow> (str + unit) \<times> shell" where
  "set_peer_volume user_id v sh =
     (if \<not> valid_user_id user_id 64 then (Inl ''invalid user_id'', sh)
      else (Inr (), on_engine (eh_set_peer_volume user_id (clamp_vol v)) sh))"

definition rotate_key_cmd :: "shell \<Rightarrow> shell" where
  "rotate_key_cmd = on_engine eh_rotate_key"

definition reconnect_session :: "shell \<Rightarrow> shell" where
  "reconnect_session = on_engine eh_reconnect"

definition set_channel_cmd :: "str \<Rightarrow> shell \<Rightarrow> (str + unit) \<times> shell" where
  "set_channel_cmd name sh =
     (if \<not> valid_channel (trim name) then (Inl E_CHANNEL, sh)
      else (Inr (), on_engine (eh_set_channel (trim name)) sh))"

definition remove_channel_cmd :: "str \<Rightarrow> shell \<Rightarrow> (str + unit) \<times> shell" where
  "remove_channel_cmd name sh =
     (if \<not> valid_channel (trim name) then (Inl E_CHANNEL, sh)
      else (Inr (), on_engine (eh_remove_channel (trim name)) sh))"

definition set_dsp :: "fpu \<Rightarrow> dsp_config \<Rightarrow> shell \<Rightarrow> shell" where
  "set_dsp m cfg = on_engine (eh_set_dsp (normalize_dsp m cfg))"

definition set_radio_fx :: "fpu \<Rightarrow> radio_cfg \<Rightarrow> shell \<Rightarrow> shell" where
  "set_radio_fx m cfg = on_engine (eh_set_radio (normalize_radio m cfg))"

definition control_state :: "(json \<Rightarrow> str option) \<Rightarrow> (client \<Rightarrow> bool) \<Rightarrow> json \<Rightarrow> shell \<Rightarrow> shell" where
  "control_state to_string is_open snapshot sh =
     (if \<not> control_state_ok to_string snapshot then sh
      else sh\<lparr>sh_control := map_option (publish_state is_open snapshot) (sh_control sh)\<rparr>)"

definition set_monitor :: "bool \<Rightarrow> shell \<Rightarrow> shell" where
  "set_monitor on = on_engine (eh_set_monitor on)"

definition set_earcon :: "bool \<Rightarrow> shell \<Rightarrow> shell" where
  "set_earcon on = on_engine (eh_set_earcon on)"

definition set_earcon_volume :: "fl \<Rightarrow> shell \<Rightarrow> shell" where
  "set_earcon_volume v = on_engine (eh_set_earcon_volume (clamp_vol v))"

definition ptt_latch_cue :: "fpu \<Rightarrow> bool \<Rightarrow> shell \<Rightarrow> mix_map \<Rightarrow> mix_map" where
  "ptt_latch_cue m on sh mix =
     (case sh_engine sh of Some h \<Rightarrow> eh_ptt_latch_cue m on h mix | None \<Rightarrow> mix)"

definition set_low_bandwidth :: "bool \<Rightarrow> shell \<Rightarrow> shell" where
  "set_low_bandwidth on = on_engine (eh_set_low_bandwidth on)"

definition set_input_device :: "str option \<Rightarrow> shell \<Rightarrow> shell" where
  "set_input_device name = on_engine (eh_set_input_device (live_device name))"

definition set_output_device :: "str option \<Rightarrow> shell \<Rightarrow> shell" where
  "set_output_device name = on_engine (eh_set_output_device (live_device name))"

section \<open>The command table\<close>

datatype command =
    Connect start_env connect_args
  | SlOffer sl_env str
  | SlAcceptOffer sl_env str str
  | SlAcceptAnswer sl_env str
  | ToggleTransmit
  | SetTransmit bool
  | SendChat chat_env str
  | SetMasterVolume fl
  | SetPeerVolume str fl
  | RotateKey
  | ReconnectSession
  | SetChannelTo str
  | DeleteChannel str
  | SetDsp dsp_config
  | SetRadioFx radio_cfg
  | ControlState "json \<Rightarrow> str option" "client \<Rightarrow> bool" json
  | SetMonitor bool
  | SetEarcon bool
  | SetEarconVolume fl
  | SetLowBandwidth bool
  | SetInputDevice "str option"
  | SetOutputDevice "str option"
  | Disconnect

datatype reply = Done | Code str | Failed str

text \<open>A reply, the state and the rig's openings and closings.\<close>

type_synonym outcome = "reply \<times> shell \<times> rig_fx list"

definition done_with :: "shell \<Rightarrow> outcome" where
  "done_with sh = (Done, sh, [])"

definition of_unit :: "(str + unit) \<times> shell \<Rightarrow> outcome" where
  "of_unit r = (case r of (Inl e, sh) \<Rightarrow> (Failed e, sh, []) | (Inr _, sh) \<Rightarrow> (Done, sh, []))"

definition of_code :: "(str + str) \<times> shell \<times> rig_fx list \<Rightarrow> outcome" where
  "of_code r = (case r of (Inl e, rest) \<Rightarrow> (Failed e, rest) | (Inr c, rest) \<Rightarrow> (Code c, rest))"

text \<open>The machine's arithmetic is the same for every command.\<close>

fun invoke :: "fpu \<Rightarrow> command \<Rightarrow> shell \<Rightarrow> outcome" where
  "invoke m (Connect v a) sh =
     (case connect (v\<lparr>sv_fpu := m\<rparr>) a sh of (Inl e, rest) \<Rightarrow> (Failed e, rest) | (Inr _, rest) \<Rightarrow> (Done, rest))"
| "invoke m (SlOffer v name) sh = of_code (serverless_offer (v\<lparr>sl_fpu := m\<rparr>) name sh)"
| "invoke m (SlAcceptOffer v name code) sh = of_code (serverless_accept_offer (v\<lparr>sl_fpu := m\<rparr>) name code sh)"
| "invoke m (SlAcceptAnswer v code) sh = of_unit (serverless_accept_answer v code sh, sh)"
| "invoke m ToggleTransmit sh = done_with (fst (toggle_transmit sh))"
| "invoke m (SetTransmit on) sh = done_with (fst (set_transmit on sh))"
| "invoke m (SendChat ce text) sh = done_with (fst (send_chat ce text sh))"
| "invoke m (SetMasterVolume v) sh = done_with (set_master_volume v sh)"
| "invoke m (SetPeerVolume u v) sh = of_unit (set_peer_volume u v sh)"
| "invoke m RotateKey sh = done_with (rotate_key_cmd sh)"
| "invoke m ReconnectSession sh = done_with (reconnect_session sh)"
| "invoke m (SetChannelTo n) sh = of_unit (set_channel_cmd n sh)"
| "invoke m (DeleteChannel n) sh = of_unit (remove_channel_cmd n sh)"
| "invoke m (SetDsp c) sh = done_with (set_dsp m c sh)"
| "invoke m (SetRadioFx c) sh = done_with (set_radio_fx m c sh)"
| "invoke m (ControlState ts op j) sh = done_with (control_state ts op j sh)"
| "invoke m (SetMonitor on) sh = done_with (set_monitor on sh)"
| "invoke m (SetEarcon on) sh = done_with (set_earcon on sh)"
| "invoke m (SetEarconVolume v) sh = done_with (set_earcon_volume v sh)"
| "invoke m (SetLowBandwidth on) sh = done_with (set_low_bandwidth on sh)"
| "invoke m (SetInputDevice n) sh = done_with (set_input_device n sh)"
| "invoke m (SetOutputDevice n) sh = done_with (set_output_device n sh)"
| "invoke m Disconnect sh = (case disconnect sh of (sh1, fx) \<Rightarrow> (Done, sh1, fx))"

fun invoke_all :: "fpu \<Rightarrow> command list \<Rightarrow> shell \<Rightarrow> shell \<times> rig_fx list" where
  "invoke_all m [] sh = (sh, [])"
| "invoke_all m (c # cs) sh =
     (case invoke m c sh of (_, sh1, fx1) \<Rightarrow> (case invoke_all m cs sh1 of (sh2, fx2) \<Rightarrow> (sh2, fx1 @ fx2)))"

section \<open>Deep links and controllers\<close>

definition DEEPLINK_SCHEMES :: "str list" where
  "DEEPLINK_SCHEMES = [''subraum://'', ''squadlink://'']"

definition is_deeplink :: "str \<Rightarrow> bool" where
  "is_deeplink arg = list_ex (\<lambda>s. prefix s arg) DEEPLINK_SCHEMES"

text \<open>The first deep link among the arguments: emitted for a second launch, stashed at a cold start.\<close>

definition launch_link :: "str list \<Rightarrow> str option" where
  "launch_link argv = find is_deeplink argv"

definition take_pending_deeplink :: "str option \<Rightarrow> str option \<times> str option" where
  "take_pending_deeplink pending = (pending, None)"

datatype app_event = EvInput input_event | EvCtl json | EvCtlRefresh

definition dispatch_ctl :: "ctl_out \<Rightarrow> input_state \<Rightarrow> input_state \<times> app_event list" where
  "dispatch_ctl cmd s =
     (case cmd of
        CtlPtt on \<Rightarrow> apsnd (map EvInput) (publish_ptt None (Some on) s)
      | CtlChanCycle d \<Rightarrow> (s, [EvInput (EvChanCycle d)])
      | CtlCtl v \<Rightarrow> (s, [EvCtl v])
      | CtlRefresh \<Rightarrow> (s, [EvCtlRefresh]))"

end
