(* ===== verification/Ipc_Props.thy ===== *)
theory Ipc_Props
  imports Ipc Server_Safety
begin

text \<open>
  Properties of the command layer: the microphone is open exactly while a session is held, nothing
  unbounded reaches the engine, failed commands leave the session alone, and what \<open>connect\<close> lets
  through the server accepts.
\<close>

section \<open>One microphone per session held\<close>

definition running :: "shell \<Rightarrow> int" where
  "running sh = (if sh_engine sh = None then 0 else 1) + (if sh_serverless sh = None then 0 else 1)"

lemmas slot_defs = put_engine_def put_serverless_def eh_drop_def sl_drop_def

lemma put_engine_opens [simp]:
  "opens (snd (put_engine e sh)) = (if sh_engine sh = None then 0 else - 1)"
  "fst (put_engine e sh) = sh\<lparr>sh_engine := e\<rparr>"
  by (auto simp: slot_defs split: option.splits)

lemma put_serverless_opens [simp]:
  "opens (snd (put_serverless e sh)) = (if sh_serverless sh = None then 0 else - 1)"
  "fst (put_serverless e sh) = sh\<lparr>sh_serverless := e\<rparr>"
  by (auto simp: slot_defs split: option.splits)

lemma running_on_engine [simp]: "running (on_engine f sh) = running sh"
  by (simp add: running_def on_engine_def)

lemma connect_opens:
  assumes "connect v a sh = (r, sh', fx)"
  shows "opens fx = running sh' - running sh"
proof (cases "connect_config a")
  case (Inl e)
  with assms show ?thesis by (simp add: connect_def connect_begin_def)
next
  case (Inr cfg)
  show ?thesis
  proof (cases "sh_engine sh")
    case (Some h)
    with assms Inr show ?thesis by (simp add: connect_def connect_begin_def)
  next
    case None
    obtain res fx2 where st: "client_start v cfg = (res, fx2)" by (cases "client_start v cfg")
    with client_start_opens [OF st] assms Inr None show ?thesis
      by (auto simp: connect_def connect_begin_def connect_end_def running_def slot_defs
          split: sum.splits option.splits)
  qed
qed

lemma offer_opens:
  assumes "serverless_offer v name sh = (r, sh', fx)"
  shows "opens fx = running sh' - running sh"
proof -
  obtain res fx1 where c: "create_offer v (trim name) = (res, fx1)" by (cases "create_offer v (trim name)")
  with create_offer_opens [OF c] assms show ?thesis
    by (auto simp: serverless_offer_def running_def slot_defs split: sum.splits option.splits if_splits)
qed

lemma accept_opens:
  assumes "serverless_accept_offer v name code sh = (r, sh', fx)"
  shows "opens fx = running sh' - running sh"
proof -
  obtain res fx1 where c: "accept_offer v code (trim name) = (res, fx1)"
    by (cases "accept_offer v code (trim name)")
  with accept_offer_opens [OF c] assms show ?thesis
    by (auto simp: serverless_accept_offer_def running_def slot_defs split: sum.splits option.splits if_splits)
qed

lemma disconnect_opens:
  "disconnect sh = (sh', fx) \<Longrightarrow> opens fx = - running sh \<and> running sh' = 0"
  by (auto simp: disconnect_def running_def slot_defs split: option.splits)

lemmas command_defs = toggle_transmit_def set_transmit_def send_chat_def set_master_volume_def
  set_peer_volume_def rotate_key_cmd_def reconnect_session_def set_channel_cmd_def remove_channel_cmd_def
  set_dsp_def set_radio_fx_def control_state_def set_monitor_def set_earcon_def set_earcon_volume_def
  set_low_bandwidth_def set_input_device_def set_output_device_def

lemma invoke_opens:
  assumes "invoke m c sh = (r, sh', fx)"
  shows "opens fx = running sh' - running sh"
proof (cases c)
  case (Connect v a)
  with assms connect_opens [of "v\<lparr>sv_fpu := m\<rparr>" a sh] show ?thesis by (auto split: prod.splits sum.splits)
next
  case (SlOffer v name)
  with assms offer_opens [of "v\<lparr>sl_fpu := m\<rparr>" name sh] show ?thesis by (auto simp: of_code_def split: prod.splits sum.splits)
next
  case (SlAcceptOffer v name code)
  with assms accept_opens [of "v\<lparr>sl_fpu := m\<rparr>" name code sh] show ?thesis
    by (auto simp: of_code_def split: prod.splits sum.splits)
next
  case Disconnect
  with assms disconnect_opens [of sh] show ?thesis by (auto split: prod.splits)
qed (use assms in \<open>auto simp: done_with_def of_unit_def command_defs running_def on_engine_def
        split: option.splits prod.splits sum.splits if_splits\<close>)

lemma invoke_all_append:
  "invoke_all m (cs @ ds) sh =
     (case invoke_all m cs sh of (sh1, fx1) \<Rightarrow> (case invoke_all m ds sh1 of (sh2, fx2) \<Rightarrow> (sh2, fx1 @ fx2)))"
  by (induction cs arbitrary: sh) (simp_all split: prod.splits)

lemma invoke_all_opens: "invoke_all m cs sh = (sh', fx) \<Longrightarrow> opens fx = running sh' - running sh"
proof (induction cs arbitrary: sh sh' fx)
  case (Cons c cs)
  obtain r sh1 fx1 where s: "invoke m c sh = (r, sh1, fx1)" by (cases "invoke m c sh")
  obtain sh2 fx2 where t: "invoke_all m cs sh1 = (sh2, fx2)" by (cases "invoke_all m cs sh1")
  from Cons.IH [OF t] invoke_opens [OF s] Cons.prems s t show ?case by auto
qed simp

text \<open>Claim C23. The microphone is open exactly while a session is held: over any sequence of commands from the
  start of the app, whatever fails in them, as many audio rigs run as slots are filled, and a
  disconnect leaves none.\<close>

theorem no_stray_microphone:
  "(case invoke_all m cs shell_init of (sh, fx) \<Rightarrow>
      opens fx = (if sh_engine sh = None then 0 else 1) + (if sh_serverless sh = None then 0 else 1))
   \<and> opens (snd (invoke_all m (cs @ [Disconnect]) shell_init)) = 0"
proof -
  obtain sh fx where r: "invoke_all m cs shell_init = (sh, fx)" by (cases "invoke_all m cs shell_init")
  obtain sh2 fx2 where d: "disconnect sh = (sh2, fx2)" by (cases "disconnect sh")
  have "invoke_all m (cs @ [Disconnect]) shell_init = (sh2, fx @ fx2)"
    using invoke_all_append [of m cs "[Disconnect]" shell_init] by (simp add: r d)
  with invoke_all_opens [OF r] disconnect_opens [OF d] r show ?thesis
    by (simp add: running_def shell_init_def)
qed

section \<open>What reaches the engine is bounded\<close>

definition between :: "fl \<Rightarrow> fl \<Rightarrow> fl \<Rightarrow> bool" where
  "between lo hi v \<longleftrightarrow> is_finite v \<and> \<not> f_lt v lo \<and> \<not> f_lt hi v"

definition sane_dsp :: "fpu \<Rightarrow> dsp_config \<Rightarrow> bool" where
  "sane_dsp m c \<longleftrightarrow> between (FFin 0) (FFin (1/2)) (dc_gate_threshold c)
     \<and> between (lit m (1/100)) (FFin 1) (dc_comp_threshold c) \<and> between (FFin 1) (FFin 20) (dc_comp_ratio c)
     \<and> between (lit m (1/10)) (FFin 4) (dc_comp_makeup c) \<and> between (lit m (5/100)) (FFin 1) (dc_limiter_ceiling c)"

definition sane_radio :: "radio_cfg \<Rightarrow> bool" where
  "sane_radio c \<longleftrightarrow> between (FFin 50) (FFin 1000) (rc_low_cut c) \<and> between (FFin 1200) (FFin 12000) (rc_high_cut c)
     \<and> between (FFin 0) (FFin 1) (rc_saturation c) \<and> between (FFin 0) (FFin 1) (rc_destruction c)
     \<and> f_lt (rc_low_cut c) (rc_high_cut c)"

definition sane_gains :: "gains \<Rightarrow> bool" where
  "sane_gains g \<longleftrightarrow> (case ga_master g of Some v \<Rightarrow> between (FFin 0) (FFin 2) v | None \<Rightarrow> True)
     \<and> list_all (\<lambda>(u, v). between (FFin 0) (FFin 2) v) (ga_peers g)"

fun sane_cmd :: "cmd \<Rightarrow> bool" where
  "sane_cmd (ChatCmd t) = (chars_count t \<le> MAX_CHAT_LEN \<and> trim t \<noteq> [])"
| "sane_cmd (SetChannel n) = valid_channel n"
| "sane_cmd (RemoveChannel n) = valid_channel n"
| "sane_cmd _ = True"

fun sane_dev :: "dev_cmd \<Rightarrow> bool" where
  "sane_dev (SetInput n) = (case n of Some s \<Rightarrow> s \<noteq> [] \<and> length s \<le> 256 | None \<Rightarrow> True)"
| "sane_dev (SetOutput n) = (case n of Some s \<Rightarrow> s \<noteq> [] \<and> length s \<le> 256 | None \<Rightarrow> True)"

definition sane :: "fpu \<Rightarrow> engine_handle \<Rightarrow> bool" where
  "sane m h \<longleftrightarrow> list_all sane_cmd (eh_cmds h) \<and> list_all sane_dev (rg_dev_cmds (eh_rig h))
     \<and> sane_dsp m (rg_dsp (eh_rig h)) \<and> sane_radio (rg_radio (eh_rig h)) \<and> sane_gains (rg_gains (eh_rig h))
     \<and> between (FFin 0) (FFin 2) (ec_volume (rg_earcon (eh_rig h))) \<and> rg_bitrate (eh_rig h) \<in> {0, 14000}"

text \<open>What IEEE 754 single precision guarantees of the literals.\<close>

definition rnd32_ok :: "(rat \<Rightarrow> fl) \<Rightarrow> bool" where
  "rnd32_ok r \<longleftrightarrow>
     (\<forall>x. \<bar>x\<bar> \<le> 2 ^ 20 \<longrightarrow> (\<exists>y. r x = FFin y))
     \<and> (\<forall>x x' y y'. x \<le> x' \<and> r x = FFin y \<and> r x' = FFin y' \<longrightarrow> y \<le> y')
     \<and> (\<forall>k :: int. \<bar>k\<bar> \<le> 2 ^ 24 \<longrightarrow> r (of_int k / 2) = FFin (of_int k / 2))"

lemma rnd32_ok_exact: "rnd32_ok FFin"
  by (simp add: rnd32_ok_def)

lemma between_fin [simp]: "between (FFin a) (FFin b) (FFin x) \<longleftrightarrow> a \<le> x \<and> x \<le> b"
  by (auto simp: between_def is_finite_def)

lemma between_lits:
  assumes r: "rnd32_ok (rnd32 m)" and "\<bar>k\<bar> \<le> (2 ^ 20 :: int)" and "0 \<le> lo" and "lo \<le> d" and "d \<le> of_int k / 2"
  shows "between (lit m lo) (FFin (of_int k / 2)) (lit m d)" "\<exists>a. lit m lo = FFin a \<and> a \<le> of_int k / 2"
proof -
  have "(of_int k / 2 :: rat) \<le> 2 ^ 20" using assms(2) by simp
  then obtain a b where ab: "rnd32 m lo = FFin a" "rnd32 m d = FFin b"
    using r assms(3-5) unfolding rnd32_ok_def by (metis abs_of_nonneg order_trans)
  have k: "rnd32 m (of_int k / 2) = FFin (of_int k / 2)" using r assms(2) by (simp add: rnd32_ok_def)
  have "a \<le> b" "b \<le> of_int k / 2" using r ab k assms(4,5) unfolding rnd32_ok_def by blast+
  with ab show "between (lit m lo) (FFin (of_int k / 2)) (lit m d)" "\<exists>a. lit m lo = FFin a \<and> a \<le> of_int k / 2"
    by (auto simp: lit_def)
qed

lemma norm_between:
  assumes "lo = FFin a" and "hi = FFin b" and "a \<le> b" and "between lo hi d"
  shows "between lo hi (norm_f32 v lo hi d)"
proof (cases v)
  case (FFin x)
  with assms show ?thesis by (simp add: norm_f32_def is_finite_def clamp_fin)
qed (use assms(4) in \<open>simp_all add: norm_f32_def is_finite_def\<close>)

lemma lit_zero: "rnd32_ok (rnd32 m) \<Longrightarrow> lit m 0 = FFin 0"
  unfolding rnd32_ok_def lit_def by (elim conjE allE [where x = "0::int"]) simp

lemma sane_dsp_default:
  assumes "rnd32_ok (rnd32 m)"
  shows "sane_dsp m (dsp_default m)"
  using between_lits(1) [OF assms, of 1 0 "15/1000"] between_lits(1) [OF assms, of 2 "1/100" "15/100"]
    between_lits(1) [OF assms, of 8 "1/10" "14/10"] between_lits(1) [OF assms, of 2 "5/100" "97/100"] lit_zero [OF assms]
  by (simp add: sane_dsp_def dsp_default_def)

lemma sane_dsp_normal:
  assumes "rnd32_ok (rnd32 m)"
  shows "sane_dsp m (normalize_dsp m c)"
proof -
  note d = sane_dsp_default [OF assms, unfolded sane_dsp_def dsp_default_def, simplified]
  obtain a1 where a1: "lit m (1/100) = FFin a1" "a1 \<le> 1" using between_lits(2) [OF assms, of 2 "1/100" 1] by auto
  obtain a2 where a2: "lit m (1/10) = FFin a2" "a2 \<le> 4" using between_lits(2) [OF assms, of 8 "1/10" 4] by auto
  obtain a3 where a3: "lit m (5/100) = FFin a3" "a3 \<le> 1" using between_lits(2) [OF assms, of 2 "5/100" 1] by auto
  show ?thesis unfolding sane_dsp_def normalize_dsp_def
    using norm_between [OF HOL.refl HOL.refl] norm_between [OF a1(1) HOL.refl a1(2)] norm_between [OF a2(1) HOL.refl a2(2)]
      norm_between [OF a3(1) HOL.refl a3(2)] d a1 a2 a3 by simp
qed

lemma sane_radio_default: "rnd32_ok (rnd32 m) \<Longrightarrow> sane_radio (radio_default m)"
  using between_lits(1) [of m 2 0 "35/100"] between_lits(1) [of m 2 0 "15/100"] lit_zero [of m]
  by (simp add: sane_radio_def radio_default_def)

lemma sane_radio_normal:
  assumes "rnd32_ok (rnd32 m)"
  shows "sane_radio (normalize_radio m c)"
proof -
  note d = sane_radio_default [OF assms, unfolded sane_radio_def radio_default_def, simplified]
  have "f_lt x y" if "between (FFin 50) (FFin 1000) x" "between (FFin 1200) (FFin 12000) y" for x y
    using that by (cases x; cases y) (auto simp: between_def is_finite_def)
  then show ?thesis unfolding sane_radio_def normalize_radio_def
    using norm_between [OF HOL.refl HOL.refl] d by simp
qed

lemma clamp_vol_between: "between (FFin 0) (FFin 2) (clamp_vol v)"
  by (cases v) (auto simp: clamp_vol_def is_finite_def f_clamp_def)

lemma clamped_again: "between (FFin a) (FFin b) v \<Longrightarrow> between (FFin a) (FFin b) (f_clamp (FFin a) (FFin b) v)"
  by (simp add: f_clamp_def between_def)

lemma volume_between: "between (FFin 0) (FFin 2) (ec_volume (set_volume v e))"
  by (cases v) (auto simp: set_volume_def is_finite_def f_clamp_def)

lemma live_device_sane: "case live_device n of Some s \<Rightarrow> s \<noteq> [] \<and> length s \<le> 256 | None \<Rightarrow> True"
  by (auto simp: live_device_def trimmed_def split: option.splits)

lemma update_all: "list_all (\<lambda>(u, v). P v) m \<Longrightarrow> P v \<Longrightarrow> list_all (\<lambda>(u, v). P v) (AList.update k v m)"
  by (induction m) auto

lemma sane_gains_peer:
  "sane_gains g \<Longrightarrow> between (FFin 0) (FFin 2) v \<Longrightarrow> sane_gains (set_peer u v g)"
  by (simp add: sane_gains_def set_peer_def update_all clamped_again)

lemma sane_gains_master: "sane_gains g \<Longrightarrow> between (FFin 0) (FFin 2) v \<Longrightarrow> sane_gains (set_master v g)"
  by (auto simp: sane_gains_def set_master_def clamped_again)

text \<open>Every method of the handle, with arguments as the commands pass them, keeps it sane.\<close>

lemma sane_methods:
  assumes "sane m h"
  shows "sane m (eh_toggle_transmit h)" "sane m (eh_set_transmit on h)" "sane m (eh_rotate_key h)"
    "sane m (eh_reconnect h)" "sane m (eh_set_monitor on h)" "sane m (eh_set_earcon on h)"
    "sane m (eh_set_low_bandwidth on h)" "sane m (eh_set_earcon_volume v h)"
    "sane m (eh_set_input_device (live_device n) h)" "sane m (eh_set_output_device (live_device n) h)"
    "sane m (eh_set_master_volume (clamp_vol v) h)" "sane m (eh_set_peer_volume u (clamp_vol v) h)"
    "valid_channel c \<Longrightarrow> sane m (eh_set_channel c h)" "valid_channel c \<Longrightarrow> sane m (eh_remove_channel c h)"
    "bounded_chat t = Some t' \<Longrightarrow> sane m (eh_send_chat t' h)"
    "rnd32_ok (rnd32 m) \<Longrightarrow> sane m (eh_set_dsp (normalize_dsp m d) h)"
    "rnd32_ok (rnd32 m) \<Longrightarrow> sane m (eh_set_radio (normalize_radio m r) h)"
  using assms live_device_sane [of n] sane_gains_peer [OF _ clamp_vol_between] sane_gains_master [OF _ clamp_vol_between]
    volume_between sane_dsp_normal sane_radio_normal
  by (auto simp: sane_def send_cmd_def on_rig_def set_enabled_def bounded_chat_def Let_def eh_toggle_transmit_def
      eh_set_transmit_def eh_rotate_key_def eh_reconnect_def eh_set_monitor_def eh_set_earcon_def
      eh_set_low_bandwidth_def eh_set_earcon_volume_def eh_set_input_device_def eh_set_output_device_def
      eh_set_master_volume_def eh_set_peer_volume_def eh_set_channel_def eh_remove_channel_def
      eh_send_chat_def eh_set_dsp_def eh_set_radio_def split: if_splits)

lemma sane_start:
  assumes "rnd32_ok (rnd32 (sv_fpu v))" and "client_start v cfg = (Inr (h, rest), fx)"
  shows "sane (sv_fpu v) h"
  using assms sane_dsp_default [OF assms(1)] sane_radio_default [OF assms(1)]
  by (auto simp: client_start_def setup_audio_def guard_new_def guard_disarm_def guard_drop_def abort_def Let_def
      sane_def sane_gains_def gains_new_def earcon_new_def split: sum.splits)

definition shell_sane :: "fpu \<Rightarrow> shell \<Rightarrow> bool" where
  "shell_sane m sh \<longleftrightarrow> (case sh_engine sh of Some h \<Rightarrow> sane m h | None \<Rightarrow> True)"

lemma shell_sane_on_engine: "shell_sane m sh \<Longrightarrow> (\<And>h. sane m h \<Longrightarrow> sane m (f h)) \<Longrightarrow> shell_sane m (on_engine f sh)"
  by (auto simp: shell_sane_def on_engine_def split: option.splits)

lemma connect_sane:
  assumes "rnd32_ok (rnd32 (sv_fpu v))" and "shell_sane (sv_fpu v) sh" and "connect v a sh = (r, sh', fx)"
  shows "shell_sane (sv_fpu v) sh'"
  using assms sane_start [OF assms(1)]
  by (auto simp: connect_def connect_begin_def connect_end_def put_engine_def put_serverless_def shell_sane_def
      split: sum.splits option.splits prod.splits if_splits)

lemma same_engine_sane: "shell_sane m sh \<Longrightarrow> sh_engine sh' = sh_engine sh \<Longrightarrow> shell_sane m sh'"
  by (simp add: shell_sane_def)

lemma invoke_sane:
  assumes r: "rnd32_ok (rnd32 m)" and "shell_sane m sh" and "invoke m c sh = (rep, sh', fx)"
  shows "shell_sane m sh'"
proof (cases c)
  case (Connect v a)
  with assms connect_sane [of "v\<lparr>sv_fpu := m\<rparr>" sh a] show ?thesis by (auto split: prod.splits sum.splits)
next
  case (SlOffer v n)
  with assms show ?thesis
    by (auto simp: of_code_def serverless_offer_def put_serverless_def shell_sane_def
        split: prod.splits sum.splits if_splits)
next
  case (SlAcceptOffer v n code)
  with assms show ?thesis
    by (auto simp: of_code_def serverless_accept_offer_def put_serverless_def shell_sane_def
        split: prod.splits sum.splits if_splits)
next
  case Disconnect
  with assms show ?thesis by (auto simp: disconnect_def slot_defs shell_sane_def split: option.splits prod.splits)
qed (use assms sane_methods shell_sane_on_engine in
      \<open>auto simp: done_with_def of_unit_def command_defs intro: same_engine_sane
        split: option.splits prod.splits sum.splits if_splits\<close>)

lemma invoke_all_sane:
  "rnd32_ok (rnd32 m) \<Longrightarrow> shell_sane m sh \<Longrightarrow> shell_sane m (fst (invoke_all m cs sh))"
proof (induction cs arbitrary: sh)
  case (Cons c cs)
  obtain rep sh1 fx1 where s: "invoke m c sh = (rep, sh1, fx1)" by (cases "invoke m c sh")
  from Cons.IH [OF Cons.prems(1) invoke_sane [OF Cons.prems s]] s show ?case by (auto split: prod.splits)
qed simp


section \<open>Failing commands\<close>

lemma failed_command_state:
  assumes "invoke m c sh = (Failed e, sh', fx)"
  shows "sh_engine sh' = sh_engine sh \<and> sh_control sh' = sh_control sh \<and> (sh' = sh
       \<or> (\<exists>v a cfg. c = Connect v a \<and> connect_config a = Inr cfg \<and> sh_engine sh = None
           \<and> sh' = sh\<lparr>sh_serverless := None\<rparr> \<and> fst (client_start (v\<lparr>sv_fpu := m\<rparr>) cfg) = Inl e))"
proof (cases c)
  case (Connect v a)
  then have f: "connect (v\<lparr>sv_fpu := m\<rparr>) a sh = (Inl e, sh', fx)"
    using assms by (auto split: prod.splits sum.splits)
  show ?thesis
  proof (cases "connect_config a")
    case (Inl e')
    with f show ?thesis by (auto simp: connect_def connect_begin_def)
  next
    case (Inr cfg)
    show ?thesis
    proof (cases "sh_engine sh")
      case (Some h)
      with f Inr show ?thesis by (auto simp: connect_def connect_begin_def)
    next
      case None
      with f Inr Connect show ?thesis
        by (auto simp: connect_def connect_begin_def connect_end_def put_serverless_def put_engine_def
            split: prod.splits sum.splits)
    qed
  qed
next
  case (SlOffer v n)
  with assms show ?thesis
    by (auto simp: of_code_def serverless_offer_def split: prod.splits sum.splits if_splits)
next
  case (SlAcceptOffer v n code)
  with assms show ?thesis
    by (auto simp: of_code_def serverless_accept_offer_def split: prod.splits sum.splits if_splits)
qed (use assms in \<open>auto simp: done_with_def of_unit_def command_defs split: option.splits prod.splits sum.splits if_splits\<close>)


text \<open>Claim C26. A command that fails changes nothing it should not: the engine, its settings and the control server
  are as before, and so is the serverless session, except that a connect past its validation has
  ended it; no audio rig is left over.\<close>

theorem failed_command_harmless:
  assumes "invoke m c sh = (Failed e, sh', fx)"
  shows "sh_engine sh' = sh_engine sh \<and> sh_control sh' = sh_control sh \<and> opens fx = running sh' - running sh
    \<and> (sh' = sh
       \<or> (\<exists>v a cfg. c = Connect v a \<and> connect_config a = Inr cfg \<and> sh_engine sh = None
           \<and> sh' = sh\<lparr>sh_serverless := None\<rparr> \<and> fst (client_start (v\<lparr>sv_fpu := m\<rparr>) cfg) = Inl e))"
  using failed_command_state [OF assms] invoke_opens [OF assms] by blast

section \<open>What the shell lets through and the server\<close>

text \<open>Claim C25. From the form to the seat: a connection form that passes the shell's validation makes the client
  send a join that the server, given its token and a free seat, grants exactly when the display name
  fits in 64 bytes; a longer one of up to 64 characters is refused as bad input.\<close>

theorem connect_joins:
  assumes cfg: "connect_config a = Inr cfg" and "sk_me sk = None" and "length (sv_hexenc v (sv_secret v)) = 32"
    and "check (x_mac x) (x_hex x) (auth s) (ec_room cfg) (ec_token cfg)"
    and free: "seat_free s (ec_room cfg) (ec_user_id cfg)"
    and run: "on_msg x now secs tx (join_of v cfg) s sk = (s', sk', fl)"
  shows "if length (ec_name cfg) \<le> MAX_NAME
         then fl = Cont \<and> sk_me sk' = Some (ec_room cfg, ec_user_id cfg)
           \<and> (\<exists>r. map_of (rooms s') (ec_room cfg) = Some r \<and> map_of r (ec_user_id cfg)
                 = Some \<lparr>ph_name = ec_name cfg, ph_tx = tx, ph_secret = sv_hexenc v (sv_secret v)\<rparr>)
         else fl = Brk \<and> sk' = sk \<and> s' = try_send tx (SError ''bad_input'' ''field empty or too long'') s"
proof -
  have lens: "len_ok (ec_room cfg) MAX_ID" "len_ok (ec_user_id cfg) MAX_ID" "ec_name cfg \<noteq> []"
    "case ec_token cfg of Some t \<Rightarrow> length t \<le> MAX_TOKEN | None \<Rightarrow> True"
    using cfg by (auto simp: connect_config_def Let_def valid_id_def valid_user_id_def valid_name_def valid_hex_def
        clean_token_def len_ok_def MAX_ID_def MAX_TOKEN_def split: if_splits sum.splits option.splits)
  have sec: "len_ok (sv_hexenc v (sv_secret v)) MAX_SECRET"
    using assms(3) by (auto simp: len_ok_def MAX_SECRET_def)
  show ?thesis
  proof (cases "length (ec_name cfg) \<le> MAX_NAME")
    case False
    with run lens assms(2) show ?thesis by (auto simp: join_of_def on_join_def len_ok_def)
  next
    case True
    with lens have "len_ok (ec_name cfg) MAX_NAME" by (simp add: len_ok_def)
    from join_granted [OF assms(2) lens(1,2) this sec lens(4) assms(4) free, of secs tx] run True show ?thesis
      by (auto simp: join_of_def)
  qed
qed

section \<open>Examples\<close>

definition demo_env :: start_env where
  "demo_env =
     \<lparr>sv_fpu = exact_fpu, sv_devices = (\<lambda>_ _. Inr ()), sv_api = Inr (), sv_connect = (\<lambda>_ _. Inr ()),
      sv_join_sent = Inr (), sv_secret = replicate 16 (CHR ''k''), sv_hexenc = (\<lambda>b. b @ b), sv_now = 0\<rparr>"

definition demo_form :: "str \<Rightarrow> connect_args" where
  "demo_form name =
     \<lparr>ca_server = '' wss://example.org/ws'', ca_room = ''squad-1'', ca_user_id = ''ann.1'', ca_name = name,
      ca_token = Some '' '', ca_cert = None, ca_input = None, ca_output = None, ca_relay = None\<rparr>"

definition demo_cfg :: "str \<Rightarrow> engine_config" where
  "demo_cfg name =
     \<lparr>ec_server = ''wss://example.org/ws'', ec_room = ''squad-1'', ec_user_id = ''ann.1'', ec_name = name,
      ec_token = None, ec_cert = None, ec_input = None, ec_output = None, ec_relay = False\<rparr>"

definition umlauts :: str where "umlauts = concat (replicate 33 [CHR 0xC3, CHR 0xBC])"

lemma demo_config:
  "connect_config (demo_form '' Ann '') = Inr (demo_cfg ''Ann'')"
  "connect_config (demo_form umlauts) = Inr (demo_cfg umlauts)"
  by code_simp+

lemma demo_started: "\<exists>h rest. client_start (demo_env\<lparr>sv_fpu := exact_fpu\<rparr>) (demo_cfg name) = (Inr (h, rest), [OpenRig])"
  by (simp add: client_start_def setup_audio_def demo_env_def guard_new_def guard_disarm_def guard_drop_def Let_def)

definition demo_commands :: "command list" where
  "demo_commands =
     [Connect demo_env (demo_form '' Ann ''), SetMasterVolume FNan, SetPeerVolume ''bob'' (FInf False),
      SetDsp (dsp_default exact_fpu\<lparr>dc_comp_ratio := FInf True\<rparr>), SetChannelTo '' Alpha '']"


theorem failed_command_harmless_witness:
  "invoke exact_fpu (SetChannelTo ''  '') shell_init = (Failed E_CHANNEL, shell_init, [])
   \<and> sh_engine shell_init = sh_engine shell_init"
proof -
  have "\<not> valid_channel (trim ''  '')" by code_simp
  then have r: "invoke exact_fpu (SetChannelTo ''  '') shell_init = (Failed E_CHANNEL, shell_init, [])"
    by (simp add: set_channel_cmd_def of_unit_def)
  from failed_command_harmless [OF r] r show ?thesis by blast
qed

definition demo_server :: app_state where
  "demo_server = \<lparr>rooms = [], auth = Open, turn = None, sessions = [], rate = [], ws_idle = 60,
     rekeys = [], chans = (\<lambda>c. \<lparr>ch_queue = [], ch_open = False\<rparr>)\<rparr>"

definition demo_x :: ext where
  "demo_x = \<lparr>x_mac = (\<lambda>k m. m), x_mac1 = (\<lambda>k m. m), x_hex = id, x_b64 = id,
     x_from_str = (\<lambda>t. Inl ''bad''), x_value = (\<lambda>t. None)\<rparr>"

theorem connect_joins_witness:
  "sk_me (fst (snd (on_msg demo_x 0 0 7 (join_of demo_env (demo_cfg ''Ann'')) demo_server \<lparr>sk_me = None, sk_win = (0, 0)\<rparr>)))
     = Some (''squad-1'', ''ann.1'')
   \<and> fst (snd (on_msg demo_x 0 0 7 (join_of demo_env (demo_cfg umlauts)) demo_server \<lparr>sk_me = None, sk_win = (0, 0)\<rparr>))
     = \<lparr>sk_me = None, sk_win = (0, 0)\<rparr>"
proof -
  have len: "length ''Ann'' \<le> MAX_NAME" "\<not> length umlauts \<le> MAX_NAME" by (code_simp, code_simp)
  have side: "length (sv_hexenc demo_env (sv_secret demo_env)) = 32" "seat_free demo_server u n"
    "check (x_mac demo_x) (x_hex demo_x) (auth demo_server) r t" for r t u n
    by (simp_all add: demo_env_def demo_server_def check_def seat_free_def)
  let ?sk = "\<lparr>sk_me = None, sk_win = (0, 0)\<rparr> :: sock"
  have sk: "sk_me ?sk = None" by simp
  obtain s1 k1 f1 where a: "on_msg demo_x 0 0 7 (join_of demo_env (demo_cfg ''Ann'')) demo_server ?sk = (s1, k1, f1)"
    by (cases "on_msg demo_x 0 0 7 (join_of demo_env (demo_cfg ''Ann'')) demo_server ?sk")
  obtain s2 k2 f2 where b: "on_msg demo_x 0 0 7 (join_of demo_env (demo_cfg umlauts)) demo_server ?sk = (s2, k2, f2)"
    by (cases "on_msg demo_x 0 0 7 (join_of demo_env (demo_cfg umlauts)) demo_server ?sk")
  have n: "ec_name (demo_cfg n) = n" "ec_room (demo_cfg n) = ''squad-1''" "ec_user_id (demo_cfg n) = ''ann.1''" for n
    by (simp_all add: demo_cfg_def)
  show ?thesis
    using connect_joins [OF demo_config(1) sk side(1) side(3) side(2) a] connect_joins [OF demo_config(2) sk side(1) side(3) side(2) b]
      len a b by (simp add: n)
qed

section \<open>Overlapping commands\<close>

text \<open>\<open>connect\<close> looks at the engine slot only before it waits: of two overlapping calls both pass, and the
  second to finish ends the session of the first.\<close>

lemma connect_overlap:
  "\<exists>h1 h2 sh1 sh2. connect_begin (demo_form '' Ann '') shell_init = (Inr (demo_cfg ''Ann''), shell_init, [])
     \<and> connect_end (demo_env\<lparr>sv_fpu := exact_fpu\<rparr>) (demo_cfg ''Ann'') shell_init = (Inr (), sh1, [OpenRig])
     \<and> connect_end (demo_env\<lparr>sv_fpu := exact_fpu\<rparr>) (demo_cfg ''Ann'') sh1 = (Inr (), sh2, [OpenRig, StopRig])
     \<and> sh_engine sh1 = Some h1 \<and> sh_engine sh2 = Some h2"
  using demo_started [of "''Ann''"]
  by (auto simp: connect_begin_def connect_end_def demo_config put_engine_def put_serverless_def eh_drop_def
      shell_init_def split: prod.splits sum.splits)

text \<open>A serverless session opened while the engine transmits takes over the key: its release reaches the
  serverless session only, and the engine goes on transmitting.\<close>

lemma release_misrouted:
  assumes "sh_engine sh = Some h" and "sh_serverless sh = Some s"
  shows "sh_engine (fst (set_transmit False sh)) = Some h"
  using assms by (simp add: set_transmit_def split: prod.splits)

end
