(* ===== verification/Web.thy ===== *)
theory Web
  imports Server Floats
begin

text \<open>
  The HTTP side of the server (\<open>server/init/src/main.rs\<close>, \<open>i18n.rs\<close>): start-up decisions, the session
  endpoints, language and display-size choice, HTML escaping, the changelog renderer, the download
  manifest and the static assets.  The pages' texts and layouts follow in \<open>Texts\<close> and \<open>Pages\<close>.

  The environment is a function from names to values; a header is its readable text, if any; a
  response is a status with a JSON body.
\<close>

section \<open>Start-up\<close>

definition flag_on :: "str \<Rightarrow> bool" where
  "flag_on v = (let t = trim v in t = ''1'' \<or> eq_nocase t ''true'')"

type_synonym env_vars = "str \<Rightarrow> str option"

definition env_flag :: "env_vars \<Rightarrow> str \<Rightarrow> bool" where
  "env_flag env name = (case env name of Some v \<Rightarrow> flag_on v | None \<Rightarrow> False)"

definition public_base :: "env_vars \<Rightarrow> str" where
  "public_base env = (case env ''PUBLIC_BASE'' of Some v \<Rightarrow> v | None \<Rightarrow> ''https://subraum.cc'')"

definition public_ws :: "env_vars \<Rightarrow> str" where
  "public_ws env = (case env ''PUBLIC_WS'' of Some v \<Rightarrow> v | None \<Rightarrow> ''wss://subraum.cc/ws'')"

text \<open>\<open>u16::from_str\<close>: an optional plus sign and digits, within range.\<close>

fun digits_val :: "nat \<Rightarrow> str \<Rightarrow> nat option" where
  "digits_val acc [] = Some acc"
| "digits_val acc (c # cs) = (if is_digit_c c then digits_val (10 * acc + (byte c - 48)) cs else None)"

definition parse_u16 :: "str \<Rightarrow> nat option" where
  "parse_u16 s =
     (let ds = (case s of c # cs \<Rightarrow> if c = CHR ''+'' then cs else s | [] \<Rightarrow> [])
      in if ds = [] then None
         else (case digits_val 0 ds of Some n \<Rightarrow> if n < 2 ^ 16 then Some n else None | None \<Rightarrow> None))"

definition listen_port :: "env_vars \<Rightarrow> nat" where
  "listen_port env = (case Option.bind (env ''PORT'') parse_u16 of Some p \<Rightarrow> p | None \<Rightarrow> 8080)"

datatype startup =
    Refuse str
  | PrintToken str
  | OpenNotice
  | ServePlain auth_config str nat
  | ServeTls auth_config nat

definition main_plan ::
  "(bytes \<Rightarrow> bytes \<Rightarrow> bytes) \<Rightarrow> (bytes \<Rightarrow> str) \<Rightarrow> env_vars \<Rightarrow> str list \<Rightarrow> startup" where
  "main_plan mac hexenc env args =
     (case auth_from_env env of
        Inl e \<Rightarrow> Refuse e
      | Inr cfg \<Rightarrow>
          if 1 < length args \<and> args ! 1 = ''mint'' then
            (let room = (if 2 < length args then args ! 2 else [])
             in case token_for mac hexenc cfg room of Some t \<Rightarrow> PrintToken t | None \<Rightarrow> OpenNotice)
          else if env_flag env ''TLS_DISABLE'' then
            ServePlain cfg (if env_flag env ''ALLOW_PLAIN_PUBLIC_BIND'' then ''0.0.0.0'' else ''127.0.0.1'') (listen_port env)
          else ServeTls cfg (listen_port env))"

text \<open>The origins CORS lets through; \<open>hv\<close> says whether a text is a header value.\<close>

definition cors_origins :: "(str \<Rightarrow> bool) \<Rightarrow> env_vars \<Rightarrow> str list" where
  "cors_origins hv env =
     filter hv [''https://subraum.cc'', ''http://tauri.localhost'', ''https://tauri.localhost'',
                ''tauri://localhost'', ''http://localhost:1420'']
     @ (case env ''EXTRA_CORS_ORIGINS'' of
          Some extra \<Rightarrow> filter hv (map trim (split_on (CHR '','') extra))
        | None \<Rightarrow> [])"

section \<open>The session endpoints\<close>

record response =
  rs_status :: nat
  rs_body :: json

definition error_response :: "nat \<Rightarrow> str \<Rightarrow> response" where
  "error_response status e = \<lparr>rs_status = status, rs_body = JObj [(''error'', JStr e)]\<rparr>"

definition json_opt :: "str option \<Rightarrow> json" where
  "json_opt t = (case t of Some s \<Rightarrow> JStr s | None \<Rightarrow> JNull)"

text \<open>One HTTP request: the peer, the forwarding header and the time of the clock.\<close>

record request =
  rq_peer :: peer_addr
  rq_xff :: "str option"
  rq_now :: nat

text \<open>The random draws of \<open>Sessions::create\<close>: room bytes, PIN number, codes.\<close>

record draws =
  dr_room :: bytes
  dr_pin :: nat
  dr_code :: "nat \<Rightarrow> str"

definition create_session ::
  "ext \<Rightarrow> env_vars \<Rightarrow> request \<Rightarrow> draws \<Rightarrow> app_state \<Rightarrow> (response \<times> app_state) option" where
  "create_session x env rq dr s =
     (let (ok, rl) = allow (rq_now rq) (client_ip (rq_xff rq) (rq_peer rq)) RL_CREATE_MAX RL_WINDOW (rate s);
          s1 = s\<lparr>rate := rl\<rparr>
      in if \<not> ok then Some (error_response 429 ''rate_limited'', s1)
         else map_option (\<lambda>((code, pin, room, token), m).
           (\<lparr>rs_status = 200, rs_body = JObj
              [(''code'', JStr code), (''pin'', JStr pin), (''room'', JStr room), (''token'', json_opt token),
               (''ws'', JStr (public_ws env)), (''link'', JStr (public_base env @ ''/j/'' @ code))]\<rparr>,
            s1\<lparr>sessions := m\<rparr>))
           (create (x_hex x) (token_for (x_mac x) (x_hex x) (auth s1)) (dr_room dr) (dr_pin dr) (dr_code dr) (rq_now rq)
              (sessions s1)))"

definition join_session ::
  "env_vars \<Rightarrow> request \<Rightarrow> str \<Rightarrow> json \<Rightarrow> app_state \<Rightarrow> response \<times> app_state" where
  "join_session env rq code body s =
     (let (ok, rl) = allow (rq_now rq) (client_ip (rq_xff rq) (rq_peer rq)) RL_JOIN_MAX RL_WINDOW (rate s);
          s1 = s\<lparr>rate := rl\<rparr>;
          pin = (case Option.bind (jget ''pin'' body) as_str of Some p \<Rightarrow> p | None \<Rightarrow> [])
      in if \<not> ok then (error_response 429 ''rate_limited'', s1)
         else if \<not> len_ok code MAX_CODE \<or> \<not> len_ok pin MAX_PIN then (error_response 404 ''not_found'', s1)
         else (case join_at code pin (rq_now rq) (sessions s1) of
                 (r, m) \<Rightarrow>
                   (case r of
                      Inr (room, token) \<Rightarrow>
                        \<lparr>rs_status = 200, rs_body = JObj [(''room'', JStr room), (''token'', json_opt token),
                            (''ws'', JStr (public_ws env))]\<rparr>
                    | Inl NotFound \<Rightarrow> error_response 404 ''not_found''
                    | Inl Locked \<Rightarrow> error_response 429 ''locked''
                    | Inl BadPin \<Rightarrow> error_response 403 ''bad_pin'', s1\<lparr>sessions := m\<rparr>)))"

section \<open>Language and display size\<close>

datatype ui = Normal | Large | Larger
datatype lang = En | De | It | Es | Fr

fun ui_code :: "ui \<Rightarrow> str" where
  "ui_code Normal = ''md''" | "ui_code Large = ''lg''" | "ui_code Larger = ''xl''"

definition ui_parse :: "str \<Rightarrow> ui option" where
  "ui_parse code =
     (let t = trim code
      in if t = ''md'' then Some Normal else if t = ''lg'' then Some Large else if t = ''xl'' then Some Larger else None)"

definition ui_detect :: "str option \<Rightarrow> str option \<Rightarrow> ui" where
  "ui_detect query cookie =
     (case Option.bind query ui_parse of
        Some u \<Rightarrow> u
      | None \<Rightarrow> (case Option.bind cookie ui_parse of Some u \<Rightarrow> u | None \<Rightarrow> Normal))"

fun lang_code :: "lang \<Rightarrow> str" where
  "lang_code En = ''en''" | "lang_code De = ''de''" | "lang_code It = ''it''"
| "lang_code Es = ''es''" | "lang_code Fr = ''fr''"

text \<open>\<open>get(0..2)\<close> is \<open>None\<close> for a shorter text or in the middle of a character.\<close>

definition lang_parse :: "str \<Rightarrow> lang option" where
  "lang_parse code =
     (let t = ascii_lower (trim code)
      in if length t < 2 \<or> (2 < length t \<and> is_cont (t ! 2)) then None
         else List.find (\<lambda>l. lang_code l = take 2 t) [En, De, It, Es, Fr])"

fun find_map :: "('a \<Rightarrow> 'b option) \<Rightarrow> 'a list \<Rightarrow> 'b option" where
  "find_map f [] = None"
| "find_map f (x # xs) = (case f x of Some y \<Rightarrow> Some y | None \<Rightarrow> find_map f xs)"

definition lang_detect :: "str option \<Rightarrow> str option \<Rightarrow> lang" where
  "lang_detect query accept =
     (case Option.bind query lang_parse of
        Some l \<Rightarrow> l
      | None \<Rightarrow>
          (case Option.bind accept (\<lambda>a. find_map (\<lambda>part. lang_parse (hd (split_on (CHR '';'') part))) (split_on (CHR '','') a)) of
             Some l \<Rightarrow> l
           | None \<Rightarrow> En))"

definition query_arg :: "str \<Rightarrow> str option \<Rightarrow> str option" where
  "query_arg key q = Option.bind q (\<lambda>s. find_map (strip_prefix key) (split_on (CHR ''&'') s))"

definition lang_of :: "str option \<Rightarrow> str option \<Rightarrow> lang" where
  "lang_of q accept = lang_detect (query_arg ''lang='' q) accept"

definition UI_COOKIE :: str where "UI_COOKIE = ''subraum_ui''"

definition ui_of :: "str option \<Rightarrow> str option \<Rightarrow> ui \<times> bool" where
  "ui_of q cookies =
     (let qui = query_arg ''ui='' q;
          cookie = Option.bind cookies (\<lambda>c. find_map (\<lambda>kv. strip_prefix (UI_COOKIE @ ''='') (trim kv)) (split_on (CHR '';'') c))
      in (ui_detect qui cookie, qui \<noteq> None))"

definition ui_cookie :: "env_vars \<Rightarrow> ui \<Rightarrow> str" where
  "ui_cookie env u =
     UI_COOKIE @ ''='' @ ui_code u @ ''; Path=/; Max-Age=31536000; SameSite=Lax; HttpOnly''
     @ (if prefix ''https://'' (public_base env) then ''; Secure'' else [])"

text \<open>A page: the cookie it sets, if any, and its text.\<close>

definition page :: "env_vars \<Rightarrow> str \<Rightarrow> bool \<Rightarrow> ui \<Rightarrow> str option \<times> str" where
  "page env html set_cookie u = (if set_cookie then Some (ui_cookie env u) else None, html)"

section \<open>Escaping\<close>

definition esc :: "str \<Rightarrow> str" where
  "esc s =
     replace_c (CHR 0x27) ''&#x27;'' (replace_c (CHR 0x22) ''&quot;'' (replace_c (CHR ''>'') ''&gt;''
       (replace_c (CHR ''<'') ''&lt;'' (replace_c (CHR ''&'') ''&amp;'' s))))"

text \<open>The code shown on the page of a share link.\<close>

definition landing_code :: "str \<Rightarrow> str" where
  "landing_code code = esc (chars_take 32 code)"

section \<open>The changelog\<close>

definition md_esc :: "str \<Rightarrow> str" where
  "md_esc s = replace_c (CHR ''>'') ''&gt;'' (replace_c (CHR ''<'') ''&lt;'' (replace_c (CHR ''&'') ''&amp;'' s))"

definition count_c :: "char \<Rightarrow> str \<Rightarrow> nat" where
  "count_c c s = length (filter (\<lambda>x. x = c) s)"

lemma count_c_simps [simp]:
  "count_c c [] = 0" "count_c c (x # xs) = (if x = c then 1 else 0) + count_c c xs"
  "count_c c (xs @ ys) = count_c c xs + count_c c ys"
  by (auto simp: count_c_def)

text \<open>Every round of the loops of \<open>inline\<close> takes two marks away and adds none.\<close>

function code_spans :: "str \<Rightarrow> str" where
  "code_spans out =
     (case split_once ''`'' out of
        None \<Rightarrow> out
      | Some (a, r) \<Rightarrow>
          (case split_once ''`'' r of
             None \<Rightarrow> out
           | Some (code, rest) \<Rightarrow> code_spans (a @ ''<code>'' @ code @ ''</code>'' @ rest)))"
  by pat_completeness auto
termination
  by (relation "measure (count_c (CHR ''`''))") (auto dest!: split_once_append)

function strong_spans :: "str \<Rightarrow> str" where
  "strong_spans out =
     (case split_once ''**'' out of
        None \<Rightarrow> out
      | Some (a, r) \<Rightarrow>
          (case split_once ''**'' r of
             None \<Rightarrow> out
           | Some (strong, rest) \<Rightarrow> strong_spans (a @ ''<strong>'' @ strong @ ''</strong>'' @ rest)))"
  by pat_completeness auto
termination
  by (relation "measure (count_c (CHR ''*''))") (auto dest!: split_once_append)

declare code_spans.simps [simp del] strong_spans.simps [simp del]

definition inline :: "str \<Rightarrow> str" where
  "inline s = strong_spans (code_spans (md_esc s))"

text \<open>\<open>str::lines\<close>: what follows the last newline is a line only if it is not empty.\<close>

definition strip_cr :: "str \<Rightarrow> str" where
  "strip_cr l = (if l \<noteq> [] \<and> List.last l = CHR 0x0D then butlast l else l)"

definition lines :: "str \<Rightarrow> str list" where
  "lines s =
     (let ws = split_on (CHR 0x0A) s
      in map strip_cr (butlast ws) @ (if List.last ws = [] then [] else [List.last ws]))"

text \<open>Cut at the last occurrence (\<open>rfind\<close>).\<close>

definition rsplit_once :: "str \<Rightarrow> str \<Rightarrow> (str \<times> str) option" where
  "rsplit_once pat s = map_option (\<lambda>(a, b). (rev b, rev a)) (split_once (rev pat) (rev s))"

definition close_ul :: "str \<times> bool \<Rightarrow> str" where
  "close_ul st = (case st of (html, in_ul) \<Rightarrow> if in_ul then html @ ''</ul>'' else html)"

definition md_line :: "str \<Rightarrow> str \<times> bool \<Rightarrow> str \<times> bool" where
  "md_line raw st = (case st of (html, in_ul) \<Rightarrow>
     (let line = trim_end raw
      in case strip_prefix ''## '' line of
           Some rest \<Rightarrow> (close_ul st @ ''<h2 class=\"ver\">'' @ inline rest @ ''</h2>'', False)
         | None \<Rightarrow>
        (case strip_prefix ''### '' line of
           Some rest \<Rightarrow> (close_ul st @ ''<h3>'' @ inline rest @ ''</h3>'', False)
         | None \<Rightarrow>
        (if strip_prefix ''# '' line \<noteq> None then st
         else (case strip_prefix ''- '' line of
           Some rest \<Rightarrow> ((if in_ul then html else html @ ''<ul>'') @ ''<li>'' @ inline rest @ ''</li>'', True)
         | None \<Rightarrow>
             if trim line = [] then (close_ul st, False)
             else if in_ul then
               (case rsplit_once ''</li>'' html of
                  Some (pre, post) \<Rightarrow> (pre @ '' '' @ inline (trim line) @ ''</li>'' @ post, in_ul)
                | None \<Rightarrow> st)
             else (html @ ''<p class=\"muted\">'' @ inline (trim line) @ ''</p>'', in_ul))))))"

definition render_changelog :: "str \<Rightarrow> str" where
  "render_changelog md = close_ul (fold md_line (lines md) (''<h1>Changelog</h1>'', False))"

section \<open>Downloads and assets\<close>

record artifact =
  ar_platform :: str
  ar_arch :: str
  ar_file :: str
  ar_size :: nat
  ar_sha256 :: str

definition str_member :: "str \<Rightarrow> json \<Rightarrow> str option" where
  "str_member k v = Option.bind (jget k v) as_str"

definition artifact_of :: "json \<Rightarrow> artifact option" where
  "artifact_of v =
     (case str_member ''platform'' v of None \<Rightarrow> None | Some p \<Rightarrow>
     (case str_member ''file'' v of None \<Rightarrow> None | Some f \<Rightarrow>
        Some \<lparr>ar_platform = p,
              ar_arch = (case str_member ''arch'' v of Some a \<Rightarrow> a | None \<Rightarrow> []),
              ar_file = f,
              ar_size = (case Option.bind (jget ''size'' v) as_u64 of Some n \<Rightarrow> n | None \<Rightarrow> 0),
              ar_sha256 = (case str_member ''sha256'' v of Some h \<Rightarrow> h | None \<Rightarrow> [])\<rparr>))"

text \<open>The file's text, if it can be read; the parser of JSON is a parameter.\<close>

definition parse_manifest :: "(str \<Rightarrow> json option) \<Rightarrow> str option \<Rightarrow> str option \<times> artifact list" where
  "parse_manifest parse text =
     (case Option.bind text parse of
        None \<Rightarrow> (None, [])
      | Some v \<Rightarrow>
          (case str_member ''version'' v of Some s \<Rightarrow> if s \<noteq> [] then Some s else None | None \<Rightarrow> None,
           case jget ''artifacts'' v of Some (JArr xs) \<Rightarrow> List.map_filter artifact_of xs | _ \<Rightarrow> []))"

text \<open>\<open>i18n::esc\<close>, and the values a row of the download list shows.\<close>

definition dl_esc :: "str \<Rightarrow> str" where
  "dl_esc s = replace_c (CHR 0x22) ''&quot;'' (md_esc s)"

text \<open>Formatting with a fixed number of decimals rounds the exact value, halves to even.\<close>

definition round_even :: "rat \<Rightarrow> nat" where
  "round_even q =
     (let n = nat \<lfloor>q\<rfloor>; r = q - of_nat n
      in if r < 1/2 \<or> (r = 1/2 \<and> even n) then n else Suc n)"

fun show_decimals :: "nat \<Rightarrow> fl \<Rightarrow> str" where
  "show_decimals d FNan = ''NaN''"
| "show_decimals d (FInf neg) = (if neg then ''-inf'' else ''inf'')"
| "show_decimals d (FFin q) =
     (let n = round_even (q * 10 ^ d)
      in if d = 0 then show_nat n
         else show_nat (n div 10 ^ d) @ ''.'' @ (let ds = show_nat (n mod 10 ^ d) in replicate (d - length ds) (CHR ''0'') @ ds))"

definition human_size :: "fpu \<Rightarrow> nat \<Rightarrow> str" where
  "human_size m bytes =
     (let b = rnd64 m (of_nat bytes); mb = f_div (rnd64 m) b (FFin 1048576)
      in if f_ge mb (FFin 1) then show_decimals 1 mb @ '' MB''
         else show_decimals 0 (f_div (rnd64 m) b (FFin 1024)) @ '' KB'')"

text \<open>The sizes of the source's own test.\<close>

lemma round_evens:
  "round_even (13395 / 128) = 105" "round_even 10 = 10" "round_even (1048575 / 1024) = 1024" "round_even 2 = 2"
  "round_even (3 / 2) = 2" "round_even 0 = 0"
proof -
  have fl: "\<lfloor>13395 / 128 :: rat\<rfloor> = 104" "\<lfloor>1048575 / 1024 :: rat\<rfloor> = 1023" "\<lfloor>3 / 2 :: rat\<rfloor> = 1"
    by (simp_all add: floor_eq_iff)
  show "round_even (13395 / 128) = 105" "round_even 10 = 10" "round_even (1048575 / 1024) = 1024" "round_even 2 = 2"
    "round_even (3 / 2) = 2" "round_even 0 = 0"
    by (simp_all add: round_even_def Let_def fl)
qed

lemma human_size_tested:
  "human_size exact_fpu 10973184 = ''10.5 MB''" "human_size exact_fpu 1048576 = ''1.0 MB''"
  "human_size exact_fpu 1048575 = ''1024 KB''" "human_size exact_fpu 2048 = ''2 KB''"
  "human_size exact_fpu 1536 = ''2 KB''" "human_size exact_fpu 0 = ''0 KB''"
proof -
  have sh: "show_nat 10 = ''10''" "show_nat 5 = ''5''" "show_nat 1 = ''1''" "show_nat 0 = ''0''" "show_nat 1024 = ''1024''"
    "show_nat 2 = ''2''" by code_simp+
  show "human_size exact_fpu 10973184 = ''10.5 MB''" "human_size exact_fpu 1048576 = ''1.0 MB''"
    "human_size exact_fpu 1048575 = ''1024 KB''" "human_size exact_fpu 2048 = ''2 KB''"
    "human_size exact_fpu 1536 = ''2 KB''" "human_size exact_fpu 0 = ''0 KB''"
    by (simp_all add: human_size_def exact_fpu_def f_ge_def Let_def round_evens sh sh(3) [simplified])
qed

definition dl_row :: "fpu \<Rightarrow> str \<Rightarrow> str \<Rightarrow> artifact \<Rightarrow> str" where
  "dl_row m base verify a =
     ''<li><a class=\"file\" href=\"'' @ base @ ''/download/'' @ dl_esc (ar_file a) @ ''\">'' @ dl_esc (ar_file a) @ ''</a>'' @ [CHR 0x0A]
     @ ''<span class=\"meta\">'' @ human_size m (ar_size a) @ [CHR '' '', CHR 0xC2, CHR 0xB7, CHR '' ''] @ dl_esc (ar_arch a)
     @ ''</span>'' @ [CHR 0x0A] @ ''<span class=\"sha\">'' @ verify @ '' '' @ dl_esc (ar_sha256 a) @ ''</span></li>''"

definition dl_rows :: "fpu \<Rightarrow> str \<Rightarrow> str \<Rightarrow> str \<Rightarrow> artifact list \<Rightarrow> str" where
  "dl_rows m base verify platform arts = concat (map (dl_row m base verify) (filter (\<lambda>a. ar_platform a = platform) arts))"

definition dl_section :: "fpu \<Rightarrow> str \<Rightarrow> str \<Rightarrow> str \<Rightarrow> str \<Rightarrow> str \<Rightarrow> artifact list \<Rightarrow> str" where
  "dl_section m base head note verify platform arts =
     (let rows = dl_rows m base verify platform arts
      in if rows = [] then []
         else ''<section class=\"sec\">'' @ [CHR 0x0A] @ ''<p class=\"eyebrow\">'' @ head @ ''</p>'' @ [CHR 0x0A]
           @ ''<p class=\"muted prose\">'' @ note @ ''</p>'' @ [CHR 0x0A] @ ''<ul class=\"arts\">'' @ rows @ ''</ul>''
           @ [CHR 0x0A] @ ''</section>'' @ [CHR 0x0A])"

definition font_file :: "(str \<times> bytes) list \<Rightarrow> str \<Rightarrow> nat \<times> bytes" where
  "font_file fonts name = (case List.find (\<lambda>(n, _). n = name) fonts of Some (_, b) \<Rightarrow> (200, b) | None \<Rightarrow> (404, []))"

definition shot_png :: "bytes list \<Rightarrow> nat \<Rightarrow> nat \<times> bytes" where
  "shot_png shots n = (if n \<noteq> 0 \<and> n - 1 < length shots then (200, shots ! (n - 1)) else (404, []))"

end
