(* ===== verification/Web_Props.thy ===== *)
theory Web_Props
  imports Web Server_Safety
begin

text \<open>
  Properties of the HTTP side: nothing reflected can leave its text, the changelog has no tags but its
  own, a display size once chosen sticks, the session endpoint gives a room away only for its PIN,
  and a brokered session ends in a seat.
\<close>

section \<open>Escaping\<close>

lemma replace_c_append: "replace_c c r (s @ t) = replace_c c r s @ replace_c c r t"
  by (simp add: replace_c_def)

definition esc1 :: "char \<Rightarrow> str" where
  "esc1 c = (if c = CHR ''&'' then ''&amp;'' else if c = CHR ''<'' then ''&lt;'' else if c = CHR ''>'' then ''&gt;''
     else if c = CHR 0x22 then ''&quot;'' else if c = CHR 0x27 then ''&#x27;'' else [c])"

lemma esc_Cons: "esc (c # s) = esc1 c @ esc s"
proof -
  have "esc ([c] @ s) = esc [c] @ esc s" by (simp only: esc_def replace_c_append)
  moreover have "esc [c] = esc1 c" by (simp add: esc_def esc1_def replace_c_def)
  ultimately show ?thesis by simp
qed

lemma esc_Nil [simp]: "esc [] = []"
  by (simp add: esc_def replace_c_def)

text \<open>Reading the entities back, as a browser does.\<close>

definition entities :: "(str \<times> char) list" where
  "entities = [(''&amp;'', CHR ''&''), (''&lt;'', CHR ''<''), (''&gt;'', CHR ''>''), (''&quot;'', CHR 0x22), (''&#x27;'', CHR 0x27)]"

definition entity :: "str \<Rightarrow> (char \<times> str) option" where
  "entity s = find_map (\<lambda>(e, c). map_option (Pair c) (strip_prefix e s)) entities"

lemma entity_short: "entity s = Some (c, r) \<Longrightarrow> length r < length s"
  by (auto simp: entity_def entities_def strip_prefix_Some split: option.splits)

function unesc :: "str \<Rightarrow> str" where
  "unesc s = (case entity s of Some (c, r) \<Rightarrow> c # unesc r | None \<Rightarrow> (case s of [] \<Rightarrow> [] | c # cs \<Rightarrow> c # unesc cs))"
  by pat_completeness auto
termination
  by (relation "measure length") (auto dest: entity_short)

declare unesc.simps [simp del]

lemma entity_esc1: "c \<in> set ''&<>'' \<or> c = CHR 0x22 \<or> c = CHR 0x27 \<Longrightarrow> entity (esc1 c @ s) = Some (c, s)"
  by (auto simp: esc1_def entity_def entities_def strip_prefix_def)

lemma entity_plain: "c \<noteq> CHR ''&'' \<Longrightarrow> entity (c # s) = None"
  by (auto simp: entity_def entities_def strip_prefix_def)

lemma entity_Nil: "entity [] = None"
  by (simp add: entity_def entities_def strip_prefix_def)

lemma unesc_esc: "unesc (esc s) = s"
proof (induction s)
  case Nil
  show ?case by (subst unesc.simps) (simp add: entity_Nil)
next
  case (Cons c s)
  show ?case
  proof (cases "c \<in> set ''&<>'' \<or> c = CHR 0x22 \<or> c = CHR 0x27")
    case True
    from entity_esc1 [OF True, of "esc s"] Cons show ?thesis by (subst unesc.simps) (simp add: esc_Cons)
  next
    case False
    then have "esc1 c = [c]" "c \<noteq> CHR ''&''" by (auto simp: esc1_def)
    with Cons show ?thesis by (subst unesc.simps) (simp add: esc_Cons entity_plain)
  qed
qed

lemma esc1_safe: "set (esc1 c) \<inter> {CHR ''<'', CHR ''>'', CHR 0x22, CHR 0x27} = {}"
  by (auto simp: esc1_def)

text \<open>A share link cannot inject markup: whatever code it names, the text put into the landing page
  holds no angle bracket or quote, and a browser that reads its entities sees exactly the first 32
  characters of the code.\<close>

theorem landing_code_safe:
  "set (landing_code code) \<inter> {CHR ''<'', CHR ''>'', CHR 0x22, CHR 0x27} = {}
   \<and> unesc (landing_code code) = chars_take 32 code \<and> chars_count (unesc (landing_code code)) \<le> 32"
proof -
  have "set (esc s) \<inter> {CHR ''<'', CHR ''>'', CHR 0x22, CHR 0x27} = {}" for s
    by (induction s) (use esc1_safe in \<open>auto simp: esc_Cons\<close>)
  then show ?thesis by (simp add: landing_code_def unesc_esc)
qed

section \<open>The changelog\<close>

text \<open>The tags the renderer writes, and the texts all of whose angle brackets belong to one of them.\<close>

definition tags :: "str list" where
  "tags = [''<h1>'', ''</h1>'', ''<h2 class=\"ver\">'', ''</h2>'', ''<h3>'', ''</h3>'', ''<ul>'', ''</ul>'', ''<li>'', ''</li>'',
     ''<p class=\"muted\">'', ''</p>'', ''<code>'', ''</code>'', ''<strong>'', ''</strong>'']"

inductive tagged :: "str \<Rightarrow> bool" where
  nil: "tagged []"
| tag: "t \<in> set tags \<Longrightarrow> tagged s \<Longrightarrow> tagged (t @ s)"
| chr: "c \<noteq> CHR ''<'' \<Longrightarrow> c \<noteq> CHR ''>'' \<Longrightarrow> tagged s \<Longrightarrow> tagged (c # s)"

lemma tagged_append: "tagged s \<Longrightarrow> tagged t \<Longrightarrow> tagged (s @ t)"
  by (induction rule: tagged.induct) (auto intro: tagged.intros)

lemma tagged_tag: "t \<in> set tags \<Longrightarrow> tagged t"
  using tagged.tag [OF _ tagged.nil] by simp

lemma tagged_plain: "set s \<inter> {CHR ''<'', CHR ''>''} = {} \<Longrightarrow> tagged s"
  by (induction s) (auto intro: tagged.intros)

lemma tag_shape: "t \<in> set tags \<Longrightarrow> \<exists>u. t = CHR ''<'' # u \<and> CHR ''<'' \<notin> set u \<and> CHR ''*'' \<notin> set u \<and> CHR ''`'' \<notin> set u"
  by (auto simp: tags_def)

text \<open>A tagged text cut where a character outside all tags stands, or where a tag begins, is tagged on both sides.\<close>

lemma tagged_cut_char:
  "tagged s \<Longrightarrow> s = a @ c # b \<Longrightarrow> c = CHR ''*'' \<or> c = CHR ''`'' \<Longrightarrow> tagged a \<and> tagged b"
proof (induction arbitrary: a rule: tagged.induct)
  case (tag t s)
  from tag_shape [OF tag.hyps(1)] tag.prems(2) have nc: "c \<notin> set t" by auto
  from tag.prems(1) nc obtain a' where "a = t @ a'" "s = a' @ c # b"
    by (auto simp: append_eq_append_conv2 append_eq_Cons_conv Cons_eq_append_conv)
  with tag.IH [of a'] tag.prems(2) tag.hyps(1) show ?case by (auto intro: tagged.tag)
next
  case (chr d s)
  show ?case
  proof (cases a)
    case Nil
    with chr show ?thesis by (auto intro: tagged.nil)
  next
    case (Cons e a')
    with chr.IH [of a'] chr.prems chr.hyps show ?thesis by (auto intro: tagged.chr)
  qed
qed simp

lemma tagged_cut_tag:
  "tagged s \<Longrightarrow> s = a @ CHR ''<'' # b \<Longrightarrow> tagged a \<and> tagged (CHR ''<'' # b)"
proof (induction arbitrary: a rule: tagged.induct)
  case (tag t s)
  from tag_shape [OF tag.hyps(1)] obtain u where u: "t = CHR ''<'' # u" "CHR ''<'' \<notin> set u" by blast
  show ?case
  proof (cases a)
    case Nil
    with tag.prems tagged.tag [OF tag.hyps(1,2)] show ?thesis by (simp add: tagged.nil)
  next
    case (Cons e a1)
    with tag.prems u(1) have "u @ s = a1 @ CHR ''<'' # b" "e = CHR ''<''" by auto
    then obtain a' where "a1 = u @ a'" "s = a' @ CHR ''<'' # b"
      using u(2) by (auto simp: append_eq_append_conv2 append_eq_Cons_conv Cons_eq_append_conv)
    with tag.IH [of a'] tag.hyps(1) u(1) Cons \<open>e = _\<close> show ?thesis
      using tagged.tag [OF tag.hyps(1), of a'] by simp
  qed
next
  case (chr d s)
  show ?case
  proof (cases a)
    case (Cons e a')
    with chr.IH [of a'] chr.prems chr.hyps show ?thesis by (auto intro: tagged.chr)
  next
    case Nil
    with chr.hyps chr.prems show ?thesis by simp
  qed
qed simp

lemma tagged_tail:
  assumes "tagged (''</li>'' @ post)"
  shows "tagged post"
  using assms
proof (cases rule: tagged.cases)
  case (tag t s)
  then show ?thesis by (auto simp: tags_def)
qed simp_all

lemma split_once_tagged:
  assumes "tagged s" and "split_once pat s = Some (a, b)" and "pat = ''`'' \<or> pat = ''**''"
  shows "tagged a \<and> tagged b"
proof -
  from split_once_append [OF assms(2)] have s: "s = a @ pat @ b" .
  show ?thesis
  proof (cases "pat = ''`''")
    case True
    with tagged_cut_char [OF assms(1), of a "CHR ''`''" b] s show ?thesis by simp
  next
    case False
    with assms(3) s have "s = a @ CHR ''*'' # (''*'' @ b)" by simp
    from tagged_cut_char [OF assms(1) this] have "tagged a" "tagged ([] @ CHR ''*'' # b)" by simp_all
    with tagged_cut_char [OF this(2), of "[]" "CHR ''*''" b] show ?thesis by simp
  qed
qed

lemma tagged_span:
  assumes "tagged out" and "split_once pat out = Some (a, r)" and "split_once pat r = Some (c, rest)"
    and "pat = ''`'' \<or> pat = ''**''" and "t \<in> set tags" and "u \<in> set tags"
  shows "tagged (a @ t @ c @ u @ rest)"
  using split_once_tagged [OF assms(1,2,4)] split_once_tagged [OF _ assms(3,4)] assms(5,6)
  by (simp add: tagged_append tagged_tag)

lemma tagged_code_spans: "tagged s \<Longrightarrow> tagged (code_spans s)"
proof (induction s rule: code_spans.induct)
  case (1 out)
  have "tagged (code_spans (a @ ''<code>'' @ c @ ''</code>'' @ rest))"
    if "split_once ''`'' out = Some (a, r)" "split_once ''`'' r = Some (c, rest)" for a r c rest
    using 1(1) [OF that(1) HOL.refl that(2) HOL.refl] tagged_span [OF 1(2) that, of "''<code>''" "''</code>''"]
    by (simp add: tags_def)
  with 1(2) show ?case by (subst code_spans.simps) (simp split: option.splits prod.splits)
qed

lemma tagged_strong_spans: "tagged s \<Longrightarrow> tagged (strong_spans s)"
proof (induction s rule: strong_spans.induct)
  case (1 out)
  have "tagged (strong_spans (a @ ''<strong>'' @ c @ ''</strong>'' @ rest))"
    if "split_once ''**'' out = Some (a, r)" "split_once ''**'' r = Some (c, rest)" for a r c rest
    using 1(1) [OF that(1) HOL.refl that(2) HOL.refl] tagged_span [OF 1(2) that, of "''<strong>''" "''</strong>''"]
    by (simp add: tags_def)
  with 1(2) show ?case by (subst strong_spans.simps) (simp split: option.splits prod.splits)
qed

lemma tagged_inline: "tagged (inline s)"
proof -
  have "set (md_esc s) \<inter> {CHR ''<'', CHR ''>''} = {}"
    by (auto simp: md_esc_def replace_c_def split: if_splits)
  from tagged_strong_spans [OF tagged_code_spans [OF tagged_plain [OF this]]] show ?thesis by (simp add: inline_def)
qed

lemma tagged_element:
  "t \<in> set tags \<Longrightarrow> u \<in> set tags \<Longrightarrow> tagged html \<Longrightarrow> tagged (html @ t @ inline x @ u)"
  by (simp add: tagged_append tagged_tag tagged_inline)

lemma tagged_close: "tagged html \<Longrightarrow> tagged (close_ul (html, u))"
  using tagged_append [OF _ tagged_tag [of "''</ul>''"]] by (simp add: close_ul_def tags_def)

lemma tagged_continued:
  assumes "tagged html" and "rsplit_once ''</li>'' html = Some (pre, post)"
  shows "tagged (pre @ '' '' @ inline x @ ''</li>'' @ post)"
proof -
  from assms(2) obtain a b where "split_once (rev ''</li>'') (rev html) = Some (a, b)" "pre = rev b" "post = rev a"
    by (auto simp: rsplit_once_def)
  with split_once_append [of "rev ''</li>''" "rev html" a b] have "rev html = rev post @ rev ''</li>'' @ rev pre" by simp
  then have h: "html = pre @ CHR ''<'' # (''/li>'' @ post)"
    by (metis append_Cons append_assoc append_Nil rev_append rev_rev_ident)
  from tagged_cut_tag [OF assms(1) h] have pre: "tagged pre" and li: "tagged (''</li>'' @ post)" by simp_all
  have "tagged '' ''" by (rule tagged_plain) simp
  from tagged_append [OF pre tagged_append [OF this tagged_append [OF tagged_inline li]]] show ?thesis by simp
qed

lemma tagged_line:
  assumes "tagged html"
  shows "tagged (fst (md_line raw (html, u)))"
proof -
  have t: "tagged (h @ ''<h2 class=\"ver\">'' @ inline r @ ''</h2>'')" "tagged (h @ ''<h3>'' @ inline r @ ''</h3>'')"
    "tagged (h @ ''<li>'' @ inline r @ ''</li>'')" "tagged (h @ ''<p class=\"muted\">'' @ inline r @ ''</p>'')"
    if "tagged h" for h r
    by (rule tagged_element [OF _ _ that], simp add: tags_def, simp add: tags_def)+
  have ul: "tagged (html @ ''<ul>'')" using tagged_append [OF assms tagged_tag [of "''<ul>''"]] by (simp add: tags_def)
  have cont: "tagged (pre @ '' '' @ inline r @ ''</li>'' @ post)" if "rsplit_once ''</li>'' html = Some (pre, post)" for pre post r
    by (rule tagged_continued [OF assms that])
  note step = t [OF tagged_close [OF assms]] t [OF assms] t(3) [OF ul] cont assms tagged_close [OF assms]
  show ?thesis
    by (cases u) (auto simp: md_line_def Let_def step [simplified] split: option.splits)
qed

lemma tagged_lines: "tagged html \<Longrightarrow> tagged (fst (fold md_line ls (html, u)))"
proof (induction ls arbitrary: html u)
  case (Cons l ls)
  obtain h2 u2 where s: "md_line l (html, u) = (h2, u2)" by (cases "md_line l (html, u)")
  with tagged_line [OF Cons.prems, of l u] Cons.IH [of h2 u2] show ?case by simp
qed simp

text \<open>The changelog page holds no markup but the renderer's: whatever the document contains, every angle
  bracket of the rendered text belongs to one of the sixteen tags the renderer writes.\<close>

theorem changelog_only_own_tags:
  "tagged (render_changelog md)"
proof -
  have "tagged ''<h1>Changelog</h1>''"
    using tagged_append [OF tagged_tag [of "''<h1>''"] tagged_append [OF tagged_plain tagged_tag [of "''</h1>''"]], of "''Changelog''"]
    by (simp add: tags_def)
  from tagged_lines [OF this] tagged_close show ?thesis
    unfolding render_changelog_def by (metis prod.collapse)
qed

section \<open>The session endpoint\<close>

definition pin_of :: "json \<Rightarrow> str" where
  "pin_of body = (case Option.bind (jget ''pin'' body) as_str of Some p \<Rightarrow> p | None \<Rightarrow> [])"

definition join_allowed :: "request \<Rightarrow> app_state \<Rightarrow> bool" where
  "join_allowed rq s = fst (allow (rq_now rq) (client_ip (rq_xff rq) (rq_peer rq)) RL_JOIN_MAX RL_WINDOW (rate s))"

definition locked_at :: "nat \<Rightarrow> session \<Rightarrow> bool" where
  "locked_at now se \<longleftrightarrow> MAX_ATTEMPTS \<le> se_attempts se \<and> now < sat_add64 (se_locked_at se) LOCK_SECS"

lemma join_at_ok:
  "join_at code pin t m = (Inr (room, token), m') \<Longrightarrow>
   \<exists>se. map_of m code = Some se \<and> se_pin se = pin \<and> \<not> locked_at t se \<and> room = se_room se \<and> token = se_token se"
  by (auto simp: join_at_def try_pin_def locked_at_def Let_def split: option.splits if_splits)

text \<open>Claim C30. The session endpoint tells a room and its token only to a caller within its budget who presents the
  PIN of a session that is not locked; every other answer is one of four errors with nothing else in
  it, and a refused or malformed request does not touch the sessions.\<close>

theorem join_session_private:
  assumes "join_session env rq code body s = (resp, s')"
  shows "(rs_status resp = 200 \<and> join_allowed rq s
      \<and> (\<exists>se. map_of (sessions s) code = Some se \<and> se_pin se = pin_of body \<and> \<not> locked_at (rq_now rq) se
          \<and> rs_body resp = JObj [(''room'', JStr (se_room se)), (''token'', json_opt (se_token se)), (''ws'', JStr (public_ws env))])
    \<or> (rs_status resp, rs_body resp) \<in> (\<lambda>(n, e). (n, JObj [(''error'', JStr e)])) `
        {(429, ''rate_limited''), (404, ''not_found''), (429, ''locked''), (403, ''bad_pin'')})
    \<and> rooms s' = rooms s
    \<and> (join_allowed rq s \<and> len_ok code MAX_CODE \<and> len_ok (pin_of body) MAX_PIN \<or> sessions s' = sessions s)"
proof -
  obtain ok rl where al: "allow (rq_now rq) (client_ip (rq_xff rq) (rq_peer rq)) RL_JOIN_MAX RL_WINDOW (rate s) = (ok, rl)"
    by (cases "allow (rq_now rq) (client_ip (rq_xff rq) (rq_peer rq)) RL_JOIN_MAX RL_WINDOW (rate s)")
  then have ja: "join_allowed rq s = ok" by (simp add: join_allowed_def)
  let ?bad = "\<not> len_ok code MAX_CODE \<or> \<not> len_ok (pin_of body) MAX_PIN"
  obtain r m where j: "join_at code (pin_of body) (rq_now rq) (sessions s) = (r, m)"
    by (cases "join_at code (pin_of body) (rq_now rq) (sessions s)")
  note run = assms [unfolded join_session_def al Let_def prod.case pin_of_def [symmetric]]
  consider (limited) "\<not> ok" | (bad) "ok" ?bad | (ran) "ok" "\<not> ?bad" by blast
  then show ?thesis
  proof cases
    case ran
    with run j have r: "s' = s\<lparr>rate := rl, sessions := m\<rparr>"
      "resp = (case r of Inr (room, token) \<Rightarrow> \<lparr>rs_status = 200, rs_body = JObj [(''room'', JStr room), (''token'', json_opt token),
                            (''ws'', JStr (public_ws env))]\<rparr>
                    | Inl NotFound \<Rightarrow> error_response 404 ''not_found''
                    | Inl Locked \<Rightarrow> error_response 429 ''locked''
                    | Inl BadPin \<Rightarrow> error_response 403 ''bad_pin'')" by auto
    show ?thesis
    proof (cases r)
      case (Inl e)
      with r ran ja show ?thesis by (cases e) (auto simp: error_response_def)
    next
      case (Inr rt)
      with join_at_ok [of code "pin_of body" "rq_now rq" "sessions s" "fst rt" "snd rt" m] j r ran ja
      show ?thesis by (cases rt) auto
    qed
  qed (use run ja in \<open>auto simp: error_response_def\<close>)
qed

section \<open>From a code to a seat\<close>

definition create_allowed :: "request \<Rightarrow> app_state \<Rightarrow> bool" where
  "create_allowed rq s = fst (allow (rq_now rq) (client_ip (rq_xff rq) (rq_peer rq)) RL_CREATE_MAX RL_WINDOW (rate s))"

text \<open>What the server's primitives and draws are: hex doubles the length, HMAC-SHA-256 has 32 bytes, a room
  name eight random bytes, a PIN at most six digits, a code eight characters.\<close>

definition draws_ok :: "ext \<Rightarrow> draws \<Rightarrow> bool" where
  "draws_ok x dr \<longleftrightarrow> (\<forall>b. length (x_hex x b) = 2 * length b) \<and> (\<forall>k m. length (x_mac x k m) = 32)
     \<and> length (dr_room dr) = 8 \<and> dr_pin dr < 1000000 \<and> (\<forall>i. length (dr_code dr i) = 8)"

lemma created:
  assumes ok: "draws_ok x dr" and "create_allowed rq s" and "dr_code dr k \<notin> fst ` set (sessions s)"
  shows "\<exists>code pin room token s1. create_session x env rq dr s =
      Some (\<lparr>rs_status = 200, rs_body = JObj
              [(''code'', JStr code), (''pin'', JStr pin), (''room'', JStr room), (''token'', json_opt token),
               (''ws'', JStr (public_ws env)), (''link'', JStr (public_base env @ ''/j/'' @ code))]\<rparr>, s1)
      \<and> room = ''squad-'' @ x_hex x (dr_room dr) \<and> token = token_for (x_mac x) (x_hex x) (auth s) room \<and> len_ok code MAX_CODE \<and> len_ok pin MAX_PIN
      \<and> len_ok room MAX_ID \<and> (case token of Some t \<Rightarrow> length t \<le> MAX_TOKEN | None \<Rightarrow> True)
      \<and> auth s1 = auth s \<and> rooms s1 = rooms s
      \<and> (\<forall>t. \<exists>m. join_at code pin t (sessions s1) = (Inr (room, token), m))"
proof -
  obtain rl where al: "allow (rq_now rq) (client_ip (rq_xff rq) (rq_peer rq)) RL_CREATE_MAX RL_WINDOW (rate s) = (True, rl)"
    using assms(2) by (cases "allow (rq_now rq) (client_ip (rq_xff rq) (rq_peer rq)) RL_CREATE_MAX RL_WINDOW (rate s)")
      (simp add: create_allowed_def)
  obtain j where p: "pick_code (dr_code dr) (sessions s) 0 = Some (dr_code dr j)"
    using pick_code_first_free [of "dr_code dr" k "sessions s" 0] assms(3) by auto
  let ?room = "''squad-'' @ x_hex x (dr_room dr)"
  let ?tok = "token_for (x_mac x) (x_hex x) (auth s) ?room"
  let ?se = "\<lparr>se_room = ?room, se_token = ?tok, se_pin = rand_pin (dr_pin dr), se_created = rq_now rq,
    se_last_active = rq_now rq, se_attempts = 0, se_locked_at = 0\<rparr>"
  let ?m = "AList.update (dr_code dr j) ?se (sessions s)"
  have c: "create (x_hex x) (token_for (x_mac x) (x_hex x) (auth s)) (dr_room dr) (dr_pin dr) (dr_code dr) (rq_now rq) (sessions s)
     = Some ((dr_code dr j, rand_pin (dr_pin dr), ?room, ?tok), ?m)"
    using p by (simp add: create_def rand_hex_def Let_def)
  have "\<exists>m. join_at (dr_code dr j) (rand_pin (dr_pin dr)) t ?m = (Inr (?room, ?tok), m)" for t
    by (simp add: join_at_def try_pin_def MAX_ATTEMPTS_def Let_def)
  moreover have "len_ok (dr_code dr j) MAX_CODE" "len_ok ?room MAX_ID" "len_ok (rand_pin (dr_pin dr)) MAX_PIN"
    "case ?tok of Some t \<Rightarrow> length t \<le> MAX_TOKEN | None \<Rightarrow> True"
    using ok length_rand_pin [of "dr_pin dr"]
    by (auto simp: draws_ok_def len_ok_def MAX_CODE_def MAX_ID_def MAX_PIN_def MAX_TOKEN_def token_for_def hmac_hex_def
        split: auth_config.splits dest: arg_cong [of _ _ length])
  ultimately show ?thesis
    using al c by (simp add: create_session_def Let_def)
qed

text \<open>Claim C31. A share link leads to a seat: whenever a host may create a session, the code and PIN in the answer
  get any guest within its budget the room and its token, and with them the server seats the guest
  in that room.\<close>

theorem brokered_session_seats:
  assumes "draws_ok x dr" and "create_allowed rq s" and "dr_code dr k \<notin> fst ` set (sessions s)"
    and "map_of (rooms s) (''squad-'' @ x_hex x (dr_room dr)) = None"
    and "len_ok user MAX_ID" and "len_ok name MAX_NAME" and "len_ok secret MAX_SECRET" and "sk_me sk = None"
  shows "\<exists>resp s1 code pin. create_session x env rq dr s = Some (resp, s1) \<and> rs_status resp = 200
     \<and> jget ''code'' (rs_body resp) = Some (JStr code) \<and> jget ''pin'' (rs_body resp) = Some (JStr pin)
     \<and> (\<forall>rq2. join_allowed rq2 s1 \<longrightarrow>
          (\<exists>resp2 s2 room tok. join_session env rq2 code (JObj [(''pin'', JStr pin)]) s1 = (resp2, s2)
            \<and> rs_status resp2 = 200 \<and> jget ''room'' (rs_body resp2) = Some (JStr room)
            \<and> jget ''token'' (rs_body resp2) = Some (json_opt tok)
            \<and> (\<exists>s3. on_join x secs tx PROTOCOL_VERSION room user name tok secret s2 sk
                   = (s3, sk\<lparr>sk_me := Some (room, user)\<rparr>, Cont))))"
proof -
  obtain code pin room token s1 where cr: "create_session x env rq dr s =
      Some (\<lparr>rs_status = 200, rs_body = JObj
              [(''code'', JStr code), (''pin'', JStr pin), (''room'', JStr room), (''token'', json_opt token),
               (''ws'', JStr (public_ws env)), (''link'', JStr (public_base env @ ''/j/'' @ code))]\<rparr>, s1)"
    and c: "room = ''squad-'' @ x_hex x (dr_room dr)" "token = token_for (x_mac x) (x_hex x) (auth s) room"
      "len_ok code MAX_CODE" "len_ok pin MAX_PIN" "len_ok room MAX_ID"
      "case token of Some t \<Rightarrow> length t \<le> MAX_TOKEN | None \<Rightarrow> True" "auth s1 = auth s" "rooms s1 = rooms s"
    and j: "\<And>t. \<exists>m. join_at code pin t (sessions s1) = (Inr (room, token), m)"
    using created [OF assms(1,2,3), of env] by blast
  have guest: "\<exists>s2. join_session env rq2 code (JObj [(''pin'', JStr pin)]) s1
        = (\<lparr>rs_status = 200, rs_body = JObj [(''room'', JStr room), (''token'', json_opt token), (''ws'', JStr (public_ws env))]\<rparr>, s2)
      \<and> (\<exists>s3. on_join x secs tx PROTOCOL_VERSION room user name token secret s2 sk = (s3, sk\<lparr>sk_me := Some (room, user)\<rparr>, Cont))"
    if al: "join_allowed rq2 s1" for rq2
  proof -
    obtain rl where a: "allow (rq_now rq2) (client_ip (rq_xff rq2) (rq_peer rq2)) RL_JOIN_MAX RL_WINDOW (rate s1) = (True, rl)"
      using al by (cases "allow (rq_now rq2) (client_ip (rq_xff rq2) (rq_peer rq2)) RL_JOIN_MAX RL_WINDOW (rate s1)")
        (simp add: join_allowed_def)
    obtain m where m: "join_at code pin (rq_now rq2) (sessions s1) = (Inr (room, token), m)" using j by blast
    let ?s2 = "s1\<lparr>rate := rl, sessions := m\<rparr>"
    have "check (x_mac x) (x_hex x) (auth ?s2) room token"
      using tok.minted_accepted [of "x_mac x" "x_hex x" "auth s" room] c(2,7) by simp
    moreover have "seat_free ?s2 room user" using assms(4) c(1,8) by (simp add: seat_free_def)
    ultimately have "\<exists>s3. on_join x secs tx PROTOCOL_VERSION room user name token secret ?s2 sk
        = (s3, sk\<lparr>sk_me := Some (room, user)\<rparr>, Cont)"
      using join_granted [OF assms(8) c(5) assms(5,6,7) c(6), of x ?s2 secs tx] by blast
    moreover have "join_session env rq2 code (JObj [(''pin'', JStr pin)]) s1
        = (\<lparr>rs_status = 200, rs_body = JObj [(''room'', JStr room), (''token'', json_opt token), (''ws'', JStr (public_ws env))]\<rparr>, ?s2)"
      using a m c(3,4) by (simp add: join_session_def jget_def as_str_def)
    ultimately show ?thesis by blast
  qed
  show ?thesis
    using cr guest by (fastforce simp: jget_def)
qed

section \<open>The display size\<close>

definition mentions :: "str \<Rightarrow> bool" where
  "mentions c \<longleftrightarrow> sublist UI_COOKIE c"

lemma trim_sublist: "sublist (trim s) s"
proof -
  have 1: "sublist (trim_start s) s" for s
    using suffix_dropWhile [of is_ws "chars s"]
    by (metis concat_append concat_chars sublist_appendI suffix_def append_Nil2 trim_start_def sublist_append_leftI)
  have "concat (rev (dropWhile is_ws (rev (chars t)))) @ concat (rev (takeWhile is_ws (rev (chars t)))) = t" for t
    by (metis concat_append concat_chars rev_append rev_rev_ident takeWhile_dropWhile_id)
  then have 2: "sublist (trim_end t) t" for t
    by (metis sublist_append_rightI trim_end_def)
  show ?thesis unfolding trim_def using 1 2 sublist_order.order.trans by blast
qed

lemma find_map_skip: "\<forall>x \<in> set xs. f x = None \<Longrightarrow> find_map f (xs @ ys) = find_map f ys"
  by (induction xs) auto

lemma split_on_app: "d \<notin> set w \<Longrightarrow> split_on d (w @ d # r) = w # split_on d r"
  by (induction w) auto

lemma split_on_one: "d \<notin> set w \<Longrightarrow> split_on d w = [w]"
  by (induction w) auto

lemma split_cookies:
  "\<forall>c \<in> set (w # ws). CHR '';'' \<notin> set c \<Longrightarrow> CHR '';'' \<notin> set p \<Longrightarrow>
   split_on (CHR '';'') (p @ join ''; '' (w # ws)) = (p @ w) # map (Cons (CHR '' '')) ws"
proof (induction ws arbitrary: p w)
  case Nil
  then show ?case by (simp add: split_on_one)
next
  case (Cons v ws)
  have "split_on (CHR '';'') ((p @ w) @ CHR '';'' # ([CHR '' ''] @ join ''; '' (v # ws)))
      = (p @ w) # split_on (CHR '';'') ([CHR '' ''] @ join ''; '' (v # ws))"
    by (rule split_on_app) (use Cons.prems in simp)
  with Cons.IH [of v "[CHR '' '']"] Cons.prems show ?case by simp
qed

lemma other_cookie:
  assumes "\<not> mentions c" and "x = c \<or> x = CHR '' '' # c"
  shows "strip_prefix (UI_COOKIE @ ''='') (trim x) = None"
proof (rule ccontr)
  assume "strip_prefix (UI_COOKIE @ ''='') (trim x) \<noteq> None"
  then obtain r where "trim x = UI_COOKIE @ ''='' @ r" by (auto simp: strip_prefix_Some)
  with trim_sublist [of x] have "sublist UI_COOKIE x"
    by (metis sublist_append_rightI sublist_order.order.trans)
  with assms show False by (auto simp: mentions_def sublist_Cons_right UI_COOKIE_def)
qed

lemma own_cookie:
  "strip_prefix (UI_COOKIE @ ''='') (trim (UI_COOKIE @ ''='' @ ui_code u)) = Some (ui_code u)"
  "strip_prefix (UI_COOKIE @ ''='') (trim (CHR '' '' # UI_COOKIE @ ''='' @ ui_code u)) = Some (ui_code u)"
  "ui_parse (ui_code u) = Some u"
  by (cases u; simp only: ui_code.simps UI_COOKIE_def; code_simp)+

lemma stored_cookie: "takeWhile (\<lambda>c. c \<noteq> CHR '';'') (ui_cookie env u) = UI_COOKIE @ ''='' @ ui_code u"
  by (cases u) (simp_all add: ui_cookie_def UI_COOKIE_def)

text \<open>A display size sticks: following a size link shows that size and stores it, and from then on every
  request that carries the stored cookie, among any others, gets it without storing anything again.\<close>

theorem ui_choice_sticks:
  assumes "\<forall>c \<in> set pre. CHR '';'' \<notin> set c \<and> \<not> mentions c" and "\<forall>c \<in> set post. CHR '';'' \<notin> set c"
  shows "ui_of (Some (''lang='' @ lang_code l @ ''&ui='' @ ui_code u)) cookies = (u, True)
    \<and> ui_of None (Some (join ''; '' (pre @ [takeWhile (\<lambda>c. c \<noteq> CHR '';'') (ui_cookie env u)] @ post))) = (u, False)"
proof
  show "ui_of (Some (''lang='' @ lang_code l @ ''&ui='' @ ui_code u)) cookies = (u, True)"
    by (cases l; cases u; simp add: ui_of_def query_arg_def strip_prefix_def ui_detect_def own_cookie(3) [of Normal, simplified]
        own_cookie(3) [of Large, simplified] own_cookie(3) [of Larger, simplified])
  let ?own = "UI_COOKIE @ ''='' @ ui_code u"
  let ?f = "\<lambda>kv. strip_prefix (UI_COOKIE @ ''='') (trim kv)"
  have own: "CHR '';'' \<notin> set ?own" by (cases u) (simp_all add: UI_COOKIE_def)
  have "find_map ?f (split_on (CHR '';'') (join ''; '' (pre @ [?own] @ post))) = Some (ui_code u)"
  proof (cases pre)
    case Nil
    with split_cookies [of ?own post "[]"] own assms(2)
    have "split_on (CHR '';'') (join ''; '' (pre @ [?own] @ post)) = ?own # map (Cons (CHR '' '')) post" by auto
    then show ?thesis by (simp only: find_map.simps own_cookie option.case)
  next
    case (Cons w ws)
    have "split_on (CHR '';'') (join ''; '' (pre @ [?own] @ post)) = (w # map (Cons (CHR '' '')) ws) @ (CHR '' '' # ?own) # map (Cons (CHR '' '')) post"
      using split_cookies [of w "ws @ [?own] @ post" "[]"] own assms Cons by auto
    moreover have "\<forall>x \<in> set (w # map (Cons (CHR '' '')) ws). ?f x = None"
      using assms(1) Cons other_cookie by auto
    ultimately show ?thesis using find_map_skip [of "w # map (Cons (CHR '' '')) ws" ?f] by (simp only: find_map.simps own_cookie option.case)
  qed
  then show "ui_of None (Some (join ''; '' (pre @ [takeWhile (\<lambda>c. c \<noteq> CHR '';'') (ui_cookie env u)] @ post))) = (u, False)"
    by (simp add: ui_of_def query_arg_def stored_cookie ui_detect_def own_cookie)
qed

section \<open>Examples\<close>

definition demo_web_ext :: ext where
  "demo_web_ext = \<lparr>x_mac = (\<lambda>k m. replicate 32 (CHR ''m'')), x_mac1 = (\<lambda>k m. m), x_hex = (\<lambda>b. b @ b), x_b64 = id,
     x_from_str = (\<lambda>t. Inl ''bad''), x_value = (\<lambda>t. None)\<rparr>"

definition demo_web :: app_state where
  "demo_web = \<lparr>rooms = [], auth = Hmac ''key'', turn = None,
     sessions = [(''abcdefgh'', \<lparr>se_room = ''squad-1'', se_token = Some ''t'', se_pin = ''123456'', se_created = 0,
        se_last_active = 0, se_attempts = 0, se_locked_at = 0\<rparr>)],
     rate = [], ws_idle = 60, rekeys = [], chans = (\<lambda>c. \<lparr>ch_queue = [], ch_open = False\<rparr>)\<rparr>"

definition demo_rq :: request where
  "demo_rq = \<lparr>rq_peer = \<lparr>pa_ip = ''10.0.0.9'', pa_loopback = False\<rparr>, rq_xff = Some ''1.2.3.4'', rq_now = 10\<rparr>"

definition demo_draws :: draws where
  "demo_draws = \<lparr>dr_room = ''01234567'', dr_pin = 42, dr_code = (\<lambda>i. if i = 0 then ''abcdefgh'' else ''ijkmnpqr'')\<rparr>"

lemma demo_limits: "join_allowed demo_rq demo_web" "create_allowed demo_rq demo_web"
  by code_simp+

theorem join_session_private_witness:
  "rs_status (fst (join_session (\<lambda>_. None) demo_rq ''abcdefgh'' (JObj [(''pin'', JStr ''000000'')]) demo_web)) = 403
   \<and> rooms (snd (join_session (\<lambda>_. None) demo_rq ''abcdefgh'' (JObj [(''pin'', JStr ''000000'')]) demo_web)) = []"
proof -
  obtain resp s' where r: "join_session (\<lambda>_. None) demo_rq ''abcdefgh'' (JObj [(''pin'', JStr ''000000'')]) demo_web = (resp, s')"
    by (cases "join_session (\<lambda>_. None) demo_rq ''abcdefgh'' (JObj [(''pin'', JStr ''000000'')]) demo_web")
  have "rs_status (fst (join_session (\<lambda>_. None) demo_rq ''abcdefgh'' (JObj [(''pin'', JStr ''000000'')]) demo_web)) = 403"
    by code_simp
  moreover from join_session_private [OF r] have "rooms s' = rooms demo_web" by blast
  ultimately show ?thesis using r by (simp add: demo_web_def)
qed

theorem brokered_session_seats_witness:
  "\<exists>resp s1 code. create_session demo_web_ext (\<lambda>_. None) demo_rq demo_draws demo_web = Some (resp, s1)
     \<and> rs_status resp = 200 \<and> jget ''code'' (rs_body resp) = Some (JStr code)"
proof -
  have ok: "draws_ok demo_web_ext demo_draws" by (simp add: draws_ok_def demo_web_ext_def demo_draws_def)
  have free: "dr_code demo_draws 1 \<notin> fst ` set (sessions demo_web)" by (simp add: demo_draws_def demo_web_def)
  have room: "map_of (rooms demo_web) (''squad-'' @ x_hex demo_web_ext (dr_room demo_draws)) = None"
    by (simp add: demo_web_def)
  have lens: "len_ok ''ann'' MAX_ID" "len_ok ''Ann'' MAX_NAME" "len_ok ''s'' MAX_SECRET" by code_simp+
  have sk: "sk_me \<lparr>sk_me = None, sk_win = (0, 0)\<rparr> = None" by simp
  show ?thesis
    using brokered_session_seats [OF ok demo_limits(2) free room lens sk, of "\<lambda>_. None"] by blast
qed

theorem ui_choice_sticks_witness:
  "ui_of None (Some ''theme=dark; subraum_ui=lg; x=y'') = (Large, False)"
proof -
  have m: "\<not> mentions ''theme=dark''" by code_simp
  have "ui_of None (Some (join ''; '' ([''theme=dark''] @ [takeWhile (\<lambda>c. c \<noteq> CHR '';'') (ui_cookie (\<lambda>_. None) Large)] @ [''x=y'']))) = (Large, False)"
    using ui_choice_sticks [of "[''theme=dark'']" "[''x=y'']" En Large None "\<lambda>_. None"] m by simp
  then show ?thesis by (simp add: stored_cookie UI_COOKIE_def)
qed

end
