(* ===== verification/Server_Spec.thy ===== *)
theory Server_Spec
  imports Server_Props
begin

text \<open>
  What the server promises, without rooms, queues, sockets and frames: a map from room and user id to
  whoever sits there, changed only by sitting down in a free place, by reclaiming one's own place and
  by getting up.  The server with all its connections refines it, step by step.
\<close>

type_synonym seats = "str \<times> str \<Rightarrow> peer_handle option"

definition occupants :: "seats \<Rightarrow> str \<Rightarrow> str set" where
  "occupants S room = {u. S (room, u) \<noteq> None}"

text \<open>A connection is free when it sits nowhere.\<close>

definition unseated :: "seats \<Rightarrow> conn \<Rightarrow> bool" where
  "unseated S c \<longleftrightarrow> (\<forall>p h. S p = Some h \<longrightarrow> ph_tx h \<noteq> c)"

inductive seat_step :: "seats \<Rightarrow> seats \<Rightarrow> bool" where
  stay: "seat_step S S"
| sit: "S (room, u) = None \<Longrightarrow> card (occupants S room) < HARD_CAP \<Longrightarrow> unseated S (ph_tx h) \<Longrightarrow>
    seat_step S (S((room, u) \<mapsto> h))"
| reclaim: "S (room, u) = Some old \<Longrightarrow> ph_secret h = ph_secret old \<Longrightarrow> unseated S (ph_tx h) \<Longrightarrow>
    seat_step S (S((room, u) \<mapsto> h))"
| rise: "S (room, u) = Some h \<Longrightarrow> seat_step S (S((room, u) := None))"

inductive_cases seat_stepE: "seat_step S S'"

inductive seat_run :: "seats \<Rightarrow> bool" where
  empty: "seat_run Map.empty"
| more: "seat_run S \<Longrightarrow> seat_step S S' \<Longrightarrow> seat_run S'"

text \<open>The abstraction.\<close>

definition seat_map :: "net \<Rightarrow> seats" where
  "seat_map n = (\<lambda>(room, u). handle_of (rooms (app n)) room u)"

lemma occupants_room:
  "occupants (seat_map n) room = (case map_of (rooms (app n)) room of Some r \<Rightarrow> fst ` set r | None \<Rightarrow> {})"
  by (auto simp: occupants_def seat_map_def handle_of_def dom_map_of_conv_image_fst [symmetric] split: option.splits)

lemma unseated_by_me:
  assumes "seated n" and "socks n c = Some p" and "sk_me (ph_sock p) = None"
  shows "unseated (seat_map n) c"
  using assms seated_sock [OF assms(1)] by (fastforce simp: unseated_def seat_map_def)

lemma join_refines:
  assumes ok: "net_ok n" and c: "socks n c = Some (Looping sk)"
    and e: "enters x c (app n) sk s' sk' room u name tok secret"
  shows "seat_step (seat_map n) ((seat_map n)((room, u) \<mapsto> \<lparr>ph_name = name, ph_tx = c, ph_secret = secret\<rparr>))"
proof -
  from e obtain s1 where j: "join_room c room u name secret (app n) = (s1, True)" by (auto simp: enters_def)
  note cases = join_room_cases(2) [OF j]
  have free: "unseated (seat_map n) c"
    using ok c e by (intro unseated_by_me) (auto simp: net_ok_def enters_def)
  show ?thesis
  proof (cases "seat_map n (room, u)")
    case (Some old)
    with cases have "ph_secret old = secret"
      by (auto simp: seat_map_def handle_of_def bind_eq_Some_conv simp del: map_of_eq_Some_iff)
    with Some free show ?thesis by (intro seat_step.reclaim) auto
  next
    case None
    have "card (occupants (seat_map n) room) < HARD_CAP"
    proof (cases "map_of (rooms (app n)) room")
      case (Some r)
      with None cases have "length r < HARD_CAP"
        by (auto simp: seat_map_def handle_of_def map_of_eq_None_iff not_less)
      with card_length [of "map fst r"] Some show ?thesis by (simp add: occupants_room)
    qed (simp add: occupants_room HARD_CAP_def)
    with None free show ?thesis by (intro seat_step.sit) auto
  qed
qed

lemma frame_refines:
  assumes ok: "net_ok n" and c: "socks n c = Some (Looping sk)"
    and f: "on_frame x now secs c f (app n) sk = (s', sk', fl)"
  shows "seat_step (seat_map n) (seat_map (n\<lparr>app := s', socks := ss\<rparr>))"
proof -
  have "rooms_ok (rooms (app n))" using ok by (simp add: net_ok_def)
  from on_frame_cases [OF this f] consider (same) "rooms s' = rooms (app n)"
    | (enter) room u name tok secret where "enters x c (app n) sk s' sk' room u name tok secret" by blast
  then show ?thesis
  proof cases
    case same
    then have "seat_map (n\<lparr>app := s', socks := ss\<rparr>) = seat_map n" by (simp add: seat_map_def)
    with seat_step.stay show ?thesis by simp
  next
    case enter
    then obtain s1 where j: "join_room c room u name secret (app n) = (s1, True)" and r: "rooms s' = rooms s1"
      by (auto simp: enters_def)
    have "seat_map (n\<lparr>app := s', socks := ss\<rparr>) = (seat_map n)((room, u) \<mapsto> \<lparr>ph_name = name, ph_tx = c, ph_secret = secret\<rparr>)"
      by (auto simp: fun_eq_iff seat_map_def r handle_of_join [OF j])
    with join_refines [OF ok c enter] show ?thesis by simp
  qed
qed

lemma cleanup_refines:
  "seat_step (seat_map n) (seat_map (n\<lparr>app := cleanup c sk (app n), socks := ss\<rparr>))"
proof (cases "sk_me sk")
  case None
  then have "seat_map (n\<lparr>app := cleanup c sk (app n), socks := ss\<rparr>) = seat_map n"
    by (simp add: seat_map_def cleanup_none)
  with seat_step.stay show ?thesis by simp
next
  case (Some p)
  obtain room u where me: "sk_me sk = Some (room, u)" using Some by (cases p) auto
  show ?thesis
  proof (cases "holds_seat c room u (rooms (app n))")
    case True
    then obtain h where "seat_map n (room, u) = Some h"
      by (auto simp: holds_seat_def seat_map_def split: option.splits)
    moreover have "seat_map (n\<lparr>app := cleanup c sk (app n), socks := ss\<rparr>) = (seat_map n)((room, u) := None)"
      using True by (auto simp: fun_eq_iff seat_map_def handle_of_cleanup [OF me])
    ultimately show ?thesis using seat_step.rise by simp
  next
    case False
    then have "seat_map (n\<lparr>app := cleanup c sk (app n), socks := ss\<rparr>) = seat_map n"
      by (auto simp: fun_eq_iff seat_map_def handle_of_cleanup [OF me])
    with seat_step.stay show ?thesis by simp
  qed
qed

section \<open>What the plan guarantees\<close>

lemma occupants_upd:
  "occupants (S((room, u) \<mapsto> h)) rm = (if rm = room then insert u (occupants S rm) else occupants S rm)"
  "occupants (S((room, u) := None)) rm = (if rm = room then occupants S rm - {u} else occupants S rm)"
  by (auto simp: occupants_def)

lemma plan_bounded: "seat_run S \<Longrightarrow> finite (occupants S rm) \<and> card (occupants S rm) \<le> HARD_CAP"
proof (induction arbitrary: rm rule: seat_run.induct)
  case empty
  then show ?case by (simp add: occupants_def)
next
  case (more S S')
  from more.hyps(2) show ?case
  proof cases
    case (sit room u h)
    with more.IH [of rm] show ?thesis unfolding sit(1) occupants_upd by (auto simp: card_insert_if)
  next
    case (reclaim room u old h)
    then have "u \<in> occupants S room" by (simp add: occupants_def)
    with more.IH [of rm] show ?thesis unfolding reclaim(1) occupants_upd by (auto simp: insert_absorb)
  next
    case (rise room u h)
    with more.IH [of rm] card_Diff1_le [of "occupants S rm" u] show ?thesis
      unfolding rise(1) occupants_upd by (auto intro: order_trans)
  qed (use more.IH [of rm] in simp)
qed

lemma plan_one_seat:
  "seat_run S \<Longrightarrow> S p = Some h \<Longrightarrow> S q = Some h' \<Longrightarrow> ph_tx h = ph_tx h' \<Longrightarrow> p = q"
proof (induction arbitrary: p q h h' rule: seat_run.induct)
  case (more S S')
  from more.hyps(2) show ?case
  proof cases
    case (sit room u k)
    with more.IH more.prems show ?thesis unfolding unseated_def by (metis fun_upd_apply option.inject)
  next
    case (reclaim room u old k)
    with more.IH more.prems show ?thesis unfolding unseated_def by (metis fun_upd_apply option.inject)
  next
    case (rise room u k)
    with more.IH more.prems show ?thesis by (metis fun_upd_apply option.distinct(1))
  qed (use more.IH more.prems in blast)
qed simp

section \<open>The server refines it\<close>



end
