(* ===== verification/Tls.thy ===== *)
theory Tls
  imports Signaling
begin

text \<open>
  The server's certificate (\<open>server/init/src/tls.rs\<close>): read from disk, or generated and written on the
  first start, and the fingerprint that clients pin.  The disk is a map from paths to files with
  their permission bits; whether a read or write succeeds, and how far a failing write gets, is an
  argument.  Parameters: \<open>rcgen\<close>, the PEM reader, SHA-256, hexadecimal, the UTF-8 check.
\<close>

unbundle bit_operations_syntax

section \<open>The disk\<close>

type_synonym file_mode = "16 word"

record stored_file =
  fl_text :: bytes
  fl_mode :: file_mode

type_synonym disk = "str \<Rightarrow> stored_file option"

text \<open>A write: done, the file not opened, or broken off after some bytes.\<close>

datatype io_write = Io_Done | Io_No_Open str | Io_Cut nat str

text \<open>Opening truncates; the requested permissions count only for a file that is created.\<close>

definition write_at :: "file_mode \<Rightarrow> file_mode \<Rightarrow> io_write \<Rightarrow> str \<Rightarrow> bytes \<Rightarrow> disk \<Rightarrow> (str + unit) \<times> disk" where
  "write_at mode umask out path txt d =
     (let m = (case d path of Some f \<Rightarrow> fl_mode f | None \<Rightarrow> mode AND NOT umask)
      in case out of
           Io_Done \<Rightarrow> (Inr (), d(path \<mapsto> \<lparr>fl_text = txt, fl_mode = m\<rparr>))
         | Io_No_Open e \<Rightarrow> (Inl e, d)
         | Io_Cut n e \<Rightarrow> (Inl e, d(path \<mapsto> \<lparr>fl_text = take n txt, fl_mode = m\<rparr>)))"

text \<open>\<open>fs::write\<close> asks for 0666, \<open>write_private\<close> (on Unix) for 0600.\<close>

definition fs_write :: "file_mode \<Rightarrow> io_write \<Rightarrow> str \<Rightarrow> bytes \<Rightarrow> disk \<Rightarrow> (str + unit) \<times> disk" where
  "fs_write = write_at 438"

definition write_private :: "file_mode \<Rightarrow> io_write \<Rightarrow> str \<Rightarrow> bytes \<Rightarrow> disk \<Rightarrow> (str + unit) \<times> disk" where
  "write_private = write_at 384"

section \<open>Certificate and key\<close>

record tls =
  cert_pem :: str
  key_pem :: str
  fingerprint :: str

record tls_env =
  te_umask :: file_mode
  te_read :: "str \<Rightarrow> str option"       \<comment> \<open>the error of reading a path, if it fails\<close>
  te_utf8 :: "bytes \<Rightarrow> bool"
  te_generate :: "str list \<Rightarrow> str + str \<times> str"
  te_cert_write :: io_write
  te_key_write :: io_write
  te_first_cert :: "bytes \<Rightarrow> (str + bytes) option"  \<comment> \<open>the first certificate of a PEM text\<close>
  te_sha :: "bytes \<Rightarrow> bytes"
  te_hexenc :: "bytes \<Rightarrow> str"

definition parse_sans :: "str option \<Rightarrow> str list" where
  "parse_sans env =
     (case env of Some extra \<Rightarrow> filter (\<lambda>s. s \<noteq> []) (map trim (split_on (CHR '','') extra)) | None \<Rightarrow> [])"

definition read_to_string :: "tls_env \<Rightarrow> str \<Rightarrow> disk \<Rightarrow> str + str" where
  "read_to_string v path d =
     (case te_read v path of
        Some e \<Rightarrow> Inl e
      | None \<Rightarrow> (case d path of
                   Some f \<Rightarrow> if te_utf8 v (fl_text f) then Inr (fl_text f) else Inl ''stream did not contain valid UTF-8''
                 | None \<Rightarrow> Inl ''No such file or directory''))"

definition fingerprint_of :: "tls_env \<Rightarrow> str \<Rightarrow> str + str" where
  "fingerprint_of v pem =
     (case te_first_cert v pem of
        None \<Rightarrow> Inl ''no CERTIFICATE in PEM''
      | Some (Inl e) \<Rightarrow> Inl e
      | Some (Inr der) \<Rightarrow> Inr (te_hexenc v (te_sha v der)))"

definition with_fingerprint :: "tls_env \<Rightarrow> str \<Rightarrow> str \<Rightarrow> str + tls" where
  "with_fingerprint v cert key =
     (case fingerprint_of v cert of
        Inl e \<Rightarrow> Inl e
      | Inr fp \<Rightarrow> Inr \<lparr>cert_pem = cert, key_pem = key, fingerprint = fp\<rparr>)"

definition ensure_with_sans :: "tls_env \<Rightarrow> str \<Rightarrow> str \<Rightarrow> str list \<Rightarrow> disk \<Rightarrow> (str + tls) \<times> disk" where
  "ensure_with_sans v cert_path key_path extra_sans d =
     (if d cert_path \<noteq> None \<and> d key_path \<noteq> None then
        (case read_to_string v cert_path d of Inl e \<Rightarrow> (Inl e, d) | Inr cert \<Rightarrow>
        (case read_to_string v key_path d of Inl e \<Rightarrow> (Inl e, d) | Inr key \<Rightarrow>
         (with_fingerprint v cert key, d)))
      else
        (case te_generate v ([''localhost'', ''127.0.0.1''] @ extra_sans) of Inl e \<Rightarrow> (Inl e, d) | Inr (cert, key) \<Rightarrow>
        (case fs_write (te_umask v) (te_cert_write v) cert_path cert d of (Inl e, d1) \<Rightarrow> (Inl e, d1) | (Inr _, d1) \<Rightarrow>
        (case write_private (te_umask v) (te_key_write v) key_path key d1 of (Inl e, d2) \<Rightarrow> (Inl e, d2) | (Inr _, d2) \<Rightarrow>
         (with_fingerprint v cert key, d2)))))"

definition tls_ensure :: "tls_env \<Rightarrow> (str \<Rightarrow> str option) \<Rightarrow> str \<Rightarrow> str \<Rightarrow> disk \<Rightarrow> (str + tls) \<times> disk" where
  "tls_ensure v env cert_path key_path = ensure_with_sans v cert_path key_path (parse_sans (env ''TLS_SAN''))"

text \<open>A start of the server, with the paths as \<open>main\<close> reads them.\<close>

definition tls_start :: "tls_env \<Rightarrow> (str \<Rightarrow> str option) \<Rightarrow> disk \<Rightarrow> (str + tls) \<times> disk" where
  "tls_start v env =
     tls_ensure v env (case env ''TLS_CERT'' of Some p \<Rightarrow> p | None \<Rightarrow> ''init-cert.pem'')
       (case env ''TLS_KEY'' of Some p \<Rightarrow> p | None \<Rightarrow> ''init-key.pem'')"

section \<open>The pin survives a restart\<close>

lemma write_at_ok:
  "write_at m u out path txt d = (Inr (), d') \<Longrightarrow> \<exists>f. fl_text f = txt \<and> d' = d(path \<mapsto> f)"
  by (auto simp: write_at_def Let_def split: io_write.splits intro!: exI [of _ "\<lparr>fl_text = txt, fl_mode = _\<rparr>"])

lemma with_fingerprint_ok:
  "with_fingerprint v cert key = Inr t \<Longrightarrow>
   cert_pem t = cert \<and> key_pem t = key \<and> (\<exists>der. te_first_cert v cert = Some (Inr der) \<and> fingerprint t = te_hexenc v (te_sha v der))"
  by (auto simp: with_fingerprint_def fingerprint_of_def split: option.splits sum.splits)

lemma with_fingerprint_of: "with_fingerprint v cert key = Inr t \<Longrightarrow> with_fingerprint v (cert_pem t) (key_pem t) = Inr t"
  using with_fingerprint_ok by metis

text \<open>What a successful start leaves on the disk.\<close>

definition stored :: "tls \<Rightarrow> str \<Rightarrow> str \<Rightarrow> disk \<Rightarrow> bool" where
  "stored t cp kp d \<longleftrightarrow> map_option fl_text (d cp) = Some (cert_pem t) \<and> map_option fl_text (d kp) = Some (key_pem t)"

lemma ensure_stores:
  assumes "ensure_with_sans v cp kp sans d = (Inr t, d')" and "cp \<noteq> kp"
  shows "stored t cp kp d' \<and> with_fingerprint v (cert_pem t) (key_pem t) = Inr t"
proof (cases "d cp \<noteq> None \<and> d kp \<noteq> None")
  case True
  with assms with_fingerprint_ok with_fingerprint_of show ?thesis
    by (fastforce simp: ensure_with_sans_def read_to_string_def stored_def split: sum.splits option.splits if_splits)
next
  case False
  obtain cert key d1 where g: "fs_write (te_umask v) (te_cert_write v) cp cert d = (Inr (), d1)"
    "write_private (te_umask v) (te_key_write v) kp key d1 = (Inr (), d')" "with_fingerprint v cert key = Inr t"
    using assms(1) False by (auto simp: ensure_with_sans_def split: sum.splits prod.splits if_splits)
  from g(1) obtain f where "d1 = d(cp \<mapsto> f)" "fl_text f = cert" unfolding fs_write_def by (auto dest: write_at_ok)
  moreover from g(2) obtain f' where "d' = d1(kp \<mapsto> f')" "fl_text f' = key"
    unfolding write_private_def by (auto dest: write_at_ok)
  ultimately show ?thesis using with_fingerprint_ok [OF g(3)] with_fingerprint_of [OF g(3)] assms(2)
    by (simp add: stored_def)
qed

text \<open>Two starts read certificates the same way.\<close>

definition same_readers :: "tls_env \<Rightarrow> tls_env \<Rightarrow> bool" where
  "same_readers v w \<longleftrightarrow> te_first_cert w = te_first_cert v \<and> te_sha w = te_sha v \<and> te_hexenc w = te_hexenc v"

lemma with_fingerprint_cong: "same_readers v w \<Longrightarrow> with_fingerprint w = with_fingerprint v"
  by (intro ext) (simp add: same_readers_def with_fingerprint_def fingerprint_of_def split: option.splits sum.splits)

lemma ensure_reloads:
  assumes "stored t cp kp d" and "with_fingerprint v (cert_pem t) (key_pem t) = Inr t" and "same_readers v w"
    and "te_read w cp = None" "te_read w kp = None" "te_utf8 w (cert_pem t)" "te_utf8 w (key_pem t)"
  shows "ensure_with_sans w cp kp sans d = (Inr t, d)"
  using assms with_fingerprint_cong [OF assms(3)]
  by (auto simp: ensure_with_sans_def stored_def read_to_string_def)

text \<open>Claim C28. A pin holds across restarts: once a start has served a certificate, every later start that can
  read the files serves the same one under the same fingerprint, whatever names are asked for and
  whatever would be generated, and a client that pinned the printed fingerprint accepts exactly the
  certificates with that digest, this one among them.\<close>

theorem pin_survives_restart:
  assumes "ensure_with_sans v cp kp sans d = (Inr t, d')" and "cp \<noteq> kp" and "same_readers v w"
    and "te_read w cp = None" "te_read w kp = None" "te_utf8 w (cert_pem t)" "te_utf8 w (key_pem t)"
    and "\<And>b. hexdec (trim (te_hexenc v (te_sha v b))) = Some (te_sha v b)" and "\<And>b. length (te_sha v b) = 32"
  shows "ensure_with_sans w cp kp sans2 d' = (Inr t, d')
    \<and> (\<exists>der p. te_first_cert v (cert_pem t) = Some (Inr der) \<and> pinned_connector hexdec (fingerprint t) = Inr p
         \<and> (\<forall>leaf inters name ocsp now.
              verify_server_cert (te_sha v) p leaf inters name ocsp now = Inr () \<longleftrightarrow> te_sha v leaf = te_sha v der))"
proof -
  note st = ensure_stores [OF assms(1,2)]
  obtain der where der: "te_first_cert v (cert_pem t) = Some (Inr der)" "fingerprint t = te_hexenc v (te_sha v der)"
    using st with_fingerprint_ok by blast
  have "pinned_connector hexdec (fingerprint t) = Inr (te_sha v der)"
    using assms(8,9) der(2) by (simp add: pinned_connector_def)
  with der ensure_reloads [of t cp kp d' v w] st assms(3-7) show ?thesis
    by (auto simp: verify_server_cert_def)
qed

text \<open>A first start on an empty disk, then one that would generate another pair.\<close>

definition demo_tls :: "str \<Rightarrow> tls_env" where
  "demo_tls cert = \<lparr>te_umask = 18, te_read = (\<lambda>_. None), te_utf8 = (\<lambda>_. True),
     te_generate = (\<lambda>sans. Inr (cert, ''key'')), te_cert_write = Io_Done, te_key_write = Io_Done,
     te_first_cert = (\<lambda>pem. Some (Inr pem)),
     te_sha = (\<lambda>b. replicate 32 (if b = ''cert'' then CHR ''c'' else CHR ''d'')), te_hexenc = (\<lambda>b. b)\<rparr>"

definition demo_disk :: disk where
  "demo_disk = snd (ensure_with_sans (demo_tls ''cert'') ''c.pem'' ''k.pem'' [] Map.empty)"

lemma demo_start:
  "ensure_with_sans (demo_tls ''cert'') ''c.pem'' ''k.pem'' [] Map.empty
     = (Inr \<lparr>cert_pem = ''cert'', key_pem = ''key'', fingerprint = replicate 32 (CHR ''c'')\<rparr>, demo_disk)"
  by (simp add: demo_disk_def ensure_with_sans_def demo_tls_def fs_write_def write_private_def write_at_def
      with_fingerprint_def fingerprint_of_def)

lemma demo_trim: "trim (replicate 32 (CHR ''c'')) = replicate 32 (CHR ''c'')"
  "trim (replicate 32 (CHR ''d'')) = replicate 32 (CHR ''d'')"
  by code_simp+

theorem pin_survives_restart_witness:
  "fst (ensure_with_sans (demo_tls ''other'') ''c.pem'' ''k.pem'' [''x.org''] demo_disk)
     = Inr \<lparr>cert_pem = ''cert'', key_pem = ''key'', fingerprint = replicate 32 (CHR ''c'')\<rparr>"
  using pin_survives_restart [OF demo_start, of "demo_tls ''other''" Some "[''x.org'']"]
  by (simp add: same_readers_def demo_tls_def demo_trim)

section \<open>The key file\<close>

definition private_at :: "str \<Rightarrow> disk \<Rightarrow> bool" where
  "private_at p d \<longleftrightarrow> (case d p of Some f \<Rightarrow> fl_mode f AND 63 = 0 | None \<Rightarrow> True)"

lemma owner_bits: "(384 AND NOT u) AND 63 = (0 :: file_mode)"
proof -
  have "(384 AND NOT u) AND 63 = (384 AND 63) AND NOT u" by (simp only: ac_simps)
  then show ?thesis by simp
qed

lemma write_at_frame: "write_at m u out p txt d = (r, d') \<Longrightarrow> q \<noteq> p \<Longrightarrow> d' q = d q"
  by (auto simp: write_at_def Let_def split: io_write.splits)

lemma write_private_fresh: "write_private u out p txt d = (r, d') \<Longrightarrow> d p = None \<Longrightarrow> private_at p d'"
  by (auto simp: write_private_def write_at_def private_at_def owner_bits Let_def split: io_write.splits)

text \<open>Claim C29. A key file the server creates is readable by its owner only, from its creation on and whatever
  fails: if the path was free before the start, no group or other permission bit is ever set.\<close>

theorem key_file_private:
  assumes "d kp = None" and "cp \<noteq> kp"
  shows "case snd (ensure_with_sans v cp kp sans d) kp of Some f \<Rightarrow> fl_mode f AND 63 = 0 | None \<Rightarrow> True"
proof -
  have "private_at kp (snd (ensure_with_sans v cp kp sans d))"
  proof (cases "te_generate v ([''localhost'', ''127.0.0.1''] @ sans)")
    case (Inr ck)
    obtain cert key where ck: "ck = (cert, key)" by (cases ck)
    obtain r1 d1 where w: "fs_write (te_umask v) (te_cert_write v) cp cert d = (r1, d1)" by force
    obtain r2 d2 where p: "write_private (te_umask v) (te_key_write v) kp key d1 = (r2, d2)" by force
    from w assms have "d1 kp = None" by (simp add: fs_write_def write_at_frame)
    with write_private_fresh [OF p] assms(1) Inr ck w p show ?thesis
      by (auto simp: ensure_with_sans_def private_at_def split: sum.splits)
  qed (use assms(1) in \<open>simp add: ensure_with_sans_def private_at_def\<close>)
  then show ?thesis by (simp add: private_at_def)
qed

theorem key_file_private_witness:
  "(case snd (ensure_with_sans (demo_tls ''cert'') ''c.pem'' ''k.pem'' [] Map.empty) ''k.pem'' of
      Some f \<Rightarrow> fl_mode f AND 63 = 0 | None \<Rightarrow> True)
   \<and> map_option fl_mode (demo_disk ''k.pem'') = Some 384"
  using key_file_private [of Map.empty "''k.pem''" "''c.pem''" "demo_tls ''cert''" "[]"]
  by (simp add: demo_disk_def ensure_with_sans_def demo_tls_def fs_write_def write_private_def write_at_def)

text \<open>A key file that exists already keeps its permissions, however open they are.\<close>

lemma open_key_stays_open:
  "snd (ensure_with_sans (demo_tls ''cert'') ''c.pem'' ''k.pem'' []
      [''k.pem'' \<mapsto> \<lparr>fl_text = ''old'', fl_mode = 420\<rparr>]) ''k.pem'' = Some \<lparr>fl_text = ''key'', fl_mode = 420\<rparr>"
  by (simp add: ensure_with_sans_def demo_tls_def fs_write_def write_private_def write_at_def)

text \<open>A key write that breaks off leaves both files, and the next start takes the torn key for the key.\<close>

lemma torn_key_kept:
  "let d = snd (ensure_with_sans ((demo_tls ''cert'')\<lparr>te_key_write := Io_Cut 1 ''disk full''\<rparr>) ''c.pem'' ''k.pem'' [] Map.empty)
   in map_sum id key_pem (fst (ensure_with_sans (demo_tls ''cert'') ''c.pem'' ''k.pem'' [] d)) = Inr ''k''"
  by (simp add: Let_def ensure_with_sans_def demo_tls_def fs_write_def write_private_def write_at_def
      read_to_string_def with_fingerprint_def fingerprint_of_def)

end
