(* ===== verification/Selfcheck.thy ===== *)
theory Selfcheck
  imports Signaling
begin

text \<open>
  The network self-check (\<open>companion-core/src/selfcheck.rs\<close>) and its command
  (\<open>src-tauri/src/lib.rs\<close>): two local connections, a ping over their channel and its echo, and
  whether the server can be reached.  WebRTC's answers, and which messages arrive when, are
  arguments.
\<close>

datatype pc_id = Pc_A | Pc_B

text \<open>A message that reaches B is echoed; one that reaches A is the echo.\<close>

datatype probe_event = At_B | At_A

record probe_env =
  pv_api :: "str + unit"
  pv_new :: "pc_id \<Rightarrow> str + unit"
  pv_channel :: "str + unit"
  pv_offer :: "str + unit"
  pv_a_local :: "str + unit"
  pv_full_offer :: "str option"
  pv_b_remote :: "str + unit"
  pv_answer :: "str + unit"
  pv_b_local :: "str + unit"
  pv_full_answer :: "str option"
  pv_a_remote :: "str + unit"
  pv_before :: "probe_event list"           \<comment> \<open>until the wait begins\<close>
  pv_slot :: "nat \<Rightarrow> probe_event list"      \<comment> \<open>during each pause of the wait\<close>
  pv_between :: "probe_event list"          \<comment> \<open>between the two final reads\<close>

record probe_flags =
  pf_b_recv :: bool
  pf_a_recv :: bool

fun on_probe :: "probe_event \<Rightarrow> probe_flags \<Rightarrow> probe_flags" where
  "on_probe At_B f = f\<lparr>pf_b_recv := True\<rparr>"
| "on_probe At_A f = f\<lparr>pf_a_recv := True\<rparr>"

definition sdp_has_srflx :: "str \<Rightarrow> bool" where
  "sdp_has_srflx d = contains ''typ srflx'' d"

text \<open>At most \<open>n\<close> pauses of 200 ms, the result with the number taken.\<close>

fun wait_echo :: "(nat \<Rightarrow> probe_event list) \<Rightarrow> nat \<Rightarrow> nat \<Rightarrow> probe_flags \<Rightarrow> nat \<times> probe_flags" where
  "wait_echo slot i 0 f = (0, f)"
| "wait_echo slot i (Suc n) f =
     (if pf_a_recv f then (0, f)
      else (case wait_echo slot (Suc i) n (fold on_probe (slot i) f) of (k, f') \<Rightarrow> (Suc k, f')))"

definition NO_OFFER :: str where "NO_OFFER = ''no local offer''"
definition NO_ANSWER :: str where "NO_ANSWER = ''no local answer''"

definition loopback_probe :: "probe_env \<Rightarrow> str + bool \<times> bool \<times> bool" where
  "loopback_probe v =
     (case pv_channel v of Inl e \<Rightarrow> Inl e | Inr _ \<Rightarrow>
     (case pv_offer v of Inl e \<Rightarrow> Inl e | Inr _ \<Rightarrow>
     (case pv_a_local v of Inl e \<Rightarrow> Inl e | Inr _ \<Rightarrow>
     (case pv_full_offer v of None \<Rightarrow> Inl NO_OFFER | Some full_offer \<Rightarrow>
     (case pv_b_remote v of Inl e \<Rightarrow> Inl e | Inr _ \<Rightarrow>
     (case pv_answer v of Inl e \<Rightarrow> Inl e | Inr _ \<Rightarrow>
     (case pv_b_local v of Inl e \<Rightarrow> Inl e | Inr _ \<Rightarrow>
     (case pv_full_answer v of None \<Rightarrow> Inl NO_ANSWER | Some full_answer \<Rightarrow>
     (case pv_a_remote v of Inl e \<Rightarrow> Inl e | Inr _ \<Rightarrow>
        let stun = sdp_has_srflx full_offer \<or> sdp_has_srflx full_answer;
            f0 = fold on_probe (pv_before v) \<lparr>pf_b_recv = False, pf_a_recv = False\<rparr>;
            (_, f1) = wait_echo (pv_slot v) 0 40 f0;
            f2 = fold on_probe (pv_between v) f1
        in Inr (pf_b_recv f1, pf_a_recv f2, stun))))))))))"

datatype probe_fx = Opened pc_id | Closed pc_id

definition webrtc_loopback :: "probe_env \<Rightarrow> (str + bool \<times> bool \<times> bool) \<times> probe_fx list" where
  "webrtc_loopback v =
     (case pv_api v of Inl e \<Rightarrow> (Inl e, []) | Inr _ \<Rightarrow>
     (case pv_new v Pc_A of Inl e \<Rightarrow> (Inl e, []) | Inr _ \<Rightarrow>
     (case pv_new v Pc_B of Inl e \<Rightarrow> (Inl e, [Opened Pc_A]) | Inr _ \<Rightarrow>
        (loopback_probe v, [Opened Pc_A, Opened Pc_B, Closed Pc_A, Closed Pc_B]))))"

record self_check =
  sc_signaling :: bool
  sc_can_send :: bool
  sc_can_receive :: bool
  sc_stun :: bool

definition is_ok :: "'e + 'a \<Rightarrow> bool" where
  "is_ok r = (case r of Inl _ \<Rightarrow> False | Inr _ \<Rightarrow> True)"

definition selfcheck_run ::
  "(str \<Rightarrow> bytes option) \<Rightarrow> (str \<Rightarrow> connector \<Rightarrow> nat option \<times> (str + 'link)) \<Rightarrow> probe_env \<Rightarrow> str \<Rightarrow> str option
    \<Rightarrow> self_check" where
  "selfcheck_run hexdec dial v server cert =
     (let signaling = is_ok (snd (connect_with_timeout hexdec dial server cert CONNECT_TIMEOUT));
          (s, r, t) = (case fst (webrtc_loopback v) of Inr x \<Rightarrow> x | Inl _ \<Rightarrow> (False, False, False))
      in \<lparr>sc_signaling = signaling, sc_can_send = s, sc_can_receive = r, sc_stun = t\<rparr>)"

definition net_selfcheck ::
  "(str \<Rightarrow> bytes option) \<Rightarrow> (str \<Rightarrow> connector \<Rightarrow> nat option \<times> (str + 'link)) \<Rightarrow> probe_env \<Rightarrow> str \<Rightarrow> str + self_check" where
  "net_selfcheck hexdec dial v server =
     (if \<not> server_url_ok (trim server) then Inl ''invalid server URL''
      else Inr (selfcheck_run hexdec dial v (trim server) None))"

section \<open>What the check says\<close>

text \<open>The echo follows the ping: A hears nothing before B has.\<close>

definition echoed :: "probe_event list \<Rightarrow> bool" where
  "echoed es \<longleftrightarrow> (\<forall>n < length es. es ! n = At_A \<longrightarrow> At_B \<in> set (take n es))"

lemma fold_probe:
  "fold on_probe es f = \<lparr>pf_b_recv = (pf_b_recv f \<or> At_B \<in> set es), pf_a_recv = (pf_a_recv f \<or> At_A \<in> set es)\<rparr>"
proof (induction es arbitrary: f)
  case (Cons e es)
  then show ?case by (cases e) auto
qed simp

text \<open>The wait reads an initial part of what happens, and at most eight seconds of it.\<close>

lemma wait_echo_prefix:
  "\<exists>k \<le> n. wait_echo slot i n f = (k, fold on_probe (concat (map slot [i..<i + k])) f)"
proof (induction n arbitrary: i f)
  case (Suc n)
  from Suc.IH [of "Suc i" "fold on_probe (slot i) f"] obtain k where k: "k \<le> n"
    "wait_echo slot (Suc i) n (fold on_probe (slot i) f)
       = (k, fold on_probe (concat (map slot [Suc i..<Suc i + k])) (fold on_probe (slot i) f))" by blast
  show ?case
  proof (cases "pf_a_recv f")
    case False
    with k have "wait_echo slot i (Suc n) f = (Suc k, fold on_probe (concat (map slot [i..<i + Suc k])) f)"
      by (simp add: upt_conv_Cons del: upt_Suc)
    with k(1) show ?thesis using Suc_le_mono by blast
  qed (auto intro: exI [of _ 0])
qed simp

lemma wait_bounded: "fst (wait_echo slot i n f) \<le> n"
  using wait_echo_prefix [of n slot i f] by auto

lemma echoed_ping: "echoed es \<Longrightarrow> At_A \<in> set es \<Longrightarrow> At_B \<in> set es"
  unfolding echoed_def by (metis in_set_conv_nth in_set_takeD)

lemma echoed_front: "echoed (xs @ ys) \<Longrightarrow> echoed xs"
  unfolding echoed_def
proof (intro allI impI)
  fix n assume e: "\<forall>n<length (xs @ ys). (xs @ ys) ! n = At_A \<longrightarrow> At_B \<in> set (take n (xs @ ys))"
    and n: "n < length xs" "xs ! n = At_A"
  from n e [rule_format, of n] show "At_B \<in> set (take n xs)" by (simp add: nth_append)
qed

text \<open>The self-check does not flatter: it reports reception only if an echo came, sending only if the
  ping arrived, and never reception alone unless ping and echo both fell between its last two reads.\<close>

lemma selfcheck_honest:
  assumes "loopback_probe v = Inr (s, r, t)"
  shows "\<exists>k \<le> 40. (let seen = pv_before v @ concat (map (pv_slot v) [0..<k]) in
      s = (At_B \<in> set seen) \<and> r = (At_A \<in> set (seen @ pv_between v))
      \<and> (echoed (seen @ pv_between v) \<and> r \<and> \<not> s \<longrightarrow> At_B \<in> set (pv_between v) \<and> At_A \<in> set (pv_between v)))"
proof -
  define f0 where "f0 = fold on_probe (pv_before v) \<lparr>pf_b_recv = False, pf_a_recv = False\<rparr>"
  obtain k where k: "k \<le> 40" "wait_echo (pv_slot v) 0 40 f0 = (k, fold on_probe (concat (map (pv_slot v) [0..<0 + k])) f0)"
    using wait_echo_prefix by blast
  let ?seen = "pv_before v @ concat (map (pv_slot v) [0..<k])"
  have "s = (At_B \<in> set ?seen) \<and> r = (At_A \<in> set (?seen @ pv_between v))"
    using assms k(2) by (auto simp: loopback_probe_def f0_def Let_def fold_probe split: sum.splits option.splits)
  moreover from this have "At_B \<in> set (pv_between v) \<and> At_A \<in> set (pv_between v)"
    if "echoed (?seen @ pv_between v)" "r" "\<not> s"
    using that echoed_ping [OF that(1)] echoed_ping [OF echoed_front [OF that(1)]] by auto
  ultimately show ?thesis using k(1) by (auto simp: Let_def intro!: exI [of _ k])
qed

text \<open>Both connections are closed whatever the probe does; only when the second cannot be created does
  the first stay open.\<close>

lemma loopback_closes:
  "snd (webrtc_loopback v) \<in> {[], [Opened Pc_A, Opened Pc_B, Closed Pc_A, Closed Pc_B]}
   \<or> snd (webrtc_loopback v) = [Opened Pc_A] \<and> \<not> is_ok (pv_new v Pc_B)"
  by (auto simp: webrtc_loopback_def is_ok_def split: sum.splits)

end
