(* ===== verification/Console.thy ===== *)
theory Console
  imports Client
begin

text \<open>
  The headless console client (\<open>companion-core/src/main.rs\<close>): its configuration from the
  environment, the lines it prints for the engine's events, and what typed lines do.
\<close>

section \<open>Configuration\<close>

type_synonym environment = "str \<Rightarrow> str option"

definition env_or :: "environment \<Rightarrow> str \<Rightarrow> str \<Rightarrow> str" where
  "env_or env key dflt = (case env key of Some v \<Rightarrow> v | None \<Rightarrow> dflt)"

definition console_config :: "environment \<Rightarrow> engine_config" where
  "console_config env =
     (let user = env_or env ''USER_ID'' ''user''
      in \<lparr>ec_server = env_or env ''SERVER'' ''ws://127.0.0.1:8080/ws'', ec_room = env_or env ''ROOM'' ''testroom'',
          ec_user_id = user, ec_name = env_or env ''NAME'' user, ec_token = env ''TOKEN'',
          ec_cert = env ''CERT_SHA256'', ec_input = env ''IN_DEVICE'', ec_output = env ''OUT_DEVICE'',
          ec_relay = (env ''RELAY_DISABLED'' = None)\<rparr>)"

section \<open>Events as lines\<close>

fun join_with :: "str \<Rightarrow> str list \<Rightarrow> str" where
  "join_with sep [] = []"
| "join_with sep [x] = x"
| "join_with sep (x # y # ys) = x @ sep @ join_with sep (y # ys)"

definition show_bool :: "bool \<Rightarrow> str" where
  "show_bool b = (if b then ''true'' else ''false'')"

definition show_participant :: "participant \<Rightarrow> str" where
  "show_participant p =
     p_name p @ (if p_you p then '' (du)'' else [])
       @ (case p_badge p of Some b \<Rightarrow> '' ['' @ b @ '']'' | None \<Rightarrow> [])
       @ (if p_speaking p then [CHR '' '', CHR 0xF0, CHR 0x9F, CHR 0x8E, CHR 0x99] else [])"

fun show_event :: "ui_event \<Rightarrow> str" where
  "show_event (URoster ps) =
     ''[Teilnehmer '' @ show_nat (length ps) @ '']: '' @ join_with '', '' (map show_participant ps)"
| "show_event (UChat who text) = ''[chat '' @ who @ ''] '' @ text"
| "show_event (UStatus up tx) =
     ''[status verbunden='' @ show_bool up @ '' senden='' @ show_bool tx @ '']''"
| "show_event (ULog text) = ''[log] '' @ text"
| "show_event (UNet peers up down) =
     ''[net peers='' @ show_nat peers @ '' up='' @ show_nat up @ ''kbps down='' @ show_nat down @ ''kbps]''"
| "show_event (URekeyed generation by_id) = ''[rekey #'' @ show_nat (unat generation) @ '' by '' @ by_id @ '']''"
| "show_event (USignaling up) = ''[signaling '' @ (if up then ''up'' else ''down'') @ '']''"
| "show_event (UChannel mine) = ''[channel '' @ mine @ '']''"
| "show_event (UChannels names) = ''[channels '' @ join_with '', '' names @ '']''"
| "show_event (UChannelRemoved name) = ''[channel-removed '' @ name @ '']''"
| "show_event (URoomAudio g authority) =
     ''[room-audio '' @ (case g of Some n \<Rightarrow> ''gen'' @ show_nat (unat n) | None \<Rightarrow> ''aushandeln'')
       @ '' authority='' @ show_bool authority @ '']''"

section \<open>Typed lines\<close>

text \<open>The reader thread: a line, or its end (\<open>None\<close>: end of input or a read error).\<close>

definition console_line :: "str \<Rightarrow> engine_handle \<Rightarrow> engine_handle" where
  "console_line line h =
     (let t = trim line
      in if t = ''/t'' then eh_toggle_transmit h else if t \<noteq> [] then eh_send_chat t h else h)"

fun console_loop :: "str option list \<Rightarrow> engine_handle \<Rightarrow> engine_handle" where
  "console_loop [] h = h"
| "console_loop (None # ls) h = h"
| "console_loop (Some line # ls) h = console_loop ls (console_line line h)"

text \<open>From the console only transmit toggles and visible chat reach the engine, one for a line at most,
  and nothing after the input's end; the audio rig's settings stay as they were.\<close>

lemma console_line_cmds:
  "\<exists>cs. console_line line h = h\<lparr>eh_cmds := eh_cmds h @ cs\<rparr> \<and> length cs \<le> 1
      \<and> set cs \<subseteq> insert ToggleTx {ChatCmd t | t. t = trim line \<and> t \<noteq> []}"
proof -
  have "h = h\<lparr>eh_cmds := eh_cmds h @ []\<rparr>" by simp
  then show ?thesis
    by (auto simp: console_line_def Let_def eh_toggle_transmit_def eh_send_chat_def send_cmd_def
        intro: exI [of _ "[ToggleTx]"] exI [of _ "[ChatCmd (trim line)]"] exI [of _ "[]"])
qed

lemma console_loop_cmds:
  "\<exists>cs. console_loop ls h = h\<lparr>eh_cmds := eh_cmds h @ cs\<rparr> \<and> length cs \<le> length (takeWhile (\<lambda>l. l \<noteq> None) ls)
      \<and> set cs \<subseteq> insert ToggleTx {ChatCmd t | t line. Some line \<in> set ls \<and> t = trim line \<and> t \<noteq> []}"
proof (induction ls h rule: console_loop.induct)
  case (3 line ls h)
  obtain c where c: "console_line line h = h\<lparr>eh_cmds := eh_cmds h @ c\<rparr>" "length c \<le> 1"
    "set c \<subseteq> insert ToggleTx {ChatCmd t | t. t = trim line \<and> t \<noteq> []}" using console_line_cmds by blast
  from "3.IH" obtain cs where cs:
    "console_loop ls (console_line line h) = (console_line line h)\<lparr>eh_cmds := eh_cmds (console_line line h) @ cs\<rparr>"
    "length cs \<le> length (takeWhile (\<lambda>l. l \<noteq> None) ls)"
    "set cs \<subseteq> insert ToggleTx {ChatCmd t | t line. Some line \<in> set ls \<and> t = trim line \<and> t \<noteq> []}" by blast
  show ?case
  proof (intro exI [of _ "c @ cs"] conjI)
    show "set (c @ cs) \<subseteq> insert ToggleTx {ChatCmd t | t l. Some l \<in> set (Some line # ls) \<and> t = trim l \<and> t \<noteq> []}"
    proof
      fix x assume "x \<in> set (c @ cs)"
      then consider "x \<in> set c" | "x \<in> set cs" by auto
      then show "x \<in> insert ToggleTx {ChatCmd t | t l. Some l \<in> set (Some line # ls) \<and> t = trim l \<and> t \<noteq> []}"
        by cases (use c(3) cs(3) in force)+
    qed
  qed (use c cs in auto)
qed (auto intro: exI [of _ "[]"])

text \<open>Without settings the console dials a local server, which the address policy allows.\<close>

lemma console_default_dials: "server_url_ok (ec_server (console_config (\<lambda>_. None)))"
  by code_simp

end
