(* ===== verification/Node.thy ===== *)
theory Node
  imports Mesh_Props
begin

text \<open>
  One client as the task of \<open>Engine::start\<close> runs it: the engine's effects are calls into the mesh,
  made in order; what the mesh sends goes through the uplink channel back into the loop and from
  there to the server, what it reports comes back as an event.  Channel state and pairwise sessions
  are shared between the two (\<open>Arc\<close>s in the code).
\<close>

text \<open>The calls behind the effects; the ones on the interface and the server do not touch the mesh.\<close>

definition mesh_call :: "mesh_env \<Rightarrow> effect \<Rightarrow> mesh \<Rightarrow> mesh \<times> mesh_fx list" where
  "mesh_call env f m =
     (case f of
        MOnPeer i \<Rightarrow> on_peer env i m
      | MOnLeft i \<Rightarrow> on_left i m
      | MRelink i \<Rightarrow> relink env i m
      | MOffer src sdp \<Rightarrow> mesh_on_offer env src sdp m
      | MAnswer src sdp \<Rightarrow> mesh_on_answer env src sdp m
      | MIce src c \<Rightarrow> mesh_on_ice env src c m
      | MRekey \<Rightarrow> mesh_rekey env m
      | MAddTurn urls u c \<Rightarrow> (add_turn urls u c m, [])
      | MKey a \<Rightarrow> perform_key_action env a m
      | MCloseAll \<Rightarrow> close_all m
      | MChat t \<Rightarrow> broadcast_chat env t m
      | MChannel n \<Rightarrow> (m, broadcast_channel n m)
      | MChannels ns \<Rightarrow> (m, broadcast_channels ns m)
      | MChannelRemoved n \<Rightarrow> (m, broadcast_channel_removed n m)
      | _ \<Rightarrow> (m, []))"

fun mesh_calls :: "mesh_env \<Rightarrow> effect list \<Rightarrow> mesh \<Rightarrow> mesh \<times> mesh_fx list" where
  "mesh_calls env [] m = (m, [])"
| "mesh_calls env (f # fs) m =
     (let (m1, g1) = mesh_call env f m; (m2, g2) = mesh_calls env fs m1 in (m2, g1 @ g2))"

record node =
  nd_engine :: engine
  nd_mesh :: mesh
  nd_uplink :: "client_msg list"     \<comment> \<open>sent by the mesh, not taken by the loop yet\<close>
  nd_events :: "mesh_event list"
  nd_log :: "mesh_fx list"           \<comment> \<open>everything the mesh has done\<close>

definition outs :: "mesh_fx list \<Rightarrow> client_msg list" where
  "outs fx = concat (map (\<lambda>f. case f of FOut c \<Rightarrow> [c] | _ \<Rightarrow> []) fx)"

definition reports :: "mesh_fx list \<Rightarrow> mesh_event list" where
  "reports fx = concat (map (\<lambda>f. case f of FEvent ev \<Rightarrow> [ev] | _ \<Rightarrow> []) fx)"

definition to_server :: "effect list \<Rightarrow> client_msg list" where
  "to_server fx = concat (map (\<lambda>f. case f of ToServer c \<Rightarrow> [c] | _ \<Rightarrow> []) fx)"

text \<open>What the mesh did becomes messages, reports and log.\<close>

definition took :: "mesh \<times> mesh_fx list \<Rightarrow> node \<Rightarrow> node" where
  "took r nd = (case r of (m, fx) \<Rightarrow>
     nd\<lparr>nd_mesh := m, nd_uplink := nd_uplink nd @ outs fx, nd_events := nd_events nd @ reports fx, nd_log := nd_log nd @ fx\<rparr>)"

text \<open>One iteration of the loop, with the messages handed to the server.\<close>

definition node_step :: "mesh_env \<Rightarrow> obs \<times> event \<Rightarrow> node \<Rightarrow> node \<times> client_msg list" where
  "node_step env oev nd =
     (case oev of (ob, ev) \<Rightarrow>
        let (e, fx) = engine_step (ob\<lparr>ob_crypto := ms_crypto (nd_mesh nd)\<rparr>, ev)
                        ((nd_engine nd)\<lparr>en_chan := ms_chan (nd_mesh nd)\<rparr>)
        in (took (mesh_calls env fx ((nd_mesh nd)\<lparr>ms_chan := en_chan e\<rparr>)) (nd\<lparr>nd_engine := e\<rparr>), to_server fx))"

text \<open>The loop takes the oldest message of the uplink, or the oldest report.\<close>

definition node_uplink :: "mesh_env \<Rightarrow> obs \<Rightarrow> node \<Rightarrow> node \<times> client_msg list" where
  "node_uplink env ob nd =
     (case nd_uplink nd of [] \<Rightarrow> (nd, []) | c # cs \<Rightarrow> node_step env (ob, Uplink c) (nd\<lparr>nd_uplink := cs\<rparr>))"

definition node_report :: "mesh_env \<Rightarrow> obs \<Rightarrow> node \<Rightarrow> node \<times> client_msg list" where
  "node_report env ob nd =
     (case nd_events nd of [] \<Rightarrow> (nd, []) | ev # evs \<Rightarrow> node_step env (ob, FromMesh ev) (nd\<lparr>nd_events := evs\<rparr>))"

text \<open>A callback of the connection to a peer: a local candidate, or a change of its state.\<close>

definition node_callback :: "str \<Rightarrow> (peer_conn \<Rightarrow> peer_conn \<times> mesh_fx list) \<Rightarrow> node \<Rightarrow> node" where
  "node_callback peer cb nd =
     (case map_of (ms_peers (nd_mesh nd)) peer of
        None \<Rightarrow> nd
      | Some p \<Rightarrow> (let (p1, fx) = cb p in took (put_peer peer p1 (nd_mesh nd), fx) nd))"

section \<open>The link of one pair\<close>

lemma outs_simps [simp]:
  "outs [] = []" "outs (f # fs) = (case f of FOut c \<Rightarrow> [c] | _ \<Rightarrow> []) @ outs fs" "outs (xs @ ys) = outs xs @ outs ys"
  by (simp_all add: outs_def)

lemma reports_simps [simp]:
  "reports [] = []" "reports (f # fs) = (case f of FEvent ev \<Rightarrow> [ev] | _ \<Rightarrow> []) @ reports fs"
  "reports (xs @ ys) = reports xs @ reports ys"
  by (simp_all add: reports_def)

lemma to_server_simps [simp]:
  "to_server [] = []" "to_server (f # fs) = (case f of ToServer c \<Rightarrow> [c] | _ \<Rightarrow> []) @ to_server fs"
  "to_server (xs @ ys) = to_server xs @ to_server ys"
  by (simp_all add: to_server_def)

lemma mesh_calls_append:
  "mesh_calls env (xs @ ys) m =
     (let (m1, g1) = mesh_calls env xs m; (m2, g2) = mesh_calls env ys m1 in (m2, g1 @ g2))"
  by (induction xs arbitrary: m) (auto simp: Let_def split: prod.splits)

text \<open>What a client knows of its link to a peer: its signaling state, whether a description of the
  other side was taken, and the connection.\<close>

definition link :: "str \<Rightarrow> mesh \<Rightarrow> (sig_state \<times> bool \<times> nat) option" where
  "link i m = map_option (\<lambda>p. (pn_sig p, pn_remote_set p, pn_pc p)) (map_of (ms_peers m) i)"

text \<open>A call that leaves the link to \<open>i\<close> as it is and sends nothing to the server.\<close>

definition quiet :: "str \<Rightarrow> mesh \<Rightarrow> mesh \<times> mesh_fx list \<Rightarrow> bool" where
  "quiet i m r \<longleftrightarrow> link i (fst r) = link i m \<and> ms_my_id (fst r) = ms_my_id m \<and> outs (snd r) = []"

lemma quietI:
  "link i m' = link i m \<Longrightarrow> ms_my_id m' = ms_my_id m \<Longrightarrow> outs fx = [] \<Longrightarrow> quiet i m (m', fx)"
  by (simp add: quiet_def)

lemma quiet_nothing [simp]: "quiet i m (m, [])"
  by (simp add: quiet_def)

lemma quiet_calls:
  "(\<And>f m. f \<in> set fs \<Longrightarrow> quiet i m (mesh_call env f m)) \<Longrightarrow> quiet i m (mesh_calls env fs m)"
proof (induction fs arbitrary: m)
  case (Cons f fs)
  obtain m1 g1 where a: "mesh_call env f m = (m1, g1)" by (cases "mesh_call env f m")
  obtain m2 g2 where b: "mesh_calls env fs m1 = (m2, g2)" by (cases "mesh_calls env fs m1")
  from Cons.IH [of m1] Cons.prems [of f m] Cons.prems a b show ?case by (simp add: quiet_def)
qed simp

lemma outs_ice [simp]: "outs (map (FAddIce n) cs) = []"
  by (induction cs) simp_all

lemma quiet_key: "quiet i m (mesh_call env (MKey a) m)"
  by (auto simp: quiet_def mesh_call_def perform_key_action_def send_room_key_def send_room_gen_def send_sealed_def link_def
      split: key_action.splits prod.splits option.splits)

lemma quiet_ui: "quiet i m (mesh_call env (Ui u) m)" "quiet i m (mesh_call env Click m)"
  by (simp_all add: mesh_call_def)

lemma quiet_turn: "quiet i m (mesh_call env (MAddTurn us u c) m)"
  by (simp add: mesh_call_def quiet_def add_turn_def link_def)

lemma quiet_left: "j \<noteq> i \<Longrightarrow> quiet i m (mesh_call env (MOnLeft j) m)"
  by (auto simp: mesh_call_def quiet_def on_left_def link_def split: option.splits)

lemma quiet_ice: "quiet i m (mesh_call env (MIce j c) m)"
  by (auto simp: mesh_call_def quiet_def mesh_on_ice_def link_def add_or_queue_ice_def put_peer_def Let_def
      split: option.splits prod.splits if_splits)

section \<open>Building the link\<close>

lemma link_put_same: "link i (put_peer i p m) = Some (pn_sig p, pn_remote_set p, pn_pc p)"
  by (simp add: link_def put_peer_def)

lemma put_peer_id [simp]: "ms_my_id (put_peer i p m) = ms_my_id m"
  by (simp add: put_peer_def)

lemma drop_link_facts:
  assumes "drop_link i m = (m', fx)"
  shows "map_of (ms_peers m') i = None \<and> ms_my_id m' = ms_my_id m \<and> outs fx = []"
  using assms by (auto simp: drop_link_def split: option.splits)

lemma ensure_facts:
  assumes "ensure env i m = (r, m', fx)" and "all_ok env"
  shows "r \<and> ms_my_id m' = ms_my_id m \<and> outs fx = []
    \<and> (\<exists>p. map_of (ms_peers m') i = Some p \<and> (map_of (ms_peers m) i = None \<longrightarrow> pn_sig p = Stable \<and> \<not> pn_remote_set p)
         \<and> (map_of (ms_peers m) i \<noteq> None \<longrightarrow> map_of (ms_peers m) i = Some p))"
  using assms by (auto simp: ensure_def all_ok_def put_peer_def Let_def split: if_splits)

text \<open>The smaller id offers on a new connection; the larger one keeps its link or makes one.\<close>

lemma on_peer_offers:
  assumes "ms_my_id m < i" and "all_ok env"
  shows "\<exists>n m' fx. on_peer env i m = (m', fx) \<and> ms_my_id m' = ms_my_id m \<and> link i m' = Some (HaveLocalOffer, False, n)
    \<and> outs fx = [Offer i (me_sdp env n)]"
proof -
  obtain m1 f1 where d: "drop_link i m = (m1, f1)" by (cases "drop_link i m")
  obtain r m2 f2 where e: "ensure env i m1 = (r, m2, f2)" by (cases "ensure env i m1")
  note df = drop_link_facts [OF d] and ef = ensure_facts [OF e assms(2)]
  obtain p where p: "map_of (ms_peers m2) i = Some p" "\<not> pn_remote_set p" using df ef by auto
  have "offer env i m2 = (put_peer i (p\<lparr>pn_chat := Some (ms_next m2), pn_sig := HaveLocalOffer\<rparr>) (m2\<lparr>ms_next := Suc (ms_next m2)\<rparr>),
      [FOut (Offer i (me_sdp env (pn_pc p)))])"
    using p assms(2) by (simp add: offer_def all_ok_def Let_def)
  with d e df ef p assms(1) show ?thesis
    by (simp add: on_peer_def ensure_offer_def link_put_same Let_def)
qed

lemma on_peer_waits:
  assumes "\<not> ms_my_id m < i" and "all_ok env" and "on_peer env i m = (m', fx)"
  shows "ms_my_id m' = ms_my_id m \<and> outs fx = []"
  using assms ensure_facts [of env i m] by (auto simp: on_peer_def Let_def split: prod.splits)

text \<open>An offer from the smaller id is always answered, whatever was there before.\<close>

lemma offer_answered:
  assumes "\<not> ms_my_id m < i" and "all_ok env"
  shows "\<exists>n m' fx. mesh_on_offer env i sdp m = (m', fx) \<and> ms_my_id m' = ms_my_id m \<and> link i m' = Some (Stable, True, n)
    \<and> outs fx = [Answer i (me_sdp env n)] \<and> FRemoteOffer n sdp \<in> set fx"
proof -
  let ?g = "case map_of (ms_peers m) i of Some p \<Rightarrow> pn_sig p = HaveLocalOffer | None \<Rightarrow> False"
  obtain m1 f1 where a: "(if ?g then drop_link i m else (m, [])) = (m1, f1)" by (metis surj_pair)
  obtain m2 f2 where b: "(case map_of (ms_peers m1) i of Some p \<Rightarrow> if pn_remote_set p then drop_link i m1 else (m1, [])
      | None \<Rightarrow> (m1, [])) = (m2, f2)" by (metis surj_pair)
  obtain r m3 f3 where c: "ensure env i m2 = (r, m3, f3)" by (cases "ensure env i m2")
  have af: "ms_my_id m1 = ms_my_id m \<and> outs f1 = []" using a drop_link_facts [of i m m1 f1] by (auto split: if_splits)
  have bf: "ms_my_id m2 = ms_my_id m1 \<and> outs f2 = []"
    using b drop_link_facts [of i m1 m2 f2] by (auto split: if_splits option.splits)
  from ensure_facts [OF c assms(2)] obtain p where cf: "r" "ms_my_id m3 = ms_my_id m2" "outs f3 = []"
    "map_of (ms_peers m3) i = Some p" by blast
  obtain p1 f4 where fl: "flush_ice env (p\<lparr>pn_sig := HaveRemoteOffer\<rparr>) = (p1, f4)"
    by (cases "flush_ice env (p\<lparr>pn_sig := HaveRemoteOffer\<rparr>)")
  have flf: "pn_remote_set p1" "pn_pc p1 = pn_pc p" "outs f4 = []" using fl by (auto simp: flush_ice_def)
  have "mesh_on_offer env i sdp m = (put_peer i (p1\<lparr>pn_sig := Stable\<rparr>) m3,
      (f1 @ f2 @ f3 @ [FRemoteOffer (pn_pc p) sdp] @ f4) @ [FOut (Answer i (me_sdp env (pn_pc p)))])"
    unfolding mesh_on_offer_def Let_def
    using assms(2) by (simp only: a b c cf(1,4) fl prod.case option.case assms(1) all_ok_def simp_thms if_False if_True)
  with af bf cf flf show ?thesis by (simp add: link_put_same)
qed

lemma answer_taken:
  assumes "link i m = Some (HaveLocalOffer, b, n)" and "all_ok env"
  shows "\<exists>m' fx. mesh_on_answer env i sdp m = (m', fx) \<and> ms_my_id m' = ms_my_id m \<and> link i m' = Some (Stable, True, n)
    \<and> outs fx = [] \<and> FRemoteAnswer n sdp \<in> set fx"
  using assms by (auto simp: mesh_on_answer_def all_ok_def flush_ice_def link_put_same Let_def link_def [of i m])

section \<open>Messages of the server at a node\<close>

text \<open>Calls that leave the link alone, around the one that builds it.\<close>

lemma around_offers:
  assumes "\<And>f m. f \<in> set xs \<union> set ys \<Longrightarrow> quiet i m (mesh_call env f m)" and "ms_my_id m < i" and "all_ok env"
  shows "\<exists>n m' fx. mesh_calls env (xs @ MOnPeer i # ys) m = (m', fx) \<and> ms_my_id m' = ms_my_id m
    \<and> link i m' = Some (HaveLocalOffer, False, n) \<and> outs fx = [Offer i (me_sdp env n)]"
proof -
  obtain m1 f1 where a: "mesh_calls env xs m = (m1, f1)" by (cases "mesh_calls env xs m")
  have q1: "quiet i m (m1, f1)" using quiet_calls [of xs i env m] assms(1) a by simp
  with on_peer_offers [of m1 i env] assms(2,3) obtain n m2 f2 where b: "on_peer env i m1 = (m2, f2)"
    "ms_my_id m2 = ms_my_id m1" "link i m2 = Some (HaveLocalOffer, False, n)" "outs f2 = [Offer i (me_sdp env n)]"
    by (auto simp: quiet_def)
  obtain m3 f3 where c: "mesh_calls env ys m2 = (m3, f3)" by (cases "mesh_calls env ys m2")
  have "quiet i m2 (m3, f3)" using quiet_calls [of ys i env m2] assms(1) c by simp
  with q1 a b c show ?thesis by (auto simp: mesh_calls_append mesh_call_def quiet_def)
qed

lemma around_waits:
  assumes "\<And>f m. f \<in> set xs \<union> set ys \<Longrightarrow> quiet i m (mesh_call env f m)" and "\<not> ms_my_id m < i" and "all_ok env"
  shows "\<exists>m' fx. mesh_calls env (xs @ MOnPeer i # ys) m = (m', fx) \<and> ms_my_id m' = ms_my_id m \<and> outs fx = []"
proof -
  obtain m1 f1 where a: "mesh_calls env xs m = (m1, f1)" by (cases "mesh_calls env xs m")
  have q1: "quiet i m (m1, f1)" using quiet_calls [of xs i env m] assms(1) a by simp
  obtain m2 f2 where b: "on_peer env i m1 = (m2, f2)" by (cases "on_peer env i m1")
  obtain m3 f3 where c: "mesh_calls env ys m2 = (m3, f3)" by (cases "mesh_calls env ys m2")
  have "quiet i m2 (m3, f3)" using quiet_calls [of ys i env m2] assms(1) c by simp
  with q1 a b c on_peer_waits [OF _ assms(3) b] assms(2) show ?thesis
    by (auto simp: mesh_calls_append mesh_call_def quiet_def)
qed

text \<open>The message by which the server tells a client of one peer: the roster when it joins, else the
  announcement.\<close>

definition intro_of :: "str \<Rightarrow> server_msg \<Rightarrow> bool" where
  "intro_of i msg \<longleftrightarrow> (\<exists>n. msg = SPeerJoined i n \<or> msg = SRoster [\<lparr>pi_user_id = i, pi_name = n\<rparr>])"

fun noise :: "server_msg \<Rightarrow> bool" where
  "noise (STurn _) = True"
| "noise (SWarn _ _) = True"
| "noise (SIce _ _) = True"
| "noise _ = False"

lemma rotate_effects: "rotate_and_tell ob e = (e', fx) \<Longrightarrow>
   (\<exists>acts u. fx = map MKey acts @ [Ui u]) \<and> en_up e' = en_up e \<and> en_running e' = en_running e"
  by (auto simp: rotate_and_tell_def Let_def split: prod.splits)

text \<open>An introduction makes the engine call \<open>on_peer\<close> for that peer, with nothing that matters to the
  link around it.\<close>

lemma intro_effects:
  assumes "intro_of i msg" and "on_server ob msg e = (e', fx)"
  shows "en_up e' = en_up e \<and> en_running e' = en_running e \<and> to_server fx = []
    \<and> (\<exists>xs ys. fx = xs @ MOnPeer i # ys \<and> (\<forall>f \<in> set xs \<union> set ys. \<forall>env m. quiet i m (mesh_call env f m)))"
proof -
  have keys: "\<forall>f \<in> set (map MKey acts @ [Ui u]). \<forall>env m. quiet i m (mesh_call env f m)" for acts u
    by (auto simp: quiet_key quiet_ui)
  have no: "to_server (map MKey acts) = []" for acts by (induction acts) simp_all
  from assms(1) consider (join) n where "msg = SPeerJoined i n" | (roster) n where "msg = SRoster [\<lparr>pi_user_id = i, pi_name = n\<rparr>]"
    by (auto simp: intro_of_def)
  then show ?thesis
  proof cases
    case join
    from assms(2) obtain ys where "fx = [] @ MOnPeer i # ys" "\<forall>f \<in> set ys. \<forall>env m. quiet i m (mesh_call env f m)"
      "to_server ys = []" "en_up e' = en_up e" "en_running e' = en_running e"
      unfolding join on_server.simps on_peer_joined_def Let_def
      by (auto simp: quiet_ui roster_of_def emit_roster_def no quiet_key dest!: rotate_effects split: if_splits prod.splits)
    then show ?thesis by (intro conjI exI [of _ "[]"] exI [of _ ys]) auto
  next
    case roster
    define gone where "gone = departed (en_members e) [\<lparr>pi_user_id = i, pi_name = n\<rparr>]"
    have g: "i \<notin> set gone" by (auto simp: gone_def departed_def)
    have left: "\<forall>f \<in> set (map MOnLeft gone). \<forall>env m. quiet i m (mesh_call env f m)"
      using g by (auto intro: quiet_left)
    have nol: "to_server (map MOnLeft js) = []" for js by (induction js) simp_all
    from assms(2) obtain ys where "fx = map MOnLeft gone @ MOnPeer i # ys" "\<forall>f \<in> set ys. \<forall>env m. quiet i m (mesh_call env f m)"
      "to_server ys = []" "en_up e' = en_up e" "en_running e' = en_running e"
      unfolding roster on_server.simps on_roster_def Let_def gone_def [symmetric]
      by (auto simp: quiet_ui roster_of_def emit_roster_def no quiet_key dest!: rotate_effects split: if_splits prod.splits)
    with left nol show ?thesis by (intro conjI exI [of _ "map MOnLeft gone"] exI [of _ ys]) auto
  qed
qed

lemma noise_effects:
  assumes "noise msg" and "on_server ob msg e = (e', fx)"
  shows "en_up e' = en_up e \<and> en_running e' = en_running e \<and> to_server fx = []
    \<and> (\<forall>f \<in> set fx. \<forall>env m. quiet i m (mesh_call env f m))"
  using assms by (cases msg) (auto simp: quiet_turn quiet_ui quiet_ice split: if_splits)

text \<open>What a step leaves of a node: who it is, that it runs, and its uplink and log as prefixes.\<close>

definition online :: "str \<Rightarrow> node \<Rightarrow> bool" where
  "online me nd \<longleftrightarrow> en_up (nd_engine nd) \<and> en_running (nd_engine nd) \<and> ms_my_id (nd_mesh nd) = me"

lemma took_simps [simp]:
  "nd_mesh (took (m, fx) nd) = m" "nd_uplink (took (m, fx) nd) = nd_uplink nd @ outs fx"
  "nd_log (took (m, fx) nd) = nd_log nd @ fx" "nd_engine (took (m, fx) nd) = nd_engine nd"
  by (simp_all add: took_def)

lemma link_chan [simp]: "link i (m\<lparr>ms_chan := c\<rparr>) = link i m"
  by (simp add: link_def)

lemma node_server:
  assumes "online me nd"
  shows "\<exists>e fx ob' e0 c. on_server ob' msg e0 = (e, fx) \<and> en_up e0 \<and> en_running e0
    \<and> node_step env (ob, FromServer msg) nd
        = (took (mesh_calls env fx ((nd_mesh nd)\<lparr>ms_chan := c\<rparr>)) (nd\<lparr>nd_engine := e\<rparr>), to_server fx)"
proof -
  let ?ob = "ob\<lparr>ob_crypto := ms_crypto (nd_mesh nd)\<rparr>" and ?e0 = "(nd_engine nd)\<lparr>en_chan := ms_chan (nd_mesh nd)\<rparr>"
  obtain e fx where e: "on_server ?ob msg ?e0 = (e, fx)" by (cases "on_server ?ob msg ?e0")
  with assms show ?thesis
    by (intro exI [of _ e] exI [of _ fx] exI [of _ ?ob] exI [of _ ?e0] exI [of _ "en_chan e"])
      (simp add: node_step_def online_def)
qed

lemma node_noise:
  assumes "online me nd" and "noise msg" and "node_step env (ob, FromServer msg) nd = (nd', out)"
  shows "online me nd' \<and> out = [] \<and> link i (nd_mesh nd') = link i (nd_mesh nd) \<and> nd_uplink nd' = nd_uplink nd
    \<and> set (nd_log nd) \<subseteq> set (nd_log nd')"
proof -
  from node_server [OF assms(1), of msg env ob] assms(3) obtain e fx ob' e0 c where
    e: "on_server ob' msg e0 = (e, fx)" "en_up e0" "en_running e0"
    and n: "nd' = took (mesh_calls env fx ((nd_mesh nd)\<lparr>ms_chan := c\<rparr>)) (nd\<lparr>nd_engine := e\<rparr>)" "out = to_server fx"
    by (metis prod.inject)
  obtain m g where m: "mesh_calls env fx ((nd_mesh nd)\<lparr>ms_chan := c\<rparr>) = (m, g)"
    by (cases "mesh_calls env fx ((nd_mesh nd)\<lparr>ms_chan := c\<rparr>)")
  note eff = noise_effects [OF assms(2) e(1), of i]
  with quiet_calls [of fx i env "(nd_mesh nd)\<lparr>ms_chan := c\<rparr>"] m have "quiet i ((nd_mesh nd)\<lparr>ms_chan := c\<rparr>) (m, g)" by simp
  with eff e(2,3) n m assms(1) show ?thesis by (auto simp: online_def quiet_def)
qed

lemma node_intro:
  assumes "online me nd" and "intro_of i msg" and "all_ok env" and "node_step env (ob, FromServer msg) nd = (nd', out)"
  shows "online me nd' \<and> out = [] \<and> set (nd_log nd) \<subseteq> set (nd_log nd')
    \<and> (if me < i then \<exists>n. link i (nd_mesh nd') = Some (HaveLocalOffer, False, n) \<and> nd_uplink nd' = nd_uplink nd @ [Offer i (me_sdp env n)]
       else nd_uplink nd' = nd_uplink nd)"
proof -
  from node_server [OF assms(1), of msg env ob] assms(4) obtain e fx ob' e0 c where
    e: "on_server ob' msg e0 = (e, fx)" "en_up e0" "en_running e0"
    and n: "nd' = took (mesh_calls env fx ((nd_mesh nd)\<lparr>ms_chan := c\<rparr>)) (nd\<lparr>nd_engine := e\<rparr>)" "out = to_server fx"
    by (metis prod.inject)
  from intro_effects [OF assms(2) e(1)] obtain xs ys where fx: "fx = xs @ MOnPeer i # ys"
    "\<forall>f \<in> set xs \<union> set ys. \<forall>env m. quiet i m (mesh_call env f m)" "to_server fx = []" "en_up e" "en_running e"
    using e(2,3) by auto
  let ?m = "(nd_mesh nd)\<lparr>ms_chan := c\<rparr>"
  have me: "ms_my_id ?m = me" using assms(1) by (simp add: online_def)
  show ?thesis
  proof (cases "me < i")
    case True
    then obtain k m g where "mesh_calls env fx ?m = (m, g)" "ms_my_id m = me" "link i m = Some (HaveLocalOffer, False, k)"
      "outs g = [Offer i (me_sdp env k)]"
      using around_offers [of xs ys i env ?m] fx(2) me assms(3) unfolding fx(1) by auto
    with True n fx(3-5) show ?thesis by (auto simp: online_def)
  next
    case False
    then obtain m g where "mesh_calls env fx ?m = (m, g)" "ms_my_id m = me" "outs g = []"
      using around_waits [of xs ys i env ?m] fx(2) me assms(3) unfolding fx(1) by auto
    with False n fx(3-5) show ?thesis by (auto simp: online_def)
  qed
qed

lemma node_offer:
  assumes "online me nd" and "\<not> me < i" and "all_ok env" and "node_step env (ob, FromServer (SOffer i sdp)) nd = (nd', out)"
  shows "online me nd' \<and> out = [] \<and> set (nd_log nd) \<subseteq> set (nd_log nd')
    \<and> (\<exists>n. link i (nd_mesh nd') = Some (Stable, True, n) \<and> nd_uplink nd' = nd_uplink nd @ [Answer i (me_sdp env n)]
         \<and> FRemoteOffer n sdp \<in> set (nd_log nd'))"
proof -
  from node_server [OF assms(1), of "SOffer i sdp" env ob] assms(4) obtain e c where e: "en_up e" "en_running e"
    and n: "nd' = took (mesh_calls env [MOffer i sdp] ((nd_mesh nd)\<lparr>ms_chan := c\<rparr>)) (nd\<lparr>nd_engine := e\<rparr>)" "out = []"
    by (auto simp del: mesh_calls.simps)
  have "\<not> ms_my_id ((nd_mesh nd)\<lparr>ms_chan := c\<rparr>) < i" using assms(1,2) by (simp add: online_def)
  from offer_answered [OF this assms(3), of sdp] obtain k m g where
    "mesh_on_offer env i sdp ((nd_mesh nd)\<lparr>ms_chan := c\<rparr>) = (m, g)" "ms_my_id m = ms_my_id (nd_mesh nd)"
    "link i m = Some (Stable, True, k)" "outs g = [Answer i (me_sdp env k)]" "FRemoteOffer k sdp \<in> set g" by auto
  with assms(1) e n show ?thesis by (auto simp: online_def mesh_call_def)
qed

lemma node_answer:
  assumes "online me nd" and "link i (nd_mesh nd) = Some (HaveLocalOffer, b, n)" and "all_ok env"
    and "node_step env (ob, FromServer (SAnswer i sdp)) nd = (nd', out)"
  shows "online me nd' \<and> out = [] \<and> link i (nd_mesh nd') = Some (Stable, True, n) \<and> nd_uplink nd' = nd_uplink nd
    \<and> set (nd_log nd) \<subseteq> set (nd_log nd') \<and> FRemoteAnswer n sdp \<in> set (nd_log nd')"
proof -
  from node_server [OF assms(1), of "SAnswer i sdp" env ob] assms(4) obtain e c where e: "en_up e" "en_running e"
    and n: "nd' = took (mesh_calls env [MAnswer i sdp] ((nd_mesh nd)\<lparr>ms_chan := c\<rparr>)) (nd\<lparr>nd_engine := e\<rparr>)" "out = []"
    by (auto simp del: mesh_calls.simps)
  have "link i ((nd_mesh nd)\<lparr>ms_chan := c\<rparr>) = Some (HaveLocalOffer, b, n)" using assms(2) by simp
  from answer_taken [OF this assms(3), of sdp] obtain m g where
    "mesh_on_answer env i sdp ((nd_mesh nd)\<lparr>ms_chan := c\<rparr>) = (m, g)" "ms_my_id m = ms_my_id (nd_mesh nd)"
    "link i m = Some (Stable, True, n)" "outs g = []" "FRemoteAnswer n sdp \<in> set g" by auto
  with assms(1) e n show ?thesis by (auto simp: online_def mesh_call_def)
qed

section \<open>The other steps of a node\<close>

lemma node_uplink_step:
  assumes "online me nd" and "nd_uplink nd = c # cs" and "node_uplink env ob nd = (nd', out)"
  shows "online me nd' \<and> out = [c] \<and> link i (nd_mesh nd') = link i (nd_mesh nd) \<and> nd_uplink nd' = cs \<and> nd_log nd' = nd_log nd"
  using assms by (auto simp: node_uplink_def node_step_def online_def on_uplink_def took_def mesh_call_def)

text \<open>What the mesh reports never leads back to the link.\<close>

lemma mesh_effects:
  assumes "on_mesh ob ev e = (e', fx)"
  shows "en_up e' = en_up e \<and> en_running e' = en_running e \<and> to_server fx = []
    \<and> (\<forall>f \<in> set fx. \<forall>env m. quiet i m (mesh_call env f m))"
proof -
  have [simp]: "to_server (map MKey acts) = []" for acts by (induction acts) simp_all
  have b: "outs (broadcast_ctrl msg m) = []" for msg and m :: mesh
  proof -
    have "outs (concat (map (\<lambda>(i, p). case pn_chat p of Some dc \<Rightarrow> [FCtrl dc msg] | None \<Rightarrow> []) ps)) = []" for ps :: "(str \<times> peer_conn) list"
      by (induction ps) (auto split: option.splits)
    then show ?thesis by (simp add: broadcast_ctrl_def)
  qed
  have [simp]: "quiet i m (mesh_call env (MChannels ns) m)" "quiet i m (mesh_call env (MChannelRemoved n) m)" for env m ns n
    by (simp_all add: mesh_call_def quiet_def broadcast_channels_def broadcast_channel_removed_def b)
  note [simp] = quiet_key quiet_ui
  show ?thesis
    using assms by (cases ev) (auto simp: on_link_def on_peer_channels_def on_peer_channel_removed_def drop_channel_def
        on_peer_secure_def with_member_def roster_of_def emit_roster_def Let_def split: if_splits option.splits prod.splits)
qed

end
