(* ===== verification/Meeting.thy ===== *)
theory Meeting
  imports Node Server_Props
begin

text \<open>
  Two clients and the server between them: a client that joins a room and the one already there
  exchange an offer and an answer over the server's queues, in every order in which messages can be
  taken, candidates found and connection states reported.  The server's handlers (\<open>Server\<close>), the
  engines and the meshes (\<open>Node\<close>) are composed as they are.
\<close>

section \<open>The pair and the server\<close>

text \<open>What stays fixed: the server's environment, the room, and per side the id, the connection with
  its socket's state at the server, and the environment of the mesh.\<close>

record pair_env =
  pe_ext :: ext
  pe_room :: str
  pe_id :: "bool \<Rightarrow> str"
  pe_conn :: "bool \<Rightarrow> conn"
  pe_sock :: "bool \<Rightarrow> sock"
  pe_mesh :: "bool \<Rightarrow> mesh_env"

type_synonym world = "app_state \<times> (bool \<Rightarrow> node)"

text \<open>The server handles what one side sends, in order; the frames stay within the socket's rate.\<close>

definition serve :: "pair_env \<Rightarrow> nat \<Rightarrow> nat \<Rightarrow> bool \<Rightarrow> client_msg list \<Rightarrow> app_state \<Rightarrow> app_state" where
  "serve P now secs b cs s = fold (\<lambda>c s. fst (on_msg (pe_ext P) now secs (pe_conn P b) c s (pe_sock P b))) cs s"

definition popped :: "conn \<Rightarrow> server_msg list \<Rightarrow> app_state \<Rightarrow> app_state" where
  "popped c q s = s\<lparr>chans := (chans s)(c := (chans s c)\<lparr>ch_queue := q\<rparr>)\<rparr>"

definition room_left :: "pair_env \<Rightarrow> app_state \<Rightarrow> bool" where
  "room_left P s \<longleftrightarrow> (\<forall>b. length (ch_queue (chans s (pe_conn P b))) < PEER_CHAN)"

text \<open>Messages move on: a client takes the oldest message of its queue, or its loop hands the oldest
  message of the mesh to the server, which has room for what it relays.\<close>

inductive deliver :: "pair_env \<Rightarrow> world \<Rightarrow> world \<Rightarrow> bool" for P where
  receive: "ch_queue (chans s (pe_conn P b)) = msg # q \<Longrightarrow>
    node_step (pe_mesh P b) (ob, FromServer msg) (N b) = (nd, cs) \<Longrightarrow>
    deliver P (s, N) (serve P now secs b cs (popped (pe_conn P b) q s), N(b := nd))"
| send: "nd_uplink (N b) = c # cs \<Longrightarrow> room_left P s \<Longrightarrow> node_uplink (pe_mesh P b) ob (N b) = (nd, cs') \<Longrightarrow>
    deliver P (s, N) (serve P now secs b cs' s, N(b := nd))"

text \<open>What else happens: a candidate is found, a connection changes its state, the loop takes a report.\<close>

inductive stir :: "pair_env \<Rightarrow> world \<Rightarrow> world \<Rightarrow> bool" for P where
  candidate: "i = pe_id P (\<not> b) \<Longrightarrow> stir P (s, N) (s, N(b := node_callback i (on_local_candidate i line json) (N b)))"
| state: "i = pe_id P (\<not> b) \<Longrightarrow> stir P (s, N) (s, N(b := node_callback i (on_conn_state i pair st) (N b)))"
| report: "node_report (pe_mesh P b) ob (N b) = (nd, cs) \<Longrightarrow> stir P (s, N) (serve P now secs b cs s, N(b := nd))"

inductive meet_run :: "pair_env \<Rightarrow> world \<Rightarrow> world \<Rightarrow> bool" for P w0 where
  begun: "meet_run P w0 w0"
| moved: "meet_run P w0 w \<Longrightarrow> deliver P w w' \<Longrightarrow> meet_run P w0 w'"
| stirred: "meet_run P w0 w \<Longrightarrow> stir P w w' \<Longrightarrow> meet_run P w0 w'"

section \<open>What matters to the link\<close>

definition queued :: "pair_env \<Rightarrow> world \<Rightarrow> bool \<Rightarrow> server_msg list" where
  "queued P w b = filter (\<lambda>m. \<not> noise m) (ch_queue (chans (fst w) (pe_conn P b)))"

fun is_ice :: "client_msg \<Rightarrow> bool" where
  "is_ice (Ice _ _) = True"
| "is_ice _ = False"

definition upward :: "world \<Rightarrow> bool \<Rightarrow> client_msg list" where
  "upward w b = filter (\<lambda>c. \<not> is_ice c) (nd_uplink (snd w b))"

definition linked_as :: "pair_env \<Rightarrow> world \<Rightarrow> bool \<Rightarrow> (sig_state \<times> bool \<times> nat) option" where
  "linked_as P w b = link (pe_id P (\<not> b)) (nd_mesh (snd w b))"

text \<open>The pair can talk: distinct ids and connections, calls into WebRTC that succeed, texts within the
  server's limits, both sides known to the server under their ids.\<close>

definition pair_ok :: "pair_env \<Rightarrow> bool" where
  "pair_ok P \<longleftrightarrow> pe_id P True \<noteq> pe_id P False \<and> pe_conn P True \<noteq> pe_conn P False
    \<and> (\<forall>b. all_ok (pe_mesh P b) \<and> sk_me (pe_sock P b) = Some (pe_room P, pe_id P b) \<and> len_ok (pe_id P b) MAX_ID
         \<and> (\<forall>n. length (me_sdp (pe_mesh P b) n) \<le> MAX_SDP))"

definition seated_pair :: "pair_env \<Rightarrow> app_state \<Rightarrow> bool" where
  "seated_pair P s \<longleftrightarrow> (\<exists>r. map_of (rooms s) (pe_room P) = Some r
      \<and> (\<forall>b. \<exists>h. map_of r (pe_id P b) = Some h \<and> ph_tx h = pe_conn P b))"

definition base :: "pair_env \<Rightarrow> world \<Rightarrow> bool" where
  "base P w \<longleftrightarrow> seated_pair P (fst w) \<and> (\<forall>b. ch_open (chans (fst w) (pe_conn P b)) \<and> online (pe_id P b) (snd w b))"

section \<open>The server between them\<close>

lemma serve_simps [simp]:
  "serve P now secs b [] s = s"
  "serve P now secs b [c] s = fst (on_msg (pe_ext P) now secs (pe_conn P b) c s (pe_sock P b))"
  by (simp_all add: serve_def)

lemma pair_conns: "pair_ok P \<Longrightarrow> pe_conn P b = pe_conn P b' \<longleftrightarrow> b = b'"
  by (cases b; cases b') (auto simp: pair_ok_def)

lemma pair_ids: "pair_ok P \<Longrightarrow> pe_id P b = pe_id P b' \<longleftrightarrow> b = b'"
  by (cases b; cases b') (auto simp: pair_ok_def)

lemma popped_facts [simp]:
  "rooms (popped c q s) = rooms s" "ch_open (chans (popped c q s) d) = ch_open (chans s d)"
  "ch_queue (chans (popped c q s) d) = (if d = c then q else ch_queue (chans s d))"
  by (simp_all add: popped_def)

text \<open>The same rooms and connections, and in every queue what matters.\<close>

definition same_server :: "app_state \<Rightarrow> app_state \<Rightarrow> bool" where
  "same_server s s' \<longleftrightarrow> rooms s' = rooms s \<and> (\<forall>c. ch_open (chans s' c) = ch_open (chans s c)
      \<and> filter (\<lambda>m. \<not> noise m) (ch_queue (chans s' c)) = filter (\<lambda>m. \<not> noise m) (ch_queue (chans s c)))"

lemma ice_relayed: "is_ice c \<Longrightarrow> same_server s (fst (on_msg x now secs tx c s sk))"
  by (cases c) (auto simp: same_server_def on_ice_def relay_to_def try_send_def split: option.splits)

text \<open>An offer or answer to the other side is put at the end of its queue under the sender's id.\<close>

definition posted :: "pair_env \<Rightarrow> bool \<Rightarrow> server_msg \<Rightarrow> app_state \<Rightarrow> app_state" where
  "posted P b m s = s\<lparr>chans := (chans s)(pe_conn P b := (chans s (pe_conn P b))\<lparr>ch_queue := ch_queue (chans s (pe_conn P b)) @ [m]\<rparr>)\<rparr>"

lemma relay_posted:
  assumes "pair_ok P" and "seated_pair P s" and "ch_open (chans s (pe_conn P (\<not> b)))" and "room_left P s"
  shows "relay_to (sk_me (pe_sock P b)) (pe_id P (\<not> b)) f s = posted P (\<not> b) (f (pe_id P b)) s"
proof -
  from assms(2) obtain r h where "map_of (rooms s) (pe_room P) = Some r" "map_of r (pe_id P (\<not> b)) = Some h"
    "ph_tx h = pe_conn P (\<not> b)" unfolding seated_pair_def by blast
  with assms(1,3,4) show ?thesis
    by (simp add: relay_to_def pair_ok_def posted_def try_send_def room_left_def)
qed

lemma offer_relayed:
  assumes "pair_ok P" and "seated_pair P s" and "ch_open (chans s (pe_conn P (\<not> b)))" and "room_left P s"
  shows "fst (on_msg x now secs tx (Offer (pe_id P (\<not> b)) (me_sdp (pe_mesh P b) n)) s (pe_sock P b))
        = posted P (\<not> b) (SOffer (pe_id P b) (me_sdp (pe_mesh P b) n)) s"
    and "fst (on_msg x now secs tx (Answer (pe_id P (\<not> b)) (me_sdp (pe_mesh P b) n)) s (pe_sock P b))
        = posted P (\<not> b) (SAnswer (pe_id P b) (me_sdp (pe_mesh P b) n)) s"
  using relay_posted [OF assms] assms(1) by (simp_all add: on_offer_def on_answer_def pair_ok_def linorder_not_less [symmetric])

lemma posted_facts [simp]:
  "rooms (posted P b m s) = rooms s" "ch_open (chans (posted P b m s) d) = ch_open (chans s d)"
  "ch_queue (chans (posted P b m s) d) = ch_queue (chans s d) @ (if d = pe_conn P b then [m] else [])"
  by (simp_all add: posted_def)

section \<open>The phases of a meeting\<close>

text \<open>The introduction of the other side may still be waiting before what came later: the queue is first
  in, first out, and the introduction was put first.\<close>

definition awaiting :: "pair_env \<Rightarrow> bool \<Rightarrow> world \<Rightarrow> server_msg list \<Rightarrow> bool" where
  "awaiting P b w rest \<longleftrightarrow>
     queued P w b = rest \<or> (\<exists>m. intro_of (pe_id P (\<not> b)) m \<and> queued P w b = m # rest)"

abbreviation offered :: "pair_env \<Rightarrow> bool \<Rightarrow> world \<Rightarrow> nat \<Rightarrow> bool" where
  "offered P s w n \<equiv> linked_as P w s = Some (HaveLocalOffer, False, n)"

text \<open>The other side took the offer of connection \<open>n\<close> on its connection \<open>k\<close>.\<close>

definition answered :: "pair_env \<Rightarrow> bool \<Rightarrow> world \<Rightarrow> nat \<Rightarrow> nat \<Rightarrow> bool" where
  "answered P s w n k \<longleftrightarrow> linked_as P w (\<not> s) = Some (Stable, True, k)
     \<and> FRemoteOffer k (me_sdp (pe_mesh P s) n) \<in> set (nd_log (snd w (\<not> s)))"

text \<open>\<open>s\<close> is the side with the smaller id, which offers.\<close>

inductive meeting :: "pair_env \<Rightarrow> bool \<Rightarrow> world \<Rightarrow> bool" for P s w where
  introduced: "queued P w s = [m] \<Longrightarrow> intro_of (pe_id P (\<not> s)) m \<Longrightarrow> upward w s = []
    \<Longrightarrow> awaiting P (\<not> s) w [] \<Longrightarrow> upward w (\<not> s) = [] \<Longrightarrow> meeting P s w"
| offering: "offered P s w n \<Longrightarrow> queued P w s = [] \<Longrightarrow> upward w s = [Offer (pe_id P (\<not> s)) (me_sdp (pe_mesh P s) n)]
    \<Longrightarrow> awaiting P (\<not> s) w [] \<Longrightarrow> upward w (\<not> s) = [] \<Longrightarrow> meeting P s w"
| offer_sent: "offered P s w n \<Longrightarrow> queued P w s = [] \<Longrightarrow> upward w s = []
    \<Longrightarrow> awaiting P (\<not> s) w [SOffer (pe_id P s) (me_sdp (pe_mesh P s) n)] \<Longrightarrow> upward w (\<not> s) = [] \<Longrightarrow> meeting P s w"
| answering: "offered P s w n \<Longrightarrow> answered P s w n k \<Longrightarrow> queued P w s = [] \<Longrightarrow> upward w s = []
    \<Longrightarrow> queued P w (\<not> s) = [] \<Longrightarrow> upward w (\<not> s) = [Answer (pe_id P s) (me_sdp (pe_mesh P (\<not> s)) k)] \<Longrightarrow> meeting P s w"
| answer_sent: "offered P s w n \<Longrightarrow> answered P s w n k \<Longrightarrow> queued P w s = [SAnswer (pe_id P (\<not> s)) (me_sdp (pe_mesh P (\<not> s)) k)]
    \<Longrightarrow> upward w s = [] \<Longrightarrow> queued P w (\<not> s) = [] \<Longrightarrow> upward w (\<not> s) = [] \<Longrightarrow> meeting P s w"
| settled: "linked_as P w s = Some (Stable, True, n) \<Longrightarrow> answered P s w n k
    \<Longrightarrow> FRemoteAnswer n (me_sdp (pe_mesh P (\<not> s)) k) \<in> set (nd_log (snd w s))
    \<Longrightarrow> queued P w s = [] \<Longrightarrow> upward w s = [] \<Longrightarrow> queued P w (\<not> s) = [] \<Longrightarrow> upward w (\<not> s) = [] \<Longrightarrow> meeting P s w"

text \<open>Steps that do not matter to the link.\<close>

definition same_view :: "pair_env \<Rightarrow> world \<Rightarrow> world \<Rightarrow> bool" where
  "same_view P w w' \<longleftrightarrow> (\<forall>b. queued P w' b = queued P w b \<and> upward w' b = upward w b \<and> linked_as P w' b = linked_as P w b
     \<and> set (nd_log (snd w b)) \<subseteq> set (nd_log (snd w' b)))"

lemma phase_same:
  assumes "meeting P s w" and "same_view P w w'"
  shows "meeting P s w'"
  using assms(1)
proof cases
  case introduced
  with assms(2) show ?thesis by (auto simp: same_view_def awaiting_def intro: meeting.introduced)
next
  case (offering n)
  with assms(2) show ?thesis by (intro meeting.offering [of P w' s n]) (auto simp: same_view_def awaiting_def)
next
  case (offer_sent n)
  with assms(2) show ?thesis by (intro meeting.offer_sent [of P w' s n]) (auto simp: same_view_def awaiting_def)
next
  case (answering n k)
  with assms(2) show ?thesis by (intro meeting.answering [of P w' s n k]) (auto simp: same_view_def answered_def)
next
  case (answer_sent n k)
  with assms(2) show ?thesis by (intro meeting.answer_sent [of P w' s n k]) (auto simp: same_view_def answered_def)
next
  case (settled n k)
  with assms(2) show ?thesis by (intro meeting.settled [of P w' s n k]) (auto simp: same_view_def answered_def)
qed

text \<open>What is still to be carried: a message weighs more than what handling it can bring forth.\<close>

fun msg_weight :: "server_msg \<Rightarrow> nat" where
  "msg_weight (SPeerJoined _ _) = 8"
| "msg_weight (SRoster _) = 8"
| "msg_weight (SOffer _ _) = 4"
| "msg_weight _ = 1"

fun out_weight :: "client_msg \<Rightarrow> nat" where
  "out_weight (Offer _ _) = 6"
| "out_weight (Answer _ _) = 3"
| "out_weight _ = 2"

definition carried :: "node \<Rightarrow> nat" where
  "carried nd = sum_list (map out_weight (nd_uplink nd))"

definition queue_weight :: "conn \<Rightarrow> app_state \<Rightarrow> nat" where
  "queue_weight c s = sum_list (map msg_weight (ch_queue (chans s c)))"

definition weight :: "pair_env \<Rightarrow> world \<Rightarrow> nat" where
  "weight P w = (\<Sum>b\<in>UNIV. queue_weight (pe_conn P b) (fst w) + carried (snd w b))"

lemma weight_sides: "weight P w = queue_weight (pe_conn P b) (fst w) + carried (snd w b)
    + queue_weight (pe_conn P (\<not> b)) (fst w) + carried (snd w (\<not> b))"
  by (cases b) (simp_all add: weight_def UNIV_bool)

section \<open>Every step keeps the phases\<close>

lemma base_local:
  "base P (s, N) \<Longrightarrow> online (pe_id P b) nd \<Longrightarrow> base P (s, N(b := nd))"
  by (simp add: base_def)

lemma base_popped: "base P (s, N) \<Longrightarrow> base P (popped c q s, N)"
  by (simp add: base_def seated_pair_def)

lemma base_posted: "base P (s, N) \<Longrightarrow> base P (posted P b m s, N)"
  by (simp add: base_def seated_pair_def)

lemma base_server: "base P (s, N) \<Longrightarrow> same_server s s' \<Longrightarrow> base P (s', N)"
  by (simp add: base_def seated_pair_def same_server_def)

text \<open>A message taken from a queue, as the other side and the link see it.\<close>

lemma taken_view:
  assumes "pair_ok P" and "ch_queue (chans s (pe_conn P b)) = msg # q" and "w' = (popped (pe_conn P b) q s, N(b := nd))"
  shows "queued P (s, N) b = (if noise msg then [] else [msg]) @ queued P w' b" "queued P w' (\<not> b) = queued P (s, N) (\<not> b)"
    "upward w' (\<not> b) = upward (s, N) (\<not> b)" "linked_as P w' (\<not> b) = linked_as P (s, N) (\<not> b)"
    "snd w' (\<not> b) = N (\<not> b)" "snd w' b = nd"
    "upward w' b = filter (\<lambda>c. \<not> is_ice c) (nd_uplink nd)" "linked_as P w' b = link (pe_id P (\<not> b)) (nd_mesh nd)"
  using assms pair_conns [OF assms(1), of b "\<not> b"] by (auto simp: queued_def upward_def linked_as_def)

lemma all_sides: "(\<forall>b'. R b') \<longleftrightarrow> R b \<and> R (\<not> b)" for R :: "bool \<Rightarrow> bool"
  by (cases b) (auto simp: all_bool_eq)

lemma receive_noise:
  assumes "pair_ok P" and "base P (s, N)" and "ch_queue (chans s (pe_conn P b)) = msg # q" and "noise msg"
    and "node_step (pe_mesh P b) (ob, FromServer msg) (N b) = (nd, cs)"
  shows "cs = [] \<and> same_view P (s, N) (popped (pe_conn P b) q s, N(b := nd)) \<and> base P (popped (pe_conn P b) q s, N(b := nd))"
proof -
  have on: "online (pe_id P b) (N b)" using assms(2) by (simp add: base_def)
  note nn = node_noise [OF on assms(4,5), of "pe_id P (\<not> b)"]
  note tv = taken_view [OF assms(1,3) refl, of N nd]
  have "same_view P (s, N) (popped (pe_conn P b) q s, N(b := nd))"
    unfolding same_view_def all_sides [of _ b] using tv nn assms(4) by (simp add: upward_def linked_as_def)
  with nn base_local [OF base_popped [OF assms(2)]] show ?thesis by blast
qed

lemma intro_weight: "intro_of i msg \<Longrightarrow> msg_weight msg = 8"
  by (auto simp: intro_of_def)

text \<open>What the offering side and the other side do with the messages of their phases.\<close>

lemma smaller_introduced:
  assumes "pair_ok P" and "base P (s, N)" and "pe_id P b < pe_id P (\<not> b)" and "meeting P b (s, N)"
    and "ch_queue (chans s (pe_conn P b)) = msg # q" "\<not> noise msg"
    and "node_step (pe_mesh P b) (ob, FromServer msg) (N b) = (nd, cs)"
  shows "cs = [] \<and> online (pe_id P b) nd \<and> carried nd < carried (N b) + msg_weight msg
    \<and> meeting P b (popped (pe_conn P b) q s, N(b := nd))"
proof -
  let ?w = "(popped (pe_conn P b) q s, N(b := nd))"
  note tv = taken_view [OF assms(1,5) refl, of N nd]
  have on: "online (pe_id P b) (N b)" and ok: "all_ok (pe_mesh P b)" using assms(1,2) by (simp_all add: base_def pair_ok_def)
  from assms(4) show ?thesis
  proof cases
    case (introduced m)
    with tv(1) assms(6) have m: "m = msg" "queued P ?w b = []" by auto
    from node_intro [OF on introduced(2) [unfolded m(1)] ok assms(7)] assms(3) obtain n where
      "online (pe_id P b) nd" "cs = []" "link (pe_id P (\<not> b)) (nd_mesh nd) = Some (HaveLocalOffer, False, n)"
      "nd_uplink nd = nd_uplink (N b) @ [Offer (pe_id P (\<not> b)) (me_sdp (pe_mesh P b) n)]" by auto
    with introduced m(2) tv intro_weight [OF introduced(2) [unfolded m(1)]] show ?thesis
      by (auto simp: awaiting_def upward_def carried_def intro!: meeting.offering [of P ?w b n])
  next
    case (answer_sent n k)
    with tv(1) assms(6) have m: "msg = SAnswer (pe_id P (\<not> b)) (me_sdp (pe_mesh P (\<not> b)) k)" "queued P ?w b = []" by auto
    have "link (pe_id P (\<not> b)) (nd_mesh (N b)) = Some (HaveLocalOffer, False, n)"
      using answer_sent(1) by (simp add: linked_as_def)
    from node_answer [OF on this ok assms(7) [unfolded m(1)]] answer_sent m tv show ?thesis
      by (auto simp: answered_def upward_def carried_def intro!: meeting.settled [of P ?w b n k])
  qed (use tv(1) assms(6) in auto)
qed

lemma larger_introduced:
  assumes "pair_ok P" and "base P (s, N)" and "pe_id P (\<not> b) < pe_id P b" and "meeting P (\<not> b) (s, N)"
    and "ch_queue (chans s (pe_conn P b)) = msg # q" "\<not> noise msg"
    and "node_step (pe_mesh P b) (ob, FromServer msg) (N b) = (nd, cs)"
  shows "cs = [] \<and> online (pe_id P b) nd \<and> carried nd < carried (N b) + msg_weight msg
    \<and> meeting P (\<not> b) (popped (pe_conn P b) q s, N(b := nd))"
proof -
  let ?w = "(popped (pe_conn P b) q s, N(b := nd))"
  note tv = taken_view [OF assms(1,5) refl, of N nd]
  have on: "online (pe_id P b) (N b)" and ok: "all_ok (pe_mesh P b)" using assms(1,2) by (simp_all add: base_def pair_ok_def)
  have ge: "\<not> pe_id P b < pe_id P (\<not> b)" using assms(3) by simp
  have intro: "cs = [] \<and> online (pe_id P b) nd \<and> carried nd < carried (N b) + msg_weight msg \<and> upward ?w b = upward (s, N) b"
    if "intro_of (pe_id P (\<not> b)) msg"
    using node_intro [OF on that ok assms(7)] ge tv(7) intro_weight [OF that] by (simp add: upward_def carried_def)
  from assms(4) show ?thesis
  proof cases
    case (introduced m)
    with tv(1) assms(6) have "intro_of (pe_id P (\<not> b)) msg" "queued P ?w b = []" by (auto simp: awaiting_def)
    with intro introduced tv show ?thesis by (auto simp: awaiting_def intro!: meeting.introduced [of P ?w])
  next
    case (offering n)
    with tv(1) assms(6) have "intro_of (pe_id P (\<not> b)) msg" "queued P ?w b = []" by (auto simp: awaiting_def)
    with intro offering tv show ?thesis by (auto simp: awaiting_def intro!: meeting.offering [of P ?w _ n])
  next
    case (offer_sent n)
    show ?thesis
    proof (cases "intro_of (pe_id P (\<not> b)) msg")
      case True
      then have "queued P ?w b = [SOffer (pe_id P (\<not> b)) (me_sdp (pe_mesh P (\<not> b)) n)]"
        using offer_sent(4) tv(1) assms(6) by (auto simp: awaiting_def intro_of_def)
      with intro [OF True] offer_sent tv show ?thesis by (auto simp: awaiting_def intro!: meeting.offer_sent [of P ?w _ n])
    next
      case False
      then have m: "msg = SOffer (pe_id P (\<not> b)) (me_sdp (pe_mesh P (\<not> b)) n)" "queued P ?w b = []"
        using offer_sent(4) tv(1) assms(6) by (auto simp: awaiting_def)
      from node_offer [OF on ge ok assms(7) [unfolded m(1)]] obtain k where
        "cs = []" "online (pe_id P b) nd" "link (pe_id P (\<not> b)) (nd_mesh nd) = Some (Stable, True, k)"
        "nd_uplink nd = nd_uplink (N b) @ [Answer (pe_id P (\<not> b)) (me_sdp (pe_mesh P b) k)]"
        "FRemoteOffer k (me_sdp (pe_mesh P (\<not> b)) n) \<in> set (nd_log nd)" by blast
      with offer_sent m tv show ?thesis
        by (auto simp: answered_def upward_def carried_def intro!: meeting.answering [of P ?w _ n k])
    qed
  qed (use tv(1) assms(6) in auto)
qed

lemma receive_kept:
  assumes "pair_ok P" and "base P (s, N)" and "pe_id P a < pe_id P (\<not> a)" and "meeting P a (s, N)"
    and "ch_queue (chans s (pe_conn P b)) = msg # q"
    and "node_step (pe_mesh P b) (ob, FromServer msg) (N b) = (nd, cs)"
    and "w' = (popped (pe_conn P b) q s, N(b := nd))"
  shows "cs = [] \<and> base P w' \<and> meeting P a w' \<and> weight P w' < weight P (s, N)"
proof -
  have "cs = [] \<and> base P w' \<and> meeting P a w' \<and> carried nd < carried (N b) + msg_weight msg"
  proof (cases "noise msg")
    case True
    from receive_noise [OF assms(1,2,5) True assms(6)] phase_same [OF assms(4)] assms(7)
    have k: "cs = [] \<and> base P w' \<and> meeting P a w'" by blast
    have on: "online (pe_id P b) (N b)" using assms(2) by (simp add: base_def)
    from node_noise [OF on True assms(6)] True have "carried nd < carried (N b) + msg_weight msg"
      by (cases msg) (auto simp: carried_def)
    with k show ?thesis by blast
  next
    case False
    have "cs = [] \<and> online (pe_id P b) nd \<and> carried nd < carried (N b) + msg_weight msg \<and> meeting P a w'"
    proof (cases "b = a")
      case True
      from smaller_introduced [OF assms(1,2) _ _ assms(5) False assms(6)] assms(3,4,7) True show ?thesis by simp
    next
      case other: False
      then have ab: "a = (\<not> b)" by blast
      from larger_introduced [OF assms(1,2) _ _ assms(5) False assms(6)] assms(3,4,7) ab show ?thesis by simp
    qed
    with base_local [OF base_popped [OF assms(2)]] assms(7) show ?thesis by blast
  qed
  then show ?thesis
    using assms(5,7) pair_conns [OF assms(1), of "\<not> b" b] by (simp add: weight_sides [of _ _ b] queue_weight_def)
qed

lemma ice_weight:
  assumes "pair_ok P" and "is_ice c"
  shows "queue_weight (pe_conn P b) (fst (on_msg x now secs tx c s sk))
       + queue_weight (pe_conn P (\<not> b)) (fst (on_msg x now secs tx c s sk))
     \<le> queue_weight (pe_conn P b) s + queue_weight (pe_conn P (\<not> b)) s + 1"
  using assms(2) pair_conns [OF assms(1), of b "\<not> b"]
  by (cases c) (auto simp: queue_weight_def on_ice_def relay_to_def try_send_def split: option.splits)

text \<open>The only offer on its way is the smaller side's, the only answer the other's.\<close>

lemma send_ice_kept:
  assumes "pair_ok P" and "base P (s, N)" and "meeting P a (s, N)" and "is_ice c"
    and "nd_uplink (N b) = c # cs" and "node_uplink (pe_mesh P b) ob (N b) = (nd, cs')"
    and w': "w' = (fst (on_msg (pe_ext P) now secs (pe_conn P b) c s (pe_sock P b)), N(b := nd))"
  shows "base P w' \<and> meeting P a w' \<and> weight P w' < weight P (s, N)"
proof -
  have "online (pe_id P b) (N b)" using assms(2) by (simp add: base_def)
  note up = node_uplink_step [OF this assms(5,6)]
  have nd: "upward (t, N(b := nd)) b = filter (\<lambda>c. \<not> is_ice c) cs" "linked_as P (t, N(b := nd)) b = linked_as P (s, N) b"
    "carried (N b) = out_weight c + carried nd" "nd_log nd = nd_log (N b)" for t
    using up assms(5) by (simp_all add: upward_def linked_as_def carried_def)
  note ss = ice_relayed [OF assms(4), of s "pe_ext P" now secs "pe_conn P b" "pe_sock P b"]
  have "same_view P (s, N) w'" unfolding w' same_view_def all_sides [of _ b]
    using ss nd assms(4,5) by (simp add: same_server_def queued_def upward_def linked_as_def)
  moreover have "weight P w' < weight P (s, N)"
    using ice_weight [OF assms(1,4), of b "pe_ext P" now secs "pe_conn P b" s "pe_sock P b"] nd(3) assms(4)
    by (cases c) (auto simp: w' weight_sides [of _ _ b])
  ultimately show ?thesis
    using phase_same [OF assms(3)] base_server [OF base_local [OF assms(2)] ss] up w' by blast
qed

lemma send_kept:
  assumes "pair_ok P" and "base P (s, N)" and "meeting P a (s, N)"
    and "nd_uplink (N b) = c # cs" "room_left P s" "node_uplink (pe_mesh P b) ob (N b) = (nd, cs')"
    and "w' = (serve P now secs b cs' s, N(b := nd))"
  shows "base P w' \<and> meeting P a w' \<and> weight P w' < weight P (s, N)"
proof -
  have on: "online (pe_id P b) (N b)" and seat: "seated_pair P s" and open': "ch_open (chans s (pe_conn P (\<not> b)))"
    using assms(2) by (simp_all add: base_def)
  note up = node_uplink_step [OF on assms(4,6)]
  let ?s = "fst (on_msg (pe_ext P) now secs (pe_conn P b) c s (pe_sock P b))"
  have w': "w' = (?s, N(b := nd))" using assms(7) up [of undefined] by simp
  have nd: "upward (t, N(b := nd)) b = filter (\<lambda>c. \<not> is_ice c) cs" "linked_as P (t, N(b := nd)) b = linked_as P (s, N) b"
    "carried (N b) = out_weight c + carried nd" "nd_log nd = nd_log (N b)" for t
    using up assms(4) by (simp_all add: upward_def linked_as_def carried_def)
  show ?thesis
  proof (cases "is_ice c")
    case True
    from send_ice_kept [OF assms(1-3) True assms(4,6) w'] show ?thesis .
  next
    case False
    then have c: "upward (s, N) b = c # filter (\<lambda>c. \<not> is_ice c) cs" using assms(4) by (simp add: upward_def)
    note rel = offer_relayed [OF assms(1) seat open' assms(5), of "pe_ext P" now secs "pe_conn P b"]
    have bn: "pe_conn P b \<noteq> pe_conn P (\<not> b)" using pair_conns [OF assms(1)] by simp
    from assms(3) show ?thesis
    proof cases
      case (offering n)
      have b: "b = a" using offering(5) c by (cases "b = a") (auto simp: upward_def)
      with offering(3) c have co: "c = Offer (pe_id P (\<not> b)) (me_sdp (pe_mesh P b) n)" "filter (\<lambda>c. \<not> is_ice c) cs = []" by auto
      have p: "w' = (posted P (\<not> b) (SOffer (pe_id P b) (me_sdp (pe_mesh P b) n)) s, N(b := nd))"
        using w' rel(1) co(1) by simp
      have "meeting P b w'" unfolding p
        using offering b nd co(2) bn
        by (intro meeting.offer_sent [of P _ b n]) (auto simp: awaiting_def queued_def upward_def linked_as_def)
      moreover have "weight P w' < weight P (s, N)"
        unfolding p using bn nd(3) co(1) by (simp add: weight_sides [of _ _ b] queue_weight_def)
      ultimately show ?thesis using b p base_local [OF base_posted [OF assms(2)]] up by blast
    next
      case (answering n k)
      have b: "b = (\<not> a)" using answering(4) c by (cases "b = a") (auto simp: upward_def)
      with answering(6) c have co: "c = Answer (pe_id P (\<not> b)) (me_sdp (pe_mesh P b) k)" "filter (\<lambda>c. \<not> is_ice c) cs = []" by auto
      have p: "w' = (posted P (\<not> b) (SAnswer (pe_id P b) (me_sdp (pe_mesh P b) k)) s, N(b := nd))"
        using w' rel(2) co(1) by simp
      have "meeting P (\<not> b) w'" unfolding p
        using answering b nd co(2) bn
        by (intro meeting.answer_sent [of P _ "\<not> b" n k]) (auto simp: answered_def queued_def upward_def linked_as_def)
      moreover have "weight P w' < weight P (s, N)"
        unfolding p using bn nd(3) co(1) by (simp add: weight_sides [of _ _ b] queue_weight_def)
      ultimately show ?thesis using b p base_local [OF base_posted [OF assms(2)]] up by simp
    qed (use c in \<open>cases "b = a"; auto simp: upward_def\<close>)+
  qed
qed

section \<open>What happens beside\<close>

lemma callback_quiet:
  assumes "online me nd" and "\<And>p p' fx. cb p = (p', fx) \<Longrightarrow>
      pn_sig p' = pn_sig p \<and> pn_remote_set p' = pn_remote_set p \<and> pn_pc p' = pn_pc p \<and> (\<forall>c \<in> set (outs fx). is_ice c)"
  shows "online me (node_callback i cb nd) \<and> link i (nd_mesh (node_callback i cb nd)) = link i (nd_mesh nd)
    \<and> filter (\<lambda>c. \<not> is_ice c) (nd_uplink (node_callback i cb nd)) = filter (\<lambda>c. \<not> is_ice c) (nd_uplink nd)
    \<and> set (nd_log nd) \<subseteq> set (nd_log (node_callback i cb nd))"
proof (cases "map_of (ms_peers (nd_mesh nd)) i")
  case (Some p)
  obtain p' fx where cb: "cb p = (p', fx)" by (cases "cb p")
  with assms Some show ?thesis
    by (auto simp: node_callback_def online_def link_put_same link_def [of i "nd_mesh nd"] filter_empty_conv)
qed (use assms in \<open>simp add: node_callback_def\<close>)

lemma candidate_callback: "on_local_candidate i line json p = (p', fx) \<Longrightarrow>
    pn_sig p' = pn_sig p \<and> pn_remote_set p' = pn_remote_set p \<and> pn_pc p' = pn_pc p \<and> (\<forall>c \<in> set (outs fx). is_ice c)"
  by (auto simp: on_local_candidate_def)

lemma state_callback: "on_conn_state i pair st p = (p', fx) \<Longrightarrow>
    pn_sig p' = pn_sig p \<and> pn_remote_set p' = pn_remote_set p \<and> pn_pc p' = pn_pc p \<and> (\<forall>c \<in> set (outs fx). is_ice c)"
  by (cases st) (auto simp: on_conn_state_def Let_def)

lemma report_quiet:
  assumes "online me nd" and "node_report env ob nd = (nd', cs)"
  shows "online me nd' \<and> cs = [] \<and> link i (nd_mesh nd') = link i (nd_mesh nd) \<and> nd_uplink nd' = nd_uplink nd
    \<and> set (nd_log nd) \<subseteq> set (nd_log nd')"
proof (cases "nd_events nd")
  case (Cons ev evs)
  let ?ob = "ob\<lparr>ob_crypto := ms_crypto (nd_mesh nd)\<rparr>" and ?e0 = "(nd_engine nd)\<lparr>en_chan := ms_chan (nd_mesh nd)\<rparr>"
  obtain e fx where e: "on_mesh ?ob ev ?e0 = (e, fx)" by (cases "on_mesh ?ob ev ?e0")
  let ?m = "(nd_mesh nd)\<lparr>ms_chan := en_chan e\<rparr>"
  obtain m g where m: "mesh_calls env fx ?m = (m, g)" by (cases "mesh_calls env fx ?m")
  note eff = mesh_effects [OF e]
  have q: "quiet i ?m (m, g)" using quiet_calls [of fx i env ?m] eff m by simp
  have "node_report env ob nd = (took (m, g) (nd\<lparr>nd_events := evs, nd_engine := e\<rparr>), [])"
    using Cons assms(1) e m eff by (simp add: node_report_def node_step_def online_def)
  with assms q eff show ?thesis by (auto simp: online_def quiet_def)
qed (use assms in \<open>simp add: node_report_def\<close>)

lemma stir_same:
  assumes "pair_ok P" and "base P w" and "stir P w w'"
  shows "base P w' \<and> same_view P w w'"
proof -
  have side: "base P (s, N(b := nd)) \<and> same_view P (s, N) (s, N(b := nd))"
    if "base P (s, N)" "online (pe_id P b) nd \<and> link (pe_id P (\<not> b)) (nd_mesh nd) = link (pe_id P (\<not> b)) (nd_mesh (N b))
      \<and> filter (\<lambda>c. \<not> is_ice c) (nd_uplink nd) = filter (\<lambda>c. \<not> is_ice c) (nd_uplink (N b))
      \<and> set (nd_log (N b)) \<subseteq> set (nd_log nd)" for s N b nd
    using that base_local [OF that(1)] unfolding same_view_def all_sides [of _ b]
    by (simp add: queued_def upward_def linked_as_def)
  from assms(3) show ?thesis
  proof cases
    case (candidate i b s N line json)
    with assms(2) have on: "online (pe_id P b) (N b)" by (simp add: base_def)
    show ?thesis unfolding candidate(1,2)
      by (rule side) (use assms(2) candidate callback_quiet [OF on candidate_callback] in auto)
  next
    case (state i b s N pair st)
    with assms(2) have on: "online (pe_id P b) (N b)" by (simp add: base_def)
    show ?thesis unfolding state(1,2)
      by (rule side) (use assms(2) state callback_quiet [OF on state_callback] in auto)
  next
    case (report b ob N nd cs s now secs)
    with assms(2) have "online (pe_id P b) (N b)" by (simp add: base_def)
    from report_quiet [OF this report(3), of "pe_id P (\<not> b)"] side [of s N b nd] assms(2) report show ?thesis by simp
  qed
qed

section \<open>The meeting\<close>

lemma deliver_kept:
  assumes "pair_ok P" and "pe_id P a < pe_id P (\<not> a)" and "base P w" "meeting P a w" and "deliver P w w'"
  shows "base P w' \<and> meeting P a w' \<and> weight P w' < weight P w"
  using assms(5)
proof cases
  case (receive s b msg q ob N nd cs now secs)
  with receive_kept [of P s N a b msg q ob nd cs "(popped (pe_conn P b) q s, N(b := nd))"] assms(1-4) show ?thesis by auto
next
  case (send N b c cs s ob nd cs' now secs)
  with send_kept [of P s N a b c cs ob nd cs' w' now secs] assms(1-4) show ?thesis by blast
qed

lemma run_kept:
  assumes "pair_ok P" and "pe_id P a < pe_id P (\<not> a)" and "base P w0" "meeting P a w0"
  shows "meet_run P w0 w \<Longrightarrow> base P w \<and> meeting P a w"
proof (induction rule: meet_run.induct)
  case (moved w w')
  with deliver_kept [OF assms(1,2)] show ?case by blast
next
  case (stirred w w')
  with stir_same [OF assms(1)] phase_same show ?case by blast
qed (use assms in simp)

text \<open>Whatever is under way can be taken: first from the queues, and when these are empty from the uplinks.\<close>

lemma can_move:
  assumes "queued P w b \<noteq> [] \<or> upward w b \<noteq> []"
  shows "\<exists>w'. deliver P w w'"
proof -
  obtain s N where w: "w = (s, N)" by (cases w)
  show ?thesis
  proof (cases "\<exists>d. ch_queue (chans s (pe_conn P d)) \<noteq> []")
    case True
    then obtain d msg q where "ch_queue (chans s (pe_conn P d)) = msg # q" by (auto simp: neq_Nil_conv)
    then show ?thesis unfolding w by (metis deliver.receive surj_pair)
  next
    case False
    then have left: "room_left P s" by (auto simp: room_left_def PEER_CHAN_def)
    from False assms w have "nd_uplink (N b) \<noteq> []" by (auto simp: queued_def upward_def)
    then obtain c cs where "nd_uplink (N b) = c # cs" by (auto simp: neq_Nil_conv)
    then show ?thesis unfolding w using left by (metis deliver.send surj_pair)
  qed
qed

text \<open>Both sides hold a negotiated connection, and each took the other's description of exactly that one.\<close>

definition linked_pair :: "pair_env \<Rightarrow> world \<Rightarrow> bool" where
  "linked_pair P w \<longleftrightarrow> (\<exists>a n k. linked_as P w a = Some (Stable, True, n) \<and> linked_as P w (\<not> a) = Some (Stable, True, k)
     \<and> FRemoteOffer k (me_sdp (pe_mesh P a) n) \<in> set (nd_log (snd w (\<not> a)))
     \<and> FRemoteAnswer n (me_sdp (pe_mesh P (\<not> a)) k) \<in> set (nd_log (snd w a)))"

lemma linked_or_moving:
  assumes "meeting P a w"
  shows "linked_pair P w \<or> (\<exists>w'. deliver P w w')"
  using assms
proof cases
  case (offer_sent n)
  then have "queued P w (\<not> a) \<noteq> []" by (auto simp: awaiting_def)
  with can_move show ?thesis by blast
next
  case (settled n k)
  then show ?thesis unfolding linked_pair_def answered_def by blast
qed (use can_move [of P w a] can_move [of P w "\<not> a"] in auto)

text \<open>What a join leaves in the queues of a room with one other member.\<close>

lemma join_second:
  assumes "pair_ok P" and "sk_me sk = None"
    and "on_join x secs (pe_conn P b) proto (pe_room P) (pe_id P b) name tok secret s sk = (s', sk', Cont)"
    and "map_of (rooms s) (pe_room P) = Some [(pe_id P (\<not> b), h)]" "ph_tx h = pe_conn P (\<not> b)"
    and "\<forall>d. chans s (pe_conn P d) = \<lparr>ch_queue = [], ch_open = True\<rparr>"
  shows "seated_pair P s' \<and> (\<forall>d. ch_open (chans s' (pe_conn P d)))
    \<and> ch_queue (chans s' (pe_conn P (\<not> b))) = [SPeerJoined (pe_id P b) name]
    \<and> (\<exists>rest. ch_queue (chans s' (pe_conn P b)) = SRoster [\<lparr>pi_user_id = pe_id P (\<not> b), pi_name = ph_name h\<rparr>] # rest
          \<and> filter (\<lambda>m. \<not> noise m) rest = [])"
proof -
  have ne: "pe_id P b \<noteq> pe_id P (\<not> b)" "pe_conn P b \<noteq> pe_conn P (\<not> b)"
    using pair_ids [OF assms(1)] pair_conns [OF assms(1)] by simp_all
  obtain s1 joined where j: "join_room (pe_conn P b) (pe_room P) (pe_id P b) name secret s = (s1, joined)"
    by (cases "join_room (pe_conn P b) (pe_room P) (pe_id P b) name secret s")
  have s': "joined" "s' = (case turn s1 of Some t \<Rightarrow> try_send (pe_conn P b) (STurn (mint (x_mac1 x) (x_b64 x) secs t (pe_id P b))) s1
      | None \<Rightarrow> s1)" using assms(2,3) j by (auto simp: on_join_def Let_def split: if_splits)
  have q: "rooms s1 = AList.update (pe_room P) [(pe_id P (\<not> b), h), (pe_id P b, \<lparr>ph_name = name, ph_tx = pe_conn P b, ph_secret = secret\<rparr>)]
        (rooms s1)"
    "ch_queue (chans s1 (pe_conn P (\<not> b))) = [SPeerJoined (pe_id P b) name]"
    "ch_queue (chans s1 (pe_conn P b)) = [SRoster [\<lparr>pi_user_id = pe_id P (\<not> b), pi_name = ph_name h\<rparr>]]"
    "\<forall>d. ch_open (chans s1 (pe_conn P d))"
    using j s'(1) ne assms(4-6)
    by (auto simp: join_room_def Let_def send_each_def try_send_def HARD_CAP_def WARN_CAP_def PEER_CHAN_def split: if_splits)
  then have "map_of (rooms s1) (pe_room P)
      = Some [(pe_id P (\<not> b), h), (pe_id P b, \<lparr>ph_name = name, ph_tx = pe_conn P b, ph_secret = secret\<rparr>)]"
    by (metis update_conv' fun_upd_same)
  then have "seated_pair P s1" unfolding seated_pair_def all_sides [of _ b] using ne assms(5) by simp
  with q ne s'(2) show ?thesis
    by (auto simp: seated_pair_def try_send_def PEER_CHAN_def split: option.splits)
qed

text \<open>Claim C5. A join leads to a link: when a client joins a room with one other member, the two run,
  WebRTC's calls succeed, no socket exceeds its frame rate and the server has room in a queue before
  it relays into it, then whatever the order in which queued messages are taken, candidates found,
  connection states reported and reports handled, the pair is linked or a message is under way, and
  every message that moves on brings the end nearer, so that after finitely many both hold
  a negotiated connection with each other's description of it.\<close>

theorem joined_pair_links:
  assumes "pair_ok P" and "sk_me sk = None"
    and "on_join (pe_ext P) secs (pe_conn P b) proto (pe_room P) (pe_id P b) name tok secret s sk = (s', sk', Cont)"
    and "map_of (rooms s) (pe_room P) = Some [(pe_id P (\<not> b), h)]" "ph_tx h = pe_conn P (\<not> b)"
    and "\<forall>d. chans s (pe_conn P d) = \<lparr>ch_queue = [], ch_open = True\<rparr>"
    and "\<forall>d. online (pe_id P d) (N d) \<and> nd_uplink (N d) = []"
    and "meet_run P (s', N) w"
  shows "(linked_pair P w \<or> (\<exists>w'. deliver P w w')) \<and> (\<forall>w'. deliver P w w' \<longrightarrow> weight P w' < weight P w)"
proof -
  obtain a where a: "pe_id P a < pe_id P (\<not> a)"
    using pair_ids [OF assms(1), of True False] by (metis (full_types) linorder_less_linear)
  note js = join_second [OF assms(1-6)]
  then have base: "base P (s', N)" using assms(7) by (simp add: base_def)
  have queues: "\<exists>m. queued P (s', N) d = [m] \<and> intro_of (pe_id P (\<not> d)) m" for d
    using js by (cases "d = b") (auto simp: queued_def intro_of_def)
  have "upward (s', N) d = []" for d using assms(7) by (simp add: upward_def)
  with queues [of a] queues [of "\<not> a"] have "meeting P a (s', N)" by (auto simp: awaiting_def intro: meeting.introduced)
  with run_kept [OF assms(1) a base] assms(8) have "base P w" "meeting P a w" by blast+
  with linked_or_moving deliver_kept [OF assms(1) a] show ?thesis by blast
qed

section \<open>A concrete meeting\<close>

text \<open>Alice sits in the room on connection 0, Bert joins on connection 1.\<close>

definition demo_sock :: "str \<Rightarrow> sock" where
  "demo_sock i = \<lparr>sk_me = Some (''room'', i), sk_win = (0, 0)\<rparr>"

definition demo_two :: pair_env where
  "demo_two = \<lparr>pe_ext = demo_ext, pe_room = ''room'', pe_id = (\<lambda>b. if b then ''bert'' else ''alice''),
     pe_conn = (\<lambda>b. if b then 1 else 0), pe_sock = (\<lambda>b. demo_sock (if b then ''bert'' else ''alice'')),
     pe_mesh = (\<lambda>b. demo_env)\<rparr>"

definition demo_seated :: app_state where
  "demo_seated = (app demo_start)\<lparr>rooms := [(''room'', [(''alice'', demo_alice 0)])], chans := (\<lambda>c. \<lparr>ch_queue = [], ch_open = True\<rparr>)\<rparr>"

definition demo_join :: "app_state \<times> sock \<times> flow" where
  "demo_join = on_join demo_ext 0 1 PROTOCOL_VERSION ''room'' ''bert'' ''Bert'' None ''k2'' demo_seated \<lparr>sk_me = None, sk_win = (0, 0)\<rparr>"

definition demo_client :: "str \<Rightarrow> node" where
  "demo_client i = \<lparr>nd_engine = fst (engine_start i i False Leave 0),
     nd_mesh = mesh_new i \<lparr>pc_my_id = i, pc_sessions = [], pc_pending = []\<rparr> cs_new, nd_uplink = [], nd_events = [], nd_log = []\<rparr>"

definition demo_world :: world where
  "demo_world = (fst demo_join, \<lambda>b. demo_client (pe_id demo_two b))"

lemma demo_two_ok: "pair_ok demo_two"
proof -
  have "me_sdp demo_env n = ''sdp''" for n by (simp add: demo_env_def)
  then show ?thesis by (simp add: pair_ok_def demo_two_def demo_sock_def demo_env_ok len_ok_def MAX_ID_def MAX_SDP_def)
qed

lemma demo_join_ok: "snd demo_join = (demo_sock ''bert'', Cont)"
proof -
  have "seat_free demo_seated ''room'' ''bert''" by (simp add: seat_free_def demo_seated_def HARD_CAP_def)
  moreover have "check (x_mac demo_ext) (x_hex demo_ext) (auth demo_seated) ''room'' None"
    by (simp add: check_def demo_seated_def demo_start_def)
  moreover have "len_ok ''room'' MAX_ID" "len_ok ''bert'' MAX_ID" "len_ok ''Bert'' MAX_NAME" "len_ok ''k2'' MAX_SECRET" by code_simp+
  ultimately show ?thesis
    using join_granted [of "\<lparr>sk_me = None, sk_win = (0, 0)\<rparr>" "''room''" "''bert''" "''Bert''" "''k2''" None demo_ext demo_seated 0 1]
    by (simp add: demo_join_def demo_sock_def) (metis snd_conv)
qed

theorem joined_pair_links_witness: "\<exists>w'. deliver demo_two demo_world w'"
proof -
  have j: "on_join (pe_ext demo_two) 0 (pe_conn demo_two True) PROTOCOL_VERSION (pe_room demo_two) (pe_id demo_two True)
      ''Bert'' None ''k2'' demo_seated \<lparr>sk_me = None, sk_win = (0, 0)\<rparr> = (fst demo_join, demo_sock ''bert'', Cont)"
  proof -
    have "demo_join = (fst demo_join, demo_sock ''bert'', Cont)" by (simp add: prod_eq_iff demo_join_ok)
    then show ?thesis unfolding demo_join_def by (simp only: demo_two_def pair_env.simps if_True if_False)
  qed
  have r: "map_of (rooms demo_seated) (pe_room demo_two) = Some [(pe_id demo_two (\<not> True), demo_alice 0)]"
    "ph_tx (demo_alice 0) = pe_conn demo_two (\<not> True)"
    "\<forall>d. chans demo_seated (pe_conn demo_two d) = \<lparr>ch_queue = [], ch_open = True\<rparr>"
    by (simp_all add: demo_seated_def demo_two_def demo_alice_def)
  have n: "\<forall>d. online (pe_id demo_two d) (snd demo_world d) \<and> nd_uplink (snd demo_world d) = []"
    by (simp add: demo_world_def demo_client_def online_def engine_start_def mesh_new_def)
  have m: "meet_run demo_two (fst demo_join, snd demo_world) demo_world"
    using meet_run.begun by (simp add: demo_world_def)
  have "\<not> linked_pair demo_two demo_world"
    by (simp add: linked_pair_def linked_as_def link_def demo_world_def demo_client_def mesh_new_def)
  then show ?thesis using joined_pair_links [OF demo_two_ok _ j r n m] by simp
qed

end
