(* ===== verification/Handover.thy ===== *)
theory Handover
  imports Node Keying_Props
begin

text \<open>
  The DataChannel between two clients opens: the post-quantum handshake runs over it, the elected
  authority hands its room key over the session, and from then on each hears the other.  Engine and
  mesh of both clients are composed as they are (\<open>Node\<close>), with the frames under way between them.
  This theory holds the step relation and what each single frame and report does; \<open>Handover_Props\<close>
  follows the conversation through every order of its steps.
\<close>

section \<open>Two clients and their channel\<close>

text \<open>\<open>True\<close> is the side with the smaller id: it begins the handshake, and it is the authority.\<close>

record talk_env =
  ke_id :: "bool \<Rightarrow> str"
  ke_dc :: "bool \<Rightarrow> nat"
  ke_env :: "bool \<Rightarrow> mesh_env"

text \<open>The nodes, and the frames on their way to each of them.\<close>

type_synonym talk_state = "(bool \<Rightarrow> node) \<times> (bool \<Rightarrow> bytes list)"

definition frames :: "talk_env \<Rightarrow> bool \<Rightarrow> mesh_fx list \<Rightarrow> bytes list" where
  "frames K b fx =
     concat (map (\<lambda>f. case f of FCtrl dc msg \<Rightarrow> if dc = ke_dc K b then [me_json (ke_env K b) msg] else [] | _ \<Rightarrow> []) fx)"

inductive talk :: "talk_env \<Rightarrow> talk_state \<Rightarrow> talk_state \<Rightarrow> bool" for K where
  frame: "W b = data # q \<Longrightarrow>
    on_dc_message (ke_env K b) (ke_id K (\<not> b)) (ke_dc K b) data (nd_mesh (N b)) = (m, fx) \<Longrightarrow>
    talk K (N, W) (N(b := took (m, fx) (N b)), W(b := q, (\<not> b) := W (\<not> b) @ frames K b fx))"
| handle: "nd_events (N b) \<noteq> [] \<Longrightarrow> length (ob_draw ob) = 32 \<Longrightarrow> node_report (ke_env K b) ob (N b) = (nd, cs) \<Longrightarrow>
    talk K (N, W) (N(b := nd), W((\<not> b) := W (\<not> b) @ frames K b (drop (length (nd_log (N b))) (nd_log nd))))"

inductive talk_run :: "talk_env \<Rightarrow> talk_state \<Rightarrow> talk_state \<Rightarrow> bool" for K w0 where
  begun: "talk_run K w0 w0"
| talked: "talk_run K w0 w \<Longrightarrow> talk K w w' \<Longrightarrow> talk_run K w0 w'"

text \<open>The channel opens at both ends.\<close>

definition both_open :: "talk_env \<Rightarrow> (bool \<Rightarrow> node) \<Rightarrow> talk_state" where
  "both_open K N =
     (let r = (\<lambda>b. on_dc_open (ke_env K b) (ke_id K (\<not> b)) (ke_dc K b) (nd_mesh (N b)))
      in (\<lambda>b. took (r b) (N b), \<lambda>b. frames K (\<not> b) (snd (r (\<not> b)))))"

section \<open>What the two agree on\<close>

definition prims_of :: "talk_env \<Rightarrow> prims" where
  "prims_of K = me_prims (ke_env K True)"

definition hello_of :: "talk_env \<Rightarrow> initiator \<times> hello" where
  "hello_of K = start (prims_of K) (me_draw (ke_env K True)) (me_secret (ke_env K True)) (ke_id K True) (ke_id K False)"

definition reply_of :: "talk_env \<Rightarrow> reply \<times> crypto_session" where
  "reply_of K = the (respond (prims_of K) (me_draw (ke_env K False)) (me_secret (ke_env K False))
     (ke_id K True) (ke_id K False) (snd (hello_of K)))"

definition session_of :: "talk_env \<Rightarrow> crypto_session" where
  "session_of K = the (finish (prims_of K) (fst (hello_of K)) (fst (reply_of K)))"

definition hello_frame :: "talk_env \<Rightarrow> bytes" where
  "hello_frame K = me_json (ke_env K True) (hello_ctrl (ke_env K True) (snd (hello_of K)))"

definition reply_frame :: "talk_env \<Rightarrow> bytes" where
  "reply_frame K = me_json (ke_env K True) (reply_ctrl (ke_env K True) (fst (reply_of K)))"

definition key_frame :: "talk_env \<Rightarrow> u32 \<Rightarrow> bytes \<Rightarrow> bytes" where
  "key_frame K g key =
     (let E = ke_env K True
      in me_json E (CEnc (me_b64e E (fst (seal (prims_of K) Chat (me_json E (CRoomKey g (me_b64e E key))) (session_of K))))))"

text \<open>The primitives keep their laws, both sides have the same codec, and the frames of the handshake
  and of a key fit the channel's limit.\<close>

definition talk_ok :: "talk_env \<Rightarrow> bool" where
  "talk_ok K \<longleftrightarrow> ke_id K True < ke_id K False
     \<and> aead_ok (prims_of K) \<and> kem_ok (prims_of K) \<and> dh_ok (prims_of K) \<and> codec_ok (ke_env K True)
     \<and> (\<forall>b. me_prims (ke_env K b) = prims_of K \<and> me_json (ke_env K b) = me_json (ke_env K True)
          \<and> me_parse (ke_env K b) = me_parse (ke_env K True) \<and> me_b64e (ke_env K b) = me_b64e (ke_env K True)
          \<and> me_b64d (ke_env K b) = me_b64d (ke_env K True) \<and> length (p_xpub (prims_of K) (me_secret (ke_env K b))) = 32)
     \<and> length (hello_frame K) \<le> MAX_CTRL_BYTES \<and> length (reply_frame K) \<le> MAX_CTRL_BYTES
     \<and> (\<forall>g key. length key = 32 \<longrightarrow> length (key_frame K g key) \<le> MAX_CTRL_BYTES)"

text \<open>A client that runs with this channel open, and agrees on who the authority is.\<close>

definition agreed :: "talk_env \<Rightarrow> bool \<Rightarrow> engine \<Rightarrow> bool" where
  "agreed K b e \<longleftrightarrow> en_running e \<and> en_me_id e = ke_id K b \<and> kc_me (en_keys e) = ke_id K b
     \<and> (if b then am_authority (ke_id K True) (en_members e)
        else is_authority_peer (ke_id K True) (ke_id K False) (en_members e) \<and> ke_id K True \<in> fst ` set (en_members e))"

definition channelled :: "talk_env \<Rightarrow> bool \<Rightarrow> mesh \<Rightarrow> bool" where
  "channelled K b m \<longleftrightarrow> ms_my_id m = ke_id K b \<and> pc_my_id (ms_crypto m) = ke_id K b
     \<and> (\<exists>p. map_of (ms_peers m) (ke_id K (\<not> b)) = Some p \<and> pn_chat p = Some (ke_dc K b)
          \<and> filter (\<lambda>(j, q). pn_chat q = Some (ke_dc K b)) (ms_peers m) = [(ke_id K (\<not> b), p)])"

definition joined :: "talk_env \<Rightarrow> talk_state \<Rightarrow> bool" where
  "joined K w \<longleftrightarrow> (\<forall>b. agreed K b (nd_engine (fst w b)) \<and> channelled K b (nd_mesh (fst w b)))"

section \<open>Idle talk\<close>

text \<open>Channel announcements, and what is reported of channels and of the connection, never touch keys.\<close>

definition chatter :: "talk_env \<Rightarrow> bytes \<Rightarrow> bool" where
  "chatter K data = (case me_parse (ke_env K True) data of
     Some (CChannel _) \<Rightarrow> True | Some (CChannels _) \<Rightarrow> True | _ \<Rightarrow> False)"

fun idle :: "mesh_event \<Rightarrow> bool" where
  "idle (MEPeerChannel _ _) = True"
| "idle (MEPeerChannels _) = True"
| "idle (MEBadge _ _) = True"
| "idle (MELink _ _) = True"
| "idle _ = False"

fun event_weight :: "mesh_event \<Rightarrow> nat" where
  "event_weight (MESecure _ _) = 3"
| "event_weight _ = 1"

definition frame_weight :: "talk_env \<Rightarrow> bytes \<Rightarrow> nat" where
  "frame_weight K data = (case me_parse (ke_env K True) data of
     Some (CKemHello _ _) \<Rightarrow> 8 | Some (CKemReply _ _) \<Rightarrow> 4 | _ \<Rightarrow> 2)"

text \<open>How many channels may still be learned: each may be announced once more.\<close>

definition room_to_learn :: "engine \<Rightarrow> nat" where
  "room_to_learn e = MAX_CHANNELS - length (en_known e)"

definition side_weight :: "talk_env \<Rightarrow> node \<Rightarrow> bytes list \<Rightarrow> nat" where
  "side_weight K nd q = 3 * room_to_learn (nd_engine nd) + sum_list (map event_weight (nd_events nd))
     + sum_list (map (frame_weight K) q)"

definition talk_weight :: "talk_env \<Rightarrow> talk_state \<Rightarrow> nat" where
  "talk_weight K w = side_weight K (fst w True) (snd w True) + side_weight K (fst w False) (snd w False)"

lemma frames_simps [simp]:
  "frames K b [] = []"
  "frames K b (f # fs) = (case f of FCtrl dc msg \<Rightarrow> if dc = ke_dc K b then [me_json (ke_env K b) msg] else [] | _ \<Rightarrow> []) @ frames K b fs"
  "frames K b (xs @ ys) = frames K b xs @ frames K b ys"
  by (simp_all add: frames_def)

lemma frames_events [simp]: "frames K b (map FEvent evs) = []"
  by (induction evs) simp_all

lemma reports_events [simp]: "reports (map FEvent evs) = evs"
  by (induction evs) simp_all

lemma took_more [simp]: "nd_events (took (m, fx) nd) = nd_events nd @ reports fx"
  by (simp add: took_def)

lemma same_codec:
  assumes "talk_ok K"
  shows "me_prims (ke_env K b) = prims_of K" "me_json (ke_env K b) = me_json (ke_env K True)"
    "me_parse (ke_env K b) = me_parse (ke_env K True)" "me_b64e (ke_env K b) = me_b64e (ke_env K True)"
    "me_b64d (ke_env K b) = me_b64d (ke_env K True)" "length (p_xpub (prims_of K) (me_secret (ke_env K b))) = 32"
  using assms unfolding talk_ok_def by blast+

lemma parse_json: "talk_ok K \<Longrightarrow> me_parse (ke_env K b) (me_json (ke_env K b') m) = Some m"
  using same_codec(2,3) [of K] unfolding talk_ok_def codec_ok_def by metis

lemma chatter_frame:
  assumes "talk_ok K" and "chatter K data"
    and "on_dc_message (ke_env K b) i dc data m = (m', fx)"
  shows "ms_crypto m' = ms_crypto m \<and> ms_peers m' = ms_peers m \<and> ms_my_id m' = ms_my_id m
    \<and> frames K b fx = [] \<and> filter (\<lambda>e. \<not> idle e) (reports fx) = [] \<and> sum_list (map event_weight (reports fx)) \<le> 1"
proof -
  have parse: "me_parse (ke_env K b) data = me_parse (ke_env K True) data" using same_codec(3) [OF assms(1)] by metis
  from assms(2) obtain msg where msg: "me_parse (ke_env K b) data = Some msg" "(\<exists>n. msg = CChannel n) \<or> (\<exists>ns. msg = CChannels ns)"
    unfolding chatter_def parse by (auto split: option.splits ctrl_msg.splits)
  show ?thesis
    using msg(2) assms(3) by (elim disjE exE) (auto simp: msg(1) on_dc_message_def dispatch_def Let_def split: if_splits)
qed

text \<open>What an idle report does to the engine: the keys and the member list stay, and if a message goes out
  it announces a directory that has grown.\<close>

lemma grown_room: "\<exists>new. snd (merge_channels lc known ns) = known @ new \<and> (fst (merge_channels lc known ns) \<longleftrightarrow> new \<noteq> [])
    \<and> (new \<noteq> [] \<longrightarrow> length known < MAX_CHANNELS)"
proof -
  have "fst (merge_channels lc known ns) \<Longrightarrow> length known < MAX_CHANNELS"
    by (cases ns) (auto simp: Let_def not_le split: if_splits)
  with merge_prefix [of lc known ns] show ?thesis by metis
qed

lemma keys_update: "map_of m i = Some x \<Longrightarrow> fst ` set (AList.update i y m) = fst ` set m"
  by (drule map_of_SomeD) (auto simp: dom_update intro: rev_image_eqI)

lemma keys_with_member [simp]: "fst ` set (en_members (with_member i f e)) = fst ` set (en_members e)"
  by (auto simp: with_member_def keys_update split: option.splits)

lemma with_member_keeps [simp]:
  "en_keys (with_member i f e) = en_keys e" "en_running (with_member i f e) = en_running e"
  "en_me_id (with_member i f e) = en_me_id e" "en_known (with_member i f e) = en_known e"
  by (simp_all add: with_member_def split: option.split)

lemma idle_engine:
  assumes "idle ev" and "on_mesh ob ev e = (e', fx)"
  shows "en_keys e' = en_keys e \<and> en_running e' = en_running e \<and> en_me_id e' = en_me_id e
    \<and> fst ` set (en_members e') = fst ` set (en_members e)
    \<and> ((\<exists>u. fx = [MChannels (en_known e'), Ui u]) \<and> room_to_learn e' < room_to_learn e
        \<or> (\<forall>f \<in> set fx. \<exists>u. f = Ui u) \<and> room_to_learn e' = room_to_learn e)"
proof (cases ev)
  case (MEPeerChannels names)
  obtain new where new: "snd (merge_channels (ob_lc ob) (en_known e) (filter (\<lambda>n. canon_channel (ob_lc ob) n \<notin> set (en_removed e)) names)) = en_known e @ new"
      "fst (merge_channels (ob_lc ob) (en_known e) (filter (\<lambda>n. canon_channel (ob_lc ob) n \<notin> set (en_removed e)) names)) \<longleftrightarrow> new \<noteq> []"
      "new \<noteq> [] \<longrightarrow> length (en_known e) < MAX_CHANNELS"
    using grown_room by blast
  have "new \<noteq> [] \<Longrightarrow> MAX_CHANNELS - (length (en_known e) + length new) < MAX_CHANNELS - length (en_known e)"
    using new(3) by (cases new) auto
  with new assms(2) show ?thesis
    by (auto simp: MEPeerChannels on_peer_channels_def room_to_learn_def Let_def split: prod.splits if_splits)
next
  case (MELink i up)
  have "(\<forall>f \<in> set fx. \<exists>u. f = Ui u) \<and> (e' = e \<or> (\<exists>m m1. map_of (en_members e) i = Some m
      \<and> e' = e\<lparr>en_members := AList.update i m1 (en_members e)\<rparr>))"
    using assms(2) unfolding MELink on_mesh.simps on_link_def
    by (cases "map_of (en_members e) i") (auto simp: Let_def roster_of_def emit_roster_def split: if_splits)
  then show ?thesis
  proof (elim conjE disjE exE)
    fix m m1 assume fx: "\<forall>f \<in> set fx. \<exists>u. f = Ui u"
      and m: "map_of (en_members e) i = Some m" "e' = e\<lparr>en_members := AList.update i m1 (en_members e)\<rparr>"
    show ?thesis using fx keys_update [OF m(1), of m1] by (simp add: m(2) room_to_learn_def)
  qed simp
next
  case (MEBadge i badge)
  then have "e' = with_member i (\<lambda>m. m\<lparr>m_badge := Some badge\<rparr>) e" "\<forall>f \<in> set fx. \<exists>u. f = Ui u"
    using assms(2) by (auto simp: Let_def roster_of_def emit_roster_def)
  then show ?thesis by (simp add: room_to_learn_def)
next
  case (MEPeerChannel i name)
  then have "e' = with_member i (\<lambda>m. m\<lparr>m_channel := name\<rparr>) e" "\<forall>f \<in> set fx. \<exists>u. f = Ui u"
    using assms(2) by (auto simp: Let_def roster_of_def emit_roster_def)
  then show ?thesis by (simp add: room_to_learn_def)
qed (use assms in simp_all)

lemma node_mesh:
  assumes "en_running (nd_engine nd)" and "nd_events nd = ev # evs" and "node_report env ob nd = (nd', cs)"
  shows "\<exists>ob' e fx m g. on_mesh ob' ev ((nd_engine nd)\<lparr>en_chan := ms_chan (nd_mesh nd)\<rparr>) = (e, fx) \<and> ob_draw ob' = ob_draw ob
    \<and> mesh_calls env fx ((nd_mesh nd)\<lparr>ms_chan := en_chan e\<rparr>) = (m, g) \<and> nd' = took (m, g) (nd\<lparr>nd_events := evs, nd_engine := e\<rparr>)"
proof -
  let ?ob = "ob\<lparr>ob_crypto := ms_crypto (nd_mesh nd)\<rparr>" and ?e0 = "(nd_engine nd)\<lparr>en_chan := ms_chan (nd_mesh nd)\<rparr>"
  obtain e fx where e: "on_mesh ?ob ev ?e0 = (e, fx)" by (cases "on_mesh ?ob ev ?e0")
  obtain m g where m: "mesh_calls env fx ((nd_mesh nd)\<lparr>ms_chan := en_chan e\<rparr>) = (m, g)"
    by (cases "mesh_calls env fx ((nd_mesh nd)\<lparr>ms_chan := en_chan e\<rparr>)")
  have "nd' = took (m, g) (nd\<lparr>nd_events := evs, nd_engine := e\<rparr>)"
    using assms e m by (simp add: node_report_def node_step_def)
  with e m show ?thesis by (intro exI [of _ ?ob] exI) auto
qed

lemma broadcast_frame:
  assumes "channelled K b m"
  shows "frames K b (broadcast_ctrl msg m) = [me_json (ke_env K b) msg] \<and> reports (broadcast_ctrl msg m) = []"
proof -
  have "frames K b (concat (map (\<lambda>(i, p). case pn_chat p of Some dc \<Rightarrow> [FCtrl dc msg] | None \<Rightarrow> []) ps))
      = map (\<lambda>_. me_json (ke_env K b) msg) (filter (\<lambda>(j, q). pn_chat q = Some (ke_dc K b)) ps)
    \<and> reports (concat (map (\<lambda>(i, p). case pn_chat p of Some dc \<Rightarrow> [FCtrl dc msg] | None \<Rightarrow> []) ps)) = []"
    for ps :: "(str \<times> peer_conn) list" by (induction ps) (auto split: option.splits)
  with assms show ?thesis by (auto simp: broadcast_ctrl_def channelled_def)
qed

lemma quiet_effects:
  "\<forall>f \<in> set fx. \<exists>u. f = Ui u \<Longrightarrow> mesh_calls env fx m = (m, [])"
  by (induction fx) (auto simp: mesh_call_def)

section \<open>Steps that leave the keys alone\<close>

abbreviation spoken :: "talk_env \<Rightarrow> talk_state \<Rightarrow> bool \<Rightarrow> bytes list" where
  "spoken K w b \<equiv> filter (\<lambda>d. \<not> chatter K d) (snd w b)"

abbreviation pending :: "talk_state \<Rightarrow> bool \<Rightarrow> mesh_event list" where
  "pending w b \<equiv> filter (\<lambda>e. \<not> idle e) (nd_events (fst w b))"

abbreviation keys :: "talk_state \<Rightarrow> bool \<Rightarrow> coordinator" where
  "keys w b \<equiv> en_keys (nd_engine (fst w b))"

abbreviation store :: "talk_state \<Rightarrow> bool \<Rightarrow> peer_crypto" where
  "store w b \<equiv> ms_crypto (nd_mesh (fst w b))"

definition same_hands :: "talk_env \<Rightarrow> talk_state \<Rightarrow> talk_state \<Rightarrow> bool" where
  "same_hands K w w' \<longleftrightarrow> (\<forall>b. keys w' b = keys w b \<and> store w' b = store w b
     \<and> spoken K w' b = spoken K w b \<and> pending w' b = pending w b)"

lemma talk_weight_sides:
  "talk_weight K w = side_weight K (fst w b) (snd w b) + side_weight K (fst w (\<not> b)) (snd w (\<not> b))"
  by (cases b) (simp_all add: talk_weight_def)

lemma both_sides: "(\<forall>b'. R b') \<longleftrightarrow> R b \<and> R (\<not> b)" for R :: "bool \<Rightarrow> bool"
  by (cases b) (auto simp: all_bool_eq)

lemma other_side [simp]: "(\<not> b) \<noteq> b" "b \<noteq> (\<not> b)"
  by auto

lemma agreed_same:
  assumes "agreed K b e" and "kc_me (en_keys e') = kc_me (en_keys e)" "en_running e' = en_running e" "en_me_id e' = en_me_id e"
    and "fst ` set (en_members e') = fst ` set (en_members e)"
  shows "agreed K b e'"
  using assms(1) unfolding agreed_def am_authority_def is_authority_peer_def by (simp only: assms(2-5) simp_thms) (elim conjE, assumption)

lemma channelled_same:
  assumes "channelled K b m" and "ms_my_id m' = ms_my_id m" "ms_peers m' = ms_peers m" "pc_my_id (ms_crypto m') = pc_my_id (ms_crypto m)"
  shows "channelled K b m'"
  using assms by (simp add: channelled_def)

lemma idle_frame:
  assumes "talk_ok K" and "joined K (N, W)" and "W b = data # q" and "chatter K data"
    and "on_dc_message (ke_env K b) i dc data (nd_mesh (N b)) = (m, fx)"
    and "w' = (N(b := took (m, fx) (N b)), W(b := q, (\<not> b) := W (\<not> b) @ frames K b fx))"
  shows "joined K w' \<and> same_hands K (N, W) w' \<and> talk_weight K w' < talk_weight K (N, W)"
proof -
  note c = chatter_frame [OF assms(1,4,5)]
  have "frame_weight K data = 2" using assms(4) by (auto simp: chatter_def frame_weight_def split: option.splits ctrl_msg.splits)
  then have "talk_weight K w' < talk_weight K (N, W)"
    using c assms(3) unfolding talk_weight_sides [of K _ b] assms(6) by (simp add: side_weight_def)
  moreover have "joined K w'"
    using assms(2) c unfolding joined_def both_sides [of _ b] assms(6) by (auto intro: channelled_same)
  moreover have "same_hands K (N, W) w'"
    using c assms(3,4) unfolding same_hands_def both_sides [of _ b] assms(6) by simp
  ultimately show ?thesis by blast
qed

lemma idle_report:
  assumes "talk_ok K" and "joined K (N, W)" and "nd_events (N b) = ev # evs" and "idle ev"
    and "node_report (ke_env K b) ob (N b) = (nd, cs)"
    and "w' = (N(b := nd), W((\<not> b) := W (\<not> b) @ frames K b (drop (length (nd_log (N b))) (nd_log nd))))"
  shows "joined K w' \<and> same_hands K (N, W) w' \<and> talk_weight K w' < talk_weight K (N, W)"
proof -
  let ?e0 = "(nd_engine (N b))\<lparr>en_chan := ms_chan (nd_mesh (N b))\<rparr>"
  have j: "agreed K b (nd_engine (N b))" "channelled K b (nd_mesh (N b))" using assms(2) by (simp_all add: joined_def)
  from node_mesh [OF _ assms(3,5)] j(1) obtain ob' e fx m g where e: "on_mesh ob' ev ?e0 = (e, fx)"
    and g: "mesh_calls (ke_env K b) fx ((nd_mesh (N b))\<lparr>ms_chan := en_chan e\<rparr>) = (m, g)"
    and nd: "nd = took (m, g) ((N b)\<lparr>nd_events := evs, nd_engine := e\<rparr>)" by (auto simp: agreed_def)
  note i = idle_engine [OF assms(4) e]
  have ch: "channelled K b ((nd_mesh (N b))\<lparr>ms_chan := en_chan e\<rparr>)" using j(2) by (simp add: channelled_def)
  have out: "m = (nd_mesh (N b))\<lparr>ms_chan := en_chan e\<rparr> \<and> reports g = [] \<and> filter (\<lambda>d. \<not> chatter K d) (frames K b g) = []
      \<and> 3 * room_to_learn e + sum_list (map (frame_weight K) (frames K b g)) \<le> 3 * room_to_learn (nd_engine (N b))"
  proof (cases "\<exists>u. fx = [MChannels (en_known e), Ui u]")
    case True
    then have "m = (nd_mesh (N b))\<lparr>ms_chan := en_chan e\<rparr>" "g = broadcast_ctrl (CChannels (en_known e)) m"
      using g by (auto simp: mesh_call_def broadcast_channels_def)
    with True i broadcast_frame [OF ch] show ?thesis
      by (auto simp: chatter_def frame_weight_def parse_json [OF assms(1)] room_to_learn_def)
  next
    case False
    with i have "\<forall>f \<in> set fx. \<exists>u. f = Ui u" "room_to_learn e = room_to_learn ?e0" by auto
    with g show ?thesis by (simp add: quiet_effects room_to_learn_def)
  qed
  then have "talk_weight K w' < talk_weight K (N, W)"
    using assms(3) i unfolding talk_weight_sides [of K _ b] assms(6) by (cases ev) (simp_all add: side_weight_def nd)
  moreover have "joined K w'"
    using assms(2) out i j unfolding joined_def both_sides [of _ b] assms(6)
    by (auto simp: nd intro: agreed_same [of K b "nd_engine (N b)"] channelled_same [of K b "nd_mesh (N b)"])
  moreover have "same_hands K (N, W) w'"
    using out i assms(3,4) unfolding same_hands_def both_sides [of _ b] assms(6) by (simp add: nd)
  ultimately show ?thesis by blast
qed

section \<open>Frames of the handshake and of the key\<close>

lemma shaken:
  assumes "talk_ok K"
  shows "respond (prims_of K) (me_draw (ke_env K False)) (me_secret (ke_env K False)) (ke_id K True) (ke_id K False) (snd (hello_of K))
      = Some (reply_of K)"
    "finish (prims_of K) (fst (hello_of K)) (fst (reply_of K)) = Some (session_of K)"
    "mirrored (session_of K) (snd (reply_of K))" "replay_ok (s_send_ctr (session_of K)) (snd (reply_of K))"
    "length (h_x_pk (snd (hello_of K))) = 32" "length (r_x_pk (fst (reply_of K))) = 32"
proof -
  have laws: "kem_ok (prims_of K)" "dh_ok (prims_of K)" using assms by (simp_all add: talk_ok_def)
  obtain i h where st: "start (prims_of K) (me_draw (ke_env K True)) (me_secret (ke_env K True)) (ke_id K True) (ke_id K False) = (i, h)"
    by fastforce
  from handshake_sessions [OF laws st, of "me_draw (ke_env K False)" "me_secret (ke_env K False)"] obtain r sb sa
    where r: "respond (prims_of K) (me_draw (ke_env K False)) (me_secret (ke_env K False)) (ke_id K True) (ke_id K False) h = Some (r, sb)"
      and f: "finish (prims_of K) i r = Some sa" and m: "mirrored sa sb" "s_send_ctr sa = 0" "s_recv_max sb = 0" "s_recv_window sb = 0"
    by blast
  have h: "hello_of K = (i, h)" by (simp add: hello_of_def st)
  have ro: "reply_of K = (r, sb)" by (simp add: reply_of_def h r)
  have se: "session_of K = sa" by (simp add: session_of_def h ro f)
  show "respond (prims_of K) (me_draw (ke_env K False)) (me_secret (ke_env K False)) (ke_id K True) (ke_id K False) (snd (hello_of K)) = Some (reply_of K)"
    "finish (prims_of K) (fst (hello_of K)) (fst (reply_of K)) = Some (session_of K)" "mirrored (session_of K) (snd (reply_of K))"
    by (simp_all add: h ro se r f m)
  show "replay_ok (s_send_ctr (session_of K)) (snd (reply_of K))" using m by (auto simp: ro se replay_ok_nat)
  have "h_x_pk h = p_xpub (prims_of K) (me_secret (ke_env K True))" using st by (auto simp: start_def Let_def split: prod.splits)
  then show "length (h_x_pk (snd (hello_of K))) = 32" using same_codec(6) [OF assms] by (simp add: h)
  have "r_x_pk r = p_xpub (prims_of K) (me_secret (ke_env K False))"
    using r by (auto simp: respond_def Let_def split: if_splits option.splits)
  then show "length (r_x_pk (fst (reply_of K))) = 32" using same_codec(6) [OF assms] by (simp add: ro)
qed

lemma decoded:
  assumes "talk_ok K"
  shows "me_b64d (ke_env K b) (me_b64e (ke_env K b') x) = Some x"
  using assms same_codec(4,5) [OF assms] unfolding talk_ok_def codec_ok_def by metis

lemma hello_taken:
  assumes "talk_ok K" and "channelled K False m"
    and "on_dc_message (ke_env K False) (ke_id K True) (ke_dc K False) (hello_frame K) m = (m', fx)"
  shows "channelled K False m' \<and> map_of (pc_sessions (ms_crypto m')) (ke_id K True) = Some (snd (reply_of K))
    \<and> frames K False fx = [reply_frame K] \<and> (\<exists>fp. reports fx = [MESecure (ke_id K True) fp])"
proof -
  let ?E = "ke_env K False" and ?h = "snd (hello_of K)"
  have len: "\<not> MAX_CTRL_BYTES < length (hello_frame K)" and lt: "\<not> ke_id K False < ke_id K True"
    using assms(1) by (auto simp: talk_ok_def)
  have parse: "me_parse ?E (hello_frame K) = Some (hello_ctrl (ke_env K True) ?h)" by (simp add: hello_frame_def parse_json [OF assms(1)])
  have h: "parse_hello ?E (me_b64e (ke_env K True) (h_kem_pk ?h)) (me_b64e (ke_env K True) (h_x_pk ?h)) = Some ?h"
    by (simp add: parse_hello_def b64_32_def decoded [OF assms(1)] shaken(5) [OF assms(1)])
  have c: "pc_on_hello (me_prims ?E) (me_draw ?E) (me_secret ?E) (ke_id K True) ?h (ms_crypto m)
      = (Some (fst (reply_of K)), (ms_crypto m)\<lparr>pc_sessions := AList.update (ke_id K True) (snd (reply_of K)) (pc_sessions (ms_crypto m))\<rparr>)"
    using assms(2) lt shaken(1) [OF assms(1)] by (simp add: pc_on_hello_def is_initiator_def channelled_def same_codec(1) [OF assms(1)] split: prod.split)
  have "reply_ctrl ?E = reply_ctrl (ke_env K True)" using same_codec(4) [OF assms(1), of False] by (intro ext) (simp add: reply_ctrl_def)
  then show ?thesis
    using assms(2,3) len by (auto simp: on_dc_message_def parse hello_ctrl_def h c channelled_def reply_frame_def same_codec(2) [OF assms(1), of False])
qed

lemma reply_taken:
  assumes "talk_ok K" and "channelled K True m" and "map_of (pc_pending (ms_crypto m)) (ke_id K False) = Some (fst (hello_of K))"
    and "on_dc_message (ke_env K True) (ke_id K False) (ke_dc K True) (reply_frame K) m = (m', fx)"
  shows "channelled K True m' \<and> map_of (pc_sessions (ms_crypto m')) (ke_id K False) = Some (session_of K)
    \<and> frames K True fx = [] \<and> (\<exists>fp. reports fx = [MESecure (ke_id K False) fp])"
proof -
  let ?E = "ke_env K True" and ?r = "fst (reply_of K)"
  have len: "\<not> MAX_CTRL_BYTES < length (reply_frame K)" using assms(1) by (auto simp: talk_ok_def)
  have parse: "me_parse ?E (reply_frame K) = Some (reply_ctrl ?E ?r)" by (simp add: reply_frame_def parse_json [OF assms(1)])
  have r: "parse_reply ?E (me_b64e ?E (r_x_pk ?r)) (me_b64e ?E (r_kem_ct ?r)) = Some ?r"
    by (simp add: parse_reply_def b64_32_def decoded [OF assms(1)] shaken(6) [OF assms(1)])
  have f: "finish (me_prims ?E) (fst (hello_of K)) ?r = Some (session_of K)" using shaken(2) [OF assms(1)] same_codec(1) [OF assms(1)] by metis
  show ?thesis
    using assms(2-4) len f by (auto simp: on_dc_message_def parse reply_ctrl_def r pc_on_reply_def Let_def channelled_def)
qed

lemma key_taken:
  assumes "talk_ok K" and "channelled K False m" and "map_of (pc_sessions (ms_crypto m)) (ke_id K True) = Some (snd (reply_of K))"
    and "length key = 32" and "on_dc_message (ke_env K False) (ke_id K True) (ke_dc K False) (key_frame K g key) m = (m', fx)"
  shows "channelled K False m' \<and> frames K False fx = [] \<and> reports fx = [MERoomKey (ke_id K True) g key]"
proof -
  let ?E = "ke_env K False" and ?E1 = "ke_env K True"
  let ?pt = "me_json ?E1 (CRoomKey g (me_b64e ?E1 key))"
  obtain w sa where se: "seal (prims_of K) Chat ?pt (session_of K) = (w, sa)" by fastforce
  have len: "\<not> MAX_CTRL_BYTES < length (key_frame K g key)" and aead: "aead_ok (prims_of K)" using assms(1,4) by (auto simp: talk_ok_def not_less)
  have parse: "me_parse ?E (key_frame K g key) = Some (CEnc (me_b64e ?E1 w))" by (simp add: key_frame_def se Let_def parse_json [OF assms(1)])
  have "open_frame (prims_of K) Chat w (snd (reply_of K)) = (Some ?pt, replay_mark (s_send_ctr (session_of K)) (snd (reply_of K)))"
    by (rule seal_open [OF aead shaken(3) [OF assms(1)] se shaken(4) [OF assms(1)]])
  then have op: "pc_open (me_prims ?E) (ke_id K True) Chat w (ms_crypto m) = (Some ?pt,
      (ms_crypto m)\<lparr>pc_sessions := AList.update (ke_id K True) (replay_mark (s_send_ctr (session_of K)) (snd (reply_of K))) (pc_sessions (ms_crypto m))\<rparr>)"
    using assms(3) by (simp add: pc_open_def same_codec(1) [OF assms(1)])
  have k: "b64_32 ?E (me_b64e ?E1 key) = Some key" by (simp add: b64_32_def decoded [OF assms(1)] assms(4))
  show ?thesis
    using assms(2,5) len by (auto simp: on_dc_message_def parse decoded [OF assms(1)] op parse_json [OF assms(1)] dispatch_def k channelled_def)
qed

section \<open>Keys of the two coordinators\<close>

text \<open>The authority before it hands out its key: no rotation is pending, and its generation is one a
  newcomer accepts.  The other side has no key yet.\<close>

definition leads :: "coordinator \<Rightarrow> bool" where
  "leads c \<longleftrightarrow> kc_ok c \<and> ra_send (kc_room c) = ra_cur (kc_room c) \<and> kc_room_gen c \<le> ROOM_GEN_BOUND
     \<and> (\<forall>k. ra_cur (kc_room c) = Some k \<longrightarrow> length (rk_key k) = 32)"

definition follows :: "coordinator \<Rightarrow> bool" where
  "follows c \<longleftrightarrow> kc_ok c \<and> ra_cur (kc_room c) = None"

definition holds_key :: "u32 \<Rightarrow> bytes \<Rightarrow> coordinator \<Rightarrow> bool" where
  "holds_key g key c \<longleftrightarrow> (\<exists>k. ra_cur (kc_room c) = Some k \<and> ra_send (kc_room c) = Some k \<and> rk_gen k = g \<and> rk_key k = key)"

lemma adopt_first:
  assumes "ra_cur (kc_room c) = None" and "kc_ok c"
  shows "\<exists>c'. adopt k c = (True, c') \<and> holds_key (rk_gen k) (rk_key k) c' \<and> kc_me c' = kc_me c"
proof -
  obtain c' where a: "adopt k c = (True, c')" using adopt_newer [of c k] assms(1) by (cases "adopt k c") auto
  with adopt_taken [OF a] assms show ?thesis by (auto simp: holds_key_def kc_ok_def)
qed

text \<open>The authority mints its key, or takes the one it has, and sends it.\<close>

lemma on_secure_leads:
  assumes "am_authority (kc_me c) ms" and "leads c" and "length draw = 32"
  shows "\<exists>g key c'. on_secure draw peer ms c = ([SendKey peer g key], c') \<and> holds_key g key c' \<and> kc_me c' = kc_me c
    \<and> g \<le> ROOM_GEN_BOUND \<and> length key = 32"
proof (cases "ra_cur (kc_room c)")
  case None
  let ?c = "c\<lparr>kc_room_gen := max (kc_room_gen c) 1\<rparr>"
  let ?k = "rk_generate draw (max (kc_room_gen c) 1) (kc_me c)"
  have "kc_ok ?c" using assms(2) kc_ok_raise [of c "max (kc_room_gen c) 1"] by (simp add: leads_def)
  with adopt_first [of ?c ?k] None obtain c' where a: "adopt ?k ?c = (True, c')" "holds_key (rk_gen ?k) draw c'" "kc_me c' = kc_me c"
    by (auto simp: rk_generate_def)
  have "max (kc_room_gen c) 1 \<le> ROOM_GEN_BOUND" using assms(2) by (simp add: leads_def ROOM_GEN_BOUND_def)
  with a assms(1,3) None show ?thesis
    by (auto simp: on_secure_def Let_def ra_generation_def ra_current_def holds_key_def rk_generate_def)
next
  case (Some k)
  have "rk_gen k \<le> ROOM_GEN_BOUND" using assms(2) Some by (auto simp: leads_def kc_ok_def)
  with Some assms(1,2) show ?thesis
    by (auto simp: on_secure_def Let_def ra_generation_def ra_current_def holds_key_def leads_def)
qed

lemma on_secure_follows:
  assumes "is_authority_peer peer (kc_me c) ms" and "peer \<in> fst ` set ms" and "follows c"
  shows "on_secure draw peer ms c = ([], c)"
proof -
  have "\<not> kc_me c < peer" using assms(1) by (auto simp: is_authority_peer_def)
  with assms(2) have "\<not> am_authority (kc_me c) ms" unfolding am_authority_def by blast
  with assms(1,3) show ?thesis by (simp add: on_secure_def follows_def ra_generation_def)
qed

lemma on_room_key_follows:
  assumes "is_authority_peer peer (kc_me c) ms" and "follows c" and "g \<le> ROOM_GEN_BOUND"
  shows "\<exists>c'. on_room_key peer g key ms c = (True, c') \<and> holds_key g key c' \<and> kc_me c' = kc_me c"
proof -
  have "g \<le> sat_add32 (kc_room_gen c) ROOM_GEN_BOUND" using assms(3) by (simp add: le_sat_add32) (simp add: word_le_nat_alt)
  with assms adopt_first [of c "rk_from_bytes g peer key"] show ?thesis
    by (auto simp: on_room_key_def follows_def rk_from_bytes_def)
qed

section \<open>Reports that concern the keys\<close>

lemma authority_keys:
  "fst ` set ms' = fst ` set ms \<Longrightarrow> am_authority i ms' = am_authority i ms"
  "fst ` set ms' = fst ` set ms \<Longrightarrow> is_authority_peer j i ms' = is_authority_peer j i ms"
  unfolding am_authority_def is_authority_peer_def by (simp_all only:)

lemma secured_leader:
  assumes "talk_ok K" and "agreed K True (nd_engine nd)" and "channelled K True (nd_mesh nd)"
    and "map_of (pc_sessions (ms_crypto (nd_mesh nd))) (ke_id K False) = Some (session_of K)"
    and "leads (en_keys (nd_engine nd))" and "nd_events nd = MESecure (ke_id K False) fp # evs"
    and "length (ob_draw ob) = 32" and "node_report (ke_env K True) ob nd = (nd', cs)"
  shows "agreed K True (nd_engine nd') \<and> channelled K True (nd_mesh nd') \<and> nd_events nd' = evs
    \<and> room_to_learn (nd_engine nd') = room_to_learn (nd_engine nd)
    \<and> (\<exists>g key. holds_key g key (en_keys (nd_engine nd')) \<and> g \<le> ROOM_GEN_BOUND \<and> length key = 32
         \<and> frames K True (drop (length (nd_log nd)) (nd_log nd')) = [key_frame K g key])"
proof -
  let ?e0 = "(nd_engine nd)\<lparr>en_chan := ms_chan (nd_mesh nd)\<rparr>" and ?peer = "ke_id K False" and ?E = "ke_env K True"
  from node_mesh [OF _ assms(6,8)] assms(2) obtain ob' e fx m h where e: "on_mesh ob' (MESecure ?peer fp) ?e0 = (e, fx)"
    and d: "ob_draw ob' = ob_draw ob" and m: "mesh_calls ?E fx ((nd_mesh nd)\<lparr>ms_chan := en_chan e\<rparr>) = (m, h)"
    and nd': "nd' = took (m, h) (nd\<lparr>nd_events := evs, nd_engine := e\<rparr>)" by (auto simp: agreed_def)
  define e1 where "e1 = with_member ?peer (\<lambda>m. m\<lparr>m_secure := True, m_fingerprint := if fp = [] then None else Some fp\<rparr>) ?e0"
  have e1: "en_keys e1 = en_keys (nd_engine nd)" "en_running e1 = en_running (nd_engine nd)" "en_me_id e1 = en_me_id (nd_engine nd)"
    "en_known e1 = en_known (nd_engine nd)" "fst ` set (en_members e1) = fst ` set (en_members (nd_engine nd))"
    by (simp_all add: e1_def)
  have "am_authority (kc_me (en_keys e1)) (en_members e1)"
    using assms(2) authority_keys(1) [OF e1(5)] by (simp add: agreed_def e1(1))
  from on_secure_leads [OF this, of "ob_draw ob'" ?peer] assms(5,7) obtain g key c where
    c: "on_secure (ob_draw ob') ?peer (en_members e1) (en_keys e1) = ([SendKey ?peer g key], c)" "holds_key g key c"
       "kc_me c = kc_me (en_keys e1)" "g \<le> ROOM_GEN_BOUND" "length key = 32" by (auto simp: e1(1) d)
  have e': "e = e1\<lparr>en_keys := c\<rparr>" "\<exists>u v. fx = Ui u # MKey (SendKey ?peer g key) # v \<and> (\<forall>f \<in> set v. \<exists>u. f = Ui u)"
    using e c(1) by (auto simp: on_peer_secure_def Let_def e1_def [symmetric] roster_of_def emit_roster_def split: if_splits)
  then obtain u v where fx: "fx = Ui u # MKey (SendKey ?peer g key) # v" "\<forall>f \<in> set v. \<exists>u. f = Ui u" by blast
  obtain w s1 where se: "seal (prims_of K) Chat (me_json ?E (CRoomKey g (me_b64e ?E key))) (session_of K) = (w, s1)" by fastforce
  have sent: "channelled K True m" "h = [FCtrl (ke_dc K True) (CEnc (me_b64e ?E w))]"
    using m assms(3,4) se
    by (auto simp: fx quiet_effects mesh_call_def perform_key_action_def send_room_key_def send_sealed_def pc_seal_def
        channelled_def same_codec(1) [OF assms(1)] split: prod.splits)
  have "agreed K True e"
    by (rule agreed_same [OF assms(2)]) (simp_all add: e'(1) e1 c(3))
  with sent c(2,4,5) show ?thesis
    by (auto simp: nd' e'(1) e1 room_to_learn_def key_frame_def Let_def se intro!: exI [of _ g] exI [of _ key])
qed

lemma secured_follower:
  assumes "agreed K False (nd_engine nd)" and "channelled K False (nd_mesh nd)" and "follows (en_keys (nd_engine nd))"
    and "nd_events nd = MESecure (ke_id K True) fp # evs" and "node_report (ke_env K False) ob nd = (nd', cs)"
  shows "agreed K False (nd_engine nd') \<and> channelled K False (nd_mesh nd') \<and> nd_events nd' = evs
    \<and> room_to_learn (nd_engine nd') = room_to_learn (nd_engine nd) \<and> en_keys (nd_engine nd') = en_keys (nd_engine nd)
    \<and> ms_crypto (nd_mesh nd') = ms_crypto (nd_mesh nd) \<and> nd_log nd' = nd_log nd"
proof -
  let ?e0 = "(nd_engine nd)\<lparr>en_chan := ms_chan (nd_mesh nd)\<rparr>" and ?peer = "ke_id K True" and ?E = "ke_env K False"
  from node_mesh [OF _ assms(4,5)] assms(1) obtain ob' e fx m h where e: "on_mesh ob' (MESecure ?peer fp) ?e0 = (e, fx)"
    and m: "mesh_calls ?E fx ((nd_mesh nd)\<lparr>ms_chan := en_chan e\<rparr>) = (m, h)"
    and nd': "nd' = took (m, h) (nd\<lparr>nd_events := evs, nd_engine := e\<rparr>)" by (auto simp: agreed_def)
  define e1 where "e1 = with_member ?peer (\<lambda>m. m\<lparr>m_secure := True, m_fingerprint := if fp = [] then None else Some fp\<rparr>) ?e0"
  have e1: "en_keys e1 = en_keys (nd_engine nd)" "en_running e1 = en_running (nd_engine nd)" "en_me_id e1 = en_me_id (nd_engine nd)"
    "en_known e1 = en_known (nd_engine nd)" "fst ` set (en_members e1) = fst ` set (en_members (nd_engine nd))"
    by (simp_all add: e1_def)
  have "is_authority_peer ?peer (kc_me (en_keys e1)) (en_members e1)" "?peer \<in> fst ` set (en_members e1)"
    using assms(1) authority_keys(2) [OF e1(5)] e1(5) by (simp_all add: agreed_def e1(1))
  from on_secure_follows [OF this] assms(3)
  have "on_secure (ob_draw ob') ?peer (en_members e1) (en_keys e1) = ([], en_keys e1)" by (simp add: e1(1))
  then have e': "e = e1" "\<forall>f \<in> set fx. \<exists>u. f = Ui u"
    using e by (auto simp: on_peer_secure_def Let_def e1_def [symmetric] roster_of_def emit_roster_def split: if_splits)
  have "agreed K False e" by (rule agreed_same [OF assms(1)]) (simp_all add: e'(1) e1)
  with m assms(2) show ?thesis by (auto simp: nd' e'(1) e1 room_to_learn_def quiet_effects [OF e'(2)] channelled_def)
qed

lemma key_adopted:
  assumes "agreed K False (nd_engine nd)" and "channelled K False (nd_mesh nd)" and "follows (en_keys (nd_engine nd))"
    and "nd_events nd = MERoomKey (ke_id K True) g key # evs" and "g \<le> ROOM_GEN_BOUND"
    and "node_report (ke_env K False) ob nd = (nd', cs)"
  shows "agreed K False (nd_engine nd') \<and> channelled K False (nd_mesh nd') \<and> nd_events nd' = evs
    \<and> room_to_learn (nd_engine nd') = room_to_learn (nd_engine nd) \<and> holds_key g key (en_keys (nd_engine nd'))
    \<and> ms_crypto (nd_mesh nd') = ms_crypto (nd_mesh nd) \<and> nd_log nd' = nd_log nd"
proof -
  let ?e0 = "(nd_engine nd)\<lparr>en_chan := ms_chan (nd_mesh nd)\<rparr>" and ?peer = "ke_id K True" and ?E = "ke_env K False"
  from node_mesh [OF _ assms(4,6)] assms(1) obtain ob' e fx m h where e: "on_mesh ob' (MERoomKey ?peer g key) ?e0 = (e, fx)"
    and m: "mesh_calls ?E fx ((nd_mesh nd)\<lparr>ms_chan := en_chan e\<rparr>) = (m, h)"
    and nd': "nd' = took (m, h) (nd\<lparr>nd_events := evs, nd_engine := e\<rparr>)" by (auto simp: agreed_def)
  have "is_authority_peer ?peer (kc_me (en_keys ?e0)) (en_members ?e0)" using assms(1) by (simp add: agreed_def)
  from on_room_key_follows [OF this, of g key] assms(3,5) obtain c where
    c: "on_room_key ?peer g key (en_members ?e0) (en_keys ?e0) = (True, c)" "holds_key g key c" "kc_me c = kc_me (en_keys ?e0)" by auto
  then have e': "e = ?e0\<lparr>en_keys := c\<rparr>" "\<forall>f \<in> set fx. \<exists>u. f = Ui u" using e by auto
  have "agreed K False e" by (rule agreed_same [OF assms(1)]) (simp_all add: e'(1) c(3))
  with m c(2) assms(2) show ?thesis by (auto simp: nd' e'(1) room_to_learn_def quiet_effects [OF e'(2)] channelled_def)
qed

end
