(* ===== verification/Handover_Props.thy ===== *)
theory Handover_Props
  imports Handover
begin

text \<open>
  The conversation over a DataChannel that has just opened, in every order in which frames are taken
  and reports handled: a phase relation follows the handshake and the key, and a weight falls with
  every step.
\<close>

section \<open>The course of the conversation\<close>

text \<open>Where the handshake and the key stand.  The follower may handle its own report of the session at
  any time before the key reaches its engine.\<close>

definition told :: "talk_env \<Rightarrow> mesh_event list \<Rightarrow> bool" where
  "told K evs \<longleftrightarrow> evs = [] \<or> (\<exists>fp. evs = [MESecure (ke_id K True) fp])"

inductive handing :: "talk_env \<Rightarrow> talk_state \<Rightarrow> bool" for K w where
  hello_sent: "spoken K w False = [hello_frame K] \<Longrightarrow> spoken K w True = [] \<Longrightarrow> pending w True = [] \<Longrightarrow> pending w False = [] \<Longrightarrow>
    map_of (pc_pending (store w True)) (ke_id K False) = Some (fst (hello_of K)) \<Longrightarrow>
    leads (keys w True) \<Longrightarrow> follows (keys w False) \<Longrightarrow> handing K w"
| replied: "spoken K w False = [] \<Longrightarrow> spoken K w True = [reply_frame K] \<Longrightarrow> pending w True = [] \<Longrightarrow> told K (pending w False) \<Longrightarrow>
    map_of (pc_pending (store w True)) (ke_id K False) = Some (fst (hello_of K)) \<Longrightarrow>
    map_of (pc_sessions (store w False)) (ke_id K True) = Some (snd (reply_of K)) \<Longrightarrow>
    leads (keys w True) \<Longrightarrow> follows (keys w False) \<Longrightarrow> handing K w"
| secured: "spoken K w False = [] \<Longrightarrow> spoken K w True = [] \<Longrightarrow> pending w True = [MESecure (ke_id K False) fp] \<Longrightarrow>
    told K (pending w False) \<Longrightarrow> map_of (pc_sessions (store w True)) (ke_id K False) = Some (session_of K) \<Longrightarrow>
    map_of (pc_sessions (store w False)) (ke_id K True) = Some (snd (reply_of K)) \<Longrightarrow>
    leads (keys w True) \<Longrightarrow> follows (keys w False) \<Longrightarrow> handing K w"
| key_sent: "spoken K w False = [key_frame K g key] \<Longrightarrow> spoken K w True = [] \<Longrightarrow> pending w True = [] \<Longrightarrow>
    told K (pending w False) \<Longrightarrow> map_of (pc_sessions (store w False)) (ke_id K True) = Some (snd (reply_of K)) \<Longrightarrow>
    g \<le> ROOM_GEN_BOUND \<Longrightarrow> length key = 32 \<Longrightarrow> holds_key g key (keys w True) \<Longrightarrow> follows (keys w False) \<Longrightarrow> handing K w"
| key_come: "spoken K w False = [] \<Longrightarrow> spoken K w True = [] \<Longrightarrow> pending w True = [] \<Longrightarrow>
    pending w False = evs @ [MERoomKey (ke_id K True) g key] \<Longrightarrow> told K evs \<Longrightarrow>
    g \<le> ROOM_GEN_BOUND \<Longrightarrow> holds_key g key (keys w True) \<Longrightarrow> follows (keys w False) \<Longrightarrow> handing K w"
| shared: "spoken K w False = [] \<Longrightarrow> spoken K w True = [] \<Longrightarrow> pending w True = [] \<Longrightarrow> pending w False = [] \<Longrightarrow>
    holds_key g key (keys w True) \<Longrightarrow> holds_key g key (keys w False) \<Longrightarrow> handing K w"

lemma handing_same: "handing K w \<Longrightarrow> same_hands K w w' \<Longrightarrow> handing K w'"
  unfolding same_hands_def by (erule handing.cases) (simp_all add: handing.intros)

lemma weights:
  assumes "talk_ok K"
  shows "frame_weight K (hello_frame K) = 8" "frame_weight K (reply_frame K) = 4" "frame_weight K (key_frame K g key) = 2"
    "\<not> chatter K (hello_frame K)" "\<not> chatter K (reply_frame K)" "\<not> chatter K (key_frame K g key)"
  by (simp_all add: frame_weight_def chatter_def hello_frame_def reply_frame_def key_frame_def Let_def parse_json [OF assms]
      hello_ctrl_def reply_ctrl_def)

text \<open>A frame of the handshake or the key is taken.\<close>

lemma key_frame_step:
  assumes "talk_ok K" and "joined K (N, W)" and "handing K (N, W)" and "W b = data # q" and "\<not> chatter K data"
    and "on_dc_message (ke_env K b) (ke_id K (\<not> b)) (ke_dc K b) data (nd_mesh (N b)) = (m, fx)"
    and "w' = (N(b := took (m, fx) (N b)), W(b := q, (\<not> b) := W (\<not> b) @ frames K b fx))"
  shows "joined K w' \<and> handing K w' \<and> talk_weight K w' < talk_weight K (N, W)"
proof -
  have j: "channelled K b (nd_mesh (N b))" using assms(2) by (simp add: joined_def)
  note wt = weights [OF assms(1)]
  have kept: "joined K w'" if "channelled K b m"
    using assms(2) that unfolding joined_def both_sides [of _ b] assms(7) by auto
  have lighter: "talk_weight K w' < talk_weight K (N, W)"
    if "sum_list (map event_weight (reports fx)) + sum_list (map (frame_weight K) (frames K b fx)) < frame_weight K data"
    using assms(4) that unfolding talk_weight_sides [of K _ b] assms(7) by (simp add: side_weight_def)
  from assms(3) show ?thesis
  proof cases
    case hello_sent
    then have b: "\<not> b" "data = hello_frame K" "filter (\<lambda>d. \<not> chatter K d) q = []" using assms(4,5) by (cases b; force)+
    with hello_taken [OF assms(1), of "nd_mesh (N False)" m fx] j assms(6) obtain fp where
      t: "channelled K False m" "map_of (pc_sessions (ms_crypto m)) (ke_id K True) = Some (snd (reply_of K))"
        "frames K False fx = [reply_frame K]" "reports fx = [MESecure (ke_id K True) fp]" by auto
    have "handing K w'" by (rule handing.replied) (use hello_sent b t wt in \<open>auto simp: assms(7) told_def\<close>)
    then show ?thesis using kept lighter b t wt by simp
  next
    case replied
    then have b: "b" "data = reply_frame K" "filter (\<lambda>d. \<not> chatter K d) q = []" using assms(4,5) by (cases b; force)+
    with reply_taken [OF assms(1), of "nd_mesh (N True)" m fx] j assms(6) replied obtain fp where
      t: "channelled K True m" "map_of (pc_sessions (ms_crypto m)) (ke_id K False) = Some (session_of K)"
        "frames K True fx = []" "reports fx = [MESecure (ke_id K False) fp]" by auto
    have "handing K w'" by (rule handing.secured [of _ _ fp]) (use replied b t wt in \<open>auto simp: assms(7)\<close>)
    then show ?thesis using kept lighter b t wt by simp
  next
    case (key_sent g key)
    then have b: "\<not> b" "data = key_frame K g key" "filter (\<lambda>d. \<not> chatter K d) q = []" using assms(4,5) by (cases b; force)+
    with key_taken [OF assms(1), of "nd_mesh (N False)" key g m fx] j assms(6) key_sent have
      t: "channelled K False m" "frames K False fx = []" "reports fx = [MERoomKey (ke_id K True) g key]" by auto
    have "handing K w'"
      by (rule handing.key_come [of _ _ "pending (N, W) False" g key]) (use key_sent b t wt in \<open>auto simp: assms(7)\<close>)
    then show ?thesis using kept lighter b t wt by simp
  qed (use assms(4,5) in \<open>cases b; force\<close>)+
qed

text \<open>The follower handles its report of the session: nothing but the report itself goes.\<close>

lemma follower_report:
  assumes "joined K (N, W)" and "nd_events (N False) = MESecure (ke_id K True) fp # evs" and "follows (keys (N, W) False)"
    and "node_report (ke_env K False) ob (N False) = (nd, cs)"
    and "w' = (N(False := nd), W(True := W True @ frames K False (drop (length (nd_log (N False))) (nd_log nd))))"
  shows "joined K w' \<and> talk_weight K w' < talk_weight K (N, W) \<and> pending w' False = filter (\<lambda>e. \<not> idle e) evs
    \<and> pending w' True = pending (N, W) True
    \<and> (\<forall>d. keys w' d = keys (N, W) d \<and> store w' d = store (N, W) d \<and> spoken K w' d = spoken K (N, W) d)"
proof -
  have j: "agreed K False (nd_engine (N False))" "channelled K False (nd_mesh (N False))" using assms(1) by (simp_all add: joined_def)
  have s: "agreed K False (nd_engine nd) \<and> channelled K False (nd_mesh nd) \<and> nd_events nd = evs
      \<and> room_to_learn (nd_engine nd) = room_to_learn (nd_engine (N False)) \<and> en_keys (nd_engine nd) = en_keys (nd_engine (N False))
      \<and> ms_crypto (nd_mesh nd) = ms_crypto (nd_mesh (N False)) \<and> nd_log nd = nd_log (N False)"
    using secured_follower [OF j _ assms(2,4)] assms(3) by simp
  then have "joined K w'" using assms(1) by (simp add: joined_def assms(5) all_bool_eq)
  with s assms(2) show ?thesis by (simp add: talk_weight_def side_weight_def assms(5) all_bool_eq)
qed

text \<open>The leader handles its report of the session: the key goes out.\<close>

lemma leader_report:
  assumes "talk_ok K" and "joined K (N, W)" and "nd_events (N True) = MESecure (ke_id K False) fp # evs"
    and "leads (keys (N, W) True)" and "map_of (pc_sessions (store (N, W) True)) (ke_id K False) = Some (session_of K)"
    and "length (ob_draw ob) = 32" and "node_report (ke_env K True) ob (N True) = (nd, cs)"
    and "w' = (N(True := nd), W(False := W False @ frames K True (drop (length (nd_log (N True))) (nd_log nd))))"
  shows "joined K w' \<and> talk_weight K w' < talk_weight K (N, W) \<and> pending w' True = filter (\<lambda>e. \<not> idle e) evs
    \<and> pending w' False = pending (N, W) False \<and> keys w' False = keys (N, W) False \<and> store w' False = store (N, W) False
    \<and> spoken K w' True = spoken K (N, W) True
    \<and> (\<exists>g key. holds_key g key (keys w' True) \<and> g \<le> ROOM_GEN_BOUND \<and> length key = 32
         \<and> spoken K w' False = spoken K (N, W) False @ [key_frame K g key])"
proof -
  have j: "agreed K True (nd_engine (N True))" "channelled K True (nd_mesh (N True))" using assms(2) by (simp_all add: joined_def)
  obtain g key where s: "agreed K True (nd_engine nd)" "channelled K True (nd_mesh nd)" "nd_events nd = evs"
      "room_to_learn (nd_engine nd) = room_to_learn (nd_engine (N True))" "holds_key g key (en_keys (nd_engine nd))"
      "g \<le> ROOM_GEN_BOUND" "length key = 32"
      "frames K True (drop (length (nd_log (N True))) (nd_log nd)) = [key_frame K g key]"
    using secured_leader [OF assms(1) j _ _ assms(3,6,7)] assms(4,5) by auto
  then have "joined K w'" using assms(2) by (simp add: joined_def assms(8) all_bool_eq)
  with s assms(3) weights [OF assms(1)] show ?thesis
    by (auto simp: talk_weight_def side_weight_def assms(8) intro!: exI [of _ g] exI [of _ key])
qed

text \<open>The key reaches the follower's engine.\<close>

lemma follower_adopts:
  assumes "joined K (N, W)" and "nd_events (N False) = MERoomKey (ke_id K True) g key # evs" and "follows (keys (N, W) False)"
    and "g \<le> ROOM_GEN_BOUND" and "node_report (ke_env K False) ob (N False) = (nd, cs)"
    and "w' = (N(False := nd), W(True := W True @ frames K False (drop (length (nd_log (N False))) (nd_log nd))))"
  shows "joined K w' \<and> talk_weight K w' < talk_weight K (N, W) \<and> pending w' False = filter (\<lambda>e. \<not> idle e) evs
    \<and> pending w' True = pending (N, W) True \<and> holds_key g key (keys w' False) \<and> keys w' True = keys (N, W) True
    \<and> (\<forall>d. spoken K w' d = spoken K (N, W) d)"
proof -
  have j: "agreed K False (nd_engine (N False))" "channelled K False (nd_mesh (N False))" using assms(1) by (simp_all add: joined_def)
  have s: "agreed K False (nd_engine nd) \<and> channelled K False (nd_mesh nd) \<and> nd_events nd = evs
      \<and> room_to_learn (nd_engine nd) = room_to_learn (nd_engine (N False)) \<and> holds_key g key (en_keys (nd_engine nd))
      \<and> ms_crypto (nd_mesh nd) = ms_crypto (nd_mesh (N False)) \<and> nd_log nd = nd_log (N False)"
    using key_adopted [OF j _ assms(2,4,5)] assms(3) by simp
  then have "joined K w'" using assms(1) by (simp add: joined_def assms(6) all_bool_eq)
  with s assms(2) show ?thesis by (simp add: talk_weight_def side_weight_def assms(6) all_bool_eq)
qed

text \<open>A report of the session or of the key is handled.\<close>

lemma secure_report_step:
  assumes "talk_ok K" and "joined K (N, W)" and "handing K (N, W)" and ev: "nd_events (N False) = MESecure (ke_id K True) fp # evs"
    and steps: "node_report (ke_env K False) ob (N False) = (nd, cs)"
      "w' = (N(False := nd), W(True := W True @ frames K False (drop (length (nd_log (N False))) (nd_log nd))))"
  shows "joined K w' \<and> handing K w' \<and> talk_weight K w' < talk_weight K (N, W)"
proof -
  have told: "told K (MESecure (ke_id K True) fp # xs) \<longleftrightarrow> xs = []" for xs by (auto simp: told_def)
  have empty: "told K []" by (simp add: told_def)
  from assms(3) show ?thesis
  proof cases
    case replied
    from follower_report [OF assms(2) ev replied(8) steps] replied ev told empty show ?thesis by (auto intro!: handing.replied)
  next
    case (secured fp')
    from follower_report [OF assms(2) ev secured(8) steps] secured ev told empty show ?thesis
      by (auto intro!: handing.secured [of _ _ fp'])
  next
    case (key_sent g key)
    from follower_report [OF assms(2) ev key_sent(9) steps] key_sent ev told empty show ?thesis
      by (auto intro!: handing.key_sent [of _ _ g key])
  next
    case (key_come pre g key)
    then have "filter (\<lambda>e. \<not> idle e) evs = [MERoomKey (ke_id K True) g key]" using ev by (auto simp: told_def Cons_eq_append_conv)
    with follower_report [OF assms(2) ev key_come(8) steps] key_come empty show ?thesis
      by (auto intro!: handing.key_come [of _ _ "[]" g key])
  qed (use ev in simp_all)
qed

lemma key_report_step:
  assumes "talk_ok K" and "joined K (N, W)" and "handing K (N, W)" and "nd_events (N b) = ev # evs" and "\<not> idle ev"
    and "length (ob_draw ob) = 32" and "node_report (ke_env K b) ob (N b) = (nd, cs)"
    and "w' = (N(b := nd), W((\<not> b) := W (\<not> b) @ frames K b (drop (length (nd_log (N b))) (nd_log nd))))"
  shows "joined K w' \<and> handing K w' \<and> talk_weight K w' < talk_weight K (N, W)"
proof (cases b)
  case True
  then have steps: "nd_events (N True) = ev # evs" "node_report (ke_env K True) ob (N True) = (nd, cs)"
    "w' = (N(True := nd), W(False := W False @ frames K True (drop (length (nd_log (N True))) (nd_log nd))))"
    using assms(4,7,8) by simp_all
  from assms(3) show ?thesis
  proof cases
    case (secured fp)
    with steps(1) assms(5) have ev: "nd_events (N True) = MESecure (ke_id K False) fp # evs" "filter (\<lambda>e. \<not> idle e) evs = []" by auto
    from leader_report [OF assms(1,2) ev(1) secured(7,5) assms(6) steps(2,3)] secured ev(2) show ?thesis
      by (auto intro: handing.key_sent)
  qed (use steps(1) assms(5) in simp_all)
next
  case False
  then have steps: "nd_events (N False) = ev # evs" "node_report (ke_env K False) ob (N False) = (nd, cs)"
    "w' = (N(False := nd), W(True := W True @ frames K False (drop (length (nd_log (N False))) (nd_log nd))))"
    using assms(4,7,8) by simp_all
  show ?thesis
  proof (cases "\<exists>fp. ev = MESecure (ke_id K True) fp")
    case True
    with secure_report_step [OF assms(1-3) _ steps(2,3)] steps(1) show ?thesis by blast
  next
    case False
    from assms(3) show ?thesis
    proof cases
      case (key_come pre g key)
      then have ev: "nd_events (N False) = MERoomKey (ke_id K True) g key # evs" "filter (\<lambda>e. \<not> idle e) evs = []"
        using steps(1) assms(5) False by (auto simp: told_def)
      from follower_adopts [OF assms(2) ev(1) key_come(8,6) steps(2,3)] key_come ev(2) show ?thesis
        by (auto intro!: handing.shared [of _ _ g key])
    qed (use steps(1) assms(5) False in \<open>auto simp: told_def\<close>)
  qed
qed

section \<open>They hear each other\<close>

lemma talk_kept:
  assumes "talk_ok K" and "joined K w" and "handing K w" and "talk K w w'"
  shows "joined K w' \<and> handing K w' \<and> talk_weight K w' < talk_weight K w"
  using assms(4)
proof cases
  case (frame W b data q N m fx)
  show ?thesis
  proof (cases "chatter K data")
    case True
    with idle_frame [OF assms(1) _ frame(3) True frame(4) frame(2)] handing_same [OF assms(3)] assms(2) frame(1) show ?thesis by blast
  next
    case False
    with key_frame_step [OF assms(1) _ _ frame(3) False frame(4) frame(2)] assms(2,3) frame(1) show ?thesis by blast
  qed
next
  case (handle N b ob nd cs W)
  obtain ev evs where ev: "nd_events (N b) = ev # evs" using handle(3) by (cases "nd_events (N b)") auto
  show ?thesis
  proof (cases "idle ev")
    case True
    with idle_report [OF assms(1) _ ev True handle(5) handle(2)] handing_same [OF assms(3)] assms(2) handle(1) show ?thesis by blast
  next
    case False
    with key_report_step [OF assms(1) _ _ ev False handle(4,5,2)] assms(2,3) handle(1) show ?thesis by blast
  qed
qed

definition in_tune :: "talk_env \<Rightarrow> talk_state \<Rightarrow> bool" where
  "in_tune K w \<longleftrightarrow> (\<forall>b draw opus. length draw = 12 \<longrightarrow>
     (\<exists>wire. seal_outbound (prims_of K) draw (ke_id K b) opus (kc_room (keys w b)) = Some (AUDIO_SEALED # wire)
        \<and> open_inbound (prims_of K) (ke_id K b) (AUDIO_SEALED # wire) (kc_room (keys w (\<not> b))) = Some opus))"

lemma same_key_audible:
  assumes "aead_ok p" and "holds_key g key c" and "holds_key g key c'" and "length draw = 12"
  shows "\<exists>wire. seal_outbound p draw i opus (kc_room c) = Some (AUDIO_SEALED # wire)
    \<and> open_inbound p i (AUDIO_SEALED # wire) (kc_room c') = Some opus"
proof -
  obtain k k' where k: "ra_send (kc_room c) = Some k" "rk_gen k = g" "rk_key k = key"
    "ra_cur (kc_room c') = Some k'" "rk_gen k' = g" "rk_key k' = key" using assms(2,3) by (auto simp: holds_key_def)
  have "open_audio p i (seal_audio p draw i opus k) k' = Some opus"
    using assms(1,4) k by (simp add: open_audio_def seal_audio_def aead_ok_def)
  with k show ?thesis by (simp add: seal_outbound_def open_inbound_frame held_def)
qed

lemma tuned_or_talking:
  assumes "talk_ok K" and "handing K w"
  shows "in_tune K w \<or> (\<exists>w'. talk K w w')"
proof -
  obtain N W where w: "w = (N, W)" by (cases w)
  have taken: "\<exists>w'. talk K w w'" if "spoken K w b \<noteq> []" for b
  proof -
    from that obtain data q where "W b = data # q" by (cases "W b") (auto simp: w)
    from talk.frame [of W b, OF this surjective_pairing] show ?thesis unfolding w by blast
  qed
  have heard: "\<exists>w'. talk K w w'" if "pending w b \<noteq> []" for b
  proof -
    have "nd_events (N b) \<noteq> []" using that by (auto simp: w)
    moreover have "length (ob_draw (undefined\<lparr>ob_draw := replicate 32 CHR 0x00\<rparr>)) = 32" by simp
    ultimately show ?thesis using talk.handle [OF _ _ surjective_pairing] unfolding w by blast
  qed
  from assms(2) show ?thesis
  proof cases
    case (shared g key)
    then have "holds_key g key (keys w b)" for b by (cases b) simp_all
    with same_key_audible assms(1) show ?thesis unfolding in_tune_def talk_ok_def by blast
  qed (use taken [of True] taken [of False] heard [of True] heard [of False] in auto)
qed

lemma took_result: "nd_mesh (took r nd) = fst r" "nd_engine (took r nd) = nd_engine nd"
    "nd_events (took r nd) = nd_events nd @ reports (snd r)"
  by (cases r; simp)+

lemma opened_handing:
  assumes "talk_ok K" and "\<forall>b. agreed K b (nd_engine (N b)) \<and> channelled K b (nd_mesh (N b))"
    and "\<forall>b. filter (\<lambda>e. \<not> idle e) (nd_events (N b)) = []"
    and "leads (en_keys (nd_engine (N True)))" and "follows (en_keys (nd_engine (N False)))"
  shows "joined K (both_open K N) \<and> handing K (both_open K N)"
proof -
  define r where "r b = on_dc_open (ke_env K b) (ke_id K (\<not> b)) (ke_dc K b) (nd_mesh (N b))" for b
  have lt: "ke_id K True < ke_id K False" "\<not> ke_id K False < ke_id K True" using assms(1) by (auto simp: talk_ok_def)
  have ids: "pc_my_id (ms_crypto (nd_mesh (N b))) = ke_id K b" for b using assms(2) by (simp add: channelled_def)
  obtain i h where ih: "hello_of K = (i, h)" by fastforce
  have starts: "pc_begin (me_prims (ke_env K True)) (me_draw (ke_env K True)) (me_secret (ke_env K True)) (ke_id K False) (ms_crypto (nd_mesh (N True)))
      = (Some h, (ms_crypto (nd_mesh (N True)))\<lparr>pc_pending := AList.update (ke_id K False) i (pc_pending (ms_crypto (nd_mesh (N True)))),
          pc_sessions := AList.delete (ke_id K False) (pc_sessions (ms_crypto (nd_mesh (N True))))\<rparr>)"
    using ih ids [of True] lt(1) unfolding hello_of_def by (simp add: pc_begin_def is_initiator_def same_codec(1) [OF assms(1), of True])
  have t: "channelled K True (fst (r True))" "filter (\<lambda>d. \<not> chatter K d) (frames K True (snd (r True))) = [hello_frame K]"
      "reports (snd (r True)) = []" "map_of (pc_pending (ms_crypto (fst (r True)))) (ke_id K False) = Some (fst (hello_of K))"
    using assms(2) [rule_format, of True] weights(4) [OF assms(1)]
    by (auto simp: r_def on_dc_open_def starts channelled_def hello_frame_def ih chatter_def parse_json [OF assms(1)])
  have f: "channelled K False (fst (r False))" "filter (\<lambda>d. \<not> chatter K d) (frames K False (snd (r False))) = []"
      "reports (snd (r False)) = []"
    using assms(2) [rule_format, of False] ids [of False] lt(2)
    by (auto simp: r_def on_dc_open_def pc_begin_def is_initiator_def channelled_def chatter_def parse_json [OF assms(1)])
  have o: "both_open K N = (\<lambda>b. took (r b) (N b), \<lambda>b. frames K (\<not> b) (snd (r (\<not> b))))"
    by (simp add: both_open_def r_def [symmetric] Let_def)
  have "handing K (both_open K N)" by (rule handing.hello_sent) (use t f assms(3-5) in \<open>simp_all add: o took_result\<close>)
  moreover have "joined K (both_open K N)" using assms(2) t(1) f(1) unfolding joined_def o by (simp add: all_bool_eq took_result)
  ultimately show ?thesis by blast
qed

text \<open>Claim C6. An open channel leads to a shared key: when the channel between two clients opens, of which
  the one with the smaller id is the authority and has no rotation pending and the other has no key
  yet, then whatever the order in which frames arrive and reports are handled, either both seal and
  open each other's audio under one room key, or a frame or report is waiting; and every step brings
  the end nearer, so that after finitely many they hear each other.\<close>

theorem channel_shares_key:
  assumes "talk_ok K" and "\<forall>b. agreed K b (nd_engine (N b)) \<and> channelled K b (nd_mesh (N b))"
    and "\<forall>b. filter (\<lambda>e. \<not> idle e) (nd_events (N b)) = []"
    and "leads (en_keys (nd_engine (N True)))" and "follows (en_keys (nd_engine (N False)))"
    and "talk_run K (both_open K N) w"
  shows "(in_tune K w \<or> (\<exists>w'. talk K w w')) \<and> (\<forall>w'. talk K w w' \<longrightarrow> talk_weight K w' < talk_weight K w)"
proof -
  from assms(6) have "joined K w \<and> handing K w"
    by induction (use opened_handing [OF assms(1-5)] talk_kept [OF assms(1)] in blast)+
  with tuned_or_talking [OF assms(1)] talk_kept [OF assms(1)] show ?thesis by blast
qed

section \<open>A concrete conversation\<close>

definition demo_talk :: talk_env where
  "demo_talk = \<lparr>ke_id = (\<lambda>b. if b then ''al'' else ''bob''), ke_dc = (\<lambda>b. 3),
     ke_env = (\<lambda>b. demo_env\<lparr>me_secret := replicate 32 CHR ''x''\<rparr>)\<rparr>"

definition demo_talker :: "bool \<Rightarrow> node" where
  "demo_talker b =
     (let me = ke_id demo_talk b; peer = ke_id demo_talk (\<not> b)
      in \<lparr>nd_engine = (fst (engine_start me me False Leave 0))\<lparr>en_members := [(peer, member_new 0 peer DEFAULT_CHANNEL False)]\<rparr>,
          nd_mesh = (mesh_new me (pc_new me) cs_new)\<lparr>ms_peers := [(peer, demo_conn)]\<rparr>,
          nd_uplink = [], nd_events = [], nd_log = []\<rparr>)"

lemma length_enc_field: "length (enc_field s) = 2 * length s + 1"
  by (induction s) (simp_all add: enc_field_def)

lemma demo_talk_ok: "talk_ok demo_talk"
proof -
  have session: "length (s_send (session_of demo_talk)) = 32" "length (s_send_prefix (session_of demo_talk)) = 4" by code_simp+
  have "length (key_frame demo_talk g key) \<le> MAX_CTRL_BYTES" if "length key = 32" for g key
    using that session
    by (simp add: key_frame_def demo_talk_def Let_def) (simp add: demo_env_def length_enc_field seal_def Let_def nonce_def prims_of_def
      demo_prims_def MAX_CTRL_BYTES_def split: prod.split)
  moreover have "length (hello_frame demo_talk) \<le> MAX_CTRL_BYTES" "length (reply_frame demo_talk) \<le> MAX_CTRL_BYTES"
    "ke_id demo_talk True < ke_id demo_talk False" by code_simp+
  moreover have "me_prims demo_env = demo_prims" by (simp add: demo_env_def)
  moreover have "codec_ok (ke_env demo_talk True)" using demo_env_codec by (simp add: codec_ok_def demo_talk_def)
  ultimately show ?thesis
    using demo_prims_ok unfolding talk_ok_def prims_of_def by (simp add: demo_talk_def) (simp add: demo_prims_def)
qed

theorem channel_shares_key_witness: "\<exists>w'. talk demo_talk (both_open demo_talk demo_talker) w'"
proof -
  have lt: "''al'' < ''bob''" by code_simp
  have a: "\<forall>b. agreed demo_talk b (nd_engine (demo_talker b)) \<and> channelled demo_talk b (nd_mesh (demo_talker b))"
    using lt by (auto simp: all_bool_eq agreed_def channelled_def demo_talker_def demo_talk_def engine_start_def mesh_new_def
        pc_new_def demo_conn_def kc_new_def am_authority_def is_authority_peer_def Let_def)
  have k: "leads (en_keys (nd_engine (demo_talker True)))" "follows (en_keys (nd_engine (demo_talker False)))"
    using kc_ok_new by (auto simp: leads_def follows_def demo_talker_def engine_start_def kc_new_def ra_new_def Let_def)
  have "kc_room (keys (both_open demo_talk demo_talker) True) = ra_new"
    by (simp add: both_open_def Let_def took_result demo_talker_def engine_start_def kc_new_def)
  then have "\<not> in_tune demo_talk (both_open demo_talk demo_talker)"
    unfolding in_tune_def by (auto simp: seal_outbound_def ra_new_def AUDIO_RAW_def AUDIO_SEALED_def
        intro!: exI [of _ True] exI [of _ "replicate 12 CHR 0x00"])
  moreover have "\<forall>b. filter (\<lambda>e. \<not> idle e) (nd_events (demo_talker b)) = []" by (simp add: demo_talker_def Let_def)
  ultimately show ?thesis using channel_shares_key [OF demo_talk_ok a _ k talk_run.begun] by blast
qed

end
