(* ===== verification/Voice.thy ===== *)
theory Voice
  imports Mesh_Props Audio_Props "HOL-Library.Multiset"
begin

text \<open>
  One voice on its way: the speaker's encoder, the writer that seals each frame (\<open>lib.rs\<close>, the task
  over \<open>opus_rx\<close>), the network, the listener's track reader (\<open>mesh.rs\<close>, \<open>read_track\<close>) and decoder, with
  the queues between them.  The tasks run in any order; meanwhile either side may receive keys, the
  listener may change channels, and the network loses and reorders packets.
\<close>

section \<open>The tasks and their queues\<close>

text \<open>The writer: one frame sealed, or dropped while no key is sending yet.\<close>

definition write_frame :: "prims \<Rightarrow> bytes \<Rightarrow> str \<Rightarrow> bytes \<Rightarrow> room_audio \<Rightarrow> bytes list" where
  "write_frame p draw me opus room = (case seal_outbound p draw me opus room of Some payload \<Rightarrow> [payload] | None \<Rightarrow> [])"

definition decode_inputs :: "mesh_fx list \<Rightarrow> (str \<times> bytes) list" where
  "decode_inputs fx = List.map_filter (\<lambda>f. case f of FDecode peer opus \<Rightarrow> Some (peer, opus) | _ \<Rightarrow> None) fx"

record ('d, 'e, 'x) voice_env =
  ve_fpu :: fpu
  ve_codec :: "('d, 'e) codec"
  ve_mesh :: mesh_env
  ve_lower :: "str \<Rightarrow> str"
  ve_decoder :: "'x \<Rightarrow> bytes \<Rightarrow> 'x \<times> i16 list option"
  ve_fresh :: 'x
  ve_speaker :: str

text \<open>\<open>vo_said\<close> is everything the encoder put out, \<open>vo_heard\<close> everything the decoder took.\<close>

record ('d, 'e, 'x) voice =
  vo_encoder :: "('d, 'e) enc_state \<times> mix_map"
  vo_opus :: "bytes list"
  vo_send_keys :: room_audio
  vo_net :: "bytes list"
  vo_chan :: chan_state
  vo_recv_keys :: room_audio
  vo_queue :: "(str \<times> bytes) list"
  vo_decoder :: "'x dec_state \<times> mix_map"
  vo_said :: "bytes list"
  vo_heard :: "(str \<times> bytes) list"

inductive voice_step :: "('d, 'e, 'x) voice_env \<Rightarrow> ('d, 'e, 'x) voice \<Rightarrow> ('d, 'e, 'x) voice \<Rightarrow> bool" for E where
  Speak: "encode_round (ve_fpu E) (ve_codec E) fe rate chunk (vo_encoder v) = Some (sm, pkts) \<Longrightarrow>
    voice_step E v (v\<lparr>vo_encoder := sm, vo_opus := vo_opus v @ pkts, vo_said := vo_said v @ pkts\<rparr>)"
| Write: "vo_opus v = b # bs \<Longrightarrow> length draw = 12 \<Longrightarrow>
    voice_step E v (v\<lparr>vo_opus := bs, vo_net := vo_net v @ write_frame (me_prims (ve_mesh E)) draw (ve_speaker E) b (vo_send_keys v)\<rparr>)"
| Lose: "vo_net v = ws @ w # ws' \<Longrightarrow> voice_step E v (v\<lparr>vo_net := ws @ ws'\<rparr>)"
| Read: "vo_net v = ws @ w # ws' \<Longrightarrow>
    voice_step E v (v\<lparr>vo_net := ws @ ws', vo_queue := vo_queue v
      @ decode_inputs (read_packet (ve_mesh E) (ve_lower E) (ve_speaker E) w (vo_chan v) (vo_recv_keys v))\<rparr>)"
| Decode: "vo_queue v = (i, b) # q \<Longrightarrow>
    voice_step E v (v\<lparr>vo_queue := q, vo_heard := vo_heard v @ [(i, b)],
      vo_decoder := decode_msg (ve_decoder E) (ve_fresh E) DECODER_IDLE now i b (vo_decoder v)\<rparr>)"
| SendKey: "voice_step E v (v\<lparr>vo_send_keys := ra_step q (vo_send_keys v)\<rparr>)"
| RecvKey: "voice_step E v (v\<lparr>vo_recv_keys := ra_step q (vo_recv_keys v)\<rparr>)"
| Tune: "voice_step E v (v\<lparr>vo_chan := cs\<rparr>)"

definition voice_start :: "('d, 'e, 'x) voice \<Rightarrow> bool" where
  "voice_start v \<longleftrightarrow> vo_net v = [] \<and> vo_queue v = [] \<and> vo_heard v = [] \<and> vo_said v = vo_opus v
     \<and> vo_send_keys v = ra_new \<and> vo_recv_keys v = ra_new"

section \<open>Sealed frames\<close>

text \<open>The cipher's tag: a sealed message opens to itself under its key, and to nothing else under any.\<close>

definition aead_auth :: "prims \<Rightarrow> bool" where
  "aead_auth p \<longleftrightarrow> aead_ok p
     \<and> (\<forall>k k' n a m m'. p_decrypt p k' n a (p_encrypt p k n a m) = Some m' \<longrightarrow> m' = m)"

lemma aead_auth_opens: "aead_auth p \<Longrightarrow> p_decrypt p k n a (p_encrypt p k n a m) = Some m"
  unfolding aead_auth_def aead_ok_def by blast

lemma aead_auth_only: "aead_auth p \<Longrightarrow> p_decrypt p k' n a (p_encrypt p k n a m) = Some m' \<Longrightarrow> m' = m"
  unfolding aead_auth_def by blast

text \<open>A packet of the speaker that carries \<open>opus\<close>: raw, or sealed under some key.\<close>

definition carries :: "prims \<Rightarrow> str \<Rightarrow> bytes \<Rightarrow> bytes \<Rightarrow> bool" where
  "carries p me w opus \<longleftrightarrow> w = AUDIO_RAW # opus
     \<or> (\<exists>k draw. length draw = 12 \<and> w = AUDIO_SEALED # be32 (rk_gen k) @ seal_audio p draw me opus k)"

lemma write_carries: "length draw = 12 \<Longrightarrow> w \<in> set (write_frame p draw me opus r) \<Longrightarrow> carries p me w opus"
  by (auto simp: write_frame_def seal_outbound_def carries_def split: option.splits)

lemma find_map_result: "find_map f xs = Some y \<Longrightarrow> \<exists>x \<in> set xs. f x = Some y"
  by (induction xs) (auto split: option.splits)

lemma open_sealed:
  "aead_auth p \<Longrightarrow> length draw = 12 \<Longrightarrow> open_audio p me (seal_audio p draw me opus k) k' = Some out \<Longrightarrow> out = opus"
  by (simp add: open_audio_def seal_audio_def aead_auth_only)

lemma open_carried:
  assumes "aead_auth p" and "carries p me w opus" and "open_inbound p me w r = Some out"
  shows "out = opus"
  using assms(2) unfolding carries_def
proof (elim disjE exE conjE)
  assume "w = AUDIO_RAW # opus"
  with assms(3) show ?thesis by (auto simp: open_inbound_def split: option.splits)
next
  fix k draw assume d: "length draw = 12" and w: "w = AUDIO_SEALED # be32 (rk_gen k) @ seal_audio p draw me opus k"
  from assms(3) find_map_result obtain k' where "open_audio p me (seal_audio p draw me opus k) k' = Some out"
    unfolding w open_inbound_frame by fastforce
  with open_sealed [OF assms(1) d] show ?thesis .
qed

text \<open>A frame sealed under a held key opens, whatever other keys of its generation are tried before.\<close>

lemma find_map_some: "x \<in> set xs \<Longrightarrow> f x = Some y \<Longrightarrow> \<exists>z. find_map f xs = Some z"
  by (induction xs) (auto split: option.split)

lemma opens_held:
  assumes "aead_auth p" and "ra_send s = Some k" and "k \<in> set (held r)" and "length draw = 12"
  shows "\<exists>w. write_frame p draw me opus s = [w] \<and> w \<noteq> [] \<and> open_inbound p me w r = Some opus"
proof -
  let ?w = "AUDIO_SEALED # be32 (rk_gen k) @ seal_audio p draw me opus k"
  have "open_audio p me (seal_audio p draw me opus k) k = Some opus"
    using assms(1,4) by (simp add: open_audio_def seal_audio_def aead_auth_opens)
  moreover have "k \<in> set (filter (\<lambda>k'. rk_gen k' = rk_gen k) (held r))" using assms(3) by simp
  ultimately obtain out where "open_inbound p me ?w r = Some out"
    unfolding open_inbound_frame by (blast dest: find_map_some)
  moreover from open_carried [OF assms(1) _ this] have "out = opus"
    using assms(4) by (auto simp: carries_def)
  ultimately show ?thesis using assms(2) by (simp add: write_frame_def seal_outbound_def)
qed

lemma decode_inputs_read:
  "decode_inputs (read_packet env lc i w cs r)
   = (if w \<noteq> [] \<and> hears lc i cs then (case open_inbound (me_prims env) i w r of Some opus \<Rightarrow> [(i, opus)] | None \<Rightarrow> []) else [])"
  by (simp add: read_packet_def decode_inputs_def List.map_filter_simps split: option.split)

section \<open>What is heard was said\<close>

text \<open>The frames on their way, the opened ones and those still to be written, are among those said.\<close>

definition voice_ok :: "('d, 'e, 'x) voice_env \<Rightarrow> ('d, 'e, 'x) voice \<Rightarrow> bool" where
  "voice_ok E v \<longleftrightarrow> fst ` set (vo_heard v @ vo_queue v) \<subseteq> {ve_speaker E}
     \<and> (\<exists>bs. list_all2 (carries (me_prims (ve_mesh E)) (ve_speaker E)) (vo_net v) bs
          \<and> mset (map snd (vo_heard v @ vo_queue v)) + mset bs + mset (vo_opus v) \<subseteq># mset (vo_said v))"

lemma voice_ok_start: "voice_start v \<Longrightarrow> voice_ok E v"
  by (auto simp: voice_start_def voice_ok_def)

lemma voice_ok_taken:
  assumes "voice_ok E v" and "vo_net v = ws @ w # ws'"
  shows "\<exists>os opus. list_all2 (carries (me_prims (ve_mesh E)) (ve_speaker E)) (ws @ ws') os
    \<and> mset (map snd (vo_heard v @ vo_queue v)) + add_mset opus (mset os) + mset (vo_opus v) \<subseteq># mset (vo_said v)
    \<and> carries (me_prims (ve_mesh E)) (ve_speaker E) w opus"
proof -
  from assms obtain bs where bs: "list_all2 (carries (me_prims (ve_mesh E)) (ve_speaker E)) (ws @ w # ws') bs"
      "mset (map snd (vo_heard v @ vo_queue v)) + mset bs + mset (vo_opus v) \<subseteq># mset (vo_said v)"
    by (auto simp: voice_ok_def)
  then obtain a opus b where "bs = a @ opus # b" "list_all2 (carries (me_prims (ve_mesh E)) (ve_speaker E)) ws a"
      "list_all2 (carries (me_prims (ve_mesh E)) (ve_speaker E)) ws' b"
      "carries (me_prims (ve_mesh E)) (ve_speaker E) w opus"
    by (auto simp: list_all2_append1 list_all2_Cons1)
  with bs(2) show ?thesis
    by (intro exI [of _ "a @ b"] exI [of _ opus]) (auto simp: list_all2_appendI)
qed

lemma voice_ok_write:
  assumes "voice_ok E v" and "vo_opus v = b # bs" and "length draw = 12"
  shows "voice_ok E (v\<lparr>vo_opus := bs, vo_net := vo_net v @ write_frame (me_prims (ve_mesh E)) draw (ve_speaker E) b (vo_send_keys v)\<rparr>)"
proof -
  let ?ws = "write_frame (me_prims (ve_mesh E)) draw (ve_speaker E) b (vo_send_keys v)"
  from assms(1) obtain os where os: "list_all2 (carries (me_prims (ve_mesh E)) (ve_speaker E)) (vo_net v) os"
      "mset (map snd (vo_heard v @ vo_queue v)) + mset os + mset (vo_opus v) \<subseteq># mset (vo_said v)"
    unfolding voice_ok_def by blast
  have "?ws = [] \<or> (\<exists>w. ?ws = [w] \<and> carries (me_prims (ve_mesh E)) (ve_speaker E) w b)"
    using write_carries [OF assms(3), of _ "me_prims (ve_mesh E)" "ve_speaker E" b "vo_send_keys v"]
    by (auto simp: write_frame_def split: option.splits)
  then obtain sent where "list_all2 (carries (me_prims (ve_mesh E)) (ve_speaker E)) (vo_net v @ ?ws) (os @ sent)"
      "mset sent \<subseteq># {#b#}"
    using os(1) by (elim disjE exE conjE) (force simp: list_all2_appendI intro: that [of "[]"] that [of "[b]"])+
  moreover have "mset (map snd (vo_heard v @ vo_queue v)) + mset (os @ sent) + mset bs \<subseteq># mset (vo_said v)"
    using subset_mset.order_trans [OF _ os(2)] calculation(2) assms(2) by (simp add: ac_simps subset_mset.add_mono)
  ultimately show ?thesis using assms(1) by (auto simp: voice_ok_def)
qed

lemma voice_ok_lose:
  assumes "voice_ok E v" and "vo_net v = ws @ w # ws'"
  shows "voice_ok E (v\<lparr>vo_net := ws @ ws'\<rparr>)"
proof -
  from voice_ok_taken [OF assms] obtain os opus where t:
      "list_all2 (carries (me_prims (ve_mesh E)) (ve_speaker E)) (ws @ ws') os"
      "mset (map snd (vo_heard v @ vo_queue v)) + add_mset opus (mset os) + mset (vo_opus v) \<subseteq># mset (vo_said v)"
    by blast
  have "mset (map snd (vo_heard v @ vo_queue v)) + mset os + mset (vo_opus v) \<subseteq># mset (vo_said v)"
    using t(2) by (auto elim: subset_mset.order_trans [rotated])
  with t(1) assms(1) show ?thesis by (auto simp: voice_ok_def)
qed

lemma voice_ok_read:
  assumes "voice_ok E v" and "vo_net v = ws @ w # ws'" and "aead_auth (me_prims (ve_mesh E))"
  shows "voice_ok E (v\<lparr>vo_net := ws @ ws', vo_queue := vo_queue v
      @ decode_inputs (read_packet (ve_mesh E) (ve_lower E) (ve_speaker E) w (vo_chan v) (vo_recv_keys v))\<rparr>)"
proof -
  from voice_ok_taken [OF assms(1,2)] obtain os opus where t:
      "list_all2 (carries (me_prims (ve_mesh E)) (ve_speaker E)) (ws @ ws') os"
      "mset (map snd (vo_heard v @ vo_queue v)) + add_mset opus (mset os) + mset (vo_opus v) \<subseteq># mset (vo_said v)"
      "carries (me_prims (ve_mesh E)) (ve_speaker E) w opus"
    by blast
  let ?in = "decode_inputs (read_packet (ve_mesh E) (ve_lower E) (ve_speaker E) w (vo_chan v) (vo_recv_keys v))"
  have "?in = [] \<or> ?in = [(ve_speaker E, opus)]"
    using open_carried [OF assms(3) t(3), of "vo_recv_keys v"]
    by (auto simp: decode_inputs_read split: option.split)
  then have "mset (map snd (vo_heard v @ vo_queue v @ ?in)) + mset os + mset (vo_opus v) \<subseteq># mset (vo_said v)
      \<and> fst ` set ?in \<subseteq> {ve_speaker E}"
    using t(2) by (auto simp: ac_simps elim: subset_mset.order_trans [rotated])
  with t(1) assms(1) show ?thesis by (auto simp: voice_ok_def)
qed

lemma voice_ok_step:
  assumes "voice_step E v v'" and "voice_ok E v" and "aead_auth (me_prims (ve_mesh E))"
  shows "voice_ok E v'"
  using assms(1)
proof cases
  case (Speak fe rate chunk sm pkts)
  with assms(2) show ?thesis
    by (auto simp: voice_ok_def union_assoc [symmetric] intro: subset_mset.add_mono)
next
  case (Decode i b q now)
  with assms(2) show ?thesis by (auto simp: voice_ok_def)
qed (use assms(2) in \<open>simp_all add: voice_ok_write voice_ok_lose voice_ok_read [OF _ _ assms(3)], simp_all add: voice_ok_def\<close>)

lemma voice_reach_ok:
  "(voice_step E)\<^sup>*\<^sup>* v v' \<Longrightarrow> voice_ok E v \<Longrightarrow> aead_auth (me_prims (ve_mesh E)) \<Longrightarrow> voice_ok E v'"
  by (induction rule: rtranclp_induct) (auto intro: voice_ok_step)

text \<open>Claim C9. What a listener's decoder takes for a speaker's voice is what that speaker's encoder put out. Start with empty queues and no keys and let encoder, writer, network, reader and decoder run in any order, with frames lost and reordered, keys staged, promoted and installed on both sides and the listener changing channels: everything heard is under the speaker's name, and every frame is heard at most as often as it was said. Whenever the listener is on the speaker's channel and holds the key the speaker seals with, the next frame, whatever it is, goes out as one packet and is handed to the decoder under the speaker's name; off that channel no packet is. (No packet is delivered twice: the transport below, SRTP, drops repeats.)\<close>

theorem voice_authentic:
  fixes E :: "('d, 'e, 'x) voice_env"
  assumes "voice_start v" and "(voice_step E)\<^sup>*\<^sup>* v v'" and "aead_auth (me_prims (ve_mesh E))"
  shows "fst ` set (vo_heard v') \<subseteq> {ve_speaker E} \<and> mset (map snd (vo_heard v')) \<subseteq># mset (vo_said v')
    \<and> (\<forall>k (draw :: bytes) b. ra_send (vo_send_keys v') = Some k \<and> k \<in> set (held (vo_recv_keys v'))
          \<and> hears (ve_lower E) (ve_speaker E) (vo_chan v') \<and> length draw = 12 \<longrightarrow>
        (\<exists>w. write_frame (me_prims (ve_mesh E)) draw (ve_speaker E) b (vo_send_keys v') = [w]
           \<and> decode_inputs (read_packet (ve_mesh E) (ve_lower E) (ve_speaker E) w (vo_chan v') (vo_recv_keys v'))
               = [(ve_speaker E, b)]))
    \<and> (\<forall>w. \<not> hears (ve_lower E) (ve_speaker E) (vo_chan v') \<longrightarrow>
        decode_inputs (read_packet (ve_mesh E) (ve_lower E) (ve_speaker E) w (vo_chan v') (vo_recv_keys v')) = [])"
proof (intro conjI allI impI)
  have ok: "voice_ok E v'" using voice_reach_ok [OF assms(2) voice_ok_start [OF assms(1)] assms(3)] .
  then show "fst ` set (vo_heard v') \<subseteq> {ve_speaker E}" by (auto simp: voice_ok_def)
  from ok show "mset (map snd (vo_heard v')) \<subseteq># mset (vo_said v')"
    by (auto simp: voice_ok_def dest!: subset_mset.dual_order.trans [OF _ mset_subset_eq_add_left])
  fix k and draw b :: bytes
  assume "ra_send (vo_send_keys v') = Some k \<and> k \<in> set (held (vo_recv_keys v'))
    \<and> hears (ve_lower E) (ve_speaker E) (vo_chan v') \<and> length draw = 12"
  then have h: "ra_send (vo_send_keys v') = Some k" "k \<in> set (held (vo_recv_keys v'))" "length draw = 12"
      "hears (ve_lower E) (ve_speaker E) (vo_chan v')" by simp_all
  from opens_held [OF assms(3) h(1-3), of "ve_speaker E" b] obtain w where
      "write_frame (me_prims (ve_mesh E)) draw (ve_speaker E) b (vo_send_keys v') = [w]" "w \<noteq> []"
      "open_inbound (me_prims (ve_mesh E)) (ve_speaker E) w (vo_recv_keys v') = Some b" by blast
  with h(4) show "\<exists>w. write_frame (me_prims (ve_mesh E)) draw (ve_speaker E) b (vo_send_keys v') = [w]
      \<and> decode_inputs (read_packet (ve_mesh E) (ve_lower E) (ve_speaker E) w (vo_chan v') (vo_recv_keys v')) = [(ve_speaker E, b)]"
    by (intro exI [of _ w]) (simp add: decode_inputs_read)
qed (simp add: decode_inputs_read)

section \<open>A concrete voice\<close>

text \<open>A stand-in cipher whose tag is the key, spelled out behind its length.\<close>

definition key_tag :: "bytes \<Rightarrow> bytes" where
  "key_tag k = replicate (length k) CHR ''1'' @ CHR ''0'' # k"

definition tag_prims :: prims where
  "tag_prims = demo_prims\<lparr>p_encrypt := (\<lambda>k n a m. key_tag k @ n @ a @ m),
     p_decrypt := (\<lambda>k n a c. if prefix (key_tag k @ n @ a) c then Some (drop (length (key_tag k @ n @ a)) c) else None)\<rparr>"

lemma key_tag_prefix: "key_tag k' @ r' = key_tag k @ r \<Longrightarrow> k' = k \<and> r' = r"
proof -
  assume e: "key_tag k' @ r' = key_tag k @ r"
  have t: "takeWhile (\<lambda>c. c = CHR ''1'') (key_tag x @ y) = replicate (length x) CHR ''1''" for x y
    unfolding key_tag_def append_assoc by (subst takeWhile_append2) simp_all
  from arg_cong [OF e, of "takeWhile (\<lambda>c. c = CHR ''1'')"] have "length k' = length k" by (simp add: t)
  with e show ?thesis by (simp add: key_tag_def)
qed

lemma tag_prims_auth: "aead_auth tag_prims"
proof -
  have "m' = m" if "p_decrypt tag_prims k' n a (p_encrypt tag_prims k n a m) = Some m'" for k k' n a m m'
  proof -
    from that obtain r where "key_tag k @ n @ a @ m = key_tag k' @ n @ a @ r" and r: "m' = r"
      by (auto simp: tag_prims_def prefix_def split: if_splits)
    from key_tag_prefix [OF this(1)] r show ?thesis by simp
  qed
  moreover have "aead_ok tag_prims" by (simp add: aead_ok_def tag_prims_def)
  ultimately show ?thesis unfolding aead_auth_def by blast
qed

definition demo_ring :: room_audio where
  "demo_ring = install (demo_key 1 ''al'') ra_new"

lemma demo_ring_keys: "ra_send demo_ring = Some (demo_key 1 ''al'')" "demo_key 1 ''al'' \<in> set (held demo_ring)"
    "hears (\<lambda>s. s) ''al'' cs_new"
  by code_simp+

definition demo_voice_env :: "(unit, unit, nat) voice_env" where
  "demo_voice_env = \<lparr>ve_fpu = exact_fpu, ve_codec = demo_codec, ve_mesh = demo_env\<lparr>me_prims := tag_prims\<rparr>,
     ve_lower = (\<lambda>s. s), ve_decoder = (\<lambda>n b. (Suc n, None)), ve_fresh = 0, ve_speaker = ''al''\<rparr>"

definition demo_voice :: "(unit, unit, nat) voice" where
  "demo_voice = \<lparr>vo_encoder = (enc_start exact_fpu 48000 () (), []), vo_opus = [''hello''], vo_send_keys = ra_new,
     vo_net = [], vo_chan = cs_new, vo_recv_keys = ra_new, vo_queue = [], vo_decoder = (dec_start 0, []),
     vo_said = [''hello''], vo_heard = []\<rparr>"

text \<open>Both sides install a key, the frame is sealed, carried, opened and decoded.\<close>

definition demo_keyed :: "(unit, unit, nat) voice" where
  "demo_keyed = demo_voice\<lparr>vo_send_keys := demo_ring, vo_recv_keys := demo_ring\<rparr>"

definition demo_written :: "(unit, unit, nat) voice" where
  "demo_written = demo_keyed\<lparr>vo_opus := [], vo_net := write_frame tag_prims (replicate 12 CHR ''n'') ''al'' ''hello'' demo_ring\<rparr>"

definition demo_heard :: "(unit, unit, nat) voice" where
  "demo_heard = demo_written\<lparr>vo_net := [], vo_queue := [], vo_heard := [(''al'', ''hello'')],
     vo_decoder := decode_msg (ve_decoder demo_voice_env) 0 DECODER_IDLE 5 ''al'' ''hello'' (dec_start 0, [])\<rparr>"

lemma demo_keying: "(voice_step demo_voice_env)\<^sup>*\<^sup>* demo_voice demo_keyed"
proof -
  have "voice_step demo_voice_env demo_voice (demo_voice\<lparr>vo_send_keys := ra_step (Install (demo_key 1 ''al'')) (vo_send_keys demo_voice)\<rparr>)"
    (is "voice_step _ _ ?u") by (rule SendKey)
  moreover have "voice_step demo_voice_env ?u (?u\<lparr>vo_recv_keys := ra_step (Install (demo_key 1 ''al'')) (vo_recv_keys ?u)\<rparr>)"
    by (rule RecvKey)
  moreover have "?u\<lparr>vo_recv_keys := ra_step (Install (demo_key 1 ''al'')) (vo_recv_keys ?u)\<rparr> = demo_keyed"
    by (simp add: demo_keyed_def demo_voice_def demo_ring_def)
  ultimately show ?thesis by (simp add: converse_rtranclp_into_rtranclp)
qed

lemma demo_voice_sel [simp]:
  "vo_opus demo_keyed = [''hello'']" "vo_send_keys demo_keyed = demo_ring" "vo_net demo_keyed = []"
  "vo_chan demo_written = cs_new" "vo_recv_keys demo_written = demo_ring" "vo_queue demo_written = []"
  "vo_heard demo_written = []" "vo_decoder demo_written = (dec_start 0, [])"
  "ve_speaker demo_voice_env = ''al''" "ve_lower demo_voice_env = (\<lambda>s. s)" "me_prims (ve_mesh demo_voice_env) = tag_prims"
  "vo_heard demo_heard = [(''al'', ''hello'')]" "vo_said demo_heard = [''hello'']" "vo_chan demo_heard = cs_new"
  "vo_send_keys demo_heard = demo_ring" "vo_recv_keys demo_heard = demo_ring" "ve_fresh demo_voice_env = 0"
  by (simp_all add: demo_heard_def demo_written_def demo_keyed_def demo_voice_def demo_voice_env_def)

lemma demo_hearing: "(voice_step demo_voice_env)\<^sup>*\<^sup>* demo_keyed demo_heard"
proof -
  let ?d = "replicate 12 CHR ''n''"
  have d: "length ?d = 12" by simp
  have w: "voice_step demo_voice_env demo_keyed demo_written"
    using Write [of demo_keyed "''hello''" "[]" ?d demo_voice_env] by (simp add: demo_written_def)
  from opens_held [OF tag_prims_auth demo_ring_keys(1,2) d, of "''al''" "''hello''"] obtain x where x:
      "write_frame tag_prims ?d ''al'' ''hello'' demo_ring = [x]" "x \<noteq> []" "open_inbound tag_prims ''al'' x demo_ring = Some ''hello''"
    by blast
  let ?r = "demo_written\<lparr>vo_net := [], vo_queue := [(''al'', ''hello'')]\<rparr>"
  have "vo_net demo_written = [] @ x # []" using x(1) by (simp add: demo_written_def)
  from Read [OF this, of demo_voice_env] x have r: "voice_step demo_voice_env demo_written ?r"
    by (simp add: decode_inputs_read demo_ring_keys(3))
  have "vo_queue ?r = (''al'', ''hello'') # []" by simp
  from Decode [OF this, of demo_voice_env 5] have "voice_step demo_voice_env ?r demo_heard"
    by (simp add: demo_heard_def)
  with w r show ?thesis by (simp add: converse_rtranclp_into_rtranclp)
qed

theorem voice_authentic_witness:
  "mset (map snd (vo_heard demo_heard)) = {#''hello''#} \<and> vo_said demo_heard = [''hello'']
    \<and> (\<exists>w. decode_inputs (read_packet (ve_mesh demo_voice_env) (ve_lower demo_voice_env) ''al'' w (vo_chan demo_heard)
          (vo_recv_keys demo_heard)) = [(''al'', ''again'')])"
proof -
  have s: "voice_start demo_voice" by (simp add: voice_start_def demo_voice_def)
  have a: "aead_auth (me_prims (ve_mesh demo_voice_env))" by (simp add: tag_prims_auth)
  have h: "ra_send (vo_send_keys demo_heard) = Some (demo_key 1 ''al'') \<and> demo_key 1 ''al'' \<in> set (held (vo_recv_keys demo_heard))
      \<and> hears (ve_lower demo_voice_env) (ve_speaker demo_voice_env) (vo_chan demo_heard) \<and> length (replicate 12 CHR ''m'') = 12"
    by (simp add: demo_ring_keys)
  note v = voice_authentic [OF s rtranclp_trans [OF demo_keying demo_hearing] a]
  from v [THEN conjunct2, THEN conjunct2, THEN conjunct1, rule_format, OF h, of "''again''"]
  show ?thesis by auto
qed

end
