(* ===== verification/Serverless_Run.thy ===== *)
theory Serverless_Run
  imports Ipc
begin

text \<open>
  Two people without a server (\<open>serverless.rs\<close>): one makes an offer code, sends it over some chat, the
  other accepts it and sends an answer code back, the first accepts that.  The run of the three calls
  with the pastes between them, and the chat over the connection.
\<close>

section \<open>Codes on their way\<close>

text \<open>The \<open>base64\<close> package: decoding inverts encoding, which uses the standard alphabet.\<close>

definition b64_char :: "char \<Rightarrow> bool" where
  "b64_char c \<longleftrightarrow> is_alnum_c c \<or> c \<in> set ''+/=''"

definition b64_ok :: "(bytes \<Rightarrow> str) \<Rightarrow> (str \<Rightarrow> bytes option) \<Rightarrow> bool" where
  "b64_ok enc dec \<longleftrightarrow> (\<forall>b. dec (enc b) = Some b \<and> list_all b64_char (enc b))"

text \<open>A chat that may wrap and indent a code that is pasted through it, but changes nothing else.\<close>

definition only_wraps :: "(str \<Rightarrow> str) \<Rightarrow> bool" where
  "only_wraps paste \<longleftrightarrow> (\<forall>c. list_all b64_char c \<longrightarrow> filter (\<lambda>ch. \<not> is_ws ch) (chars (paste c)) = filter (\<lambda>ch. \<not> is_ws ch) (chars c))"

lemma b64_ascii: "b64_char c \<Longrightarrow> byte c < 128 \<and> \<not> is_ws [c]"
  by (auto simp: b64_char_def is_alnum_c_def is_digit_c_def is_upper_c_def is_lower_c_def is_ws_def)

lemma b64_chars: "list_all b64_char s \<Longrightarrow> chars s = map (\<lambda>c. [c]) s"
proof (induction s)
  case (Cons c s)
  then have "s = [] \<or> \<not> is_cont (hd s)" using b64_ascii by (cases s) (fastforce simp: is_cont_def)+
  then have "takeWhile is_cont s = []" "dropWhile is_cont s = s" by (cases s; simp)+
  with Cons show ?case by simp
qed simp

text \<open>What arrives of a code through such a chat: the same text between blanks, which the form takes.\<close>

lemma pasted:
  assumes "only_wraps paste" and "b64_ok enc dec"
  shows "filter (\<lambda>ch. \<not> is_ws ch) (chars (paste (enc b))) = map (\<lambda>c. [c]) (enc b)"
    and "list_all (\<lambda>ch. (case ch of [c] \<Rightarrow> is_alnum_c c \<or> c \<in> set ''+/='' | _ \<Rightarrow> False) \<or> is_ws ch) (chars (paste (enc b)))"
proof -
  have e: "list_all b64_char (enc b)" using assms(2) by (simp add: b64_ok_def)
  then have "filter (\<lambda>ch. \<not> is_ws ch) (map (\<lambda>c. [c]) (enc b)) = map (\<lambda>c. [c]) (enc b)"
    using b64_ascii by (auto simp: filter_id_conv list_all_iff)
  with assms(1) show f: "filter (\<lambda>ch. \<not> is_ws ch) (chars (paste (enc b))) = map (\<lambda>c. [c]) (enc b)"
    by (simp add: only_wraps_def e b64_chars [OF e])
  have "ch \<in> set (chars (paste (enc b))) \<Longrightarrow> \<not> is_ws ch \<Longrightarrow> \<exists>c. ch = [c] \<and> b64_char c" for ch
  proof -
    assume "ch \<in> set (chars (paste (enc b)))" "\<not> is_ws ch"
    then have "ch \<in> set (map (\<lambda>c. [c]) (enc b))" unfolding f [symmetric] by simp
    with e show ?thesis by (auto simp: list_all_iff)
  qed
  then show "list_all (\<lambda>ch. (case ch of [c] \<Rightarrow> is_alnum_c c \<or> c \<in> set ''+/='' | _ \<Rightarrow> False) \<or> is_ws ch) (chars (paste (enc b)))"
    unfolding list_all_iff b64_char_def by fastforce
qed

lemma decode_pasted:
  assumes "only_wraps paste" and "b64_ok enc (sl_b64dec v)" and "sl_utf8 v sdp"
  shows "decode_code v (paste (enc sdp)) = Inr sdp"
  using assms(2,3) pasted(1) [OF assms(1,2), of sdp] by (simp add: decode_code_def b64_ok_def concat_map_singleton)

section \<open>The run\<close>

text \<open>
  The commands in the order two people give them, \<open>pa\<close> carrying the offer code over and \<open>pb\<close> the
  answer code back.
\<close>

definition serverless_handshake ::
  "fpu \<Rightarrow> sl_env \<Rightarrow> sl_env \<Rightarrow> (str \<Rightarrow> str) \<Rightarrow> (str \<Rightarrow> str) \<Rightarrow> str \<Rightarrow> str \<Rightarrow> shell \<Rightarrow> shell \<Rightarrow> (shell \<times> shell) option" where
  "serverless_handshake m va vb pa pb na nb sha shb =
     (case invoke m (SlOffer va na) sha of
        (Code oc, sha1, _) \<Rightarrow>
          (case invoke m (SlAcceptOffer vb nb (pa oc)) shb of
             (Code ac, shb1, _) \<Rightarrow>
               (case invoke m (SlAcceptAnswer va (pb ac)) sha1 of
                  (Done, sha2, _) \<Rightarrow> Some (sha2, shb1)
                | _ \<Rightarrow> None)
           | _ \<Rightarrow> None)
      | _ \<Rightarrow> None)"

text \<open>
  A machine on which every local step succeeds, whose gathered description is \<open>sdp\<close>, and whose
  WebRTC takes the description \<open>other\<close>; \<open>RTCSessionDescription\<close> keeps the text it parses.
\<close>

definition able :: "sl_env \<Rightarrow> str \<Rightarrow> str \<Rightarrow> bool" where
  "able v sdp other \<longleftrightarrow> sl_devices v None None = Inr () \<and> sl_api v = Inr () \<and> sl_new_pc v = Inr () \<and> sl_add_track v = Inr ()
     \<and> sl_create_dc v = Inr () \<and> sl_create_offer v = Inr () \<and> sl_create_answer v = Inr () \<and> sl_set_local v = Inr ()
     \<and> sl_local_sdp v = Some sdp \<and> sl_utf8 v other
     \<and> sl_parse_offer v other = Inr other \<and> sl_parse_answer v other = Inr other \<and> sl_set_remote v other = Inr ()"

definition fits :: "str \<Rightarrow> bool" where
  "fits code \<longleftrightarrow> code \<noteq> [] \<and> length code \<le> MAX_CODE_LEN"

lemma valid_pasted: "only_wraps paste \<Longrightarrow> b64_ok enc dec \<Longrightarrow> fits (paste (enc b)) \<Longrightarrow> valid_code (paste (enc b))"
  using pasted(2) by (simp add: valid_code_def fits_def)

definition fresh_rig :: "fpu \<Rightarrow> rig" where
  "fresh_rig m = projr (setup_audio m (\<lambda>_ _. Inr ()) None None)"

lemma offered:
  assumes "able v sdp other" and "valid_name (trim na)"
  shows "\<exists>fx. invoke m (SlOffer v na) sh = (Code (sl_b64enc v sdp),
      sh\<lparr>sh_serverless := Some \<lparr>sl_rig = fresh_rig m, sl_chat = Some 0, sl_me = trim na\<rparr>\<rparr>, fx)"
  using assms
  by (simp add: serverless_offer_def create_offer_def rig_defs able_def fresh_rig_def put_serverless_def of_code_def Let_def)

lemma offer_taken:
  assumes "able v sdp other" and "valid_name (trim nb)" and "valid_code code" and "decode_code v code = Inr other"
  shows "\<exists>fx. invoke m (SlAcceptOffer v nb code) sh = (Code (sl_b64enc v sdp),
      sh\<lparr>sh_serverless := Some \<lparr>sl_rig = fresh_rig m, sl_chat = None, sl_me = trim nb\<rparr>\<rparr>, fx)"
proof -
  have "decode_code (v\<lparr>sl_fpu := m\<rparr>) code = Inr other" using assms(4) by (auto simp: decode_code_def split: option.splits if_splits)
  with assms(1-3) show ?thesis
    by (simp add: serverless_accept_offer_def accept_offer_def rig_defs able_def fresh_rig_def put_serverless_def of_code_def Let_def)
qed

lemma answer_taken_over:
  assumes "able v sdp other" and "valid_code code" and "decode_code v code = Inr other" and "sh_serverless sh = Some s"
  shows "invoke m (SlAcceptAnswer v code) sh = (Done, sh, [])"
  using assms by (simp add: serverless_accept_answer_def accept_answer_def able_def of_unit_def)

text \<open>Claim C27. Two people can talk without any server: when the steps on each machine succeed and each
  connection would take the other's description, the offer and answer codes the desktop shows, pasted
  through a chat that only wraps them, pass its checks, bring exactly these descriptions over, and leave
  both apps in a session with a running rig that does not transmit, the offering side with the chat
  channel.  An engine or a controller that was there is not touched.\<close>

theorem serverless_call:
  assumes "able va sdpa sdpb" and "able vb sdpb sdpa"
    and "b64_ok (sl_b64enc va) (sl_b64dec vb)" and "b64_ok (sl_b64enc vb) (sl_b64dec va)"
    and "only_wraps pa" and "only_wraps pb" and "fits (pa (sl_b64enc va sdpa))" and "fits (pb (sl_b64enc vb sdpb))"
    and "valid_name (trim na)" and "valid_name (trim nb)"
  shows "serverless_handshake m va vb pa pb na nb sha shb =
    Some (sha\<lparr>sh_serverless := Some \<lparr>sl_rig = fresh_rig m, sl_chat = Some 0, sl_me = trim na\<rparr>\<rparr>,
          shb\<lparr>sh_serverless := Some \<lparr>sl_rig = fresh_rig m, sl_chat = None, sl_me = trim nb\<rparr>\<rparr>)
    \<and> \<not> rg_stop (fresh_rig m) \<and> \<not> rg_transmit (fresh_rig m)"
proof -
  have u: "sl_utf8 vb sdpa" "sl_utf8 va sdpb" using assms(1,2) by (simp_all add: able_def)
  note da = decode_pasted [OF assms(5,3) u(1)] and db = decode_pasted [OF assms(6,4) u(2)]
  note ca = valid_pasted [OF assms(5,3,7)] and cb = valid_pasted [OF assms(6,4,8)]
  have f: "\<not> rg_stop (fresh_rig m) \<and> \<not> rg_transmit (fresh_rig m)" by (simp add: fresh_rig_def setup_audio_def)
  from offered [OF assms(1,9), of m sha] offer_taken [OF assms(2,10) ca da, of m shb] answer_taken_over [OF assms(1) cb db, of _ _ m] f
  show ?thesis by (auto simp: serverless_handshake_def simp del: invoke.simps)
qed

section \<open>Chat\<close>

text \<open>
  A line that the sender's own window shows was taken by the channel, and the other side shows the same
  text; \<open>parse\<close> reads what \<open>ce_json\<close> writes.
\<close>

lemma serverless_chat:
  assumes "sh_serverless sh = Some s" and "\<And>c. parse (ce_json ce c) = Some c"
    and "UChat from_me t \<in> set (snd (send_chat ce text sh))"
  shows "from_me = sl_me s \<and> bounded_chat text = Some t
    \<and> ce_sent ce (ce_json ce \<lparr>cm_text = t, cm_ts = ce_ts ce\<rparr>)
    \<and> sl_on_message parse (ce_json ce \<lparr>cm_text = t, cm_ts = ce_ts ce\<rparr>) = [UChat ''Peer'' t]"
proof -
  have "chars_count u \<le> MAX_CHAT_CHARS" if "bounded_chat text = Some u" for u
    using that by (auto simp: bounded_chat_def Let_def MAX_CHAT_LEN_def MAX_CHAT_CHARS_def split: if_splits)
  with assms show ?thesis
    by (auto simp: send_chat_def sl_send_chat_def sl_on_message_def Let_def split: option.splits if_splits)
qed

section \<open>A run\<close>

text \<open>Hex instead of base64, written with letters and digits only.\<close>

definition demo_enc :: "bytes \<Rightarrow> str" where
  "demo_enc b = concat (map (\<lambda>c. [char_of (97 + byte c div 16), char_of (97 + byte c mod 16)]) b)"

fun demo_dec :: "str \<Rightarrow> bytes option" where
  "demo_dec (a # b # s) = map_option (Cons (char_of ((byte a - 97) * 16 + (byte b - 97)))) (demo_dec s)"
| "demo_dec [] = Some []"
| "demo_dec [a] = None"

lemma demo_b64_ok: "b64_ok demo_enc demo_dec"
proof -
  have c: "demo_dec (demo_enc [c] @ s) = map_option (Cons c) (demo_dec s) \<and> list_all b64_char (demo_enc [c])" for c s
  proof -
    have "byte c < 256" by simp
    then have "byte c div 16 < 16" by (intro less_mult_imp_div_less) simp
    then have "byte (char_of (97 + byte c div 16)) = 97 + byte c div 16" "byte (char_of (97 + byte c mod 16)) = 97 + byte c mod 16"
      by simp_all
    with \<open>byte c div 16 < 16\<close> show ?thesis
      by (auto simp: demo_enc_def b64_char_def is_alnum_c_def is_lower_c_def)
  qed
  have "demo_dec (demo_enc b) = Some b \<and> list_all b64_char (demo_enc b)" for b
  proof (induction b)
    case (Cons x b)
    have "demo_enc (x # b) = demo_enc [x] @ demo_enc b" by (simp add: demo_enc_def)
    with Cons c [of x "demo_enc b"] show ?case by simp
  qed (simp add: demo_enc_def)
  then show ?thesis by (simp add: b64_ok_def)
qed

text \<open>A chat that puts every code on a line of its own.\<close>

definition demo_paste :: "str \<Rightarrow> str" where
  "demo_paste c = CHR 0x0A # c"

definition demo_machine :: "str \<Rightarrow> sl_env" where
  "demo_machine sdp = demo_sl\<lparr>sl_set_local := Inr (), sl_local_sdp := Some sdp, sl_b64enc := demo_enc, sl_b64dec := demo_dec\<rparr>"

theorem serverless_call_witness:
  "serverless_handshake exact_fpu (demo_machine ''A'') (demo_machine ''B'') demo_paste demo_paste ''Ann'' ''Bob'' shell_init shell_init =
    Some (shell_init\<lparr>sh_serverless := Some \<lparr>sl_rig = fresh_rig exact_fpu, sl_chat = Some 0, sl_me = trim ''Ann''\<rparr>\<rparr>,
          shell_init\<lparr>sh_serverless := Some \<lparr>sl_rig = fresh_rig exact_fpu, sl_chat = None, sl_me = trim ''Bob''\<rparr>\<rparr>)
    \<and> \<not> rg_stop (fresh_rig exact_fpu) \<and> \<not> rg_transmit (fresh_rig exact_fpu)"
proof (rule serverless_call)
  show "able (demo_machine ''A'') ''A'' ''B''" "able (demo_machine ''B'') ''B'' ''A''"
    by (simp_all add: able_def demo_machine_def demo_sl_def)
  show "b64_ok (sl_b64enc (demo_machine ''A'')) (sl_b64dec (demo_machine ''B''))"
    "b64_ok (sl_b64enc (demo_machine ''B'')) (sl_b64dec (demo_machine ''A''))"
    using demo_b64_ok by (simp_all add: demo_machine_def)
  have "filter (\<lambda>ch. \<not> is_ws ch) (chars (demo_paste c)) = filter (\<lambda>ch. \<not> is_ws ch) (chars c)" if "list_all b64_char c" for c
  proof -
    have "c = [] \<or> \<not> is_cont (hd c)" using that b64_ascii by (cases c) (fastforce simp: is_cont_def)+
    then have "takeWhile is_cont c = []" "dropWhile is_cont c = c" by (cases c; simp)+
    moreover have "is_ws [CHR 0x0A]" by (simp add: is_ws_def)
    ultimately show ?thesis by (simp add: demo_paste_def)
  qed
  then show "only_wraps demo_paste" "only_wraps demo_paste" by (simp_all add: only_wraps_def)
  show "fits (demo_paste (sl_b64enc (demo_machine ''A'') ''A''))" "fits (demo_paste (sl_b64enc (demo_machine ''B'') ''B''))"
    by (simp_all add: fits_def demo_paste_def demo_machine_def demo_enc_def MAX_CODE_LEN_def)
  show "valid_name (trim ''Ann'')" "valid_name (trim ''Bob'')" by code_simp+
qed

end
