(* ===== verification/Shell.thy ===== *)
theory Shell
  imports Ipc Tls
begin

text \<open>
  The frame of the desktop app (\<open>run\<close> in \<open>apps/companion/src-tauri/src/lib.rs\<close>) around its commands:
  the start of the control server with its token and discovery file (\<open>control.rs\<close>), windows and
  their closing, deep links of cold starts, second launches and the system, and the platform's
  switches.  What the platform answers is an argument; the disk is that of \<open>Tls\<close>.
\<close>

section \<open>The control server's start\<close>

text \<open>\<open>{:02x}\<close> over the random draw.\<close>

definition nibble_char :: "nat \<Rightarrow> char" where
  "nibble_char n = char_of (if n < 10 then 48 + n else 87 + n)"

definition control_token :: "bytes \<Rightarrow> str" where
  "control_token raw = concat (map (\<lambda>b. [nibble_char (byte b div 16), nibble_char (byte b mod 16)]) raw)"

definition start_server :: "str + unit \<Rightarrow> str + nat \<Rightarrow> bytes \<Rightarrow> str + control_server" where
  "start_server bound addr raw =
     (case bound of Inl e \<Rightarrow> Inl e | Inr _ \<Rightarrow>
     (case addr of Inl e \<Rightarrow> Inl e | Inr port \<Rightarrow> Inr (control_start port (control_token raw))))"

definition discovery_path :: "str \<Rightarrow> str" where
  "discovery_path dir = dir @ ''/control.json''"

record desk_io =
  di_bind :: "str + unit"
  di_addr :: "str + nat"
  di_raw :: bytes              \<comment> \<open>32 bytes of the system's generator\<close>
  di_dir :: "str option"       \<comment> \<open>\<open>app_config_dir\<close>\<close>
  di_mkdir :: "str + unit"
  di_write :: io_write
  di_umask :: file_mode
  di_text :: "json \<Rightarrow> str"

definition discovery :: "nat \<Rightarrow> str \<Rightarrow> json" where
  "discovery port token = JObj [(''port'', JInt (int port)), (''token'', JStr token)]"

definition write_discovery :: "desk_io \<Rightarrow> str \<Rightarrow> nat \<Rightarrow> str \<Rightarrow> disk \<Rightarrow> (str + unit) \<times> disk" where
  "write_discovery io dir port token d =
     (case di_mkdir io of
        Inl e \<Rightarrow> (Inl e, d)
      | Inr _ \<Rightarrow> fs_write (di_umask io) (di_write io) (discovery_path dir)
                  (di_text io (discovery port token)) d)"

text \<open>The task that \<open>setup\<close> spawns: a failed discovery file is only reported, the server runs on.\<close>

definition control_up :: "desk_io \<Rightarrow> shell \<Rightarrow> disk \<Rightarrow> shell \<times> disk \<times> str list" where
  "control_up io sh d =
     (case start_server (di_bind io) (di_addr io) (di_raw io) of
        Inl e \<Rightarrow> (sh, d, [''control: server failed to start: '' @ e])
      | Inr srv \<Rightarrow>
          (case (case di_dir io of None \<Rightarrow> (Inr (), d) | Some dir \<Rightarrow> write_discovery io dir (cs_port srv) (cs_token srv) d) of
             (Inl e, d1) \<Rightarrow> (sh\<lparr>sh_control := Some srv\<rparr>, d1, [''control: discovery file failed: '' @ e])
           | (Inr _, d1) \<Rightarrow> (sh\<lparr>sh_control := Some srv\<rparr>, d1, [])))"

section \<open>Platform switches\<close>

text \<open>\<open>Linux\<close> stands for everything else as well.\<close>

datatype os = Windows | MacOS | Linux

text \<open>WebKitGTK's switches are set on Linux, unless the user did.\<close>

definition set_default :: "str \<Rightarrow> (str \<Rightarrow> str option) \<Rightarrow> str \<Rightarrow> str option" where
  "set_default name env = (if env name = None then env(name \<mapsto> ''1'') else env)"

definition webkit_env :: "bool \<Rightarrow> (str \<Rightarrow> str option) \<Rightarrow> str \<Rightarrow> str option" where
  "webkit_env linux env =
     (if linux then set_default ''WEBKIT_DISABLE_COMPOSITING_MODE'' (set_default ''WEBKIT_DISABLE_DMABUF_RENDERER'' env)
      else env)"

text \<open>\<open>GetCurrentPackageFullName\<close> answers 15700 (no package) outside the Store build.\<close>

definition is_packaged :: "os \<Rightarrow> nat \<Rightarrow> bool" where
  "is_packaged sys rc \<longleftrightarrow> sys = Windows \<and> rc \<noteq> 15700"

definition is_store_build :: "os \<Rightarrow> nat \<Rightarrow> bool" where
  "is_store_build sys rc = is_packaged sys rc"

text \<open>The schemes are registered at run time, except by the Store build, whose manifest declares them.\<close>

definition registers_schemes :: "os \<Rightarrow> nat \<Rightarrow> bool" where
  "registers_schemes sys rc \<longleftrightarrow> sys \<noteq> MacOS \<and> \<not> is_packaged sys rc"

text \<open>Opening a page in the browser: a call of the shell, or a program with its argument.\<close>

datatype opened_by = ShellExecute str str | Spawn str str

definition open_url :: "os \<Rightarrow> str \<Rightarrow> opened_by" where
  "open_url sys url = (case sys of Windows \<Rightarrow> ShellExecute ''open'' url | MacOS \<Rightarrow> Spawn ''open'' url | Linux \<Rightarrow> Spawn ''xdg-open'' url)"

definition open_download :: "os \<Rightarrow> opened_by" where
  "open_download sys = open_url sys ''https://subraum.cc/download/''"

text \<open>The device names for the settings: what cannot be listed is empty, what has no name is left out.\<close>

definition list_devices :: "str option list option \<Rightarrow> str option list option \<Rightarrow> str list \<times> str list" where
  "list_devices ins outs =
     (case ins of Some ds \<Rightarrow> List.map_filter id ds | None \<Rightarrow> [],
      case outs of Some ds \<Rightarrow> List.map_filter id ds | None \<Rightarrow> [])"

section \<open>Windows and links\<close>

text \<open>A window with its label and whether the browser's accelerator keys are off.\<close>

record desk =
  dk_windows :: "(str \<times> bool) list"
  dk_alive :: bool
  dk_pending :: "str option"
  dk_links :: "str list"       \<comment> \<open>the \<open>deeplink\<close> events emitted, oldest first\<close>

text \<open>\<open>ok l\<close>: the window's WebView2 has the setting; elsewhere the call does nothing.\<close>

definition disable_browser_accelerators :: "(str \<Rightarrow> bool) \<Rightarrow> str \<times> bool \<Rightarrow> str \<times> bool" where
  "disable_browser_accelerators ok w = (fst w, snd w \<or> ok (fst w))"

definition desk_start :: "(str \<Rightarrow> bool) \<Rightarrow> str list \<Rightarrow> str list \<Rightarrow> desk" where
  "desk_start ok labels argv =
     \<lparr>dk_windows = map (disable_browser_accelerators ok) (map (\<lambda>l. (l, False)) labels), dk_alive = True,
      dk_pending = launch_link argv, dk_links = []\<rparr>"

datatype desk_event =
    Second_Launch "str list"
  | Open_Urls "str list"
  | Window_Created str
  | Close_Requested str
  | Take_Link

text \<open>The handlers; a link taken is the command's answer.\<close>

fun desk_on :: "(str \<Rightarrow> bool) \<Rightarrow> desk_event \<Rightarrow> desk \<Rightarrow> desk \<times> str option" where
  "desk_on ok (Second_Launch argv) k =
     (case launch_link argv of Some url \<Rightarrow> k\<lparr>dk_links := dk_links k @ [url]\<rparr> | None \<Rightarrow> k, None)"
| "desk_on ok (Open_Urls urls) k = (case urls of url # _ \<Rightarrow> k\<lparr>dk_links := dk_links k @ [url]\<rparr> | [] \<Rightarrow> k, None)"
| "desk_on ok (Window_Created l) k =
     (k\<lparr>dk_windows := map (disable_browser_accelerators ok) (dk_windows k @ [(l, False)])\<rparr>, None)"
| "desk_on ok (Close_Requested l) k =
     (if l = ''main'' then k\<lparr>dk_alive := False\<rparr> else k\<lparr>dk_windows := filter (\<lambda>w. fst w \<noteq> l) (dk_windows k)\<rparr>, None)"
| "desk_on ok Take_Link k = (case take_pending_deeplink (dk_pending k) of (r, p) \<Rightarrow> (k\<lparr>dk_pending := p\<rparr>, r))"

fun desk_run :: "(str \<Rightarrow> bool) \<Rightarrow> desk_event list \<Rightarrow> desk \<Rightarrow> desk \<times> str list" where
  "desk_run ok [] k = (k, [])"
| "desk_run ok (e # es) k =
     (case desk_on ok e k of (k1, r) \<Rightarrow>
     (case desk_run ok es k1 of (k2, rs) \<Rightarrow> (k2, (case r of Some u \<Rightarrow> [u] | None \<Rightarrow> []) @ rs)))"

text \<open>The link of the cold start is handed out at most once, at the first request.\<close>

lemma taken_once:
  "desk_run ok es k = (k', rs) \<Longrightarrow> rs = (if Take_Link \<in> set es then (case dk_pending k of Some u \<Rightarrow> [u] | None \<Rightarrow> []) else [])"
proof (induction es arbitrary: k k' rs)
  case (Cons e es)
  obtain k1 r where e: "desk_on ok e k = (k1, r)" by (cases "desk_on ok e k")
  obtain k2 rs' where es: "desk_run ok es k1 = (k2, rs')" by (cases "desk_run ok es k1")
  have "(e = Take_Link \<longrightarrow> r = dk_pending k \<and> dk_pending k1 = None) \<and> (e \<noteq> Take_Link \<longrightarrow> r = None \<and> dk_pending k1 = dk_pending k)"
    using e by (cases e) (auto simp: take_pending_deeplink_def split: option.splits list.splits if_splits)
  with Cons.IH [OF es] Cons.prems e es show ?case by (auto split: option.splits)
qed simp

text \<open>Every window has the browser's keys off, wherever its WebView knows the setting.\<close>

definition keys_off :: "(str \<Rightarrow> bool) \<Rightarrow> desk \<Rightarrow> bool" where
  "keys_off ok k \<longleftrightarrow> list_all (\<lambda>w. ok (fst w) \<longrightarrow> snd w) (dk_windows k)"

lemma keys_off_start: "keys_off ok (desk_start ok labels argv)"
  by (simp add: keys_off_def desk_start_def disable_browser_accelerators_def list_all_iff)

lemma keys_off_on: "keys_off ok k \<Longrightarrow> keys_off ok (fst (desk_on ok e k))"
  by (cases e) (auto simp: keys_off_def disable_browser_accelerators_def list_all_iff take_pending_deeplink_def
      split: option.splits list.splits)

lemma keys_off_run: "desk_run ok es k = (k', rs) \<Longrightarrow> keys_off ok k \<Longrightarrow> keys_off ok k'"
proof (induction es arbitrary: k k' rs)
  case (Cons e es)
  obtain k1 r where e: "desk_on ok e k = (k1, r)" by (cases "desk_on ok e k")
  obtain k2 rs' where es: "desk_run ok es k1 = (k2, rs')" by (cases "desk_run ok es k1")
  from keys_off_on [OF Cons.prems(2), of e] e have "keys_off ok k1" by simp
  with Cons.IH [OF es] Cons.prems(1) e es show ?case by simp
qed simp

text \<open>Only closing the main window ends the app.\<close>

lemma alive_run: "desk_run ok es k = (k', rs) \<Longrightarrow> dk_alive k' \<longleftrightarrow> dk_alive k \<and> Close_Requested ''main'' \<notin> set es"
proof (induction es arbitrary: k k' rs)
  case (Cons e es)
  obtain k1 r where e: "desk_on ok e k = (k1, r)" by (cases "desk_on ok e k")
  obtain k2 rs' where es: "desk_run ok es k1 = (k2, rs')" by (cases "desk_run ok es k1")
  have "dk_alive k1 \<longleftrightarrow> dk_alive k \<and> e \<noteq> Close_Requested ''main''"
    using e by (cases e) (auto simp: take_pending_deeplink_def split: option.splits list.splits if_splits)
  with Cons.IH [OF es] Cons.prems e es show ?case by auto
qed simp

section \<open>The discovery file\<close>

lemma nibble_char_byte: "n < 16 \<Longrightarrow> byte (nibble_char n) = (if n < 10 then 48 + n else 87 + n)"
  by (simp add: nibble_char_def take_bit_nat_eq_self)

lemma nibble_char_inj:
  assumes "m < 16" and "n < 16"
  shows "nibble_char m = nibble_char n \<longleftrightarrow> m = n"
proof
  assume "nibble_char m = nibble_char n"
  then have "(if m < 10 then 48 + m else 87 + m) = (if n < 10 then 48 + n else 87 + n)"
    using nibble_char_byte [OF assms(1)] nibble_char_byte [OF assms(2)] by simp
  then show "m = n" by (simp split: if_splits)
qed simp

lemma control_token_length [simp]: "length (control_token raw) = 2 * length raw"
  by (induction raw) (simp_all add: control_token_def)

lemma control_token_Cons: "control_token (b # raw) = nibble_char (byte b div 16) # nibble_char (byte b mod 16) # control_token raw"
  by (simp add: control_token_def)

lemma byte_halves: "byte a div 16 = byte b div 16 \<Longrightarrow> byte a mod 16 = byte b mod 16 \<Longrightarrow> a = b"
  by (metis div_mult_mod_eq of_char_eq_iff)

lemma control_token_inj: "control_token a = control_token b \<Longrightarrow> a = b"
proof (induction a arbitrary: b)
  case Nil
  then have "length b = 0" by (metis control_token_length length_0_conv mult_is_0 zero_neq_numeral)
  then show ?case by simp
next
  case (Cons x xs)
  then obtain y ys where b: "b = y # ys" by (cases b) (simp_all add: control_token_def)
  have lt: "byte c div 16 < 16" for c by (simp add: div_less_iff_less_mult)
  from Cons.prems have "byte x div 16 = byte y div 16" "byte x mod 16 = byte y mod 16" "control_token xs = control_token ys"
    by (simp_all add: b control_token_Cons nibble_char_inj lt)
  with Cons.IH [of ys] byte_halves [of x y] show ?case by (simp add: b)
qed

text \<open>A controller's first message: it presents \<open>tok\<close>, within the size limit.\<close>

definition auth_frame :: "'m ctl_ext \<Rightarrow> str \<Rightarrow> 'm \<Rightarrow> bool" where
  "auth_frame x tok m \<longleftrightarrow> (case into_text x m of None \<Rightarrow> False | Some text \<Rightarrow>
     length text \<le> MAX_MSG \<and> (case from_str x text of None \<Rightarrow> False | Some v \<Rightarrow> presented_token v = Some tok))"

lemma auth_frame_gate:
  "auth_frame x tok m \<Longrightarrow> gate_frame x s 0 (Frame m) True =
     (if tok = cs_token s then (CHello, [hello_msg (cs_state s)]) else (CGate 1, [auth_failed_msg]))"
  by (auto simp: auth_frame_def gate_frame_def MAX_AUTH_TRIES_def split: option.splits)

lemma auth_frame_serve:
  "auth_frame x (cs_token s) m \<Longrightarrow> serve_conn x s CLive fs = (ph, sent, out) \<Longrightarrow>
   serve_conn x s (CGate 0) ((Frame m, True) # fs) = (ph, hello_msg (cs_state s) # sent, CtlRefresh # out)"
  by (simp add: auth_frame_gate)

lemma control_up_ok:
  assumes "control_up io sh d = (sh', d', [])" and "di_dir io = Some dir"
  shows "\<exists>port. di_addr io = Inr port \<and> sh' = sh\<lparr>sh_control := Some (control_start port (control_token (di_raw io)))\<rparr>
    \<and> fs_write (di_umask io) (di_write io) (discovery_path dir)
         (di_text io (discovery port (control_token (di_raw io)))) d = (Inr (), d')"
  using assms by (auto simp: control_up_def start_server_def write_discovery_def control_start_def
      split: sum.splits prod.splits)

text \<open>Claim C37. The discovery file opens the control API to its readers, and only of the same start. After a start of the control server that reported nothing, \<open>control.json\<close> in the configuration directory parses to the server's port and its token, 64 hexadecimal characters of the random draw. A controller that presents this token in its first message is greeted with the current state, and everything it sends then is served as in an open session; one that presents the token of a start with another draw is refused. A file that did not exist before is created with the mode 0666 less the process's mask, so that under the usual mask every local user can read the token.\<close>

theorem discovery_opens_control:
  assumes "control_up io sh d = (sh', d', [])" and "di_dir io = Some dir" and "\<And>p t. from_str x (di_text io (discovery p t)) = Some (discovery p t)"
  shows "\<exists>srv f v. sh_control sh' = Some srv \<and> d' (discovery_path dir) = Some f \<and> from_str x (fl_text f) = Some v
    \<and> jget ''port'' v = Some (JInt (int (cs_port srv))) \<and> jget ''token'' v = Some (JStr (cs_token srv))
    \<and> length (cs_token srv) = 2 * length (di_raw io)
    \<and> (\<forall>m fs ph sent out. auth_frame x (cs_token srv) m \<and> serve_conn x srv CLive fs = (ph, sent, out) \<longrightarrow>
         serve_conn x srv (CGate 0) ((Frame m, True) # fs) = (ph, hello_msg (cs_state srv) # sent, CtlRefresh # out))
    \<and> (\<forall>m raw. auth_frame x (control_token raw) m \<and> raw \<noteq> di_raw io \<longrightarrow>
         gate_frame x srv 0 (Frame m) True = (CGate 1, [auth_failed_msg]))
    \<and> (d (discovery_path dir) = None \<longrightarrow> fl_mode f = 438 AND NOT (di_umask io))"
proof -
  let ?tok = "control_token (di_raw io)"
  from control_up_ok [OF assms(1,2)] obtain port where p: "sh' = sh\<lparr>sh_control := Some (control_start port ?tok)\<rparr>"
      "fs_write (di_umask io) (di_write io) (discovery_path dir)
         (di_text io (discovery port ?tok)) d = (Inr (), d')"
    by blast
  let ?srv = "control_start port ?tok" and ?v = "discovery port ?tok"
  from p(2) obtain f where f: "d' (discovery_path dir) = Some f" "fl_text f = di_text io ?v"
      "d (discovery_path dir) = None \<longrightarrow> fl_mode f = 438 AND NOT (di_umask io)"
    by (auto simp: fs_write_def write_at_def Let_def split: io_write.splits)
  have "gate_frame x ?srv 0 (Frame m) True = (CGate 1, [auth_failed_msg])"
      if "auth_frame x (control_token raw) m" "raw \<noteq> di_raw io" for m raw
    using that control_token_inj [of raw "di_raw io"] by (auto simp: auth_frame_gate control_start_def)
  with p(1) f assms(3) auth_frame_serve [of x ?srv] show ?thesis
    by (intro exI [of _ ?srv] exI [of _ f] exI [of _ ?v]) (auto simp: control_start_def discovery_def jget_def)
qed

definition demo_text :: "json \<Rightarrow> str" where
  "demo_text v = (case (jget ''port'' v, jget ''token'' v) of
     (Some (JInt p), Some (JStr t)) \<Rightarrow> replicate (nat p) CHR ''1'' @ CHR ''-'' # t | _ \<Rightarrow> ''?'')"

definition demo_controller :: "str ctl_ext" where
  "demo_controller = \<lparr>into_text = Some, kind_of = (\<lambda>_. KData),
     from_str = (\<lambda>s. if hd s = CHR ''A'' then Some (JObj [(''t'', JStr ''auth''), (''token'', JStr (tl s))])
       else Some (discovery (length (takeWhile (\<lambda>c. c = CHR ''1'') s)) (tl (dropWhile (\<lambda>c. c = CHR ''1'') s))))\<rparr>"

definition demo_io :: desk_io where
  "demo_io = \<lparr>di_bind = Inr (), di_addr = Inr 3, di_raw = replicate 32 CHR ''k'', di_dir = Some ''conf'', di_mkdir = Inr (),
     di_write = Io_Done, di_umask = 18, di_text = demo_text\<rparr>"

lemma demo_text_read: "from_str demo_controller (demo_text (discovery p t)) = Some (discovery p t)"
proof -
  have "hd (replicate p CHR ''1'' @ CHR ''-'' # t) \<noteq> CHR ''A''" by (cases p) simp_all
  moreover have "takeWhile (\<lambda>c. c = CHR ''1'') (replicate p CHR ''1'' @ CHR ''-'' # t) = replicate p CHR ''1''"
      "dropWhile (\<lambda>c. c = CHR ''1'') (replicate p CHR ''1'' @ CHR ''-'' # t) = CHR ''-'' # t"
    by (induction p) simp_all
  ultimately show ?thesis
    by (simp add: demo_controller_def demo_text_def discovery_def jget_def)
qed

lemma demo_text_io: "di_text demo_io = demo_text"
  by (simp add: demo_io_def)

theorem discovery_opens_control_witness:
  "\<exists>srv f. sh_control (fst (control_up demo_io shell_init Map.empty)) = Some srv \<and> cs_token srv = control_token (replicate 32 CHR ''k'')
    \<and> fst (snd (control_up demo_io shell_init Map.empty)) (discovery_path ''conf'') = Some f \<and> fl_mode f = 420
    \<and> serve_conn demo_controller srv (CGate 0) [(Frame (CHR ''A'' # cs_token srv), True)]
        = (CLive, [hello_msg (cs_state srv)], [CtlRefresh])
    \<and> gate_frame demo_controller srv 0 (Frame (CHR ''A'' # control_token (replicate 32 CHR ''j''))) True = (CGate 1, [auth_failed_msg])"
proof -
  let ?r = "control_up demo_io shell_init Map.empty"
  have u: "?r = (fst ?r, fst (snd ?r), [])"
    by (simp add: control_up_def start_server_def write_discovery_def demo_io_def fs_write_def write_at_def Let_def)
  have af: "auth_frame demo_controller (control_token raw) (CHR ''A'' # control_token raw)" if "length raw = 32" for raw
    using that by (simp add: auth_frame_def demo_controller_def presented_token_def tag_of_def jget_def as_str_def MAX_MSG_def)
  have "di_dir demo_io = Some ''conf''" by (simp add: demo_io_def)
  from discovery_opens_control [OF u this, of demo_controller] demo_text_read [folded demo_text_io] obtain srv f where r:
      "sh_control (fst ?r) = Some srv" "fst (snd ?r) (discovery_path ''conf'') = Some f"
      "\<forall>m fs ph sent out. auth_frame demo_controller (cs_token srv) m \<and> serve_conn demo_controller srv CLive fs = (ph, sent, out) \<longrightarrow>
         serve_conn demo_controller srv (CGate 0) ((Frame m, True) # fs) = (ph, hello_msg (cs_state srv) # sent, CtlRefresh # out)"
      "\<forall>m raw. auth_frame demo_controller (control_token raw) m \<and> raw \<noteq> di_raw demo_io \<longrightarrow>
         gate_frame demo_controller srv 0 (Frame m) True = (CGate 1, [auth_failed_msg])"
      "Map.empty (discovery_path ''conf'') = (None :: stored_file option) \<longrightarrow> fl_mode f = 438 AND NOT (di_umask demo_io)"
    by blast
  have t: "cs_token srv = control_token (replicate 32 CHR ''k'')"
    using r(1) by (auto simp: control_up_def start_server_def write_discovery_def demo_io_def fs_write_def write_at_def Let_def
        control_start_def)
  have "serve_conn demo_controller srv (CGate 0) [(Frame (CHR ''A'' # cs_token srv), True)] = (CLive, [hello_msg (cs_state srv)], [CtlRefresh])"
    using r(3) [rule_format, of "CHR ''A'' # cs_token srv" "[]" CLive "[]" "[]"] af [of "replicate 32 CHR ''k''"] by (simp add: t)
  moreover have "gate_frame demo_controller srv 0 (Frame (CHR ''A'' # control_token (replicate 32 CHR ''j''))) True = (CGate 1, [auth_failed_msg])"
    using r(4) [rule_format, of "replicate 32 CHR ''j''" "CHR ''A'' # control_token (replicate 32 CHR ''j'')"] af [of "replicate 32 CHR ''j''"] by (simp add: demo_io_def)
  moreover have "fl_mode f = 420" using r(5) by (simp add: demo_io_def)
  ultimately show ?thesis using r(1,2) t by blast
qed

end
