(* ===== verification/Texts.thy ===== *)
theory Texts
  imports Web
begin

text \<open>
  The short texts of the server's pages (\<open>i18n.rs\<close>) in the five languages: captions, descriptions,
  navigation, the share-link page, the license summary and the download page.  Characters beyond
  ASCII are named after their HTML entities and stand for their UTF-8 bytes.
\<close>

abbreviation nl :: str where "nl \<equiv> [CHR 0x0A]"
abbreviation apos :: str where "apos \<equiv> [CHR 0x27]"
abbreviation aacute :: str where "aacute \<equiv> [CHR 0xC3, CHR 0xA1]"
abbreviation agrave :: str where "agrave \<equiv> [CHR 0xC3, CHR 0xA0]"
abbreviation auml :: str where "auml \<equiv> [CHR 0xC3, CHR 0xA4]"
abbreviation bdquo :: str where "bdquo \<equiv> [CHR 0xE2, CHR 0x80, CHR 0x9E]"
abbreviation boxh :: str where "boxh \<equiv> [CHR 0xE2, CHR 0x94, CHR 0x80]"
abbreviation boxhdash :: str where "boxhdash \<equiv> [CHR 0xE2, CHR 0x94, CHR 0x84]"
abbreviation ccedil :: str where "ccedil \<equiv> [CHR 0xC3, CHR 0xA7]"
abbreviation copyright :: str where "copyright \<equiv> [CHR 0xC2, CHR 0xA9]"
abbreviation eacute :: str where "eacute \<equiv> [CHR 0xC3, CHR 0xA9]"
abbreviation ecirc :: str where "ecirc \<equiv> [CHR 0xC3, CHR 0xAA]"
abbreviation egrave :: str where "egrave \<equiv> [CHR 0xC3, CHR 0xA8]"
abbreviation iacute :: str where "iacute \<equiv> [CHR 0xC3, CHR 0xAD]"
abbreviation igrave :: str where "igrave \<equiv> [CHR 0xC3, CHR 0xAC]"
abbreviation iquest :: str where "iquest \<equiv> [CHR 0xC2, CHR 0xBF]"
abbreviation laquo :: str where "laquo \<equiv> [CHR 0xC2, CHR 0xAB]"
abbreviation ldquo :: str where "ldquo \<equiv> [CHR 0xE2, CHR 0x80, CHR 0x9C]"
abbreviation mdash :: str where "mdash \<equiv> [CHR 0xE2, CHR 0x80, CHR 0x94]"
abbreviation middot :: str where "middot \<equiv> [CHR 0xC2, CHR 0xB7]"
abbreviation ntilde :: str where "ntilde \<equiv> [CHR 0xC3, CHR 0xB1]"
abbreviation oacute :: str where "oacute \<equiv> [CHR 0xC3, CHR 0xB3]"
abbreviation ocirc :: str where "ocirc \<equiv> [CHR 0xC3, CHR 0xB4]"
abbreviation ograve :: str where "ograve \<equiv> [CHR 0xC3, CHR 0xB2]"
abbreviation ouml :: str where "ouml \<equiv> [CHR 0xC3, CHR 0xB6]"
abbreviation raquo :: str where "raquo \<equiv> [CHR 0xC2, CHR 0xBB]"
abbreviation rarr :: str where "rarr \<equiv> [CHR 0xE2, CHR 0x86, CHR 0x92]"
abbreviation rdquo :: str where "rdquo \<equiv> [CHR 0xE2, CHR 0x80, CHR 0x9D]"
abbreviation sectsign :: str where "sectsign \<equiv> [CHR 0xC2, CHR 0xA7]"
abbreviation szlig :: str where "szlig \<equiv> [CHR 0xC3, CHR 0x9F]"
abbreviation uOuml :: str where "uOuml \<equiv> [CHR 0xC3, CHR 0x96]"
abbreviation uacute :: str where "uacute \<equiv> [CHR 0xC3, CHR 0xBA]"
abbreviation ugrave :: str where "ugrave \<equiv> [CHR 0xC3, CHR 0xB9]"
abbreviation uuml :: str where "uuml \<equiv> [CHR 0xC3, CHR 0xBC]"

definition GITHUB_URL :: str where "GITHUB_URL = ''https://github.com/cccdemon/RDOC-SquadLinkLite''"
definition RAUMDOCK_URL :: str where "RAUMDOCK_URL = ''https://raumdock.org''"
definition STORE_URL :: str where "STORE_URL = ''https://apps.microsoft.com/detail/9N9NR49QFBF4''"
definition FLEET_URL :: str where "FLEET_URL = ''https://suite.raumdock.org/fleetplanner''"

text \<open>Captions of the screenshots, in display order.\<close>

definition captions :: "lang \<Rightarrow> str list" where
  "captions l =
     (case l of
        En \<Rightarrow> [''In a session: channels, roster, push-to-talk, chat'',
             ''Start: host a session or join with link and PIN'',
             ''Several radio channels, switched by hotkey'',
             ''Audio: mic, push-to-talk, app ducking, radio click'',
             ''Expert: overlay, channel hotkeys, re-encrypt, self-check'']
      | De \<Rightarrow> [''In der Session: Kan'' @ auml @ ''le, Teilnehmer, Push-to-Talk, Chat'',
             ''Start: Session hosten oder mit Link und PIN beitreten'',
             ''Mehrere Funkkan'' @ auml @ ''le, Wechsel per Hotkey'',
             ''Audio: Mikrofon, Push-to-Talk, App-Ducking, Funk-Klick'',
             ''Experte: Overlay, Kanal-Hotkeys, neu verschl'' @ uuml @ ''sseln, Selbsttest'']
      | It \<Rightarrow> [''In sessione: canali, partecipanti, push-to-talk, chat'',
             ''Avvio: ospita una sessione o entra con link e PIN'',
             ''Pi'' @ ugrave @ '' canali radio, cambio con tasto rapido'',
             ''Audio: microfono, push-to-talk, abbassamento app, clic radio'',
             ''Esperto: overlay, tasti canale, nuova cifratura, autotest'']
      | Es \<Rightarrow> [''En sesi'' @ oacute @ ''n: canales, participantes, pulsar para hablar, chat'',
             ''Inicio: alojar una sesi'' @ oacute @ ''n o entrar con enlace y PIN'',
             ''Varios canales de radio, cambio por atajo'',
             ''Audio: micr'' @ oacute @ ''fono, pulsar para hablar, atenuar apps, clic de radio'',
             ''Experto: superposici'' @ oacute @ ''n, atajos de canal, recifrar, autodiagn'' @ oacute @ ''stico'']
      | Fr \<Rightarrow> [''En session: canaux, participants, push-to-talk, chat'',
             ''D'' @ eacute @ ''marrage: h'' @ eacute @ ''berger une session ou rejoindre avec lien et PIN'',
             ''Plusieurs canaux radio, changement par raccourci'',
             ''Audio: micro, push-to-talk, att'' @ eacute @ ''nuation des apps, clic radio'',
             ''Expert: overlay, raccourcis de canal, rechiffrer, autotest''])"

definition meta_desc :: "lang \<Rightarrow> str" where
  "meta_desc l =
     (case l of
        En \<Rightarrow> ''Serverless P2P voice for small squads. Push-to-talk, no account, no recording. End-to-end ''
             @ ''and post-quantum encrypted.''
      | De \<Rightarrow> ''Serverloser P2P-Voicechat f'' @ uuml
             @ ''r kleine Crews. Push-to-Talk, ohne Account, ohne Aufnahme. Ende-zu-Ende und ''
             @ ''post-quanten-verschl'' @ uuml @ ''sselt.''
      | It \<Rightarrow> ''Voice chat P2P senza server per piccoli gruppi. Push-to-talk, senza account, senza ''
             @ ''registrazioni. Cifrato end-to-end e post-quantistico.''
      | Es \<Rightarrow> ''Chat de voz P2P sin servidor para grupos peque'' @ ntilde
             @ ''os. Pulsar para hablar, sin cuenta, sin grabaci'' @ oacute
             @ ''n. Cifrado de extremo a extremo y poscu'' @ aacute @ ''ntico.''
      | Fr \<Rightarrow> ''Chat vocal P2P sans serveur pour petites '' @ eacute
             @ ''quipes. Push-to-talk, sans compte, sans enregistrement. Chiffr'' @ eacute
             @ '' de bout en bout et post-quantique.'')"

definition nav :: "lang \<Rightarrow> str list" where
  "nav l =
     (case l of
        En \<Rightarrow> [''Download'',
             ''Privacy'',
             ''Legal notice'',
             ''License'']
      | De \<Rightarrow> [''Download'',
             ''Datenschutz'',
             ''Impressum'',
             ''Lizenz'']
      | It \<Rightarrow> [''Download'',
             ''Privacy'',
             ''Note legali'',
             ''Licenza'']
      | Es \<Rightarrow> [''Descargar'',
             ''Privacidad'',
             ''Aviso legal'',
             ''Licencia'']
      | Fr \<Rightarrow> [''T'' @ eacute @ ''l'' @ eacute @ ''charger'',
             ''Confidentialit'' @ eacute,
             ''Mentions l'' @ eacute @ ''gales'',
             ''Licence''])"

definition ui_aria :: "lang \<Rightarrow> str" where
  "ui_aria l =
     (case l of
        En \<Rightarrow> ''Text size''
      | De \<Rightarrow> ''Schriftgr'' @ ouml @ szlig @ ''e''
      | It \<Rightarrow> ''Dimensione del testo''
      | Es \<Rightarrow> ''Tama'' @ ntilde @ ''o del texto''
      | Fr \<Rightarrow> ''Taille du texte'')"

definition ui_title :: "lang \<Rightarrow> ui \<Rightarrow> str" where
  "ui_title l u =
     (case l of
        En \<Rightarrow> (case u of Normal \<Rightarrow> ''Normal'' | Large \<Rightarrow> ''Large'' | Larger \<Rightarrow> ''Extra large'')
      | De \<Rightarrow> (case u of Normal \<Rightarrow> ''Normal'' | Large \<Rightarrow> ''Gro'' @ szlig | Larger \<Rightarrow> ''Sehr gro'' @ szlig)
      | It \<Rightarrow> (case u of Normal \<Rightarrow> ''Normale'' | Large \<Rightarrow> ''Grande'' | Larger \<Rightarrow> ''Molto grande'')
      | Es \<Rightarrow> (case u of Normal \<Rightarrow> ''Normal'' | Large \<Rightarrow> ''Grande'' | Larger \<Rightarrow> ''Muy grande'')
      | Fr \<Rightarrow> (case u of Normal \<Rightarrow> ''Normale'' | Large \<Rightarrow> ''Grande'' | Larger \<Rightarrow> ''Tr'' @ egrave @ ''s grande''))"

text \<open>Who tested, who built it, and the remark on tools.\<close>

definition credit_words :: "lang \<Rightarrow> str \<times> str \<times> str" where
  "credit_words l =
     (case l of
        En \<Rightarrow> (''Tested by'', ''Concept &amp; programming by'', ''Yes, we used AI.'')
      | De \<Rightarrow> (''Getestet von'', ''Konzept &amp; Programmierung von'', ''Ja, wir haben KI benutzt.'')
      | It \<Rightarrow> (''Testato da'', ''Ideazione e programmazione di'', ''S'' @ igrave @ '', abbiamo usato l'IA.'')
      | Es \<Rightarrow> (''Probado por'', ''Concepto y programaci'' @ oacute @ ''n de'', ''S'' @ iacute @ '', usamos IA.'')
      | Fr \<Rightarrow> (''Test'' @ eacute @ '' par'', ''Conception et programmation par'', ''Oui, nous avons utilis'' @ eacute @ '' l'IA.''))"

record landing_text =
  lt_intro :: str
  lt_codelbl :: str
  lt_step1 :: str
  lt_step2 :: str
  lt_store_btn :: str
  lt_unsigned_btn :: str
  lt_ss_note :: str
  lt_foot :: str

definition landing_words :: "lang \<Rightarrow> landing_text" where
  "landing_words l =
     (case l of
        En \<Rightarrow> 
            \<lparr>lt_intro = ''You have been invited to a voice session.'',
            lt_codelbl = ''Session code:'',
            lt_step1 = ''Install the app. We recommend the Microsoft Store version.'',
            lt_step2 = ''Open the app '' @ rarr @ '' Join '' @ rarr @ '' enter the code + the 6-digit PIN (from the host).'',
            lt_store_btn = ''Get it from Microsoft Store'',
            lt_unsigned_btn = ''Direct download (unsigned installer)'',
            lt_ss_note = ''The direct installer is not code-signed, so Windows SmartScreen shows a warning. To install ''
                @ ''anyway: click '' @ ldquo @ ''More info'' @ rdquo @ '' '' @ rarr @ '' '' @ ldquo @ ''Run anyway''
                @ rdquo @ ''. The Microsoft Store version shows no warning.'',
            lt_foot = ''Audio runs directly peer-to-peer (encrypted). The server only brokers.''\<rparr>
      | De \<Rightarrow> 
            \<lparr>lt_intro = ''Du wurdest zu einer Voice-Session eingeladen.'',
            lt_codelbl = ''Session-Code:'',
            lt_step1 = ''App installieren. Wir empfehlen die Microsoft-Store-Version.'',
            lt_step2 = ''App '' @ ouml @ ''ffnen '' @ rarr @ '' Beitreten '' @ rarr
                @ '' Code + die 6-stellige PIN (vom Host) eingeben.'',
            lt_store_btn = ''Im Microsoft Store holen'',
            lt_unsigned_btn = ''Direkter Download (unsigniertes Installationsprogramm)'',
            lt_ss_note = ''Der direkte Installer ist nicht signiert, daher warnt Windows SmartScreen. Trotzdem ''
                @ ''installieren: auf '' @ bdquo @ ''Weitere Informationen'' @ ldquo @ '' '' @ rarr @ '' '' @ bdquo
                @ ''Trotzdem ausf'' @ uuml @ ''hren'' @ ldquo @ '' klicken. Die Microsoft-Store-Version warnt nicht.'',
            lt_foot = ''Audio l'' @ auml @ ''uft direkt Peer-zu-Peer (verschl'' @ uuml
                @ ''sselt). Der Server vermittelt nur.''\<rparr>
      | It \<Rightarrow> 
            \<lparr>lt_intro = ''Sei stato invitato a una sessione vocale.'',
            lt_codelbl = ''Codice sessione:'',
            lt_step1 = ''Installa l'app. Consigliamo la versione del Microsoft Store.'',
            lt_step2 = ''Apri l'app '' @ rarr @ '' Partecipa '' @ rarr
                @ '' inserisci il codice + il PIN di 6 cifre (dall'host).'',
            lt_store_btn = ''Scarica dal Microsoft Store'',
            lt_unsigned_btn = ''Download diretto (installer non firmato)'',
            lt_ss_note = ''L'installer diretto non '' @ egrave
                @ '' firmato, quindi Windows SmartScreen mostra un avviso. Per installare comunque: '' @ ldquo
                @ ''Ulteriori informazioni'' @ rdquo @ '' '' @ rarr @ '' '' @ ldquo @ ''Esegui comunque'' @ rdquo
                @ ''. La versione del Microsoft Store non mostra avvisi.'',
            lt_foot = ''L'audio '' @ egrave @ '' diretto peer-to-peer (cifrato). Il server fa solo da tramite.''\<rparr>
      | Es \<Rightarrow> 
            \<lparr>lt_intro = ''Te han invitado a una sesi'' @ oacute @ ''n de voz.'',
            lt_codelbl = ''C'' @ oacute @ ''digo de sesi'' @ oacute @ ''n:'',
            lt_step1 = ''Instala la app. Recomendamos la versi'' @ oacute @ ''n de Microsoft Store.'',
            lt_step2 = ''Abre la app '' @ rarr @ '' Unirse '' @ rarr @ '' introduce el c'' @ oacute
                @ ''digo + el PIN de 6 d'' @ iacute @ ''gitos (del anfitri'' @ oacute @ ''n).'',
            lt_store_btn = ''Descargar de Microsoft Store'',
            lt_unsigned_btn = ''Descarga directa (instalador sin firmar)'',
            lt_ss_note = ''El instalador directo no est'' @ aacute
                @ '' firmado, por lo que Windows SmartScreen muestra una advertencia. Para instalar igualmente: ''
                @ ldquo @ ''M'' @ aacute @ ''s informaci'' @ oacute @ ''n'' @ rdquo @ '' '' @ rarr @ '' '' @ ldquo
                @ ''Ejecutar de todas formas'' @ rdquo @ ''. La versi'' @ oacute
                @ ''n de Microsoft Store no muestra advertencias.'',
            lt_foot = ''El audio es directo peer-to-peer (cifrado). El servidor solo intermedia.''\<rparr>
      | Fr \<Rightarrow> 
            \<lparr>lt_intro = ''Vous avez '' @ eacute @ ''t'' @ eacute @ '' invit'' @ eacute @ '' '' @ agrave
                @ '' une session vocale.'',
            lt_codelbl = ''Code de session :'',
            lt_step1 = ''Installez l'app. Nous recommandons la version du Microsoft Store.'',
            lt_step2 = ''Ouvrez l'app '' @ rarr @ '' Rejoindre '' @ rarr @ '' saisissez le code + le PIN '' @ agrave
                @ '' 6 chiffres (de l'h'' @ ocirc @ ''te).'',
            lt_store_btn = ''Obtenir sur le Microsoft Store'',
            lt_unsigned_btn = ''T'' @ eacute @ ''l'' @ eacute @ ''chargement direct (installeur non sign'' @ eacute @ '')'',
            lt_ss_note = ''L'installeur direct n'est pas sign'' @ eacute
                @ '', donc Windows SmartScreen affiche un avertissement. Pour installer quand m'' @ ecirc @ ''me : ''
                @ laquo @ '' Informations compl'' @ eacute @ ''mentaires '' @ raquo @ '' '' @ rarr @ '' '' @ laquo
                @ '' Ex'' @ eacute @ ''cuter quand m'' @ ecirc @ ''me '' @ raquo
                @ ''. La version du Microsoft Store n'affiche aucun avertissement.'',
            lt_foot = ''L'audio est direct pair-'' @ agrave @ ''-pair (chiffr'' @ eacute
                @ ''). Le serveur ne fait que l'interm'' @ eacute @ ''diaire.''\<rparr>)"

record license_text =
  li_title :: str
  li_intro :: str
  li_h :: str
  li_b1 :: str
  li_b2 :: str
  li_b3 :: str
  li_b4 :: str
  li_ch :: str
  li_ct :: str
  li_mail :: str
  li_sumh :: str
  li_full :: str
  li_foot :: str

definition license_words :: "lang \<Rightarrow> license_text" where
  "license_words l =
     (case l of
        En \<Rightarrow> 
            \<lparr>li_title = ''License'',
            li_intro = ''License: non-commercial'',
            li_h = ''In short'',
            li_b1 = ''Use, copy, modify, share: for any non-commercial purpose (private, community, education, ''
                @ ''research).'',
            li_b2 = ''No commercial use without a separate license.'',
            li_b3 = ''Keep the license and copyright notices.'',
            li_b4 = ''Provided as is, without warranty or liability.'',
            li_ch = ''Commercial use'',
            li_ct = ''Commercial use requires a separate commercial license: selling, sublicensing, hosting as a ''
                @ ''paid service, integrating into commercial products, or use in revenue-generating activities.'',
            li_mail = ''Inquiries'',
            li_sumh = ''This is a summary. The full license text is binding:'',
            li_full = ''View the full license (LICENSE)'',
            li_foot = ''PolyForm Noncommercial License 1.0.0, see polyformproject.org.''\<rparr>
      | De \<Rightarrow> 
            \<lparr>li_title = ''Lizenz'',
            li_intro = ''Lizenz: nicht-kommerziell'',
            li_h = ''Kurz gesagt'',
            li_b1 = ''Nutzen, kopieren, '' @ auml @ ''ndern, weitergeben: f'' @ uuml
                @ ''r jeden nicht-kommerziellen Zweck (privat, Community, Bildung, Forschung).'',
            li_b2 = ''Keine kommerzielle Nutzung ohne gesonderte Lizenz.'',
            li_b3 = ''Lizenz- und Urhebervermerke beibehalten.'',
            li_b4 = ''Ohne Gew'' @ auml @ ''hr / ohne Haftung.'',
            li_ch = ''Kommerzielle Nutzung'',
            li_ct = ''Kommerzielle Nutzung erfordert eine separate kommerzielle Lizenz: Verkauf, ''
                @ ''Unterlizenzierung, Betrieb als bezahlter Dienst, Integration in kommerzielle Produkte oder ''
                @ ''Nutzung in umsatzgenerierenden Aktivit'' @ auml @ ''ten.'',
            li_mail = ''Anfragen'',
            li_sumh = ''Dies ist eine Zusammenfassung. Verbindlich ist der vollst'' @ auml @ ''ndige Lizenztext:'',
            li_full = ''Vollst'' @ auml @ ''ndige Lizenz (LICENSE) ansehen'',
            li_foot = ''PolyForm Noncommercial License 1.0.0, siehe polyformproject.org.''\<rparr>
      | It \<Rightarrow> 
            \<lparr>li_title = ''Licenza'',
            li_intro = ''Licenza: non commerciale'',
            li_h = ''In breve'',
            li_b1 = ''Usare, copiare, modificare, condividere: per qualsiasi scopo non commerciale (privato, ''
                @ ''community, istruzione, ricerca).'',
            li_b2 = ''Nessun uso commerciale senza una licenza separata.'',
            li_b3 = ''Mantenere gli avvisi di licenza e copyright.'',
            li_b4 = ''Fornito cos'' @ igrave @ '' com'' @ apos @ egrave @ '', senza garanzie n'' @ eacute
                @ '' responsabilit'' @ agrave @ ''.'',
            li_ch = ''Uso commerciale'',
            li_ct = ''L'uso commerciale richiede una licenza commerciale separata: vendita, sublicenza, hosting ''
                @ ''come servizio a pagamento, integrazione in prodotti commerciali o uso in attivit'' @ agrave
                @ '' che generano ricavi.'',
            li_mail = ''Richieste'',
            li_sumh = ''Questo '' @ egrave @ '' un riassunto. Fa fede il testo completo della licenza:'',
            li_full = ''Vedi la licenza completa (LICENSE)'',
            li_foot = ''PolyForm Noncommercial License 1.0.0, vedi polyformproject.org.''\<rparr>
      | Es \<Rightarrow> 
            \<lparr>li_title = ''Licencia'',
            li_intro = ''Licencia: no comercial'',
            li_h = ''En resumen'',
            li_b1 = ''Usar, copiar, modificar, compartir: para cualquier fin no comercial (privado, comunidad, ''
                @ ''educaci'' @ oacute @ ''n, investigaci'' @ oacute @ ''n).'',
            li_b2 = ''Sin uso comercial sin una licencia aparte.'',
            li_b3 = ''Conservar los avisos de licencia y copyright.'',
            li_b4 = ''Se ofrece tal cual, sin garant'' @ iacute @ ''a ni responsabilidad.'',
            li_ch = ''Uso comercial'',
            li_ct = ''El uso comercial requiere una licencia comercial aparte: venta, sublicencia, alojamiento ''
                @ ''como servicio de pago, integraci'' @ oacute
                @ ''n en productos comerciales o uso en actividades que generan ingresos.'',
            li_mail = ''Consultas'',
            li_sumh = ''Esto es un resumen. El texto completo de la licencia es vinculante:'',
            li_full = ''Ver la licencia completa (LICENSE)'',
            li_foot = ''PolyForm Noncommercial License 1.0.0, ver polyformproject.org.''\<rparr>
      | Fr \<Rightarrow> 
            \<lparr>li_title = ''Licence'',
            li_intro = ''Licence : non commerciale'',
            li_h = ''En bref'',
            li_b1 = ''Utiliser, copier, modifier, partager : pour tout usage non commercial (priv'' @ eacute
                @ '', communaut'' @ eacute @ '', '' @ eacute @ ''ducation, recherche).'',
            li_b2 = ''Aucun usage commercial sans licence distincte.'',
            li_b3 = ''Conserver les mentions de licence et de droit d'auteur.'',
            li_b4 = ''Fourni en l'' @ apos @ eacute @ ''tat, sans garantie ni responsabilit'' @ eacute @ ''.'',
            li_ch = ''Usage commercial'',
            li_ct = ''L'usage commercial n'' @ eacute
                @ ''cessite une licence commerciale distincte : vente, sous-licence, h'' @ eacute
                @ ''bergement en service payant, int'' @ eacute
                @ ''gration dans des produits commerciaux ou usage dans des activit'' @ eacute @ ''s g'' @ eacute
                @ ''n'' @ eacute @ ''ratrices de revenus.'',
            li_mail = ''Demandes'',
            li_sumh = ''Ceci est un r'' @ eacute @ ''sum'' @ eacute @ ''. Le texte complet de la licence fait foi :'',
            li_full = ''Voir la licence compl'' @ egrave @ ''te (LICENSE)'',
            li_foot = ''PolyForm Noncommercial License 1.0.0, voir polyformproject.org.''\<rparr>)"

record dl_text =
  dt_title :: str
  dt_intro :: str
  dt_store_btn :: str
  dt_store_note :: str
  dt_win :: str
  dt_win_note :: str
  dt_linux :: str
  dt_linux_note :: str
  dt_android :: str
  dt_android_note :: str
  dt_macos :: str
  dt_macos_note :: str
  dt_deck :: str
  dt_deck_note :: str
  dt_verify :: str
  dt_none :: str

definition dl_text_of :: "lang \<Rightarrow> dl_text" where
  "dl_text_of l =
     (case l of
        En \<Rightarrow> 
            \<lparr>dt_title = ''Downloads'',
            dt_intro = ''Recommended: Microsoft code-signs the Store build, so it installs without a warning. The ''
                @ ''direct downloads below are unsigned. Verify the SHA-256 after downloading.'',
            dt_store_btn = ''Get it from Microsoft Store'',
            dt_store_note = ''The Store version updates automatically and shows no SmartScreen warning.'',
            dt_win = ''Windows'',
            dt_win_note = ''Unsigned. Windows SmartScreen warns: \"More info\" then \"Run anyway\".'',
            dt_linux = ''Linux'',
            dt_linux_note = ''Unsigned .deb / .rpm / .AppImage, plus Flatpak for SteamOS / Steam Deck (flatpak install ''
                @ ''./subraum.flatpak). Make AppImages executable: chmod +x.'',
            dt_android = ''Android'',
            dt_android_note = ''Debug-signed APK for sideloading (testing). Enable \"install unknown apps\".'',
            dt_macos = ''macOS'',
            dt_macos_note = ''Unsigned .dmg (Apple Silicon + Intel). First launch: right-click the app, then Open.'',
            dt_deck = ''Stream Deck'',
            dt_deck_note = ''Plugin for the Elgato Stream Deck (6.4 or newer): hold-to-talk, mute, channels, volume. The ''
                @ ''keys show live status. Double-click the file to install it. It needs a running subraum 0.3 ''
                @ ''or newer.'',
            dt_verify = ''SHA-256:'',
            dt_none = ''No builds available yet. Check back after the next release.''\<rparr>
      | De \<Rightarrow> 
            \<lparr>dt_title = ''Downloads'',
            dt_intro = ''Empfohlen: Microsoft signiert die Store-Version, sie installiert ohne Warnung. Die direkten ''
                @ ''Downloads unten sind unsigniert. Pr'' @ uuml @ ''fe nach dem Download die SHA-256.'',
            dt_store_btn = ''Im Microsoft Store holen'',
            dt_store_note = ''Die Store-Version aktualisiert sich automatisch und zeigt keine SmartScreen-Warnung.'',
            dt_win = ''Windows'',
            dt_win_note = ''Unsigniert. Windows SmartScreen warnt: '' @ bdquo @ ''Weitere Informationen\" '' @ rarr @ '' ''
                @ bdquo @ ''Trotzdem ausf'' @ uuml @ ''hren\".'',
            dt_linux = ''Linux'',
            dt_linux_note = ''Unsigniertes .deb / .rpm / .AppImage, dazu Flatpak f'' @ uuml
                @ ''r SteamOS / Steam Deck (flatpak install ./subraum.flatpak). AppImage ausf'' @ uuml
                @ ''hrbar machen: chmod +x.'',
            dt_android = ''Android'',
            dt_android_note = ''Debug-signierte APK zum Sideloaden (Test). '' @ bdquo @ ''Unbekannte Apps installieren\" erlauben.'',
            dt_macos = ''macOS'',
            dt_macos_note = ''Unsigniertes .dmg (Apple Silicon + Intel). Erster Start: Rechtsklick auf die App '' @ rarr @ '' ''
                @ uOuml @ ''ffnen.'',
            dt_deck = ''Stream Deck'',
            dt_deck_note = ''Plugin f'' @ uuml @ ''r das Elgato Stream Deck (ab 6.4): Push-to-Talk halten, Mikro, Kan'' @ auml
                @ ''le, Lautst'' @ auml
                @ ''rke. Die Tasten zeigen den Live-Status. Doppelklick auf die Datei installiert das Plugin. ''
                @ ''Es braucht ein laufendes subraum ab 0.3.'',
            dt_verify = ''SHA-256:'',
            dt_none = ''Noch keine Builds verf'' @ uuml @ ''gbar. Schau nach dem n'' @ auml
                @ ''chsten Release wieder vorbei.''\<rparr>
      | It \<Rightarrow> 
            \<lparr>dt_title = ''Download'',
            dt_intro = ''Consigliato: Microsoft firma la versione dello Store, quindi si installa senza avvisi. I ''
                @ ''download diretti qui sotto non sono firmati. Verifica lo SHA-256 dopo il download.'',
            dt_store_btn = ''Scarica dal Microsoft Store'',
            dt_store_note = ''La versione dello Store si aggiorna da sola e non mostra avvisi SmartScreen.'',
            dt_win = ''Windows'',
            dt_win_note = ''Non firmato. Windows SmartScreen avvisa: \"Ulteriori informazioni\" '' @ rarr
                @ '' \"Esegui comunque\".'',
            dt_linux = ''Linux'',
            dt_linux_note = ''.deb / .rpm / .AppImage non firmati, pi'' @ ugrave
                @ '' Flatpak per SteamOS / Steam Deck (flatpak install ./subraum.flatpak). Rendi eseguibile ''
                @ ''l'AppImage: chmod +x.'',
            dt_android = ''Android'',
            dt_android_note = ''APK con firma di debug per il sideload (test). Abilita \"installa app sconosciute\".'',
            dt_macos = ''macOS'',
            dt_macos_note = ''.dmg non firmato (Apple Silicon + Intel). Primo avvio: clic destro sull'app '' @ rarr @ '' Apri.'',
            dt_deck = ''Stream Deck'',
            dt_deck_note = ''Plugin per Elgato Stream Deck (da 6.4): push-to-talk, microfono, canali, volume. I tasti ''
                @ ''mostrano lo stato live. Fai doppio clic sul file per installarlo. Richiede subraum 0.3 o ''
                @ ''successivo in esecuzione.'',
            dt_verify = ''SHA-256:'',
            dt_none = ''Nessuna build disponibile. Torna dopo la prossima release.''\<rparr>
      | Es \<Rightarrow> 
            \<lparr>dt_title = ''Descargas'',
            dt_intro = ''Recomendado: Microsoft firma la versi'' @ oacute @ ''n de la Store, as'' @ iacute
                @ '' que se instala sin avisos. Las descargas directas de abajo no est'' @ aacute
                @ ''n firmadas. Verifica el SHA-256 tras descargar.'',
            dt_store_btn = ''Descargar de Microsoft Store'',
            dt_store_note = ''La versi'' @ oacute @ ''n de la Store se actualiza sola y no muestra avisos de SmartScreen.'',
            dt_win = ''Windows'',
            dt_win_note = ''Sin firmar. Windows SmartScreen avisa: \"M'' @ aacute @ ''s informaci'' @ oacute @ ''n\" '' @ rarr
                @ '' \"Ejecutar de todas formas\".'',
            dt_linux = ''Linux'',
            dt_linux_note = ''.deb / .rpm / .AppImage sin firmar, m'' @ aacute
                @ ''s Flatpak para SteamOS / Steam Deck (flatpak install ./subraum.flatpak). Haz ejecutable el ''
                @ ''AppImage: chmod +x.'',
            dt_android = ''Android'',
            dt_android_note = ''APK firmada en depuraci'' @ oacute @ ''n para instalaci'' @ oacute
                @ ''n manual (pruebas). Activa \"instalar apps desconocidas\".'',
            dt_macos = ''macOS'',
            dt_macos_note = ''.dmg sin firmar (Apple Silicon + Intel). Primer inicio: clic derecho en la app '' @ rarr
                @ '' Abrir.'',
            dt_deck = ''Stream Deck'',
            dt_deck_note = ''Plugin para Elgato Stream Deck (desde 6.4): pulsar para hablar, micr'' @ oacute
                @ ''fono, canales, volumen. Las teclas muestran el estado en vivo. Haz doble clic en el archivo ''
                @ ''para instalarlo. Requiere subraum 0.3 o posterior en ejecuci'' @ oacute @ ''n.'',
            dt_verify = ''SHA-256:'',
            dt_none = ''A'' @ uacute @ ''n no hay compilaciones. Vuelve tras la pr'' @ oacute @ ''xima versi'' @ oacute
                @ ''n.''\<rparr>
      | Fr \<Rightarrow> 
            \<lparr>dt_title = ''T'' @ eacute @ ''l'' @ eacute @ ''chargements'',
            dt_intro = ''Recommand'' @ eacute
                @ '' : Microsoft signe la version du Store, elle s'installe donc sans avertissement. Les t'' @ eacute
                @ ''l'' @ eacute @ ''chargements directs ci-dessous ne sont pas sign'' @ eacute @ ''s. V'' @ eacute
                @ ''rifiez le SHA-256 apr'' @ egrave @ ''s t'' @ eacute @ ''l'' @ eacute @ ''chargement.'',
            dt_store_btn = ''Obtenir sur le Microsoft Store'',
            dt_store_note = ''La version du Store se met '' @ agrave
                @ '' jour automatiquement et n'affiche aucun avertissement SmartScreen.'',
            dt_win = ''Windows'',
            dt_win_note = ''Non sign'' @ eacute @ ''. Windows SmartScreen avertit : '' @ laquo @ '' Informations compl''
                @ eacute @ ''mentaires '' @ raquo @ '' '' @ rarr @ '' '' @ laquo @ '' Ex'' @ eacute
                @ ''cuter quand m'' @ ecirc @ ''me '' @ raquo @ ''.'',
            dt_linux = ''Linux'',
            dt_linux_note = ''.deb / .rpm / .AppImage non sign'' @ eacute
                @ ''s, plus Flatpak pour SteamOS / Steam Deck (flatpak install ./subraum.flatpak). Rendez ''
                @ ''l'AppImage ex'' @ eacute @ ''cutable : chmod +x.'',
            dt_android = ''Android'',
            dt_android_note = ''APK sign'' @ eacute @ '' en debug pour le sideload (test). Activez '' @ laquo
                @ '' installer des applis inconnues '' @ raquo @ ''.'',
            dt_macos = ''macOS'',
            dt_macos_note = ''.dmg non sign'' @ eacute @ '' (Apple Silicon + Intel). Premier lancement : clic droit sur l'app ''
                @ rarr @ '' Ouvrir.'',
            dt_deck = ''Stream Deck'',
            dt_deck_note = ''Plugin pour l'Elgato Stream Deck ('' @ agrave
                @ '' partir de 6.4) : appuyer-pour-parler, micro, canaux, volume. Les touches affichent l'' @ apos
                @ eacute
                @ ''tat en direct. Double-cliquez sur le fichier pour l'installer. Il faut un subraum 0.3 ou ''
                @ ''plus r'' @ eacute @ ''cent en cours d'ex'' @ eacute @ ''cution.'',
            dt_verify = ''SHA-256 :'',
            dt_none = ''Aucune version disponible pour l'instant. Revenez apr'' @ egrave @ ''s la prochaine release.''\<rparr>)"

end
