(* ===== verification/Texts_Home.thy ===== *)
theory Texts_Home
  imports Texts
begin

text \<open>
  The texts of the home page (\<open>i18n.rs\<close>, \<open>HomeText\<close>), one record per language.
\<close>

record home_text =
  ht_title :: "str"
  ht_eyebrow :: "str"
  ht_lede :: "str"
  ht_renamed :: "str"
  ht_dia_alt :: "str"
  ht_dia_server :: "str"
  ht_dia_server_sub :: "str"
  ht_dia_legend_data :: "str"
  ht_dia_legend_ctrl :: "str"
  ht_planes_eyebrow :: "str"
  ht_p2p_tag :: "str"
  ht_p2p_h :: "str"
  ht_p2p_b :: "str"
  ht_srv_tag :: "str"
  ht_srv_h :: "str"
  ht_srv_b :: "str"
  ht_spec_eyebrow :: "str"
  ht_spec_h :: "str"
  ht_spec_rows :: "str list"
  ht_spec_seen :: "str"
  ht_spec_never :: "str"
  ht_steps_eyebrow :: "str"
  ht_steps_h :: "str"
  ht_steps :: "str list"
  ht_get_eyebrow :: "str"
  ht_get_h :: "str"
  ht_store_btn :: "str"
  ht_store_note :: "str"
  ht_all_dl :: "str"
  ht_announce :: "str"
  ht_shots_eyebrow :: "str"
  ht_links_eyebrow :: "str"
  ht_l_fleet :: "str"
  ht_l_src :: "str"
  ht_l_legal :: "str"
  ht_l_priv :: "str"
  ht_l_lic :: "str"

definition home_en :: home_text where
  "home_en =
    \<lparr>ht_title = ''What is this?'',
     ht_eyebrow = ''Serverless voice mesh '' @ middot @ '' <b>warn-cap 12 '' @ middot @ '' hard-cap 16</b>'',
     ht_lede = ''Push-to-talk voice and chat for a small squad. Audio goes straight from player to player. ''
        @ ''No account, no recording, no media server in the middle.'',
     ht_renamed = ''Previously released as SquadLink Lite. Renamed to subraum because an unrelated app already ''
        @ ''goes by \"SquadLink\". The rename rules out the confusion. Same app, same team.'',
     ht_dia_alt = ''Four peers connected directly to each other for voice, each with a separate dashed control ''
        @ ''link to the signaling service.'',
     ht_dia_server = ''InitConnection'',
     ht_dia_server_sub = ''signaling only'',
     ht_dia_legend_data = ''voice + chat, peer to peer (Opus, DTLS-SRTP)'',
     ht_dia_legend_ctrl = ''control: SDP, ICE, roster, PIN'',
     ht_planes_eyebrow = ''Two planes'',
     ht_p2p_tag = ''Data plane'',
     ht_p2p_h = ''Between players'',
     ht_p2p_b = ''Every peer holds a direct encrypted link to every other peer. Voice and chat travel only ''
        @ ''there. One shared room key seals group audio. The app encodes and seals each frame once, ''
        @ ''then sends it to every peer.'',
     ht_srv_tag = ''Control plane'',
     ht_srv_h = ''One small service'',
     ht_srv_b = ''InitConnection introduces peers to each other and keeps the roster and session PIN. It ''
        @ ''relays the handshake, then steps aside. It cannot decrypt what follows.'',
     ht_spec_eyebrow = ''What crosses the centre'',
     ht_spec_h = ''The signaling service sees exactly this'',
     ht_spec_rows = [''room name'',
        ''session PIN'',
        ''ICE candidates (IPs)'',
        ''voice audio'',
        ''chat messages'',
        ''room key''],
     ht_spec_seen = ''relayed'',
     ht_spec_never = ''never leaves the peers'',
     ht_steps_eyebrow = ''Getting a squad in'',
     ht_steps_h = ''Three steps, no configuration'',
     ht_steps = [''The host creates a session in the app and gets a link and a 6-digit PIN.'',
        ''Mates open the link, install the app, enter code and PIN.'',
        ''The session stays alive while members are connected (max. 24&nbsp;hours).''],
     ht_get_eyebrow = ''Install'',
     ht_get_h = ''Get subraum'',
     ht_store_btn = ''Get it from Microsoft Store'',
     ht_store_note = ''Microsoft signs the Store version, so it shows no warning. The direct installer is unsigned '' @ rarr
        @ '' Windows SmartScreen warns: \"More info\" then \"Run anyway\".'',
     ht_all_dl = ''All downloads &amp; checksums '' @ rarr,
     ht_announce = ''Now on <strong>Windows, Linux (incl. SteamOS / Steam&nbsp;Deck), macOS and ''
        @ ''Android</strong>. <strong>iOS</strong> is finished and runs on-device. Only the ''
        @ ''App&nbsp;Store release is blocked on the Apple developer licence. <a ''
        @ ''href=\"https://twitch.tv/JustCallMeDeimos\">Support the stream</a> to make it happen.'',
     ht_shots_eyebrow = ''The app'',
     ht_links_eyebrow = ''Elsewhere'',
     ht_l_fleet = ''RDOC Fleet Manager'',
     ht_l_src = ''Source on GitHub'',
     ht_l_legal = ''Legal notice'',
     ht_l_priv = ''Privacy'',
     ht_l_lic = ''License''\<rparr>"

definition home_de :: home_text where
  "home_de =
    \<lparr>ht_title = ''Was ist das?'',
     ht_eyebrow = ''Serverloses Voice-Mesh '' @ middot @ '' <b>Warn-Cap 12 '' @ middot @ '' Hard-Cap 16</b>'',
     ht_lede = ''Push-to-Talk-Sprache und Chat f'' @ uuml @ ''r eine kleine Crew. Der Ton l'' @ auml
        @ ''uft direkt von Spieler zu Spieler. Ohne Account, ohne Aufnahme, ohne Medienserver '' @ ''dazwischen.'',
     ht_renamed = ''Fr'' @ uuml @ ''her ver'' @ ouml
        @ ''ffentlicht als SquadLink Lite. Umbenannt in subraum, weil bereits eine andere App den Namen '' @ bdquo
        @ ''SquadLink\" tr'' @ auml @ ''gt. Die Umbenennung schlie'' @ szlig
        @ ''t Verwechslungen aus. Gleiche App, gleiches Team.'',
     ht_dia_alt = ''Vier Teilnehmer sind f'' @ uuml @ ''r Sprache direkt miteinander verbunden, jeder zus'' @ auml @ ''tzlich ''
        @ uuml @ ''ber eine gestrichelte Steuerverbindung mit dem Signaling-Dienst.'',
     ht_dia_server = ''InitConnection'',
     ht_dia_server_sub = ''nur Signaling'',
     ht_dia_legend_data = ''Sprache + Chat, direkt zwischen Peers (Opus, DTLS-SRTP)'',
     ht_dia_legend_ctrl = ''Steuerung: SDP, ICE, Teilnehmerliste, PIN'',
     ht_planes_eyebrow = ''Zwei Ebenen'',
     ht_p2p_tag = ''Datenebene'',
     ht_p2p_h = ''Zwischen den Spielern'',
     ht_p2p_b = ''Jeder Teilnehmer h'' @ auml @ ''lt eine direkte verschl'' @ uuml
        @ ''sselte Verbindung zu jedem anderen. Sprache und Chat laufen ausschlie'' @ szlig
        @ ''lich dort. Ein gemeinsamer Room-Key sichert die Gruppensprache. Die App kodiert und ''
        @ ''versiegelt jeden Frame einmal und schickt ihn dann an alle Teilnehmer.'',
     ht_srv_tag = ''Steuerebene'',
     ht_srv_h = ''Ein kleiner Dienst'',
     ht_srv_b = ''InitConnection stellt die Teilnehmer einander vor und verwaltet Liste und Session-PIN. Er ''
        @ ''vermittelt den Handshake und tritt dann zur Seite. Was danach l'' @ auml @ ''uft, kann er nicht entschl''
        @ uuml @ ''sseln.'',
     ht_spec_eyebrow = ''Was durch die Mitte geht'',
     ht_spec_h = ''Genau das sieht der Signaling-Dienst'',
     ht_spec_rows = [''Room-Name'',
        ''Session-PIN'',
        ''ICE-Kandidaten (IPs)'',
        ''Sprache'',
        ''Chat-Nachrichten'',
        ''Room-Key''],
     ht_spec_seen = ''wird vermittelt'',
     ht_spec_never = ''verl'' @ auml @ ''sst die Peers nie'',
     ht_steps_eyebrow = ''Crew reinholen'',
     ht_steps_h = ''Drei Schritte, keine Konfiguration'',
     ht_steps = [''Host erstellt in der App eine Session und erh'' @ auml @ ''lt einen Link und eine 6-stellige PIN.'',
        ''Mitspieler '' @ ouml @ ''ffnen den Link, installieren die App, geben Code und PIN ein.'',
        ''Die Session bleibt bestehen, solange Teilnehmer verbunden sind (maximal 24&nbsp;Stunden).''],
     ht_get_eyebrow = ''Installieren'',
     ht_get_h = ''subraum holen'',
     ht_store_btn = ''Im Microsoft Store holen'',
     ht_store_note = ''Microsoft signiert die Store-Version, deshalb warnt sie nicht. Der direkte Installer ist ''
        @ ''unsigniert '' @ rarr @ '' Windows SmartScreen warnt: '' @ bdquo @ ''Weitere Informationen\" '' @ rarr
        @ '' '' @ bdquo @ ''Trotzdem ausf'' @ uuml @ ''hren\".'',
     ht_all_dl = ''Alle Downloads &amp; Pr'' @ uuml @ ''fsummen '' @ rarr,
     ht_announce = ''Jetzt f'' @ uuml
        @ ''r <strong>Windows, Linux (inkl. SteamOS / Steam&nbsp;Deck), macOS und Android</strong>. ''
        @ ''<strong>iOS</strong> ist fertig und l'' @ auml @ ''uft auf dem Ger'' @ auml @ ''t. Nur die Ver'' @ ouml
        @ ''ffentlichung im App&nbsp;Store scheitert aber noch an der Apple-Entwickler-Lizenz. <a ''
        @ ''href=\"https://twitch.tv/JustCallMeDeimos\">Unterst'' @ uuml @ ''tze den Stream</a>, um das m'' @ ouml
        @ ''glich zu machen.'',
     ht_shots_eyebrow = ''Die App'',
     ht_links_eyebrow = ''Weiterf'' @ uuml @ ''hrend'',
     ht_l_fleet = ''RDOC Fleetmanager'',
     ht_l_src = ''Quellcode auf GitHub'',
     ht_l_legal = ''Impressum'',
     ht_l_priv = ''Datenschutz'',
     ht_l_lic = ''Lizenz''\<rparr>"

definition home_it :: home_text where
  "home_it =
    \<lparr>ht_title = ''Che cos'' @ apos @ egrave @ ''?'',
     ht_eyebrow = ''Voice mesh senza server '' @ middot @ '' <b>soglia 12 '' @ middot @ '' limite 16</b>'',
     ht_lede = ''Voce push-to-talk e chat per un piccolo gruppo. L'audio passa direttamente da giocatore a ''
        @ ''giocatore. Senza account, senza registrazioni, senza media server nel mezzo.'',
     ht_renamed = ''Pubblicata in precedenza come SquadLink Lite. Rinominata in subraum perch'' @ eacute @ '' esiste gi''
        @ agrave @ '' un'altra app chiamata \"SquadLink\". Il cambio di nome evita ogni confusione. Stessa app, ''
        @ ''stesso team.'',
     ht_dia_alt = ''Quattro partecipanti collegati direttamente tra loro per la voce, ciascuno con un ''
        @ ''collegamento di controllo tratteggiato verso il servizio di signaling.'',
     ht_dia_server = ''InitConnection'',
     ht_dia_server_sub = ''solo signaling'',
     ht_dia_legend_data = ''voce + chat, da peer a peer (Opus, DTLS-SRTP)'',
     ht_dia_legend_ctrl = ''controllo: SDP, ICE, elenco, PIN'',
     ht_planes_eyebrow = ''Due piani'',
     ht_p2p_tag = ''Piano dati'',
     ht_p2p_h = ''Tra i giocatori'',
     ht_p2p_b = ''Ogni partecipante mantiene un collegamento cifrato diretto con ogni altro. Voce e chat ''
        @ ''viaggiano solo l'' @ igrave
        @ ''. Una chiave di stanza condivisa protegge l'audio di gruppo. L'app codifica e sigilla ogni ''
        @ ''frame una volta sola, poi lo invia a tutti i partecipanti.'',
     ht_srv_tag = ''Piano di controllo'',
     ht_srv_h = ''Un piccolo servizio'',
     ht_srv_b = ''InitConnection presenta i partecipanti tra loro e gestisce l'elenco e il PIN di sessione. ''
        @ ''Media l'handshake e poi si fa da parte. Non pu'' @ ograve @ '' decifrare ci'' @ ograve @ '' che segue.'',
     ht_spec_eyebrow = ''Cosa passa dal centro'',
     ht_spec_h = ''Il servizio di signaling vede esattamente questo'',
     ht_spec_rows = [''nome della stanza'',
        ''PIN di sessione'',
        ''candidati ICE (IP)'',
        ''audio della voce'',
        ''messaggi di chat'',
        ''chiave di stanza''],
     ht_spec_seen = ''viene mediato'',
     ht_spec_never = ''non lascia mai i peer'',
     ht_steps_eyebrow = ''Far entrare il gruppo'',
     ht_steps_h = ''Tre passaggi, nessuna configurazione'',
     ht_steps = [''L'host crea una sessione nell'app e riceve un link e un PIN di 6 cifre.'',
        ''I compagni aprono il link, installano l'app, inseriscono codice e PIN.'',
        ''La sessione resta attiva finch'' @ eacute @ '' ci sono partecipanti collegati (max 24&nbsp;ore).''],
     ht_get_eyebrow = ''Installazione'',
     ht_get_h = ''Ottieni subraum'',
     ht_store_btn = ''Scarica dal Microsoft Store'',
     ht_store_note = ''Microsoft firma la versione dello Store, quindi non mostra avvisi. L'installer diretto non '' @ egrave
        @ '' firmato '' @ rarr @ '' Windows SmartScreen avvisa: \"Ulteriori informazioni\" '' @ rarr
        @ '' \"Esegui comunque\".'',
     ht_all_dl = ''Tutti i download e i checksum '' @ rarr,
     ht_announce = ''Ora su <strong>Windows, Linux (incl. SteamOS / Steam&nbsp;Deck), macOS e Android</strong>. ''
        @ ''<strong>iOS</strong> '' @ egrave
        @ '' pronto e gira sul dispositivo. Solo la pubblicazione sull'App&nbsp;Store '' @ egrave
        @ '' bloccata dalla licenza sviluppatore Apple. <a ''
        @ ''href=\"https://twitch.tv/JustCallMeDeimos\">Sostieni lo stream</a> per renderlo possibile.'',
     ht_shots_eyebrow = ''L'app'',
     ht_links_eyebrow = ''Altrove'',
     ht_l_fleet = ''RDOC Fleet Manager'',
     ht_l_src = ''Codice su GitHub'',
     ht_l_legal = ''Note legali'',
     ht_l_priv = ''Privacy'',
     ht_l_lic = ''Licenza''\<rparr>"

definition home_es :: home_text where
  "home_es =
    \<lparr>ht_title = iquest @ ''Qu'' @ eacute @ '' es esto?'',
     ht_eyebrow = ''Malla de voz sin servidor '' @ middot @ '' <b>aviso 12 '' @ middot @ '' l'' @ iacute @ ''mite 16</b>'',
     ht_lede = ''Voz por pulsar para hablar y chat para un grupo peque'' @ ntilde
        @ ''o. El audio va directo de jugador a jugador. Sin cuenta, sin grabaci'' @ oacute
        @ ''n, sin servidor de medios en medio.'',
     ht_renamed = ''Publicada anteriormente como SquadLink Lite. Renombrada a subraum porque ya existe otra '' @ ''aplicaci''
        @ oacute @ ''n llamada \"SquadLink\". El cambio de nombre evita la confusi'' @ oacute
        @ ''n. La misma app, el mismo equipo.'',
     ht_dia_alt = ''Cuatro participantes conectados directamente entre s'' @ iacute
        @ '' para la voz, cada uno con un enlace de control discontinuo hacia el servicio de se'' @ ntilde
        @ ''alizaci'' @ oacute @ ''n.'',
     ht_dia_server = ''InitConnection'',
     ht_dia_server_sub = ''solo se'' @ ntilde @ ''alizaci'' @ oacute @ ''n'',
     ht_dia_legend_data = ''voz + chat, entre pares (Opus, DTLS-SRTP)'',
     ht_dia_legend_ctrl = ''control: SDP, ICE, lista, PIN'',
     ht_planes_eyebrow = ''Dos planos'',
     ht_p2p_tag = ''Plano de datos'',
     ht_p2p_h = ''Entre los jugadores'',
     ht_p2p_b = ''Cada participante mantiene un enlace cifrado directo con todos los dem'' @ aacute
        @ ''s. La voz y el chat solo circulan ah'' @ iacute
        @ ''. Una clave de sala compartida protege el audio del grupo. La app codifica y sella cada ''
        @ ''trama una sola vez, luego la env'' @ iacute @ ''a a todos los participantes.'',
     ht_srv_tag = ''Plano de control'',
     ht_srv_h = ''Un servicio peque'' @ ntilde @ ''o'',
     ht_srv_b = ''InitConnection presenta a los participantes entre s'' @ iacute @ '' y guarda la lista y el PIN de sesi''
        @ oacute @ ''n. Media el saludo inicial y luego se aparta. No puede descifrar lo que sigue.'',
     ht_spec_eyebrow = ''Qu'' @ eacute @ '' pasa por el centro'',
     ht_spec_h = ''El servicio de se'' @ ntilde @ ''alizaci'' @ oacute @ ''n ve exactamente esto'',
     ht_spec_rows = [''nombre de la sala'',
        ''PIN de sesi'' @ oacute @ ''n'',
        ''candidatos ICE (IP)'',
        ''audio de voz'',
        ''mensajes de chat'',
        ''clave de sala''],
     ht_spec_seen = ''se media'',
     ht_spec_never = ''nunca sale de los pares'',
     ht_steps_eyebrow = ''Meter al grupo'',
     ht_steps_h = ''Tres pasos, sin configuraci'' @ oacute @ ''n'',
     ht_steps = [''El anfitri'' @ oacute @ ''n crea una sesi'' @ oacute @ ''n en la app y obtiene un enlace y un PIN de 6 d''
          @ iacute @ ''gitos.'',
        ''Los compa'' @ ntilde @ ''eros abren el enlace, instalan la app e introducen c'' @ oacute @ ''digo y PIN.'',
        ''La sesi'' @ oacute @ ''n sigue activa mientras haya participantes conectados (m'' @ aacute
          @ ''x. 24&nbsp;horas).''],
     ht_get_eyebrow = ''Instalaci'' @ oacute @ ''n'',
     ht_get_h = ''Consigue subraum'',
     ht_store_btn = ''Descargar de Microsoft Store'',
     ht_store_note = ''Microsoft firma la versi'' @ oacute
        @ ''n de la Store, por eso no muestra avisos. El instalador directo no est'' @ aacute @ '' firmado '' @ rarr
        @ '' Windows SmartScreen avisa: \"M'' @ aacute @ ''s informaci'' @ oacute @ ''n\" '' @ rarr
        @ '' \"Ejecutar de todas formas\".'',
     ht_all_dl = ''Todas las descargas y sumas de verificaci'' @ oacute @ ''n '' @ rarr,
     ht_announce = ''Ya en <strong>Windows, Linux (incl. SteamOS / Steam&nbsp;Deck), macOS y Android</strong>. ''
        @ ''<strong>iOS</strong> est'' @ aacute @ '' terminado y funciona en el dispositivo. Solo la publicaci''
        @ oacute @ ''n en la App&nbsp;Store depende de la licencia de desarrollador de Apple. <a ''
        @ ''href=\"https://twitch.tv/JustCallMeDeimos\">Apoya el stream</a> para hacerlo posible.'',
     ht_shots_eyebrow = ''La app'',
     ht_links_eyebrow = ''En otros sitios'',
     ht_l_fleet = ''RDOC Fleet Manager'',
     ht_l_src = ''C'' @ oacute @ ''digo en GitHub'',
     ht_l_legal = ''Aviso legal'',
     ht_l_priv = ''Privacidad'',
     ht_l_lic = ''Licencia''\<rparr>"

definition home_fr :: home_text where
  "home_fr =
    \<lparr>ht_title = ''Qu'est-ce que c'est ?'',
     ht_eyebrow = ''Maillage vocal sans serveur '' @ middot @ '' <b>alerte 12 '' @ middot @ '' limite 16</b>'',
     ht_lede = ''Voix en push-to-talk et chat pour une petite '' @ eacute @ ''quipe. L'audio va directement d'un joueur ''
        @ agrave @ '' l'autre. Sans compte, sans enregistrement, sans serveur m'' @ eacute @ ''dia au milieu.'',
     ht_renamed = ''Publi'' @ eacute @ ''e auparavant sous le nom SquadLink Lite. Renomm'' @ eacute
        @ ''e subraum car une autre application porte d'' @ eacute @ ''j'' @ agrave @ '' le nom '' @ laquo
        @ '' SquadLink '' @ raquo @ ''. Ce changement '' @ eacute @ ''vite toute confusion. M'' @ ecirc
        @ ''me app, m'' @ ecirc @ ''me '' @ eacute @ ''quipe.'',
     ht_dia_alt = ''Quatre participants reli'' @ eacute
        @ ''s directement entre eux pour la voix, chacun avec une liaison de contr'' @ ocirc @ ''le en pointill''
        @ eacute @ ''s vers le service de signalisation.'',
     ht_dia_server = ''InitConnection'',
     ht_dia_server_sub = ''signalisation seule'',
     ht_dia_legend_data = ''voix + chat, de pair '' @ agrave @ '' pair (Opus, DTLS-SRTP)'',
     ht_dia_legend_ctrl = ''contr'' @ ocirc @ ''le : SDP, ICE, liste, PIN'',
     ht_planes_eyebrow = ''Deux plans'',
     ht_p2p_tag = ''Plan de donn'' @ eacute @ ''es'',
     ht_p2p_h = ''Entre les joueurs'',
     ht_p2p_b = ''Chaque participant garde une liaison chiffr'' @ eacute
        @ ''e directe avec tous les autres. La voix et le chat n'y circulent que l'' @ agrave @ ''. Une cl'' @ eacute
        @ '' de salon partag'' @ eacute @ ''e prot'' @ egrave
        @ ''ge l'audio de groupe. L'app encode et scelle chaque trame une seule fois, puis l'envoie '' @ agrave
        @ '' tous les participants.'',
     ht_srv_tag = ''Plan de contr'' @ ocirc @ ''le'',
     ht_srv_h = ''Un petit service'',
     ht_srv_b = ''InitConnection pr'' @ eacute
        @ ''sente les participants entre eux et tient la liste et le code PIN de session. Il relaie la '' @ ''poign''
        @ eacute @ ''e de main puis s'efface. Il ne peut pas d'' @ eacute @ ''chiffrer ce qui suit.'',
     ht_spec_eyebrow = ''Ce qui passe par le centre'',
     ht_spec_h = ''Le service de signalisation voit exactement ceci'',
     ht_spec_rows = [''nom du salon'',
        ''PIN de session'',
        ''candidats ICE (IP)'',
        ''audio de la voix'',
        ''messages de chat'',
        ''cl'' @ eacute @ '' de salon''],
     ht_spec_seen = ''relay'' @ eacute,
     ht_spec_never = ''ne quitte jamais les pairs'',
     ht_steps_eyebrow = ''Faire entrer l'' @ apos @ eacute @ ''quipe'',
     ht_steps_h = ''Trois '' @ eacute @ ''tapes, aucune configuration'',
     ht_steps = [''L'h'' @ ocirc @ ''te cr'' @ eacute @ ''e une session dans l'app et obtient un lien et un code PIN ''
          @ agrave @ '' 6 chiffres.'',
        ''Les co'' @ eacute @ ''quipiers ouvrent le lien, installent l'app, saisissent le code et le PIN.'',
        ''La session reste active tant que des participants sont connect'' @ eacute @ ''s (max. 24&nbsp;heures).''],
     ht_get_eyebrow = ''Installation'',
     ht_get_h = ''Obtenir subraum'',
     ht_store_btn = ''Obtenir sur le Microsoft Store'',
     ht_store_note = ''Microsoft signe la version du Store, elle n'affiche donc aucun avertissement. L'installeur ''
        @ ''direct n'est pas sign'' @ eacute @ '' '' @ rarr @ '' Windows SmartScreen avertit : '' @ laquo
        @ '' Informations compl'' @ eacute @ ''mentaires '' @ raquo @ '' '' @ rarr @ '' '' @ laquo @ '' Ex'' @ eacute
        @ ''cuter quand m'' @ ecirc @ ''me '' @ raquo @ ''.'',
     ht_all_dl = ''Tous les t'' @ eacute @ ''l'' @ eacute @ ''chargements et sommes de contr'' @ ocirc @ ''le '' @ rarr,
     ht_announce = ''D'' @ eacute @ ''sormais sur <strong>Windows, Linux (dont SteamOS / Steam&nbsp;Deck), macOS et ''
        @ ''Android</strong>. <strong>iOS</strong> est pr'' @ ecirc
        @ ''t et tourne sur l'appareil. Seule la publication sur l'App&nbsp;Store est bloqu'' @ eacute
        @ ''e par la licence d'' @ eacute
        @ ''veloppeur Apple. <a href=\"https://twitch.tv/JustCallMeDeimos\">Soutiens le stream</a> pour ''
        @ ''rendre '' @ ccedil @ ''a possible.'',
     ht_shots_eyebrow = ''L'application'',
     ht_links_eyebrow = ''Ailleurs'',
     ht_l_fleet = ''RDOC Fleet Manager'',
     ht_l_src = ''Code sur GitHub'',
     ht_l_legal = ''Mentions l'' @ eacute @ ''gales'',
     ht_l_priv = ''Confidentialit'' @ eacute,
     ht_l_lic = ''Licence''\<rparr>"

definition home_text_of :: "lang \<Rightarrow> home_text" where
  "home_text_of l = (case l of En \<Rightarrow> home_en | De \<Rightarrow> home_de | It \<Rightarrow> home_it | Es \<Rightarrow> home_es | Fr \<Rightarrow> home_fr)"

end
