(* ===== verification/Texts_Docs.thy ===== *)
theory Texts_Docs
  imports Texts
begin

text \<open>
  The privacy page and the legal notice (\<open>i18n.rs\<close>).
\<close>

definition PRIVACY_EN :: str where
  "PRIVACY_EN =
     ''<h1>Privacy</h1>'' @ nl @ ''<p class=\"muted\">subraum is built for data minimisation.</p>'' @ nl
     @ ''<h2>What does NOT happen</h2>'' @ nl @ ''<ul>'' @ nl
     @ ''<li><b>No audio/chat recording.</b> Voice and text are peer-to-peer (DTLS-SRTP / encrypted ''
     @ ''DataChannel) and are stored nowhere.</li>'' @ nl
     @ ''<li><b>No accounts</b>, no login, no tracking, no ads, <b>no tracking cookies</b>.</li>'' @ nl
     @ ''<li>The brokering server <b>never sees media</b>. Voice and chat never pass through it.</li>'' @ nl
     @ ''</ul>'' @ nl @ ''<h2>What is processed</h2>'' @ nl @ ''<ul>'' @ nl
     @ ''<li><b>Signaling</b>: to connect, the apps exchange connection data via the server (SDP/ICE ''
     @ ''candidates, chosen display name, room/session mapping). This lives only <b>in memory</b> ''
     @ ''and is dropped once the room is empty (within 24&nbsp;h at most).</li>'' @ nl
     @ ''<li><b>Session brokering</b>: a random code + 6-digit PIN are held temporarily in memory ''
     @ ''(max 24&nbsp;h) to let mates join without configuration.</li>'' @ nl
     @ ''<li><b>Connection metadata</b>: like any internet service the server technically sees IP ''
     @ ''addresses on connect; they are not persistently logged.</li>'' @ nl
     @ ''<li><b>TURN relay (fallback only)</b>: if no direct path is possible, encrypted audio may ''
     @ ''pass through a relay. It forwards only <b>encrypted bytes</b> and cannot decrypt them.</li>'' @ nl
     @ ''<li><b>Text size</b>: picking a larger size on this site sets exactly one cookie, ''
     @ ''<code>subraum_ui</code>, holding nothing but <code>md</code>, <code>lg</code> or ''
     @ ''<code>xl</code>. It expires after a year, goes to nobody else and identifies no one. ''
     @ ''Without it the size resets on your next visit; browser zoom (Ctrl&nbsp;+) does the same job ''
     @ ''with no cookie at all.</li>'' @ nl @ ''</ul>'' @ nl @ ''<h2>Third parties</h2>'' @ nl
     @ ''<p>Installers are served via GitHub Releases (GitHub's privacy terms apply to the ''
     @ ''download). STUN/TURN may use public STUN servers for NAT discovery.</p>'' @ nl @ ''<h2>Contact</h2>'' @ nl
     @ ''<p>Controller: see the <a href=\"/legal?lang=en\">legal notice</a>. Requests via <a ''
     @ ''href=\"https://raumdock.org\">raumdock.org</a>.</p>''"

definition PRIVACY_DE :: str where
  "PRIVACY_DE =
     ''<h1>Datenschutzerkl'' @ auml @ ''rung</h1>'' @ nl
     @ ''<p class=\"muted\">subraum ist auf Datensparsamkeit ausgelegt.</p>'' @ nl @ ''<h2>Was NICHT passiert</h2>''
     @ nl @ ''<ul>'' @ nl
     @ ''<li><b>Keine Audio-/Chat-Aufzeichnung.</b> Sprache und Text laufen Peer-to-Peer (DTLS-SRTP ''
     @ ''bzw. verschl'' @ uuml @ ''sselter DataChannel) und werden nirgends gespeichert.</li>'' @ nl
     @ ''<li><b>Keine Benutzerkonten</b>, kein Login, kein Tracking, keine Werbung, <b>keine ''
     @ ''Tracking-Cookies</b>.</li>'' @ nl
     @ ''<li>Der Vermittlungsserver <b>sieht den Medieninhalt nicht</b>. Stimme und Chat flie'' @ szlig @ ''en nie ''
     @ uuml @ ''ber ihn.</li>'' @ nl @ ''</ul>'' @ nl @ ''<h2>Was verarbeitet wird</h2>'' @ nl @ ''<ul>'' @ nl
     @ ''<li><b>Signaling</b>: Beim Verbinden tauschen die Apps '' @ uuml
     @ ''ber den Server Verbindungsdaten aus (SDP/ICE-Kandidaten, Anzeigename, ''
     @ ''Raum-/Session-Zuordnung). Diese liegen nur <b>fl'' @ uuml @ ''chtig im Arbeitsspeicher</b> und werden gel''
     @ ouml @ ''scht, sobald der Raum leer ist (sp'' @ auml @ ''testens nach 24&nbsp;h).</li>'' @ nl
     @ ''<li><b>Session-Vermittlung</b>: Ein zuf'' @ auml @ ''lliger Code + 6-stellige PIN werden tempor'' @ auml
     @ ''r im Speicher gehalten (max. 24&nbsp;h).</li>'' @ nl
     @ ''<li><b>Verbindungs-Metadaten</b>: Wie bei jedem Internetdienst sind dem Server beim ''
     @ ''Verbinden IP-Adressen technisch bekannt; sie werden nicht dauerhaft protokolliert.</li>'' @ nl
     @ ''<li><b>TURN-Relay (nur Fallback)</b>: Falls keine direkte Verbindung m'' @ ouml @ ''glich ist, kann verschl''
     @ uuml @ ''sselter Audioverkehr '' @ uuml @ ''ber einen Relay laufen. Der Relay leitet nur <b>verschl'' @ uuml
     @ ''sselte Bytes</b> weiter.</li>'' @ nl @ ''<li><b>Schriftgr'' @ ouml @ szlig
     @ ''e</b>: Wer auf dieser Seite eine gr'' @ ouml @ szlig @ ''ere Darstellung w'' @ auml
     @ ''hlt, bekommt genau einen Cookie, <code>subraum_ui</code>, mit nichts darin au'' @ szlig
     @ ''er <code>md</code>, <code>lg</code> oder <code>xl</code>. Er l'' @ auml
     @ ''uft nach einem Jahr ab, geht an niemanden sonst und identifiziert niemanden. Ohne ihn steht '' @ ''die Gr''
     @ ouml @ szlig @ ''e beim n'' @ auml
     @ ''chsten Besuch wieder auf normal; der Browser-Zoom (Strg&nbsp;+) leistet dasselbe ganz ohne ''
     @ ''Cookie.</li>'' @ nl @ ''</ul>'' @ nl @ ''<h2>Drittanbieter</h2>'' @ nl @ ''<p>Installer werden '' @ uuml
     @ ''ber GitHub Releases bereitgestellt (beim Download gelten die Bestimmungen von GitHub). ''
     @ ''STUN/TURN kann '' @ ouml @ ''ffentliche STUN-Server zur NAT-Erkennung nutzen.</p>'' @ nl
     @ ''<h2>Kontakt</h2>'' @ nl @ ''<p>Verantwortlich: siehe <a href=\"/legal?lang=de\">Impressum</a>. Anfragen ''
     @ uuml @ ''ber <a href=\"https://raumdock.org\">raumdock.org</a>.</p>''"

definition PRIVACY_IT :: str where
  "PRIVACY_IT =
     ''<h1>Privacy</h1>'' @ nl @ ''<p class=\"muted\">subraum '' @ egrave
     @ '' progettato per la minimizzazione dei dati.</p>'' @ nl @ ''<h2>Cosa NON accade</h2>'' @ nl @ ''<ul>'' @ nl
     @ ''<li><b>Nessuna registrazione audio/chat.</b> Voce e testo sono peer-to-peer (DTLS-SRTP / ''
     @ ''DataChannel cifrato) e non vengono memorizzati da nessuna parte.</li>'' @ nl
     @ ''<li><b>Nessun account</b>, nessun login, nessun tracciamento, nessuna pubblicit'' @ agrave
     @ '', <b>nessun cookie di tracciamento</b>.</li>'' @ nl
     @ ''<li>Il server di intermediazione <b>non vede i contenuti multimediali</b>.</li>'' @ nl @ ''</ul>'' @ nl
     @ ''<h2>Cosa viene trattato</h2>'' @ nl @ ''<ul>'' @ nl
     @ ''<li><b>Signaling</b>: per connettersi, le app scambiano dati di connessione tramite il ''
     @ ''server (candidati SDP/ICE, nome visualizzato, associazione stanza/sessione). Restano solo ''
     @ ''<b>in memoria</b> e vengono eliminati quando la stanza '' @ egrave @ '' vuota (entro 24&nbsp;h).</li>'' @ nl
     @ ''<li><b>Intermediazione sessione</b>: un codice casuale + PIN di 6 cifre sono tenuti ''
     @ ''temporaneamente in memoria (max 24&nbsp;h).</li>'' @ nl
     @ ''<li><b>Metadati di connessione</b>: come ogni servizio internet, gli indirizzi IP sono ''
     @ ''tecnicamente noti alla connessione; non vengono registrati in modo persistente.</li>'' @ nl
     @ ''<li><b>Relay TURN (solo fallback)</b>: se non '' @ egrave
     @ '' possibile una via diretta, l'audio cifrato pu'' @ ograve
     @ '' passare per un relay, che inoltra solo <b>byte cifrati</b>.</li>'' @ nl
     @ ''<li><b>Dimensione del testo</b>: scegliendo una dimensione pi'' @ ugrave
     @ '' grande su questo sito viene impostato esattamente un cookie, <code>subraum_ui</code>, che ''
     @ ''contiene solo <code>md</code>, <code>lg</code> o <code>xl</code>. Scade dopo un anno, non ''
     @ ''va a nessun altro e non identifica nessuno. Senza di esso la dimensione torna normale alla ''
     @ ''visita successiva; lo zoom del browser (Ctrl&nbsp;+) fa lo stesso senza alcun cookie.</li>'' @ nl @ ''</ul>''
     @ nl @ ''<h2>Terze parti</h2>'' @ nl @ ''<p>Gli installer sono distribuiti via GitHub Releases. STUN/TURN pu''
     @ ograve @ '' usare server STUN pubblici per il rilevamento NAT.</p>'' @ nl @ ''<h2>Contatto</h2>'' @ nl
     @ ''<p>Titolare: vedi <a href=\"/legal?lang=it\">note legali</a>. Richieste tramite <a ''
     @ ''href=\"https://raumdock.org\">raumdock.org</a>.</p>''"

definition PRIVACY_ES :: str where
  "PRIVACY_ES =
     ''<h1>Privacidad</h1>'' @ nl @ ''<p class=\"muted\">subraum est'' @ aacute @ '' dise'' @ ntilde
     @ ''ado para minimizar los datos.</p>'' @ nl @ ''<h2>Lo que NO ocurre</h2>'' @ nl @ ''<ul>'' @ nl
     @ ''<li><b>Sin grabaci'' @ oacute
     @ ''n de audio/chat.</b> La voz y el texto son peer-to-peer (DTLS-SRTP / DataChannel cifrado) y ''
     @ ''no se almacenan en ning'' @ uacute @ ''n sitio.</li>'' @ nl @ ''<li><b>Sin cuentas</b>, sin inicio de sesi''
     @ oacute @ ''n, sin seguimiento, sin anuncios, <b>sin cookies de seguimiento</b>.</li>'' @ nl
     @ ''<li>El servidor de intermediaci'' @ oacute @ ''n <b>nunca ve el contenido multimedia</b>.</li>'' @ nl
     @ ''</ul>'' @ nl @ ''<h2>Qu'' @ eacute @ '' se procesa</h2>'' @ nl @ ''<ul>'' @ nl @ ''<li><b>Se'' @ ntilde
     @ ''alizaci'' @ oacute @ ''n</b>: para conectar, las apps intercambian datos de conexi'' @ oacute @ ''n a trav''
     @ eacute @ ''s del servidor (candidatos SDP/ICE, nombre mostrado, asignaci'' @ oacute @ ''n de sala/sesi''
     @ oacute @ ''n). Solo permanecen <b>en memoria</b> y se eliminan cuando la sala queda vac'' @ iacute
     @ ''a (en 24&nbsp;h como m'' @ aacute @ ''ximo).</li>'' @ nl @ ''<li><b>Intermediaci'' @ oacute @ ''n de sesi''
     @ oacute @ ''n</b>: un c'' @ oacute @ ''digo aleatorio + PIN de 6 d'' @ iacute
     @ ''gitos se guardan temporalmente en memoria (m'' @ aacute @ ''x. 24&nbsp;h).</li>'' @ nl
     @ ''<li><b>Metadatos de conexi'' @ oacute
     @ ''n</b>: como cualquier servicio de internet, las direcciones IP se conocen t'' @ eacute
     @ ''cnicamente al conectar; no se registran de forma persistente.</li>'' @ nl
     @ ''<li><b>Relay TURN (solo respaldo)</b>: si no hay ruta directa, el audio cifrado puede pasar ''
     @ ''por un relay, que solo reenv'' @ iacute @ ''a <b>bytes cifrados</b>.</li>'' @ nl @ ''<li><b>Tama'' @ ntilde
     @ ''o del texto</b>: elegir un tama'' @ ntilde
     @ ''o mayor en este sitio establece exactamente una cookie, <code>subraum_ui</code>, que ''
     @ ''contiene solo <code>md</code>, <code>lg</code> o <code>xl</code>. Caduca al cabo de un a'' @ ntilde
     @ ''o, no se env'' @ iacute @ ''a a nadie m'' @ aacute @ ''s y no identifica a nadie. Sin ella el tama'' @ ntilde
     @ ''o vuelve a normal en la pr'' @ oacute
     @ ''xima visita; el zoom del navegador (Ctrl&nbsp;+) hace lo mismo sin ninguna cookie.</li>'' @ nl @ ''</ul>''
     @ nl @ ''<h2>Terceros</h2>'' @ nl @ ''<p>Los instaladores se sirven v'' @ iacute
     @ ''a GitHub Releases. STUN/TURN puede usar servidores STUN p'' @ uacute @ ''blicos para la detecci'' @ oacute
     @ ''n de NAT.</p>'' @ nl @ ''<h2>Contacto</h2>'' @ nl
     @ ''<p>Responsable: ver <a href=\"/legal?lang=es\">aviso legal</a>. Solicitudes v'' @ iacute
     @ ''a <a href=\"https://raumdock.org\">raumdock.org</a>.</p>''"

definition PRIVACY_FR :: str where
  "PRIVACY_FR =
     ''<h1>Confidentialit'' @ eacute @ ''</h1>'' @ nl @ ''<p class=\"muted\">subraum est con'' @ ccedil
     @ ''u pour la minimisation des donn'' @ eacute @ ''es.</p>'' @ nl @ ''<h2>Ce qui n'arrive PAS</h2>'' @ nl
     @ ''<ul>'' @ nl @ ''<li><b>Aucun enregistrement audio/chat.</b> La voix et le texte sont pair-'' @ agrave
     @ ''-pair (DTLS-SRTP / DataChannel chiffr'' @ eacute @ '') et ne sont stock'' @ eacute @ ''s nulle part.</li>''
     @ nl @ ''<li><b>Aucun compte</b>, pas de connexion, pas de suivi, pas de publicit'' @ eacute
     @ '', <b>pas de cookies de suivi</b>.</li>'' @ nl @ ''<li>Le serveur d'interm'' @ eacute
     @ ''diation <b>ne voit jamais le contenu multim'' @ eacute @ ''dia</b>.</li>'' @ nl @ ''</ul>'' @ nl
     @ ''<h2>Ce qui est trait'' @ eacute @ ''</h2>'' @ nl @ ''<ul>'' @ nl
     @ ''<li><b>Signalisation</b> : pour se connecter, les apps '' @ eacute @ ''changent des donn'' @ eacute
     @ ''es de connexion via le serveur (candidats SDP/ICE, nom affich'' @ eacute
     @ '', association salle/session). Elles restent uniquement <b>en m'' @ eacute @ ''moire</b> et sont supprim''
     @ eacute @ ''es d'' @ egrave @ ''s que la salle est vide (sous 24&nbsp;h au plus).</li>'' @ nl
     @ ''<li><b>Interm'' @ eacute @ ''diation de session</b> : un code al'' @ eacute @ ''atoire + PIN '' @ agrave
     @ '' 6 chiffres sont conserv'' @ eacute @ ''s temporairement en m'' @ eacute @ ''moire (max 24&nbsp;h).</li>''
     @ nl @ ''<li><b>M'' @ eacute @ ''tadonn'' @ eacute
     @ ''es de connexion</b> : comme tout service internet, les adresses IP sont techniquement '' @ ''connues ''
     @ agrave @ '' la connexion ; elles ne sont pas journalis'' @ eacute @ ''es durablement.</li>'' @ nl
     @ ''<li><b>Relais TURN (repli uniquement)</b> : si aucune voie directe n'est possible, l'audio '' @ ''chiffr''
     @ eacute @ '' peut transiter par un relais, qui ne relaie que des <b>octets chiffr'' @ eacute @ ''s</b>.</li>''
     @ nl @ ''<li><b>Taille du texte</b> : choisir une taille plus grande sur ce site d'' @ eacute
     @ ''pose exactement un cookie, <code>subraum_ui</code>, qui ne contient que <code>md</code>, ''
     @ ''<code>lg</code> ou <code>xl</code>. Il expire au bout d'un an, n'est transmis '' @ agrave
     @ '' personne et n'identifie personne. Sans lui, la taille revient '' @ agrave @ '' la normale '' @ agrave
     @ '' la prochaine visite ; le zoom du navigateur (Ctrl&nbsp;+) fait la m'' @ ecirc
     @ ''me chose sans aucun cookie.</li>'' @ nl @ ''</ul>'' @ nl @ ''<h2>Tiers</h2>'' @ nl
     @ ''<p>Les installeurs sont distribu'' @ eacute
     @ ''s via GitHub Releases. STUN/TURN peut utiliser des serveurs STUN publics pour la d'' @ eacute
     @ ''couverte NAT.</p>'' @ nl @ ''<h2>Contact</h2>'' @ nl
     @ ''<p>Responsable : voir les <a href=\"/legal?lang=fr\">mentions l'' @ eacute
     @ ''gales</a>. Demandes via <a href=\"https://raumdock.org\">raumdock.org</a>.</p>''"

definition LEGAL_EN :: str where
  "LEGAL_EN =
     ''<h1>Legal notice</h1>'' @ nl @ ''<p>subraum is a non-commercial community project (<a ''
     @ ''href=\"https://raumdock.org\">raumdock.org</a>).</p>'' @ nl @ ''<h2>Authors</h2>'' @ nl
     @ ''<p>head87x &amp; justcallmedeimos</p>'' @ nl @ ''<h2>Provider</h2>'' @ nl
     @ ''<p class=\"muted\">Operator: raumdock.org<br>Contact: via <a ''
     @ ''href=\"https://raumdock.org\">raumdock.org</a></p>'' @ nl @ ''<h2>Liability</h2>'' @ nl
     @ ''<p>The software is provided \"as is\", without warranty or liability (see the <a ''
     @ ''href=\"/license?lang=en\">license</a>). The operators of linked external sites are ''
     @ ''responsible for their content.</p>''"

definition LEGAL_DE :: str where
  "LEGAL_DE =
     ''<h1>Impressum / Rechtliches</h1>'' @ nl @ ''<p>subraum ist ein nicht-kommerzielles Community-Projekt (<a ''
     @ ''href=\"https://raumdock.org\">raumdock.org</a>).</p>'' @ nl @ ''<h2>Autoren</h2>'' @ nl
     @ ''<p>head87x &amp; justcallmedeimos</p>'' @ nl @ ''<h2>Anbieter</h2>'' @ nl
     @ ''<p class=\"muted\"><!-- TODO: vollst'' @ auml @ ''ndige Anbieterkennzeichnung gem'' @ auml @ szlig @ '' ''
     @ sectsign @ ''5 DDG eintragen -->Verantwortlicher Betreiber: raumdock.org<br>Kontakt: '' @ uuml
     @ ''ber <a href=\"https://raumdock.org\">raumdock.org</a></p>'' @ nl @ ''<h2>Haftung</h2>'' @ nl
     @ ''<p>Die Software wird '' @ bdquo @ ''wie besehen\", ohne Gew'' @ auml
     @ ''hr und ohne Haftung bereitgestellt (siehe <a href=\"/license?lang=de\">Lizenz</a>). F'' @ uuml
     @ ''r Inhalte verlinkter externer Seiten sind deren Betreiber verantwortlich.</p>''"

definition LEGAL_IT :: str where
  "LEGAL_IT =
     ''<h1>Note legali</h1>'' @ nl @ ''<p>subraum '' @ egrave @ '' un progetto di community non commerciale (<a ''
     @ ''href=\"https://raumdock.org\">raumdock.org</a>).</p>'' @ nl @ ''<h2>Autori</h2>'' @ nl
     @ ''<p>head87x &amp; justcallmedeimos</p>'' @ nl @ ''<h2>Fornitore</h2>'' @ nl
     @ ''<p class=\"muted\">Operatore: raumdock.org<br>Contatto: tramite <a ''
     @ ''href=\"https://raumdock.org\">raumdock.org</a></p>'' @ nl @ ''<h2>Responsabilit'' @ agrave @ ''</h2>'' @ nl
     @ ''<p>Il software '' @ egrave @ '' fornito \"cos'' @ igrave @ '' com'' @ apos @ egrave
     @ ''\", senza garanzie n'' @ eacute @ '' responsabilit'' @ agrave
     @ '' (vedi <a href=\"/license?lang=it\">licenza</a>). I gestori dei siti esterni collegati sono ''
     @ ''responsabili dei loro contenuti.</p>''"

definition LEGAL_ES :: str where
  "LEGAL_ES =
     ''<h1>Aviso legal</h1>'' @ nl @ ''<p>subraum es un proyecto comunitario no comercial (<a ''
     @ ''href=\"https://raumdock.org\">raumdock.org</a>).</p>'' @ nl @ ''<h2>Autores</h2>'' @ nl
     @ ''<p>head87x &amp; justcallmedeimos</p>'' @ nl @ ''<h2>Proveedor</h2>'' @ nl
     @ ''<p class=\"muted\">Operador: raumdock.org<br>Contacto: v'' @ iacute
     @ ''a <a href=\"https://raumdock.org\">raumdock.org</a></p>'' @ nl @ ''<h2>Responsabilidad</h2>'' @ nl
     @ ''<p>El software se ofrece \"tal cual\", sin garant'' @ iacute
     @ ''a ni responsabilidad (ver <a href=\"/license?lang=es\">licencia</a>). Los operadores de los ''
     @ ''sitios externos enlazados son responsables de su contenido.</p>''"

definition LEGAL_FR :: str where
  "LEGAL_FR =
     ''<h1>Mentions l'' @ eacute @ ''gales</h1>'' @ nl
     @ ''<p>subraum est un projet communautaire non commercial (<a ''
     @ ''href=\"https://raumdock.org\">raumdock.org</a>).</p>'' @ nl @ ''<h2>Auteurs</h2>'' @ nl
     @ ''<p>head87x &amp; justcallmedeimos</p>'' @ nl @ ''<h2>Fournisseur</h2>'' @ nl
     @ ''<p class=\"muted\">Exploitant : raumdock.org<br>Contact : via <a ''
     @ ''href=\"https://raumdock.org\">raumdock.org</a></p>'' @ nl @ ''<h2>Responsabilit'' @ eacute @ ''</h2>'' @ nl
     @ ''<p>Le logiciel est fourni '' @ laquo @ '' en l'' @ apos @ eacute @ ''tat '' @ raquo
     @ '', sans garantie ni responsabilit'' @ eacute
     @ '' (voir la <a href=\"/license?lang=fr\">licence</a>). Les exploitants des sites externes li'' @ eacute
     @ ''s sont responsables de leur contenu.</p>''"

end
