(* ===== verification/Page_Css.thy ===== *)
theory Page_Css
  imports Texts
begin

text \<open>
  The style sheet of the pages (\<open>main.rs\<close>).
\<close>

definition PAGE_CSS_frame :: str where
  "PAGE_CSS_frame =
     ''<style>'' @ nl @ ''/* RDOC brand system, Markenhandbuch v2.2.'' @ nl
     @ ''   Rules this file is bound by, quoted where they bite:'' @ nl
     @ ''   - Michroma is the ONLY display face and has exactly one cut. Emphasis in a'' @ nl
     @ ''     heading comes from size and colour, never font-weight (Kap. 10).'' @ nl
     @ ''   - Display tracking is 0. The negative values of v2.0 corrected Space'' @ nl
     @ ''     Grotesk's narrow rhythm; Michroma brings the width itself (Kap. 10).'' @ nl
     @ ''   - Copper marks exactly one element per view: the primary action. Never body'' @ nl
     @ ''     text, never a background except a surface that IS the action (Kap. 8).'' @ nl
     @ ''   - No gradient, shadow, glow, bevel (Kap. 8).'' @ nl
     @ ''   - Light mode is measured, not inverted (Kap. 8). Copper drops to Copper Deep'' @ nl
     @ ''     there because #C48A4A reaches only 2.65:1 on Off White.'' @ nl
     @ ''   - State is never colour alone (Kap. 16).'' @ nl
     @ ''   - Patina is the second accent added in v2.2 (Kap. 8). It carries STRUCTURE:'' @ nl
     @ ''     section markers, table heads, step numbers, one data series. Three rules'' @ nl
     @ ''     bound it and all three are load-bearing here:'' @ nl
     @ ''       1. Patina is never the signet ring. The ring stays Copper.'' @ nl
     @ ''       2. Patina is not a second primary action. Copper is the button.'' @ nl
     @ ''       3. Patina is not a state colour. A state carries the functional colour'' @ nl
     @ ''          and a word, never Patina and never grey.'' @ nl
     @ ''     Like Copper it fails on a light ground (#4FB5B5 is 2.12:1 on Off White),'' @ nl
     @ ''     so light mode swaps in Patina Deep #175F63 at 6.57:1.'' @ nl
     @ ''     Before v2.2 everything that was not the one primary action fell back to'' @ nl
     @ ''     Steel, which is why the page read as one flat grey. */'' @ nl @ '':root{'' @ nl
     @ ''color-scheme:dark light;'' @ nl @ ''/* Dark is the default ground. */'' @ nl
     @ ''--bg:#121416;--surface:#2B3135;--line:#2B3135;'' @ nl
     @ ''--ink:#F2F2F0;--dim:#76828D;--accent:#C48A4A;--accent-2:#4FB5B5;--focus:#E0A868;'' @ nl
     @ ''/* Copper on Space is 6.22:1, legible as text. On Off White it is not, so the'' @ nl
     @ ''   light block below swaps in Copper Deep. */'' @ nl @ ''--accent-ink:#121416;'' @ nl
     @ ''--mono:\"IBM Plex Mono\",ui-monospace,Consolas,monospace;'' @ nl
     @ ''--sans:\"IBM Plex Sans\",system-ui,\"Segoe UI\",Arial,sans-serif;'' @ nl
     @ ''--disp:\"Michroma\",var(--sans);'' @ nl @ ''--wrap:64rem;--prose:41rem;'' @ nl @ ''}'' @ nl
     @ ''@media (prefers-color-scheme:light){'' @ nl @ '':root{'' @ nl
     @ ''--bg:#F2F2F0;--surface:#E4E4E1;--line:#C7C9C6;'' @ nl
     @ ''--ink:#121416;--dim:#4E5862;--accent:#8A5A22;--accent-2:#175F63;--focus:#6E4517;'' @ nl
     @ ''--accent-ink:#F2F2F0;'' @ nl @ ''}'' @ nl @ ''}'' @ nl
     @ ''@font-face{font-family:\"Michroma\";font-weight:400;font-style:normal;font-display:swap;src:ur''
     @ ''l(/assets/fonts/mi-400.woff2) format(\"woff2\")}'' @ nl @ ''@font-face{font-family:\"IBM Plex ''
     @ ''Sans\";font-weight:400;font-style:normal;font-display:swap;src:url(/assets/fonts/ps-400.woff2''
     @ '') format(\"woff2\")}'' @ nl @ ''@font-face{font-family:\"IBM Plex ''
     @ ''Sans\";font-weight:600;font-style:normal;font-display:swap;src:url(/assets/fonts/ps-600.woff2''
     @ '') format(\"woff2\")}'' @ nl @ ''@font-face{font-family:\"IBM Plex ''
     @ ''Mono\";font-weight:400;font-style:normal;font-display:swap;src:url(/assets/fonts/pm-400.woff2''
     @ '') format(\"woff2\")}'' @ nl @ ''*{box-sizing:border-box}'' @ nl
     @ ''/* Display size. Every length in this sheet is rem or em, so moving the root'' @ nl
     @ ''   font size scales type, spacing, the content column and the schematic'' @ nl @ ''   together '' @ mdash
     @ '' which is what \"make it bigger\" means. Media-query breakpoints are'' @ nl
     @ ''   unaffected: rem in a media query resolves against the browser default, not'' @ nl
     @ ''   against this. */'' @ nl @ '':root[data-ui=\"lg\"]{font-size:118.75%}   /* 19px */'' @ nl
     @ '':root[data-ui=\"xl\"]{font-size:137.5%}    /* 22px */'' @ nl
     @ ''body{font-family:var(--sans);font-weight:400;background:var(--bg);color:var(--ink);'' @ nl
     @ ''margin:0;line-height:1.6;font-size:1rem;-webkit-text-size-adjust:100%}'' @ nl
     @ ''/* Links are Patina, not Copper: Copper is spent on the one primary action and'' @ nl
     @ ''   a page of Copper links would drown it. */'' @ nl
     @ ''a{color:var(--accent-2);text-decoration:none;border-bottom:1px solid var(--accent-2)}'' @ nl
     @ ''a:hover{color:var(--ink);border-bottom-color:var(--ink)}'' @ nl
     @ ''a:focus-visible,button:focus-visible{outline:2px solid var(--focus);outline-offset:2px}'' @ nl
     @ ''img{max-width:100%;height:auto}'' @ nl @ nl
     @ ''/* Theme-swapped brand assets. Two files instead of a CSS filter: the guide'' @ nl
     @ ''   rejects filters on brand files, and the mono cuts exist for both grounds. */'' @ nl
     @ ''.on-dark{display:block}'' @ nl @ ''.on-light{display:none}'' @ nl @ ''@media (prefers-color-scheme:light){''
     @ nl @ ''.on-dark{display:none}'' @ nl @ ''.on-light{display:block}'' @ nl @ ''}'' @ nl @ nl @ ''/* '' @ boxh
     @ boxh @ '' Frame '' @ boxh @ boxh @ boxh @ boxh @ boxh @ boxh @ boxh @ boxh @ boxh @ boxh @ boxh @ boxh @ boxh
     @ boxh @ boxh @ boxh @ boxh @ boxh @ boxh @ boxh @ boxh @ boxh @ boxh @ boxh @ boxh @ boxh @ boxh @ boxh @ boxh
     @ boxh @ boxh @ boxh @ boxh @ boxh @ boxh @ boxh @ boxh @ boxh @ boxh @ boxh @ boxh @ boxh @ boxh @ boxh @ boxh
     @ boxh @ boxh @ boxh @ boxh @ boxh @ boxh @ boxh @ boxh @ boxh @ boxh @ boxh @ boxh @ boxh @ boxh @ boxh @ boxh
     @ boxh @ boxh @ '' */'' @ nl @ ''/* Wraps on purpose: at the largest display size on a phone the mark, the name''
     @ nl @ ''   and both switchers do not fit one line, and an unwrapped row pushes the size'' @ nl
     @ ''   control off-screen '' @ mdash @ '' unreachable for exactly the people who set it. */'' @ nl
     @ ''.top{display:flex;align-items:center;flex-wrap:wrap;gap:.65rem;padding:.85rem 1.4rem;'' @ nl
     @ ''border-bottom:1px solid var(--line)}'' @ nl
     @ ''/* rem, not px: the mark has to grow with the display-size setting, or the'' @ nl
     @ ''   header stays small while everything under it scales. */'' @ nl
     @ ''.top svg{width:1.625rem;height:1.625rem;display:block;flex:none}'' @ nl
     @ ''/* The wordmark is set in Michroma at label size, the product name is a'' @ nl
     @ ''   heading, not UI chrome. Lowercase is deliberate and part of the name. */'' @ nl
     @ ''.top .brand{color:var(--ink);font-family:var(--disp);font-weight:400;'' @ nl
     @ ''font-size:.9rem;letter-spacing:0;border:0}'' @ nl
     @ ''/* Chrome, not content: the language nav and the size control keep fixed px'' @ nl
     @ ''   sizes so the header stays compact at the largest setting. Scaling the'' @ nl
     @ ''   controls along with the page is what pushed the row past a phone's width and'' @ nl
     @ ''   forced the whole layout to overflow sideways. It wraps for the same reason. */'' @ nl
     @ ''.lang{margin-left:auto;display:flex;flex-wrap:wrap;gap:.15rem;font-family:var(--mono);font-s''
     @ ''ize:12px}'' @ nl @ ''/* Text-size control: three A's that show their own effect. It sits after the'' @ nl
     @ ''   language nav and keeps a hairline between them so the two groups do not read'' @ nl
     @ ''   as one list. The sizes here are fixed in px on purpose '' @ mdash @ '' the control must not'' @ nl
     @ ''   grow with the setting it changes, or the largest step pushes the header'' @ nl @ ''   around. */'' @ nl
     @ ''.uisize{display:flex;align-items:baseline;gap:.35rem;margin-left:.9rem;padding-left:.9rem;'' @ nl
     @ ''border-left:1px solid var(--line)}'' @ nl
     @ ''/* Once the row wraps, the size control starts the new line: drop the divider'' @ nl
     @ ''   that would then hang at the left edge, and let it keep the auto margin. */'' @ nl
     @ ''@media (max-width:34rem){'' @ nl @ ''.uisize{margin-left:auto;padding-left:0;border-left:0}'' @ nl @ ''}''
     @ nl @ ''.uisize a{border:0;color:var(--dim);line-height:1;padding:0 .1rem}'' @ nl
     @ ''.uisize a:hover{color:var(--ink)}'' @ nl @ ''.uisize a.on{color:var(--accent-2)}'' @ nl
     @ ''.uisize a.md{font-size:12px}'' @ nl @ ''.uisize a.lg{font-size:15px}'' @ nl
     @ ''.uisize a.xl{font-size:18px}'' @ nl
     @ ''.lang a{color:var(--dim);padding:.15rem .4rem;border:0;letter-spacing:.07em}'' @ nl
     @ ''.lang a:hover{color:var(--ink)}'' @ nl
     @ ''.lang a.on{color:var(--accent-2);border-bottom:1px solid var(--accent-2)}'' @ nl
     @ ''main{max-width:var(--wrap);margin:0 auto;padding:0 1.4rem 4rem}'' @ nl
     @ ''footer{max-width:var(--wrap);margin:0 auto;padding:1.4rem;border-top:1px solid var(--line);'' @ nl
     @ ''color:var(--dim);font-size:.875rem;display:flex;flex-wrap:wrap;align-items:center;gap:.35rem'' @ '' 1.3rem}''
     @ nl @ ''footer a{color:var(--dim);border:0}'' @ nl @ ''footer a:hover{color:var(--accent-2)}'' @ nl
     @ ''/* Clear space is half the cap height, applied as padding, nothing enters it. */'' @ nl
     @ ''footer .rdoc{margin-left:auto;border:0;display:block;padding:.5rem 0}'' @ nl
     @ ''/* 150px lockup -> the 220-unit signet lands at 32px, the floor in Kap. 6.'' @ nl
     @ ''   Below it the 4-degree radial cuts fall under a pixel and the ring reads as a'' @ nl
     @ ''   plain circle. */'' @ nl
     @ ''/* 9.375rem == 150px at the normal size, where the 220-unit signet lands on the'' @ nl
     @ ''   32px floor of Kap. 6. It scales up with the setting and never below. */'' @ nl
     @ ''footer .rdoc img{display:block;width:9.375rem;height:auto}'' @ nl @ nl @ ''/* '' @ boxh @ boxh
     @ '' Sections. A hairline plus a mono eyebrow: the page reads as a datasheet,'' @ nl
     @ ''      which is what the product is. '' @ boxh @ boxh @ boxh @ boxh @ boxh @ boxh @ boxh @ boxh @ boxh @ boxh
     @ boxh @ boxh @ boxh @ boxh @ boxh @ boxh @ boxh @ boxh @ boxh @ boxh @ boxh @ boxh @ boxh @ boxh @ boxh @ boxh
     @ boxh @ boxh @ boxh @ boxh @ boxh @ boxh @ boxh @ boxh @ boxh @ boxh @ boxh @ boxh @ boxh @ boxh @ boxh
     @ '' */'' @ nl @ ''.sec{border-top:1px solid var(--line);padding:2.6rem 0 .4rem;margin-top:2.6rem}'' @ nl
     @ ''.sec:first-of-type{border-top:0;margin-top:0}'' @ nl
     @ ''.eyebrow{font-family:var(--mono);font-size:.8125rem;line-height:1.3;letter-spacing:.07em;'' @ nl
     @ ''text-transform:uppercase;color:var(--dim);margin:0 0 1rem}'' @ nl
     @ ''/* The eyebrow names the layer being described '' @ mdash @ '' a section marker, which is'' @ nl
     @ ''   exactly what Patina is for. */'' @ nl @ ''.eyebrow b{color:var(--accent-2);font-weight:400}'' @ nl
     @ ''.prose{max-width:var(--prose)}'' @ nl
     @ ''/* Michroma: one cut, tracking 0, no synthetic weight anywhere below. */'' @ nl
     @ ''h1,h2,h3{font-family:var(--disp);font-weight:400;letter-spacing:0;'' @ nl @ ''overflow-wrap:break-word}''
     @ nl @ ''h1{font-size:clamp(1.5rem,4vw,2.125rem);line-height:1.15;margin:0 0 .6rem}'' @ nl
     @ ''h2{font-size:clamp(1.35rem,3vw,1.75rem);line-height:1.2;margin:0 0 .6rem}'' @ nl
     @ ''h3{font-size:1.3125rem;line-height:1.3;margin:1.5rem 0 .4rem}'' @ nl @ ''p{margin:.7rem 0}'' @ nl
     @ ''ul{padding-left:1.1rem;margin:.6rem 0}'' @ nl @ ''li{margin:.3rem 0}'' @ nl"

definition PAGE_CSS_parts :: str where
  "PAGE_CSS_parts =
     ''strong,b{font-weight:600}'' @ nl @ ''.muted{color:var(--dim);font-size:.875rem}'' @ nl
     @ ''.tagline{font-family:var(--mono);font-size:.8125rem;letter-spacing:.07em;'' @ nl
     @ ''text-transform:uppercase;color:var(--dim);margin:0 0 1.8rem}'' @ nl
     @ ''code{font-family:var(--mono);font-size:.875rem;background:var(--surface);'' @ nl
     @ ''padding:.05rem .32rem;border-radius:2px}'' @ nl @ nl @ ''/* '' @ boxh @ boxh
     @ '' Hero. Michroma runs ~1.35x wider than a grotesk, so the display size is'' @ nl
     @ ''      the guide's 48px ceiling and clamps down hard on narrow screens. '' @ boxh @ boxh @ boxh @ boxh @ boxh
     @ boxh @ '' */'' @ nl @ ''.hero{padding:3.2rem 0 0}'' @ nl
     @ ''.hero h1{font-size:clamp(1.75rem,6.5vw,3rem);line-height:1.1;margin:0 0 .7rem}'' @ nl
     @ ''.lede{font-size:1.125rem;line-height:1.6;max-width:var(--prose)}'' @ nl @ nl @ ''/* '' @ boxh @ boxh
     @ '' Schematic: the signature element, and the one thing on the page that is'' @ nl
     @ ''      an argument rather than a claim. Colours come from tokens, so it follows'' @ nl
     @ ''      the scheme. '' @ boxh @ boxh @ boxh @ boxh @ boxh @ boxh @ boxh @ boxh @ boxh @ boxh @ boxh @ boxh
     @ boxh @ boxh @ boxh @ boxh @ boxh @ boxh @ boxh @ boxh @ boxh @ boxh @ boxh @ boxh @ boxh @ boxh @ boxh @ boxh
     @ boxh @ boxh @ boxh @ boxh @ boxh @ boxh @ boxh @ boxh @ boxh @ boxh @ boxh @ boxh @ boxh @ boxh @ boxh @ boxh
     @ boxh @ boxh @ boxh @ boxh @ boxh @ boxh @ boxh @ boxh @ boxh @ boxh @ boxh @ boxh @ boxh @ boxh @ boxh
     @ '' */'' @ nl @ ''.diagram{margin:1.8rem 0 .6rem;border:1px solid var(--line);padding:1.4rem;overflow-x:auto}''
     @ nl @ ''/* px, not rem: the floor is about the schematic staying readable, and in rem it'' @ nl
     @ ''   would grow with the display size and force its own scrollbar at the largest'' @ nl
     @ ''   step. The container scrolls it when it does not fit. */'' @ nl
     @ ''.diagram svg{display:block;width:100%;height:auto;min-width:384px}'' @ nl
     @ ''.diagram figcaption{font-family:var(--mono);font-size:.8125rem;line-height:1.3;'' @ nl
     @ ''color:var(--dim);margin-top:1rem;letter-spacing:.07em}'' @ nl @ nl @ ''/* '' @ boxh @ boxh
     @ '' Plane cards. Hairline cells, not filled tiles: Graphite is structure, and'' @ nl
     @ ''      on a light ground a filled tile would fight the page. '' @ boxh @ boxh @ boxh @ boxh @ boxh @ boxh
     @ boxh @ boxh @ boxh @ boxh @ boxh @ boxh @ boxh @ boxh @ boxh @ boxh @ boxh @ '' */'' @ nl
     @ ''.planes{display:grid;grid-template-columns:repeat(auto-fit,minmax(17rem,1fr));'' @ nl
     @ ''gap:1px;background:var(--line);border:1px solid var(--line);margin:1.5rem 0}'' @ nl
     @ ''.plane{background:var(--bg);padding:1.2rem 1.3rem}'' @ nl
     @ ''.plane h3{margin:.2rem 0 .5rem;font-size:1.3125rem}'' @ nl
     @ ''.plane .tag{font-family:var(--mono);font-size:.8125rem;letter-spacing:.07em;'' @ nl
     @ ''text-transform:uppercase;color:var(--dim)}'' @ nl @ ''/* One data series carries Patina '' @ mdash
     @ '' here the plane the product is about. The'' @ nl
     @ ''   control plane stays Steel; that contrast is the whole point of the pair. */'' @ nl
     @ ''.plane.p2p .tag{color:var(--accent-2)}'' @ nl
     @ ''.plane p{margin:.45rem 0;font-size:.9375rem;color:var(--dim)}'' @ nl @ ''.plane p strong{color:var(--ink)}''
     @ nl @ nl @ ''/* '' @ boxh @ boxh @ '' Spec rows. The label column is mono because a machine produced those''
     @ nl @ ''      names; the value is prose because a human reads the answer. '' @ boxh @ boxh @ boxh @ boxh @ boxh
     @ boxh @ boxh @ boxh @ boxh @ boxh @ '' */'' @ nl
     @ ''.spec{border-top:1px solid var(--line);margin:1.4rem 0 0;max-width:52rem}'' @ nl
     @ ''.spec div{display:flex;align-items:baseline;gap:.8rem;padding:.6rem 0;'' @ nl
     @ ''border-bottom:1px solid var(--line);font-size:.9375rem}'' @ nl
     @ ''.spec dt,.spec .k{font-family:var(--mono);font-size:.8125rem;letter-spacing:.07em;'' @ nl
     @ ''color:var(--accent-2);flex:none;min-width:14rem}'' @ nl @ ''.spec dd,.spec .v{margin:0;color:var(--ink)}''
     @ nl @ ''/* State carries the word, never colour alone. */'' @ nl @ ''.spec .no,.spec .yes{color:var(--ink)}''
     @ nl @ nl @ ''/* '' @ boxh @ boxh @ '' Steps: a real sequence, so it is numbered. '' @ boxh @ boxh @ boxh @ boxh
     @ boxh @ boxh @ boxh @ boxh @ boxh @ boxh @ boxh @ boxh @ boxh @ boxh @ boxh @ boxh @ boxh @ boxh @ boxh @ boxh
     @ boxh @ boxh @ boxh @ boxh @ boxh @ boxh @ '' */'' @ nl
     @ ''.steps{counter-reset:s;list-style:none;padding:0;margin:1.2rem 0;max-width:var(--prose)}'' @ nl
     @ ''.steps li{counter-increment:s;position:relative;padding-left:2.8rem;margin:1rem 0}'' @ nl @ ''.steps ''
     @ ''li::before{content:counter(s,decimal-leading-zero);position:absolute;left:0;top:.1rem;'' @ nl
     @ ''font-family:var(--mono);font-size:.8125rem;color:var(--accent-2);letter-spacing:.07em}'' @ nl @ nl @ ''/* ''
     @ boxh @ boxh @ '' Actions. Copper is the primary action and appears once per view. '' @ boxh @ boxh @ boxh
     @ boxh @ boxh @ '' */'' @ nl @ ''.dl{display:inline-block;margin:.4rem .5rem .4rem 0;padding:.65rem 1.05rem;''
     @ nl @ ''border:1px solid var(--dim);color:var(--ink);font-size:.9375rem;background:none}'' @ nl
     @ ''.dl:hover{border-color:var(--ink)}'' @ nl
     @ ''.dl.store{display:inline-flex;align-items:center;gap:.6rem;border:1px solid var(--accent);'' @ nl
     @ ''background:var(--accent);color:var(--accent-ink);font-weight:600;'' @ nl
     @ ''padding:.75rem 1.2rem;font-size:1rem}'' @ nl
     @ ''.dl.store:hover{background:var(--accent);color:var(--accent-ink);border-color:var(--ink)}'' @ nl
     @ ''.dl.store svg{display:block;flex:none}'' @ nl
     @ ''.announce{border:1px solid var(--line);border-left:2px solid var(--accent-2);'' @ nl
     @ ''padding:.9rem 1.1rem;color:var(--dim);font-size:.9375rem}'' @ nl @ ''.announce strong{color:var(--ink)}''
     @ nl @ nl @ ''/* '' @ boxh @ boxh @ '' Downloads '' @ boxh @ boxh @ boxh @ boxh @ boxh @ boxh @ boxh @ boxh
     @ boxh @ boxh @ boxh @ boxh @ boxh @ boxh @ boxh @ boxh @ boxh @ boxh @ boxh @ boxh @ boxh @ boxh @ boxh @ boxh
     @ boxh @ boxh @ boxh @ boxh @ boxh @ boxh @ boxh @ boxh @ boxh @ boxh @ boxh @ boxh @ boxh @ boxh @ boxh @ boxh
     @ boxh @ boxh @ boxh @ boxh @ boxh @ boxh @ boxh @ boxh @ boxh @ boxh @ boxh @ boxh @ boxh @ boxh @ boxh @ boxh
     @ boxh @ boxh @ boxh @ '' */'' @ nl
     @ ''.arts{list-style:none;padding:0;margin:.9rem 0;border-top:1px solid var(--line)}'' @ nl
     @ ''.arts li{border-bottom:1px solid var(--line);padding:.85rem 0}'' @ nl
     @ ''.arts .file{font-family:var(--mono);font-size:.9375rem;color:var(--ink);border:0;'' @ nl
     @ ''word-break:break-all}'' @ nl @ ''.arts .file:hover{border-bottom:1px solid var(--ink)}'' @ nl @ ''.arts ''
     @ ''.meta{font-family:var(--mono);font-size:.8125rem;color:var(--dim);letter-spacing:.07em;'' @ nl
     @ ''margin-top:.3rem;display:block}'' @ nl
     @ ''.arts .sha{font-family:var(--mono);font-size:.75rem;color:var(--dim);word-break:break-all;'' @ nl
     @ ''display:block;margin-top:.25rem;letter-spacing:.02em}'' @ nl @ nl @ ''/* '' @ boxh @ boxh
     @ '' Screenshots. Real captures of what runs, the guide rules out symbol'' @ nl
     @ ''      imagery, so these carry the \"what it looks like\" job alone. '' @ boxh @ boxh @ boxh @ boxh @ boxh
     @ boxh @ boxh @ boxh @ boxh @ boxh @ '' */'' @ nl
     @ ''.shots{display:grid;grid-template-columns:repeat(auto-fill,minmax(16rem,1fr));gap:1.2rem;'' @ nl
     @ ''margin:1.2rem 0;align-items:start}'' @ nl @ ''.shot{margin:0}'' @ nl @ ''.shot a{display:block;border:0}''
     @ nl @ ''.shot img{display:block;width:100%;height:auto;max-height:24rem;object-fit:contain;'' @ nl
     @ ''object-position:top;border:1px solid var(--line)}'' @ nl @ ''.shot img:hover{border-color:var(--dim)}'' @ nl
     @ ''.shot figcaption{color:var(--dim);font-size:.75rem;letter-spacing:.02em;'' @ nl
     @ ''margin-top:.5rem;line-height:1.4}'' @ nl @ nl @ ''/* '' @ boxh @ boxh @ '' Invite landing '' @ boxh @ boxh
     @ boxh @ boxh @ boxh @ boxh @ boxh @ boxh @ boxh @ boxh @ boxh @ boxh @ boxh @ boxh @ boxh @ boxh @ boxh @ boxh
     @ boxh @ boxh @ boxh @ boxh @ boxh @ boxh @ boxh @ boxh @ boxh @ boxh @ boxh @ boxh @ boxh @ boxh @ boxh @ boxh
     @ boxh @ boxh @ boxh @ boxh @ boxh @ boxh @ boxh @ boxh @ boxh @ boxh @ boxh @ boxh @ boxh @ boxh @ boxh @ boxh
     @ boxh @ boxh @ boxh @ boxh @ '' */'' @ nl
     @ ''.code{font-family:var(--mono);font-size:clamp(1.6rem,6vw,2.2rem);font-weight:400;'' @ nl
     @ ''letter-spacing:.22em;border:1px solid var(--line);padding:.75rem 1.15rem;'' @ nl
     @ ''display:inline-block;color:var(--ink)}'' @ nl @ ''.links a{display:block;margin:.4rem 0;width:fit-content}''
     @ nl @ nl @ ''/* '' @ boxh @ boxh @ '' Changelog. Versions are machine-made identifiers '' @ rarr
     @ '' mono, not Michroma. */'' @ nl
     @ ''h2.ver{font-family:var(--mono);font-size:1rem;letter-spacing:.07em;color:var(--accent-2);'' @ nl
     @ ''font-weight:400;border-top:1px solid var(--line);padding-top:1.2rem;margin-top:2.2rem}'' @ nl @ nl
     @ ''@media (max-width:34rem){'' @ nl @ ''.top{padding:.75rem 1rem}'' @ nl @ ''main{padding:0 1rem 3rem}'' @ nl
     @ ''.diagram{padding:.9rem}'' @ nl @ ''.spec div{flex-direction:column;gap:.2rem}'' @ nl
     @ ''.spec dt,.spec .k{min-width:0}'' @ nl @ ''footer .rdoc{margin-left:0}'' @ nl @ ''}'' @ nl
     @ ''@media (prefers-reduced-motion:reduce){'' @ nl
     @ ''*,*::before,*::after{animation-duration:.01ms!important;transition-duration:.01ms!important}'' @ nl @ ''}''
     @ nl @ ''</style>''"

definition PAGE_CSS :: str where "PAGE_CSS = PAGE_CSS_frame @ PAGE_CSS_parts"

end
