(* ===== verification/Pages.thy ===== *)
theory Pages
  imports Texts_Home Texts_Docs Page_Css
begin

text \<open>
  The server's pages: the layouts of \<open>i18n.rs\<close>, the page shell, the handlers and the router of
  \<open>main.rs\<close>.  Files compiled into the binary (\<open>include_str!\<close>, \<open>include_bytes!\<close>) are the record
  \<open>assets\<close>; a visit is the query string with the two headers the handlers read.
\<close>

section \<open>Parts of pages\<close>

definition ascii_upper :: "str \<Rightarrow> str" where
  "ascii_upper s = map upper_c s"

definition shot_figure :: "nat \<Rightarrow> str \<Rightarrow> str" where
  "shot_figure n cap =
     ''<figure class=\"shot\"><a href=\"/assets/shot/'' @ show_nat n
     @ ''\" target=\"_blank\" rel=\"noopener\"><img src=\"/assets/shot/'' @ show_nat n @ ''\" alt=\"'' @ cap
     @ ''\" loading=\"lazy\"></a><figcaption>'' @ cap @ ''</figcaption></figure>''"

definition screenshots :: "lang \<Rightarrow> nat \<Rightarrow> str" where
  "screenshots l count =
     (if count = 0 then []
      else (let caps = captions l; grid = concat (map (\<lambda>n. shot_figure n (caps ! (n - 1))) [1..<Suc (min count (length caps))])
            in ''<div class=\"shots\">'' @ grid @ ''</div>''))"

definition lang_link :: "str \<Rightarrow> lang \<Rightarrow> ui \<Rightarrow> lang \<Rightarrow> str" where
  "lang_link path cur u l =
     ''<a href=\"'' @ path @ ''?lang='' @ lang_code l @ ''&amp;ui='' @ ui_code u @ ''\"''
     @ (if l = cur then '' class=\"on\"'' else []) @ ''>'' @ ascii_upper (lang_code l) @ ''</a>''"

definition size_link :: "str \<Rightarrow> lang \<Rightarrow> ui \<Rightarrow> ui \<Rightarrow> str" where
  "size_link path cur u v =
     ''<a class=\"'' @ ui_code v @ (if v = u then '' on'' else []) @ ''\" href=\"'' @ path @ ''?lang=''
     @ lang_code cur @ ''&amp;ui='' @ ui_code v @ ''\" title=\"'' @ ui_title cur v @ ''\">A</a>''"

definition switcher :: "str \<Rightarrow> lang \<Rightarrow> ui \<Rightarrow> str" where
  "switcher path cur u =
     ''<nav class=\"lang\">'' @ concat (map (lang_link path cur u) [En, De, It, Es, Fr]) @ ''</nav>''
     @ ''<nav class=\"uisize\" aria-label=\"'' @ ui_aria cur @ ''\">'' @ concat (map (size_link path cur u) [Normal, Large, Larger]) @ ''</nav>''"

definition store_badge :: "str \<Rightarrow> str" where
  "store_badge label =
     ''<a class=\"dl store\" href=\"'' @ STORE_URL
     @ ''\"><svg width=\"18\" height=\"18\" viewBox=\"0 0 24 24\" aria-hidden=\"true\"><rect x=\"1\" y=\"1\" ''
     @ ''width=\"10\" height=\"10\" fill=\"#f25022\"/><rect x=\"13\" y=\"1\" width=\"10\" height=\"10\" ''
     @ ''fill=\"#7fba00\"/><rect x=\"1\" y=\"13\" width=\"10\" height=\"10\" fill=\"#00a4ef\"/><rect x=\"13\" ''
     @ ''y=\"13\" width=\"10\" height=\"10\" fill=\"#ffb900\"/></svg>'' @ label @ ''</a>''"

section \<open>The home page\<close>

definition mesh_line :: "nat \<times> nat \<Rightarrow> nat \<times> nat \<Rightarrow> str" where
  "mesh_line p q =
     ''<line x1=\"'' @ show_nat (fst p) @ ''\" y1=\"'' @ show_nat (snd p) @ ''\" x2=\"'' @ show_nat (fst q)
     @ ''\" y2=\"'' @ show_nat (snd q) @ ''\"/>''"

fun mesh_lines :: "(nat \<times> nat) list \<Rightarrow> str" where
  "mesh_lines [] = []"
| "mesh_lines (p # ps) = concat (map (mesh_line p) ps) @ mesh_lines ps"

definition peer_dots :: "(nat \<times> nat) list" where
  "peer_dots = [(80, 176), (268, 222), (452, 222), (640, 176)]"

definition topology_svg :: "home_text \<Rightarrow> str" where
  "topology_svg t =
     (let mesh = mesh_lines peer_dots;
          ctrl = concat (map (\<lambda>(x, y). ''<line x1=\"360\" y1=\"74\" x2=\"'' @ show_nat x @ ''\" y2=\"'' @ show_nat y @ ''\"/>'') peer_dots);
          dots = concat (map (\<lambda>(x, y). ''<circle cx=\"'' @ show_nat x @ ''\" cy=\"'' @ show_nat y @ ''\" r=\"9\"/>'') peer_dots)
      in ''<figure class=\"diagram\">'' @ nl @ ''<svg viewBox=\"0 0 720 250\" role=\"img\" aria-label=\"''
         @ ht_dia_alt t @ ''\">'' @ nl @ ''<title>'' @ ht_dia_alt t @ ''</title>'' @ nl
         @ ''<g stroke=\"var(--accent-2)\" stroke-width=\"2.5\" stroke-linecap=\"round\">'' @ mesh @ ''</g>'' @ nl
         @ ''<g stroke=\"var(--dim)\" stroke-width=\"1.5\" stroke-dasharray=\"3 7\" stroke-linecap=\"round\" ''
         @ ''opacity=\".7\">'' @ ctrl @ ''</g>'' @ nl
         @ ''<rect x=\"252\" y=\"14\" width=\"216\" height=\"60\" fill=\"var(--bg)\" stroke=\"var(--dim)\" ''
         @ ''stroke-width=\"1.5\"/>'' @ nl
         @ ''<text x=\"360\" y=\"40\" text-anchor=\"middle\" fill=\"var(--ink)\" font-size=\"16\" font-family=\"IBM ''
         @ ''Plex Mono,ui-monospace,monospace\">'' @ ht_dia_server t @ ''</text>'' @ nl
         @ ''<text x=\"360\" y=\"60\" text-anchor=\"middle\" fill=\"var(--dim)\" font-size=\"12\" font-family=\"IBM ''
         @ ''Plex Mono,ui-monospace,monospace\">'' @ ht_dia_server_sub t @ ''</text>'' @ nl
         @ ''<g fill=\"var(--accent-2)\">'' @ dots @ ''</g>'' @ nl @ ''</svg>'' @ nl @ ''<figcaption>'' @ boxh @ boxh
         @ '' '' @ ht_dia_legend_data t @ '' &nbsp;&nbsp; '' @ boxhdash @ boxhdash @ '' '' @ ht_dia_legend_ctrl t
         @ ''</figcaption>'' @ nl @ ''</figure>'')"

definition credits :: "lang \<Rightarrow> str" where
  "credits l =
     (let (tested, concept, ai) = credit_words l
      in ''<p class=\"eyebrow\" style=\"margin-top:2rem\">'' @ tested @ ''</p>'' @ nl @ ''<p class=\"links\">'' @ nl
         @ ''<a href=\"https://twitch.tv/smorxel\">twitch.tv/smorxel</a>'' @ nl
         @ ''<a href=\"https://twitch.tv/JerichoRamirez\">twitch.tv/JerichoRamirez</a>'' @ nl
         @ ''<a href=\"https://twitch.tv/JustCallMeDeimos\">twitch.tv/JustCallMeDeimos</a>'' @ nl
         @ ''<a href=\"https://twitch.tv/stormp00per89\">twitch.tv/stormp00per89</a>'' @ nl
         @ ''<a href=\"https://twitch.tv/x_jazzz_x\">twitch.tv/x_jazzz_x</a>'' @ nl @ ''<span>head87x</span>'' @ nl
         @ ''</p>'' @ nl @ ''<p class=\"muted\">'' @ concept
         @ '' JustCallMeDeimos &amp; xhead87x (Claude Code &amp; Codex for crosstesting). '' @ ai @ ''</p>'')"

definition spec_row :: "home_text \<Rightarrow> nat \<Rightarrow> str \<Rightarrow> str" where
  "spec_row t i label =
     (let (cls, val) = (if i < 3 then (''yes'', ht_spec_seen t) else (''no'', ht_spec_never t))
      in ''<div><span class=\"k\">'' @ label @ ''</span><span class=\"v '' @ cls @ ''\">'' @ val @ ''</span></div>'')"

definition shots_section :: "home_text \<Rightarrow> str \<Rightarrow> str" where
  "shots_section t s =
     (if s = [] then []
      else ''<section class=\"sec\">'' @ nl @ ''<p class=\"eyebrow\">'' @ ht_shots_eyebrow t @ ''</p>'' @ nl @ s @ nl
           @ ''</section>'' @ nl)"

definition home_body :: "lang \<Rightarrow> str \<Rightarrow> nat \<Rightarrow> str" where
  "home_body l base shots =
     (let t = home_text_of l;
          spec = concat (map (\<lambda>(i, label). spec_row t i label) (enumerate 0 (ht_spec_rows t)));
          steps = concat (map (\<lambda>s. ''<li>'' @ s @ ''</li>'') (ht_steps t))
      in ''<section class=\"sec hero\">'' @ nl @ ''<p class=\"eyebrow\">'' @ ht_eyebrow t @ ''</p>'' @ nl
         @ ''<h1>subraum</h1>'' @ nl @ ''<p class=\"tagline\">encrypted communication</p>'' @ nl
         @ ''<p class=\"lede\">'' @ ht_lede t @ ''</p>'' @ nl @ ''<p class=\"muted prose\">'' @ ht_renamed t
         @ ''</p>'' @ nl @ topology_svg t @ nl @ ''</section>'' @ nl @ nl @ ''<section class=\"sec\">'' @ nl
         @ ''<p class=\"eyebrow\">'' @ ht_planes_eyebrow t @ ''</p>'' @ nl @ ''<div class=\"planes\">'' @ nl
         @ ''<div class=\"plane p2p\"><span class=\"tag\">'' @ ht_p2p_tag t @ ''</span><h3>'' @ ht_p2p_h t
         @ ''</h3><p>'' @ ht_p2p_b t @ ''</p></div>'' @ nl @ ''<div class=\"plane srv\"><span class=\"tag\">''
         @ ht_srv_tag t @ ''</span><h3>'' @ ht_srv_h t @ ''</h3><p>'' @ ht_srv_b t @ ''</p></div>'' @ nl @ ''</div>''
         @ nl @ ''</section>'' @ nl @ nl @ ''<section class=\"sec\">'' @ nl @ ''<p class=\"eyebrow\">''
         @ ht_spec_eyebrow t @ ''</p>'' @ nl @ ''<h2>'' @ ht_spec_h t @ ''</h2>'' @ nl
         @ ''<div class=\"spec prose\">'' @ spec @ ''</div>'' @ nl @ ''</section>'' @ nl @ nl
         @ ''<section class=\"sec\">'' @ nl @ ''<p class=\"eyebrow\">'' @ ht_steps_eyebrow t @ ''</p>'' @ nl
         @ ''<h2>'' @ ht_steps_h t @ ''</h2>'' @ nl @ ''<ol class=\"steps\">'' @ steps @ ''</ol>'' @ nl
         @ ''</section>'' @ nl @ nl @ ''<section class=\"sec\">'' @ nl @ ''<p class=\"eyebrow\">'' @ ht_get_eyebrow t
         @ ''</p>'' @ nl @ ''<h2>'' @ ht_get_h t @ ''</h2>'' @ nl @ ''<p>'' @ store_badge (ht_store_btn t) @ ''</p>''
         @ nl @ ''<p class=\"muted prose\">'' @ ht_store_note t @ ''</p>'' @ nl @ ''<p><a class=\"dl\" href=\"''
         @ base @ ''/get\">'' @ ht_all_dl t @ ''</a></p>'' @ nl @ ''<p class=\"announce prose\">'' @ ht_announce t
         @ ''</p>'' @ nl @ ''</section>'' @ nl @ nl @ shots_section t (screenshots l shots) @ nl
         @ ''<section class=\"sec\">'' @ nl @ ''<p class=\"eyebrow\">'' @ ht_links_eyebrow t @ ''</p>'' @ nl
         @ ''<p class=\"links\">'' @ nl @ ''<a href=\"'' @ RAUMDOCK_URL @ ''\">raumdock.org</a>'' @ nl
         @ ''<a href=\"'' @ FLEET_URL @ ''\">'' @ ht_l_fleet t @ ''</a>'' @ nl @ ''<a href=\"'' @ GITHUB_URL @ ''\">''
         @ ht_l_src t @ ''</a>'' @ nl @ ''</p>'' @ nl @ ''<p class=\"muted\"><a href=\"/privacy?lang='' @ lang_code l
         @ ''\">'' @ ht_l_priv t @ ''</a> '' @ middot @ '' <a href=\"/legal?lang='' @ lang_code l @ ''\">''
         @ ht_l_legal t @ ''</a> '' @ middot @ '' <a href=\"/license?lang='' @ lang_code l @ ''\">'' @ ht_l_lic t
         @ ''</a></p>'' @ nl @ credits l @ nl @ ''</section>'')"

definition home :: "lang \<Rightarrow> str \<Rightarrow> nat \<Rightarrow> str \<times> str" where
  "home l base shots = (ht_title (home_text_of l), home_body l base shots)"

section \<open>The other pages\<close>

definition dl_head :: "lang \<Rightarrow> str option \<Rightarrow> str" where
  "dl_head l version =
     (let t = dl_text_of l; ver = (case version of Some v \<Rightarrow> ''v'' @ dl_esc v | None \<Rightarrow> ''n/a'')
      in ''<section class=\"sec hero\">'' @ nl @ ''<p class=\"eyebrow\">Windows '' @ middot @ '' Linux '' @ middot
         @ '' macOS '' @ middot @ '' Android '' @ middot @ '' Stream Deck '' @ middot @ '' SHA-256 '' @ middot
         @ '' <b>'' @ ver @ ''</b></p>'' @ nl @ ''<h1>'' @ dt_title t @ ''</h1>'' @ nl @ ''<p class=\"lede\">''
         @ dt_intro t @ ''</p>'' @ nl @ ''<p>'' @ store_badge (dt_store_btn t) @ ''</p>'' @ nl
         @ ''<p class=\"muted prose\">'' @ dt_store_note t @ ''</p>'' @ nl @ ''</section>'' @ nl)"

definition downloads :: "fpu \<Rightarrow> lang \<Rightarrow> str \<Rightarrow> str option \<Rightarrow> artifact list \<Rightarrow> str \<times> str" where
  "downloads m l base version arts =
     (let t = dl_text_of l
      in (dt_title t, dl_head l version
          @ (if arts = [] then ''<section class=\"sec\"><p class=\"muted\">'' @ dt_none t @ ''</p></section>''
             else dl_section m base (dt_win t) (dt_win_note t) (dt_verify t) ''windows'' arts
               @ dl_section m base (dt_linux t) (dt_linux_note t) (dt_verify t) ''linux'' arts
               @ dl_section m base (dt_macos t) (dt_macos_note t) (dt_verify t) ''macos'' arts
               @ dl_section m base (dt_android t) (dt_android_note t) (dt_verify t) ''android'' arts
               @ dl_section m base (dt_deck t) (dt_deck_note t) (dt_verify t) ''streamdeck'' arts)))"

definition doc :: "str \<Rightarrow> str" where
  "doc body = ''<section class=\"sec hero\"><div class=\"prose\">'' @ body @ ''</div></section>''"

definition privacy :: "lang \<Rightarrow> str \<times> str" where
  "privacy l =
     (case l of
        En \<Rightarrow> (''Privacy'', doc PRIVACY_EN)
      | De \<Rightarrow> (''Datenschutz'', doc PRIVACY_DE)
      | It \<Rightarrow> (''Privacy'', doc PRIVACY_IT)
      | Es \<Rightarrow> (''Privacidad'', doc PRIVACY_ES)
      | Fr \<Rightarrow> (''Confidentialit'' @ eacute, doc PRIVACY_FR))"

definition legal :: "lang \<Rightarrow> str \<times> str" where
  "legal l =
     (case l of
        En \<Rightarrow> (''Legal notice'', doc LEGAL_EN)
      | De \<Rightarrow> (''Impressum'', doc LEGAL_DE)
      | It \<Rightarrow> (''Note legali'', doc LEGAL_IT)
      | Es \<Rightarrow> (''Aviso legal'', doc LEGAL_ES)
      | Fr \<Rightarrow> (''Mentions l'' @ eacute @ ''gales'', doc LEGAL_FR))"

definition license :: "lang \<Rightarrow> str \<times> str" where
  "license l =
     (let t = license_words l
      in (li_title t, doc (''<h1>'' @ li_intro t @ ''</h1>'' @ nl @ ''<p>subraum: <b>PolyForm Noncommercial License 1.0.0</b>.</p>''
         @ nl @ ''<h2>'' @ li_h t @ ''</h2>'' @ nl @ ''<ul><li>'' @ li_b1 t @ ''</li><li>'' @ li_b2 t @ ''</li><li>''
         @ li_b3 t @ ''</li><li>'' @ li_b4 t @ ''</li></ul>'' @ nl @ ''<h2>'' @ li_ch t @ ''</h2>'' @ nl @ ''<p>''
         @ li_ct t @ ''</p>'' @ nl @ ''<p>'' @ li_mail t
         @ '': <a href=\"mailto:commercialusage@raumdock.org\">commercialusage@raumdock.org</a></p>'' @ nl @ ''<p>''
         @ li_sumh t @ ''</p>'' @ nl @ ''<p><a class=\"dl\" href=\"'' @ GITHUB_URL @ ''/blob/main/LICENSE\">''
         @ li_full t @ ''</a></p>'' @ nl @ ''<p class=\"muted\">'' @ copyright @ '' head87x &amp; justcallmedeimos. ''
         @ li_foot t @ ''</p>'')))"

definition landing_body :: "lang \<Rightarrow> str \<Rightarrow> str \<Rightarrow> str" where
  "landing_body l base code =
     (let t = landing_words l
      in ''<section class=\"sec hero\">'' @ nl @ ''<p class=\"eyebrow\">'' @ lt_codelbl t @ ''</p>'' @ nl
         @ ''<p class=\"code\">'' @ code @ ''</p>'' @ nl @ ''<h1>subraum</h1>'' @ nl
         @ ''<p class=\"tagline\">encrypted communication</p>'' @ nl @ ''<p class=\"lede\">'' @ lt_intro t @ ''</p>''
         @ nl @ ''</section>'' @ nl @ nl @ ''<section class=\"sec\">'' @ nl @ ''<ol class=\"steps\">'' @ nl @ ''<li>''
         @ lt_step1 t @ ''</li>'' @ nl @ ''<li>'' @ lt_step2 t @ ''</li>'' @ nl @ ''</ol>'' @ nl
         @ ''<p><a class=\"dl store\" href=\"'' @ STORE_URL @ ''\">'' @ lt_store_btn t @ ''</a></p>'' @ nl
         @ ''<p><a class=\"dl\" href=\"'' @ base @ ''/download/\">'' @ lt_unsigned_btn t @ ''</a></p>'' @ nl
         @ ''<p class=\"muted prose\">'' @ lt_ss_note t @ ''</p>'' @ nl @ ''<p class=\"muted prose\">'' @ lt_foot t
         @ ''</p>'' @ nl @ ''</section>'')"

section \<open>The shell\<close>

definition HTML_CSP :: str where
  "HTML_CSP =
     ''<meta http-equiv=\"Content-Security-Policy\" content=\"default-src 'none'; img-src 'self' ''
     @ ''data:; style-src 'unsafe-inline'; font-src 'self'; base-uri 'none'; form-action 'none'\">''"

record assets =
  as_mark :: str
  as_logo :: bytes
  as_rdoc :: bytes
  as_rdoc_light :: bytes
  as_fonts :: "(str \<times> bytes) list"
  as_og_image :: bytes
  as_shots :: "bytes list"
  as_changelog :: str

definition footer :: "str \<Rightarrow> lang \<Rightarrow> str" where
  "footer base l =
     (let n = nav l; lc = lang_code l
      in ''<a href=\"'' @ base @ ''/get?lang='' @ lc @ ''\">'' @ n ! 0 @ ''</a><a href=\"/privacy?lang='' @ lc
         @ ''\">'' @ n ! 1 @ ''</a><a href=\"/legal?lang='' @ lc @ ''\">'' @ n ! 2 @ ''</a><a href=\"/license?lang=''
         @ lc @ ''\">'' @ n ! 3 @ ''</a><a href=\"/changelog?lang='' @ lc @ ''\">Changelog</a><a href=\"''
         @ GITHUB_URL @ ''\">GitHub</a><a class=\"rdoc\" href=\"'' @ RAUMDOCK_URL
         @ ''\" aria-label=\"RDOC\"><img class=\"on-dark\" src=\"/assets/rdoc.svg\" alt=\"RDOC\" width=\"150\" ''
         @ ''height=\"32\"><img class=\"on-light\" src=\"/assets/rdoc-light.svg\" alt=\"RDOC\" width=\"150\" ''
         @ ''height=\"32\"></a>'')"

definition page_shell :: "assets \<Rightarrow> env_vars \<Rightarrow> lang \<Rightarrow> ui \<Rightarrow> str \<Rightarrow> str \<Rightarrow> str \<Rightarrow> str" where
  "page_shell A env l u path title body =
     (let base = public_base env; lc = lang_code l; desc = meta_desc l; og_title = title @ '' | subraum'';
          og_image = base @ ''/assets/og-image.png''; og_url = base @ path
      in ''<!doctype html><html lang=\"'' @ lc @ ''\" data-ui=\"'' @ ui_code u @ ''\"><head><meta charset=\"utf-8\">''
         @ HTML_CSP @ ''<meta name=\"viewport\" content=\"width=device-width, initial-scale=1\"><title>'' @ title
         @ '' | subraum</title><meta name=\"description\" content=\"'' @ desc
         @ ''\"><meta property=\"og:type\" content=\"website\"><meta property=\"og:site_name\" ''
         @ ''content=\"subraum\"><meta property=\"og:title\" content=\"'' @ og_title
         @ ''\"><meta property=\"og:description\" content=\"'' @ desc @ ''\"><meta property=\"og:url\" content=\"''
         @ og_url @ ''\"><meta property=\"og:image\" content=\"'' @ og_image
         @ ''\"><meta property=\"og:image:width\" content=\"1200\"><meta property=\"og:image:height\" ''
         @ ''content=\"630\"><meta property=\"og:image:alt\" content=\"subraum\"><meta name=\"twitter:card\" ''
         @ ''content=\"summary_large_image\"><meta name=\"twitter:title\" content=\"'' @ og_title
         @ ''\"><meta name=\"twitter:description\" content=\"'' @ desc
         @ ''\"><meta name=\"twitter:image\" content=\"'' @ og_image
         @ ''\"><meta name=\"theme-color\" media=\"(prefers-color-scheme: dark)\" content=\"#121416\"><meta ''
         @ ''name=\"theme-color\" media=\"(prefers-color-scheme: light)\" content=\"#F2F2F0\"><link rel=\"icon\" ''
         @ ''href=\"/assets/logo.svg\">'' @ PAGE_CSS @ ''</head><body><header class=\"top\">'' @ as_mark A
         @ ''<a class=\"brand\" href=\"/?lang='' @ lc @ ''\">subraum</a>'' @ switcher path l u @ ''</header><main>''
         @ body @ ''</main><footer>'' @ footer base l @ ''</footer></body></html>'')"

section \<open>Routes\<close>

text \<open>What a request asks for, with the captured path segment.\<close>

datatype endpoint =
    EHome | EGet | EPrivacy | ELegal | ELicense | EChangelog | EWs | EHealthz
  | ELogo | ERdoc | ERdocLight | EFont str | EOgImage | EShot str
  | ECreate | EJoin str | ELanding str

text \<open>A route: whether it takes POST, its segments (\<open>None\<close> captures one that is not empty), and its handler.\<close>

definition routes :: "(bool \<times> str option list \<times> (str \<Rightarrow> endpoint)) list" where
  "routes =
     [(False, [Some []], \<lambda>_. EHome), (False, [Some ''get''], \<lambda>_. EGet), (False, [Some ''privacy''], \<lambda>_. EPrivacy),
      (False, [Some ''legal''], \<lambda>_. ELegal), (False, [Some ''license''], \<lambda>_. ELicense),
      (False, [Some ''changelog''], \<lambda>_. EChangelog), (False, [Some ''ws''], \<lambda>_. EWs), (False, [Some ''healthz''], \<lambda>_. EHealthz),
      (False, [Some ''assets'', Some ''logo.svg''], \<lambda>_. ELogo), (False, [Some ''assets'', Some ''rdoc.svg''], \<lambda>_. ERdoc),
      (False, [Some ''assets'', Some ''rdoc-light.svg''], \<lambda>_. ERdocLight),
      (False, [Some ''assets'', Some ''fonts'', None], EFont), (False, [Some ''assets'', Some ''og-image.png''], \<lambda>_. EOgImage),
      (False, [Some ''assets'', Some ''shot'', None], EShot), (True, [Some ''session''], \<lambda>_. ECreate),
      (True, [Some ''session'', None, Some ''join''], EJoin), (False, [Some ''j'', None], ELanding)]"

fun match_path :: "str option list \<Rightarrow> str list \<Rightarrow> str option" where
  "match_path [] [] = Some []"
| "match_path (Some t # ps) (s # ss) = (if s = t then match_path ps ss else None)"
| "match_path (None # ps) (s # ss) = (if s = [] then None else map_option (\<lambda>_. s) (match_path ps ss))"
| "match_path _ _ = None"

definition route_of :: "bool \<Rightarrow> str \<Rightarrow> endpoint option" where
  "route_of post path =
     (case path of
        [] \<Rightarrow> None
      | c # rest \<Rightarrow> if c \<noteq> CHR ''/'' then None
          else find_map (\<lambda>(p, pat, e). if p = post then map_option e (match_path pat (split_on (CHR ''/'') rest)) else None) routes)"

section \<open>Handlers\<close>

record visit =
  v_query :: "str option"
  v_accept :: "str option"
  v_cookie :: "str option"

definition show_page :: "assets \<Rightarrow> env_vars \<Rightarrow> visit \<Rightarrow> str \<Rightarrow> (lang \<Rightarrow> str \<times> str) \<Rightarrow> str option \<times> str" where
  "show_page A env v path content =
     (let l = lang_of (v_query v) (v_accept v); (u, chose) = ui_of (v_query v) (v_cookie v); (title, body) = content l
      in page env (page_shell A env l u path title body) chose u)"

definition home_page :: "assets \<Rightarrow> env_vars \<Rightarrow> visit \<Rightarrow> str option \<times> str" where
  "home_page A env v = show_page A env v ''/'' (\<lambda>l. home l (public_base env) (length (as_shots A)))"

definition privacy_page :: "assets \<Rightarrow> env_vars \<Rightarrow> visit \<Rightarrow> str option \<times> str" where
  "privacy_page A env v = show_page A env v ''/privacy'' privacy"

definition legal_page :: "assets \<Rightarrow> env_vars \<Rightarrow> visit \<Rightarrow> str option \<times> str" where
  "legal_page A env v = show_page A env v ''/legal'' legal"

definition license_page :: "assets \<Rightarrow> env_vars \<Rightarrow> visit \<Rightarrow> str option \<times> str" where
  "license_page A env v = show_page A env v ''/license'' license"

definition changelog_page :: "assets \<Rightarrow> env_vars \<Rightarrow> visit \<Rightarrow> str option \<times> str" where
  "changelog_page A env v =
     show_page A env v ''/changelog'' (\<lambda>l. (''Changelog'', doc (render_changelog (as_changelog A))))"

text \<open>\<open>json\<close> is the parser of serde\<open>_\<close>json, \<open>manifest\<close> the text of the manifest file, if it can be read.\<close>

definition downloads_page ::
  "fpu \<Rightarrow> (str \<Rightarrow> json option) \<Rightarrow> str option \<Rightarrow> assets \<Rightarrow> env_vars \<Rightarrow> visit \<Rightarrow> str option \<times> str" where
  "downloads_page m json manifest A env v =
     (let (version, arts) = parse_manifest json manifest
      in show_page A env v ''/get'' (\<lambda>l. downloads m l (public_base env) version arts))"

definition landing_page :: "assets \<Rightarrow> env_vars \<Rightarrow> visit \<Rightarrow> str \<Rightarrow> str option \<times> str" where
  "landing_page A env v raw =
     (let code = landing_code raw
      in show_page A env v (''/j/'' @ code) (\<lambda>l. (''subraum'', landing_body l (public_base env) code)))"

text \<open>An asset: status, content type, cache rule and body.\<close>

definition ASSET_CACHE :: str where "ASSET_CACHE = ''public, max-age=86400''"

definition svg_asset :: "bytes \<Rightarrow> str \<times> str \<times> bytes" where
  "svg_asset b = (''image/svg+xml'', ASSET_CACHE, b)"

definition og_image :: "assets \<Rightarrow> str \<times> str \<times> bytes" where
  "og_image A = (''image/png'', ASSET_CACHE, as_og_image A)"

end
