(* ===== verification/Pages_Props.thy ===== *)
theory Pages_Props
  imports Pages Web_Props
begin

text \<open>
  Properties of the pages: no value that comes with a request or with the download manifest changes
  the markup, and the links of the language and size switch lead to the page they promise.
\<close>

section \<open>Reading markup\<close>

text \<open>Where a reader of HTML stands: in text, in a tag, or in a quoted attribute value.\<close>

datatype zone = Text | Tag | Val

fun zstep :: "zone \<Rightarrow> char \<Rightarrow> zone" where
  "zstep Text c = (if c = CHR ''<'' then Tag else Text)"
| "zstep Tag c = (if c = CHR ''>'' then Text else if c = CHR 0x22 then Val else Tag)"
| "zstep Val c = (if c = CHR 0x22 then Tag else Val)"

fun zone_after :: "zone \<Rightarrow> str \<Rightarrow> zone" where
  "zone_after z [] = z"
| "zone_after z (c # cs) = zone_after (zstep z c) cs"

text \<open>The markup: everything but text and attribute values.\<close>

fun marks :: "zone \<Rightarrow> str \<Rightarrow> str" where
  "marks z [] = []"
| "marks z (c # cs) = (if z = Tag \<or> zstep z c = Tag then [c] else []) @ marks (zstep z c) cs"

definition markup :: "str \<Rightarrow> str" where
  "markup s = marks Text s"

lemma zone_append [simp]: "zone_after z (a @ b) = zone_after (zone_after z a) b"
  by (induction a arbitrary: z) simp_all

lemma marks_append [simp]: "marks z (a @ b) = marks z a @ marks (zone_after z a) b"
  by (induction a arbitrary: z) simp_all

definition plain :: "str \<Rightarrow> bool" where
  "plain s \<longleftrightarrow> (\<forall>c \<in> set s. c \<noteq> CHR ''<'' \<and> c \<noteq> CHR ''>'' \<and> c \<noteq> CHR 0x22)"

lemma plain_simps [simp]: "plain []" "plain (c # s) \<longleftrightarrow> c \<noteq> CHR ''<'' \<and> c \<noteq> CHR ''>'' \<and> c \<noteq> CHR 0x22 \<and> plain s"
  "plain (a @ b) \<longleftrightarrow> plain a \<and> plain b"
  by (auto simp: plain_def)

lemma plain_quiet: "plain s \<Longrightarrow> z \<noteq> Tag \<Longrightarrow> zone_after z s = z \<and> marks z s = []"
  by (induction s; cases z) (auto simp: plain_def)

text \<open>A text without an opening bracket stays text.\<close>

lemma text_quiet: "CHR ''<'' \<notin> set s \<Longrightarrow> zone_after Text s = Text \<and> marks Text s = []"
  by (induction s) auto

text \<open>Two texts are alike where a reader in zone \<open>z\<close> ends in the same zone having seen the same markup.\<close>

definition alike :: "zone \<Rightarrow> str \<Rightarrow> str \<Rightarrow> bool" where
  "alike z s t \<longleftrightarrow> zone_after z s = zone_after z t \<and> marks z s = marks z t"

lemma alike_refl [simp]: "alike z s s"
  by (simp add: alike_def)

lemma alike_const: "alike z (a @ b) (a @ b') \<longleftrightarrow> alike (zone_after z a) b b'"
  by (simp add: alike_def)

lemma alike_app: "alike z a a' \<Longrightarrow> alike (zone_after z a) b b' \<Longrightarrow> alike z (a @ b) (a' @ b')"
  by (simp add: alike_def)

lemma alike_plain: "plain a \<Longrightarrow> plain a' \<Longrightarrow> z \<noteq> Tag \<Longrightarrow> alike z (a @ b) (a' @ b') \<longleftrightarrow> alike z b b'"
  using plain_quiet [of a z] plain_quiet [of a' z] by (simp add: alike_def)

lemma alike_plain_end: "plain a \<Longrightarrow> plain a' \<Longrightarrow> z \<noteq> Tag \<Longrightarrow> alike z a a'"
  using alike_plain [of a a' z "[]" "[]"] by simp

section \<open>What is plain\<close>

lemma plain_landing: "plain (landing_code code)"
  using conjunct1 [OF landing_code_safe, of code] unfolding plain_def by blast

lemma plain_dl_esc: "plain (dl_esc s)"
proof (induction s)
  case (Cons c s)
  have "dl_esc ([c] @ s) = dl_esc [c] @ dl_esc s" by (simp only: dl_esc_def md_esc_def replace_c_append)
  moreover have "plain (dl_esc [c])" by (simp add: dl_esc_def md_esc_def replace_c_def)
  ultimately show ?case using Cons by simp
qed (simp add: dl_esc_def md_esc_def replace_c_def)

lemma plain_show_nat: "plain (show_nat n)"
  by (auto simp: plain_def dest!: show_nat_digits)

lemma plain_decimals: "plain (show_decimals d x)"
proof -
  have "plain (replicate n (CHR ''0''))" for n by (simp add: plain_def)
  then show ?thesis by (cases x) (simp_all add: plain_show_nat Let_def)
qed

lemma plain_size: "plain (human_size m n)"
  by (simp add: human_size_def plain_decimals Let_def)

section \<open>Rows of downloads\<close>

lemmas pieces = alike_const alike_plain alike_plain_end

lemma row_alike:
  assumes "plain base" and "CHR ''<'' \<notin> set verify"
  shows "alike Text (dl_row m base verify a) (dl_row m base verify b) \<and> zone_after Text (dl_row m base verify a) = Text"
  unfolding dl_row_def
  using plain_quiet [OF assms(1)] text_quiet [OF assms(2)] plain_quiet [OF plain_dl_esc] plain_quiet [OF plain_size]
  by (simp add: pieces plain_dl_esc plain_size del: append_Cons append_Nil append_assoc)

lemma rows_alike:
  assumes "plain base" and "CHR ''<'' \<notin> set verify" and "length as = length bs"
  shows "alike Text (concat (map (dl_row m base verify) as)) (concat (map (dl_row m base verify) bs))
    \<and> zone_after Text (concat (map (dl_row m base verify) as)) = Text"
  using assms(3)
proof (induction as bs rule: list_induct2)
  case (Cons a as b bs)
  with row_alike [OF assms(1,2), of m a b] show ?case by (auto intro: alike_app)
qed simp

lemma same_platforms:
  "map ar_platform as = map ar_platform bs \<Longrightarrow>
   length (filter (\<lambda>a. ar_platform a = p) as) = length (filter (\<lambda>a. ar_platform a = p) bs)"
proof (induction as arbitrary: bs)
  case (Cons a as)
  then show ?case by (cases bs) auto
qed simp

lemma row_nonempty [simp]: "dl_row m base verify a \<noteq> []"
  by (simp add: dl_row_def)

lemma section_alike:
  assumes "plain base" and "CHR ''<'' \<notin> set verify" and "CHR ''<'' \<notin> set head" and "CHR ''<'' \<notin> set note"
    and "map ar_platform as = map ar_platform bs"
  shows "alike Text (dl_section m base head note verify p as) (dl_section m base head note verify p bs)
    \<and> zone_after Text (dl_section m base head note verify p as) = Text"
proof -
  have r: "alike Text (dl_rows m base verify p as) (dl_rows m base verify p bs)" "zone_after Text (dl_rows m base verify p as) = Text"
    using rows_alike [OF assms(1,2) same_platforms [OF assms(5), of p], of m] by (simp_all add: dl_rows_def)
  have k: "dl_rows m base verify p xs = [] \<longleftrightarrow> length (filter (\<lambda>a. ar_platform a = p) xs) = 0" for xs
    by (cases "filter (\<lambda>a. ar_platform a = p) xs") (simp_all add: dl_rows_def)
  have e: "dl_rows m base verify p as = [] \<longleftrightarrow> dl_rows m base verify p bs = []"
    unfolding k same_platforms [OF assms(5), of p] ..
  have z: "alike Text (dl_rows m base verify p as @ t) (dl_rows m base verify p bs @ t)" for t
    using r(1) by (rule alike_app) simp
  show ?thesis
    using e z r(2) text_quiet [OF assms(3)] text_quiet [OF assms(4)]
    by (simp add: dl_section_def Let_def alike_const del: append_Cons append_Nil append_assoc)
qed

section \<open>The texts themselves\<close>

lemma plain_codes [simp]: "plain (lang_code l)" "plain (ui_code u)"
  by (cases l; simp) (cases u; simp)

lemma plain_desc: "plain (meta_desc l)"
  by (cases l) (simp_all add: meta_desc_def)

lemma plain_aria: "plain (ui_aria l)"
  by (cases l) (simp_all add: ui_aria_def)

lemma plain_ui_title: "plain (ui_title l u)"
  by (cases l; cases u) (simp_all add: ui_title_def)

lemma codelbl_text: "zone_after Text (lt_codelbl (landing_words l)) = Text"
  by (cases l) (simp_all add: landing_words_def)

definition dl_words_text :: "dl_text \<Rightarrow> bool" where
  "dl_words_text t \<longleftrightarrow> plain (dt_title t) \<and> list_all (\<lambda>s. CHR ''<'' \<notin> set s)
     [dt_intro t, dt_store_btn t, dt_store_note t, dt_win t, dt_win_note t, dt_linux t, dt_linux_note t, dt_android t,
      dt_android_note t, dt_macos t, dt_macos_note t, dt_deck t, dt_deck_note t, dt_verify t, dt_none t]"

lemma dl_words_en: "dl_words_text (dl_text_of En)" by (simp add: dl_words_text_def dl_text_of_def)
lemma dl_words_de: "dl_words_text (dl_text_of De)" by (simp add: dl_words_text_def dl_text_of_def)
lemma dl_words_it: "dl_words_text (dl_text_of It)" by (simp add: dl_words_text_def dl_text_of_def)
lemma dl_words_es: "dl_words_text (dl_text_of Es)" by (simp add: dl_words_text_def dl_text_of_def)
lemma dl_words_fr: "dl_words_text (dl_text_of Fr)" by (simp add: dl_words_text_def dl_text_of_def)

lemma dl_words: "dl_words_text (dl_text_of l)"
  by (cases l) (simp_all only: dl_words_en dl_words_de dl_words_it dl_words_es dl_words_fr)

lemma css_frame: "zone_after Text PAGE_CSS_frame = Text"
  by (simp add: PAGE_CSS_frame_def del: zone_append)

lemma css_parts: "zone_after Text PAGE_CSS_parts = Text"
  by (simp add: PAGE_CSS_parts_def del: zone_append)

lemma shell_constants: "zone_after Text HTML_CSP = Text" "zone_after Text PAGE_CSS = Text"
  by (simp_all add: HTML_CSP_def PAGE_CSS_def css_frame css_parts)

section \<open>The shell keeps the shape of its body\<close>

lemmas quiet_texts = plain_codes [THEN plain_quiet] plain_desc [THEN plain_quiet] plain_aria [THEN plain_quiet]
  plain_ui_title [THEN plain_quiet]

lemma lang_link_alike:
  assumes "plain p" and "plain q"
  shows "alike Text (lang_link p cur u l) (lang_link q cur u l) \<and> zone_after Text (lang_link p cur u l) = Text"
proof -
  have up: "plain (ascii_upper (lang_code l))" by (cases l; hypsubst; code_simp)
  show ?thesis
    unfolding lang_link_def
    using assms plain_quiet [OF assms(1)] plain_quiet [OF up]
    by (simp add: pieces quiet_texts del: append_Cons append_Nil append_assoc)
qed

lemma size_link_alike:
  assumes "plain p" and "plain q"
  shows "alike Text (size_link p cur u v) (size_link q cur u v) \<and> zone_after Text (size_link p cur u v) = Text"
  unfolding size_link_def
  using assms plain_quiet [OF assms(1)]
  by (simp add: pieces quiet_texts del: append_Cons append_Nil append_assoc)

lemma alike_concat:
  assumes "\<And>x. alike Text (f x) (g x) \<and> zone_after Text (f x) = Text"
  shows "alike Text (concat (map f xs)) (concat (map g xs)) \<and> zone_after Text (concat (map f xs)) = Text"
proof (induction xs)
  case (Cons x xs)
  with assms [of x] show ?case by (auto intro: alike_app)
qed simp

lemma switcher_alike:
  assumes "plain p" and "plain q"
  shows "alike Text (switcher p cur u) (switcher q cur u) \<and> zone_after Text (switcher p cur u) = Text"
proof -
  note lk = alike_concat [of "lang_link p cur u" "lang_link q cur u", OF lang_link_alike [OF assms]]
  note sk = alike_concat [of "size_link p cur u" "size_link q cur u", OF size_link_alike [OF assms]]
  define a b c d where abcd: "a = concat (map (lang_link p cur u) [En, De, It, Es, Fr])" "b = concat (map (lang_link q cur u) [En, De, It, Es, Fr])"
    "c = concat (map (size_link p cur u) [Normal, Large, Larger])" "d = concat (map (size_link q cur u) [Normal, Large, Larger])"
  have la: "alike Text a b" "zone_after Text a = Text" and sa: "alike Text c d" "zone_after Text c = Text"
    using lk sk unfolding abcd by blast+
  have sw: "alike Text (c @ t) (d @ t)" for t
    using sa(1) by (rule alike_app) simp
  have lw: "alike Text (a @ s) (b @ t)" if "alike Text s t" for s t
    using la(1) by (rule alike_app) (simp add: la(2) that)
  show ?thesis
    unfolding switcher_def abcd [symmetric]
    by (simp add: pieces lw sw la(2) sa(2) quiet_texts plain_aria del: append_Cons append_Nil append_assoc)
qed

lemma shell_alike:
  assumes "plain (public_base env)" and "zone_after Text (as_mark A) = Text" and "plain p" and "plain q" and "plain title"
    and body: "alike Text s t"
  shows "alike Text (page_shell A env l u p title s) (page_shell A env l u q title t)"
proof -
  have b: "alike Text (s @ w) (t @ w)" for w
    using body by (rule alike_app) simp
  have sw: "alike Text (switcher p l u @ v) (switcher q l u @ w)" if "alike Text v w" for v w
    using conjunct1 [OF switcher_alike [OF assms(3,4)]] that by (auto intro: alike_app simp: switcher_alike [OF assms(3,4)])
  show ?thesis
    unfolding page_shell_def Let_def
    by (simp add: pieces assms shell_constants b sw quiet_texts plain_quiet
          del: append_Cons append_Nil append_assoc)
qed

section \<open>Pages keep their shape\<close>

lemma landing_body_alike:
  assumes "plain c" and "plain d"
  shows "alike Text (landing_body l base c) (landing_body l base d)"
  unfolding landing_body_def
  using assms by (simp add: Let_def pieces codelbl_text del: append_Cons append_Nil append_assoc)

lemma snd_show_page:
  "snd (show_page A env v p f) =
    page_shell A env (lang_of (v_query v) (v_accept v)) (fst (ui_of (v_query v) (v_cookie v))) p
      (fst (f (lang_of (v_query v) (v_accept v)))) (snd (f (lang_of (v_query v) (v_accept v))))"
  by (simp add: show_page_def page_def Let_def case_prod_beta)

lemma shown_alike:
  assumes "plain (public_base env)" and "zone_after Text (as_mark A) = Text" and "plain p" and "plain q"
    and f: "\<And>l. fst (g l) = fst (f l)" "\<And>l. plain (fst (f l))" "\<And>l. alike Text (snd (f l)) (snd (g l))"
  shows "markup (snd (show_page A env v p f)) = markup (snd (show_page A env v q g))"
  unfolding snd_show_page f(1) markup_def
  by (rule conjunct2 [OF shell_alike [OF assms(1-4) f(2) f(3), unfolded alike_def]])

text \<open>Claim C32. Whatever text a visitor puts into a share link, the page shown for it has the same
  markup: the code cannot close a tag or an attribute and so brings no script, image or link into
  the page.  The base address and the logo compiled in must not themselves break out of their place.
\<close>

theorem landing_keeps_shape:
  assumes "plain (public_base env)" and "zone_after Text (as_mark A) = Text"
  shows "markup (snd (landing_page A env v raw)) = markup (snd (landing_page A env v raw'))"
proof -
  have "plain (''/j/'' @ landing_code r)" for r by (simp add: plain_landing)
  then show ?thesis
    unfolding landing_page_def Let_def
    by (intro shown_alike assms) (simp_all add: landing_body_alike plain_landing)
qed

lemma same_sections:
  assumes "plain base" and "map ar_platform as = map ar_platform bs"
  shows "alike Text (snd (downloads m l base ver as)) (snd (downloads m l base ver' bs))"
proof -
  let ?t = "dl_text_of l"
  have w: "CHR ''<'' \<notin> set (dt_title ?t)" and
    ws: "list_all (\<lambda>s. CHR ''<'' \<notin> set s) [dt_intro ?t, dt_store_btn ?t, dt_store_note ?t, dt_win ?t, dt_win_note ?t, dt_linux ?t,
      dt_linux_note ?t, dt_android ?t, dt_android_note ?t, dt_macos ?t, dt_macos_note ?t, dt_deck ?t, dt_deck_note ?t,
      dt_verify ?t, dt_none ?t]"
    using dl_words [of l] by (auto simp: dl_words_text_def plain_def)
  have ver: "plain (case v of Some v \<Rightarrow> ''v'' @ dl_esc v | None \<Rightarrow> ''n/a'')" for v
    by (cases v) (simp_all add: plain_dl_esc)
  have head: "alike Text (dl_head l ver) (dl_head l ver') \<and> zone_after Text (dl_head l ver) = Text"
    unfolding dl_head_def Let_def store_badge_def STORE_URL_def
    using ws text_quiet [OF w] plain_quiet [OF ver]
    by (simp add: pieces ver text_quiet del: append_Cons append_Nil append_assoc)
  have e: "as = [] \<longleftrightarrow> bs = []" using assms(2) by auto
  have s: "alike Text (dl_section m base h n (dt_verify ?t) p as @ v) (dl_section m base h n (dt_verify ?t) p bs @ w)"
    if "CHR ''<'' \<notin> set h" and "CHR ''<'' \<notin> set n" and "alike Text v w" for h n p v w
    using section_alike [OF assms(1) _ that(1,2) assms(2), of "dt_verify ?t" m p] ws that(3)
    by (auto intro: alike_app)
  have z: "alike Text (dl_section m base h n (dt_verify ?t) p as) (dl_section m base h n (dt_verify ?t) p bs)"
    if "CHR ''<'' \<notin> set h" and "CHR ''<'' \<notin> set n" for h n p
    using s [OF that, of "[]" "[]" p] by simp
  show ?thesis
    unfolding downloads_def Let_def snd_conv
    by (rule alike_app) (use head ws e in \<open>auto intro!: s z\<close>)
qed

text \<open>Two download manifests that list builds for the same platforms give pages with the same
  markup: no name, size, checksum or version of a manifest adds an element to the page.
\<close>

theorem downloads_keep_shape:
  assumes "plain (public_base env)" and "zone_after Text (as_mark A) = Text"
    and "map ar_platform (snd (parse_manifest json file1)) = map ar_platform (snd (parse_manifest json file2))"
  shows "markup (snd (downloads_page m json file1 A env v)) = markup (snd (downloads_page m json file2 A env v))"
proof -
  have "plain (dt_title (dl_text_of l))" for l using dl_words [of l] by (simp add: dl_words_text_def)
  moreover have "fst (downloads m l b ver as) = dt_title (dl_text_of l)" for l b ver as by (simp add: downloads_def Let_def)
  ultimately show ?thesis
    unfolding downloads_page_def case_prod_beta Let_def
    by (intro shown_alike assms) (simp_all add: same_sections [OF assms(1,3)])
qed

text \<open>A server without settings, its logo reduced to an empty drawing.\<close>

definition demo_assets :: assets where
  "demo_assets = \<lparr>as_mark = ''<svg class=\"mark\"></svg>'', as_logo = [], as_rdoc = [], as_rdoc_light = [], as_fonts = [],
     as_og_image = [], as_shots = [], as_changelog = []\<rparr>"

definition demo_visit :: visit where
  "demo_visit = \<lparr>v_query = Some ''lang=de&ui=lg'', v_accept = None, v_cookie = None\<rparr>"

lemma demo_page: "plain (public_base Map.empty)" "zone_after Text (as_mark demo_assets) = Text"
  by (simp_all add: public_base_def demo_assets_def)

theorem landing_keeps_shape_witness:
  "markup (snd (landing_page demo_assets Map.empty demo_visit ''\"><script>alert(1)</script>''))
     = markup (snd (landing_page demo_assets Map.empty demo_visit ''ABCDEF''))"
  by (rule landing_keeps_shape [OF demo_page])

text \<open>Manifests of one Windows build of a given file name.\<close>

definition demo_manifest :: "str \<Rightarrow> json option" where
  "demo_manifest s = Some (JObj [(''version'', JStr ''1''), (''artifacts'', JArr
     [JObj [(''file'', JStr s), (''platform'', JStr ''windows''), (''sha256'', JStr ''00''), (''size'', JInt 1)]])])"

theorem downloads_keep_shape_witness:
  "markup (snd (downloads_page exact_fpu demo_manifest (Some ''<img src=x>'') demo_assets Map.empty demo_visit))
     = markup (snd (downloads_page exact_fpu demo_manifest (Some ''subraum.msi'') demo_assets Map.empty demo_visit))"
  by (rule downloads_keep_shape [OF demo_page])
    (simp add: parse_manifest_def demo_manifest_def artifact_of_def str_member_def jget_def as_str_def List.map_filter_simps)

end
