(* ===== verification/Page_Links.thy ===== *)
theory Page_Links
  imports Pages_Props
begin

text \<open>
  Properties of the pages' links: where a browser goes from the language switch, the size switch
  and the footer, and which page and language it gets there.
\<close>

section \<open>Reading links\<close>

text \<open>
  A reader of HTML that collects the values of \<open>href\<close>: where it stands, the word of the tag it is
  in (reversed), the value it is in (reversed), and the links so far.
\<close>

type_synonym reader = "zone \<times> str \<times> str \<times> str list"

fun rstep :: "reader \<Rightarrow> char \<Rightarrow> reader" where
  "rstep (z, w, v, hs) c =
     (zstep z c,
      (if z = Text then [] else if z = Tag then (if c = CHR '' '' \<or> c = CHR ''>'' then [] else if c = CHR 0x22 then w else c # w) else if c = CHR 0x22 then [] else w),
      (if z = Val \<and> c \<noteq> CHR 0x22 then c # v else []),
      (if z = Val \<and> c = CHR 0x22 \<and> w = rev ''href='' then hs @ [rev v] else hs))"

fun reading :: "reader \<Rightarrow> str \<Rightarrow> reader" where
  "reading r [] = r"
| "reading r (c # s) = reading (rstep r c) s"

definition hrefs :: "str \<Rightarrow> str list" where
  "hrefs s = (case reading (Text, [], [], []) s of (_, _, _, hs) \<Rightarrow> hs)"

lemma reading_append: "reading r (a @ b) = reading (reading r a) b"
  by (induction a arbitrary: r) simp_all

lemma reading_value: "plain s \<Longrightarrow> reading (Val, w, v, hs) s = (Val, w, rev s @ v, hs)"
  by (induction s arbitrary: v) simp_all

lemma reading_text: "CHR ''<'' \<notin> set s \<Longrightarrow> reading (Text, [], [], hs) s = (Text, [], [], hs)"
  by (induction s) auto

text \<open>
  A piece that starts and ends in text and holds the links \<open>ks\<close>.
\<close>

definition links :: "str \<Rightarrow> str list \<Rightarrow> bool" where
  "links s ks \<longleftrightarrow> (\<forall>hs. reading (Text, [], [], hs) s = (Text, [], [], hs @ ks))"

lemma links_hrefs: "links s ks \<Longrightarrow> hrefs s = ks"
  by (simp add: links_def hrefs_def)

lemma links_append: "links a ks \<Longrightarrow> links b js \<Longrightarrow> links (a @ b) (ks @ js)"
  by (simp add: links_def reading_append)

lemma links_concat: "(\<And>x. links (f x) [g x]) \<Longrightarrow> links (concat (map f xs)) (map g xs)"
  by (induction xs) (simp_all add: links_def reading_append)

section \<open>The links of the switches\<close>

definition choice :: "str \<Rightarrow> lang \<Rightarrow> ui \<Rightarrow> str" where
  "choice path l u = path @ ''?lang='' @ lang_code l @ ''&amp;ui='' @ ui_code u"

lemmas reading_simps = reading_append reading_value reading_text links_def

lemma lang_link_links:
  assumes "plain p"
  shows "links (lang_link p cur u l) [choice p l u]"
proof -
  have up: "CHR ''<'' \<notin> set (ascii_upper (lang_code k))" for k by (cases k; hypsubst; code_simp)
  show ?thesis
    unfolding lang_link_def choice_def
    by (simp add: reading_simps assms up)
qed

lemma size_link_links:
  assumes "plain p"
  shows "links (size_link p cur u v) [choice p cur v]"
  unfolding size_link_def choice_def
  using plain_ui_title [of cur v] by (simp add: reading_simps assms)

lemma switcher_links:
  assumes "plain p"
  shows "hrefs (switcher p cur u) = map (\<lambda>l. choice p l u) [En, De, It, Es, Fr] @ map (choice p cur) [Normal, Large, Larger]"
proof -
  have "links (concat (map (lang_link p cur u) ls)) (map (\<lambda>l. choice p l u) ls)" for ls
    by (intro links_concat lang_link_links assms)
  moreover have "links (concat (map (size_link p cur u) vs)) (map (choice p cur) vs)" for vs
    by (intro links_concat size_link_links assms)
  ultimately have "links (switcher p cur u) (map (\<lambda>l. choice p l u) [En, De, It, Es, Fr] @ map (choice p cur) [Normal, Large, Larger])"
    using plain_aria [of cur] unfolding switcher_def by (simp add: reading_simps del: concat.simps list.map)
  then show ?thesis by (rule links_hrefs)
qed

section \<open>The links of the footer\<close>

lemma footer_links:
  assumes "plain base"
  shows "hrefs (footer base l) = (base @ ''/get?lang='' @ lang_code l) # map (\<lambda>p. p @ ''?lang='' @ lang_code l)
      [''/privacy'', ''/legal'', ''/license'', ''/changelog''] @ [GITHUB_URL, RAUMDOCK_URL]"
proof -
  have n: "CHR ''<'' \<notin> set (nav l ! i)" if "i < 4" for i
    using that by (cases l) (auto simp: nav_def less_Suc_eq numeral_eq_Suc)
  have "links (footer base l) ((base @ ''/get?lang='' @ lang_code l) # map (\<lambda>p. p @ ''?lang='' @ lang_code l)
      [''/privacy'', ''/legal'', ''/license'', ''/changelog''] @ [GITHUB_URL, RAUMDOCK_URL])"
    unfolding footer_def Let_def GITHUB_URL_def RAUMDOCK_URL_def
    using n [of 0] n [of 1] n [of 2] n [of 3] by (simp add: reading_simps assms del: nth_Cons_0 nth_Cons_Suc)
  then show ?thesis by (rule links_hrefs)
qed

section \<open>Following a link\<close>

text \<open>
  A browser decodes the entities of the value, asks for the path and sends the query, with the
  languages it accepts and the cookies it holds; the server routes the path and reads the query.
\<close>

definition follow :: "str option \<Rightarrow> str option \<Rightarrow> str \<Rightarrow> (str \<times> lang \<times> ui) option" where
  "follow accept cookie h =
     map_option (\<lambda>(path, q). (path, lang_of (Some q) accept, fst (ui_of (Some q) cookie))) (split_once ''?'' (unesc h))"

lemma unesc_plain: "CHR ''&'' \<notin> set s \<Longrightarrow> unesc (s @ t) = s @ unesc t"
  by (induction s) (simp, subst unesc.simps, auto simp: entity_plain)

lemma unesc_amp: "unesc (''&amp;'' @ t) = CHR ''&'' # unesc t"
  using entity_esc1 [of "CHR ''&''" t] by (subst unesc.simps) (simp add: esc1_def)

lemma split_once_char: "c \<notin> set p \<Longrightarrow> split_once [c] (p @ c # q) = Some (p, q)"
  by (induction p) auto

lemma code_chars: "CHR ''&'' \<notin> set (lang_code l)" "CHR ''&'' \<notin> set (ui_code u)"
  by (cases l; simp) (cases u; simp)

lemma read_args:
  "query_arg ''lang='' (Some (''lang='' @ lang_code l @ ''&ui='' @ ui_code u)) = Some (lang_code l)"
  "query_arg ''ui='' (Some (''lang='' @ lang_code l @ ''&ui='' @ ui_code u)) = Some (ui_code u)"
  "query_arg ''lang='' (Some (''lang='' @ lang_code l)) = Some (lang_code l)"
  "query_arg ''ui='' (Some (''lang='' @ lang_code l)) = None"
  by (cases l; cases u; hypsubst; code_simp)+

lemma code_back: "lang_parse (lang_code l) = Some l" "ui_parse (ui_code u) = Some u"
  by (cases l; hypsubst; code_simp) (cases u; hypsubst; code_simp)

lemma unesc_tail: "unesc s = s" if "CHR ''&'' \<notin> set s"
  using unesc_plain [OF that, of "[]"] by (subst (asm) (2) unesc.simps) (simp add: entity_Nil)

lemma follow_choice:
  assumes "CHR ''&'' \<notin> set p" and "CHR ''?'' \<notin> set p"
  shows "follow accept cookie (choice p l u) = Some (p, l, u)"
proof -
  have "CHR ''&'' \<notin> set (p @ ''?lang='' @ lang_code l)" "CHR ''&'' \<notin> set (''ui='' @ ui_code u)"
    using assms(1) code_chars by simp_all
  then have "unesc (choice p l u) = p @ CHR ''?'' # ''lang='' @ lang_code l @ ''&ui='' @ ui_code u"
    using unesc_plain [of "p @ ''?lang='' @ lang_code l" "''&amp;'' @ ''ui='' @ ui_code u"]
      unesc_amp [of "''ui='' @ ui_code u"] unesc_tail [of "''ui='' @ ui_code u"]
    by (simp add: choice_def)
  then show ?thesis
    using read_args(1,2) [of l u]
    by (simp add: follow_def split_once_char [OF assms(2)] lang_of_def lang_detect_def ui_of_def ui_detect_def code_back
        del: append_Cons)
qed

lemma follow_path:
  assumes "CHR ''&'' \<notin> set p" and "CHR ''?'' \<notin> set p"
  shows "follow accept cookie (p @ ''?lang='' @ lang_code l) = Some (p, l, fst (ui_of None cookie))"
proof -
  have "unesc (p @ ''?lang='' @ lang_code l) = p @ CHR ''?'' # ''lang='' @ lang_code l"
    using unesc_tail [of "p @ ''?lang='' @ lang_code l"] assms(1) code_chars by simp
  moreover have "query_arg ''ui='' None = None" by (simp add: query_arg_def)
  ultimately show ?thesis
    using read_args(3,4) [of l]
    by (simp add: follow_def split_once_char [OF assms(2)] lang_of_def lang_detect_def ui_of_def Let_def code_back
        del: append_Cons)
qed

lemma followed_switch:
  assumes "plain path" and "CHR ''&'' \<notin> set path" and "CHR ''?'' \<notin> set path"
  shows "map (follow accept cookie) (hrefs (switcher path cur u))
    = map (\<lambda>l. Some (path, l, u)) [En, De, It, Es, Fr] @ map (\<lambda>v. Some (path, cur, v)) [Normal, Large, Larger]"
  using follow_choice [OF assms(2,3)] by (simp add: switcher_links [OF assms(1)])

lemma followed_footer:
  assumes "plain base"
  shows "map (\<lambda>h. map_option (apfst (route_of False)) (follow accept cookie h))
         (drop (length base) (hd (hrefs (footer base l))) # take 4 (tl (hrefs (footer base l))))
       = map (\<lambda>e. Some (Some e, l, fst (ui_of None cookie))) [EGet, EPrivacy, ELegal, ELicense, EChangelog]"
proof -
  have f: "follow accept cookie (p @ ''?lang='' @ lang_code l) = Some (p, l, fst (ui_of None cookie))"
    if "p \<in> set [''/get'', ''/privacy'', ''/legal'', ''/license'', ''/changelog'']" for p
    using that by (intro follow_path) auto
  have r: "route_of False ''/get'' = Some EGet" "route_of False ''/privacy'' = Some EPrivacy" "route_of False ''/legal'' = Some ELegal"
    "route_of False ''/license'' = Some ELicense" "route_of False ''/changelog'' = Some EChangelog"
    by code_simp+
  show ?thesis
    using f [of "''/get''"] f [of "''/privacy''"] f [of "''/legal''"] f [of "''/license''"] f [of "''/changelog''"]
    by (simp add: footer_links [OF assms] r)
qed



end
